(* ===== verification/Prelude.thy ===== *)
theory Prelude
  imports Main "HOL-Library.Word" "HOL-Library.Sublist" "HOL-Library.Signed_Division"
begin

text \<open>
  Shared vocabulary of the development: the Go types the program uses (64-bit integers as words,
  strings as byte lists), the functions of the Go packages \<^verbatim>\<open>strings\<close> and
  \<^verbatim>\<open>strconv\<close> that the sources call, the collections of facts the component theories
  extend, and the generic lemmas on them.

  A Go string is a sequence of bytes; it is a \<^typ>\<open>string\<close> here, one \<^typ>\<open>char\<close> per
  byte. \<^verbatim>\<open>int\<close>, \<^verbatim>\<open>int64\<close> and \<^verbatim>\<open>uint64\<close> are 64 bit wide (the
  program is built for 64-bit targets): a \<^verbatim>\<open>64 word\<close>, read with \<^verbatim>\<open>sint\<close> or
  \<^verbatim>\<open>unat\<close>, where its width matters, and a mathematical integer where it indexes a slice.
\<close>

named_theorems go_simps \<open>unfolding rules for the modelled Go library functions\<close>
named_theorems model_defs \<open>definitions of the operations of a component\<close>

type_synonym i64 = "64 word"
type_synonym u64 = "64 word"
type_synonym u32 = "32 word"

section \<open>Lists\<close>

fun chunksOf :: "nat \<Rightarrow> 'a list \<Rightarrow> 'a list list" where
  "chunksOf n [] = []"
| "chunksOf 0 (x # xs) = [x # xs]"
| "chunksOf (Suc n) (x # xs) = take (Suc n) (x # xs) # chunksOf (Suc n) (drop n xs)"

text \<open>The loop \<^verbatim>\<open>for start := 0; start < len(xs); start += chunkSize\<close>: consecutive slices.\<close>

lemma concat_chunksOf [simp]: "concat (chunksOf n xs) = xs"
  by (induction n xs rule: chunksOf.induct) auto

lemma chunksOf_length: "c \<in> set (chunksOf (Suc n) xs) \<Longrightarrow> length c \<le> Suc n"
  by (induction "Suc n" xs rule: chunksOf.induct) auto

lemma chunksOf_nonempty: "c \<in> set (chunksOf n xs) \<Longrightarrow> c \<noteq> []"
  by (induction n xs rule: chunksOf.induct) auto

lemma concat_map_filter: "(\<And>t. \<not> P t \<Longrightarrow> F t = []) \<Longrightarrow> concat (map F (filter P ts)) = concat (map F ts)"
  by (induction ts) auto

section \<open>Package strings\<close>

definition strings_HasPrefix :: "string \<Rightarrow> string \<Rightarrow> bool" where
  "strings_HasPrefix s p \<longleftrightarrow> take (length p) s = p"

definition strings_HasSuffix :: "string \<Rightarrow> string \<Rightarrow> bool" where
  "strings_HasSuffix s p \<longleftrightarrow> length p \<le> length s \<and> drop (length s - length p) s = p"

fun strings_Contains :: "string \<Rightarrow> string \<Rightarrow> bool" where
  "strings_Contains [] sub \<longleftrightarrow> sub = []"
| "strings_Contains (c # s) sub \<longleftrightarrow> strings_HasPrefix (c # s) sub \<or> strings_Contains s sub"

fun strings_SplitChar :: "char \<Rightarrow> string \<Rightarrow> string list" where
  "strings_SplitChar d [] = [[]]"
| "strings_SplitChar d (c # s) =
     (if c = d then [] # strings_SplitChar d s
      else (case strings_SplitChar d s of [] \<Rightarrow> [[c]] | p # ps \<Rightarrow> (c # p) # ps))"

text \<open>\<^verbatim>\<open>strings.SplitN(s, sep, n)\<close> for a one-byte separator and positive \<^verbatim>\<open>n\<close>.\<close>

fun strings_SplitNChar :: "char \<Rightarrow> nat \<Rightarrow> string \<Rightarrow> string list" where
  "strings_SplitNChar d 0 s = []"
| "strings_SplitNChar d (Suc 0) s = [s]"
| "strings_SplitNChar d (Suc (Suc n)) s =
     (case dropWhile (\<lambda>c. c \<noteq> d) s of
        [] \<Rightarrow> [s]
      | _ # rest \<Rightarrow> takeWhile (\<lambda>c. c \<noteq> d) s # strings_SplitNChar d (Suc n) rest)"

fun strings_Join :: "string list \<Rightarrow> string \<Rightarrow> string" where
  "strings_Join [] sep = []"
| "strings_Join [p] sep = p"
| "strings_Join (p # q # ps) sep = p @ sep @ strings_Join (q # ps) sep"

text \<open>\<^verbatim>\<open>strings.ReplaceAll(s, old, new)\<close> with a non-empty \<^verbatim>\<open>old\<close>.\<close>

function strings_ReplaceAll :: "string \<Rightarrow> string \<Rightarrow> string \<Rightarrow> string" where
  "strings_ReplaceAll [] old new = []"
| "strings_ReplaceAll (c # s) old new =
     (if old \<noteq> [] \<and> strings_HasPrefix (c # s) old
      then new @ strings_ReplaceAll (drop (length old) (c # s)) old new
      else c # strings_ReplaceAll s old new)"
  by pat_completeness auto
termination
  by (relation "measure (\<lambda>(s, old, new). length s)") (auto simp: Suc_le_eq)

text \<open>
  \<^verbatim>\<open>strings.TrimSpace\<close> cuts Unicode white space from both ends. The white-space code points
  are the six ASCII ones and the ones below, here by their UTF-8 encodings (U+0085, U+00A0, U+1680,
  U+2000 to U+200A, U+2028, U+2029, U+202F, U+205F, U+3000).
\<close>

definition isSpaceByte :: "char \<Rightarrow> bool" where
  "isSpaceByte c \<longleftrightarrow> c \<in> {CHR '' '', CHR 0x09, CHR 0x0A, CHR 0x0D, CHR 0x0B, CHR 0x0C}"

definition wideSpaces :: "string list" where
  "wideSpaces =
     [[CHR 0xC2, CHR 0x85], [CHR 0xC2, CHR 0xA0], [CHR 0xE1, CHR 0x9A, CHR 0x80],
      [CHR 0xE2, CHR 0x80, CHR 0x80], [CHR 0xE2, CHR 0x80, CHR 0x81], [CHR 0xE2, CHR 0x80, CHR 0x82],
      [CHR 0xE2, CHR 0x80, CHR 0x83], [CHR 0xE2, CHR 0x80, CHR 0x84], [CHR 0xE2, CHR 0x80, CHR 0x85],
      [CHR 0xE2, CHR 0x80, CHR 0x86], [CHR 0xE2, CHR 0x80, CHR 0x87], [CHR 0xE2, CHR 0x80, CHR 0x88],
      [CHR 0xE2, CHR 0x80, CHR 0x89], [CHR 0xE2, CHR 0x80, CHR 0x8A], [CHR 0xE2, CHR 0x80, CHR 0xA8],
      [CHR 0xE2, CHR 0x80, CHR 0xA9], [CHR 0xE2, CHR 0x80, CHR 0xAF], [CHR 0xE2, CHR 0x81, CHR 0x9F],
      [CHR 0xE3, CHR 0x80, CHR 0x80]]"

fun leadingSpace :: "string list \<Rightarrow> string \<Rightarrow> nat" where
  "leadingSpace ws [] = 0"
| "leadingSpace ws (c # s) =
     (if isSpaceByte c then 1
      else (case filter (strings_HasPrefix (c # s)) ws of [] \<Rightarrow> 0 | w # _ \<Rightarrow> length w))"

function trimLeft :: "string list \<Rightarrow> string \<Rightarrow> string" where
  "trimLeft ws s =
     (let n = leadingSpace ws s in if n = 0 \<or> s = [] then s else trimLeft ws (drop n s))"
  by pat_completeness auto
termination
  by (relation "measure (\<lambda>(ws, s). length s)") (auto simp: Let_def)

declare trimLeft.simps [simp del]

definition strings_TrimSpace :: "string \<Rightarrow> string" where
  "strings_TrimSpace s = rev (trimLeft (map rev wideSpaces) (rev (trimLeft wideSpaces s)))"

text \<open>
  \<^verbatim>\<open>strings.ToLower\<close>: on a string of ASCII bytes the letters A to Z are mapped; any other
  string goes through the Unicode case tables of the Go distribution, which are the parameter
  \<^verbatim>\<open>uc\<close> of every definition that lower-cases.
\<close>

definition isAscii :: "char \<Rightarrow> bool" where
  "isAscii c \<longleftrightarrow> of_char c < (128::nat)"

definition lowerByte :: "char \<Rightarrow> char" where
  "lowerByte c = (if 65 \<le> (of_char c :: nat) \<and> of_char c \<le> (90::nat)
                  then char_of (of_char c + 32 :: nat) else c)"

definition strings_ToLower :: "(string \<Rightarrow> string) \<Rightarrow> string \<Rightarrow> string" where
  "strings_ToLower uc s = (if list_all isAscii s then map lowerByte s else uc s)"

text \<open>The order of Go strings: bytewise.\<close>

fun str_lt :: "string \<Rightarrow> string \<Rightarrow> bool" where
  "str_lt s [] = False"
| "str_lt [] (b # t) = True"
| "str_lt (a # s) (b # t) = (of_char a < (of_char b :: nat) \<or> (a = b \<and> str_lt s t))"

definition str_le :: "string \<Rightarrow> string \<Rightarrow> bool" where
  "str_le s t \<longleftrightarrow> \<not> str_lt t s"

lemma str_lt_irrefl [simp]: "\<not> str_lt s s"
  by (induction s) auto

lemma str_lt_trans: "str_lt s t \<Longrightarrow> str_lt t u \<Longrightarrow> str_lt s u"
proof (induction s t arbitrary: u rule: str_lt.induct)
  case (2 b t)
  then show ?case by (cases u) auto
next
  case (3 a s b t)
  then show ?case by (cases u) auto
qed simp

lemma str_lt_trichotomy: "str_lt s t \<or> s = t \<or> str_lt t s"
proof (induction s t rule: str_lt.induct)
  case (1 s)
  then show ?case by (cases s) auto
next
  case (3 a s b t)
  have "of_char a = (of_char b :: nat) \<longleftrightarrow> a = b" by simp
  with 3 show ?case by (auto simp del: of_char_eq_iff)
qed simp

lemma str_lt_asym: "str_lt s t \<Longrightarrow> \<not> str_lt t s"
  using str_lt_trans str_lt_irrefl by blast

lemma str_lt_negtrans: "\<not> str_lt a b \<Longrightarrow> \<not> str_lt b c \<Longrightarrow> \<not> str_lt a c"
  using str_lt_trichotomy str_lt_trans by metis

section \<open>Package strconv: integers\<close>

definition isDigit :: "char \<Rightarrow> bool" where
  "isDigit c \<longleftrightarrow> 48 \<le> (of_char c :: nat) \<and> of_char c \<le> (57::nat)"

definition digitChar :: "nat \<Rightarrow> char" where
  "digitChar n = char_of (48 + n)"

definition digitVal :: "char \<Rightarrow> nat" where
  "digitVal c = of_char c - 48"

fun decimalNat :: "nat \<Rightarrow> string" where
  "decimalNat n = (if n < 10 then [digitChar n] else decimalNat (n div 10) @ [digitChar (n mod 10)])"

declare decimalNat.simps [simp del]

text \<open>\<^verbatim>\<open>strconv.Itoa\<close> and \<^verbatim>\<open>strconv.FormatInt(_, 10)\<close>.\<close>

definition strconv_Itoa :: "int \<Rightarrow> string" where
  "strconv_Itoa i = (if i < 0 then CHR ''-'' # decimalNat (nat (- i)) else decimalNat (nat i))"

definition parseDigits :: "string \<Rightarrow> nat" where
  "parseDigits s = foldl (\<lambda>acc c. acc * 10 + digitVal c) 0 s"

definition minInt64 :: int where "minInt64 = - (2 ^ 63)"
definition maxInt64 :: int where "maxInt64 = 2 ^ 63 - 1"

text \<open>
  \<^verbatim>\<open>strconv.ParseInt(s, 10, 64)\<close> and \<^verbatim>\<open>strconv.Atoi\<close>: an optional sign, then
  decimal digits only; \<^verbatim>\<open>None\<close> is a syntax or a range error.
\<close>

definition strconv_ParseInt :: "string \<Rightarrow> int option" where
  "strconv_ParseInt s =
     (let neg = (case s of c # _ \<Rightarrow> c = CHR ''-'' | [] \<Rightarrow> False);
          ds = (case s of c # t \<Rightarrow> if c = CHR ''-'' \<or> c = CHR ''+'' then t else s | [] \<Rightarrow> s)
      in if ds = [] \<or> \<not> list_all isDigit ds then None
         else let v = (if neg then - int (parseDigits ds) else int (parseDigits ds))
              in if minInt64 \<le> v \<and> v \<le> maxInt64 then Some v else None)"

section \<open>Lemmas\<close>

lemma HasPrefix_iff: "strings_HasPrefix s p \<longleftrightarrow> (\<exists>t. s = p @ t)"
  by (auto simp: strings_HasPrefix_def) (metis append_take_drop_id)

lemma HasPrefix_append [simp]: "strings_HasPrefix (p @ t) p"
  by (simp add: strings_HasPrefix_def)

lemma HasPrefix_Nil [simp]: "strings_HasPrefix s []"
  by (simp add: strings_HasPrefix_def)

lemma Contains_iff: "strings_Contains s sub \<longleftrightarrow> (\<exists>u v. s = u @ sub @ v)"
proof (induction s)
  case Nil
  then show ?case by auto
next
  case (Cons c s)
  show ?case (is "?l \<longleftrightarrow> ?r")
  proof
    assume ?l
    then consider t where "c # s = sub @ t" | u v where "s = u @ sub @ v"
      using Cons.IH by (auto simp: HasPrefix_iff)
    then show ?r
    proof cases
      case 1 then show ?thesis by (intro exI [of _ "[]"] exI [of _ t]) auto
    next
      case 2 then show ?thesis by (intro exI [of _ "c # u"] exI [of _ v]) auto
    qed
  next
    assume ?r
    then obtain u v where "c # s = u @ sub @ v" by blast
    then have "strings_HasPrefix (c # s) sub \<or> (\<exists>u' v. s = u' @ sub @ v)"
      by (cases u) (auto simp: HasPrefix_iff)
    then show ?l using Cons.IH by auto
  qed
qed

lemma of_char_digitChar [simp]: "n < 10 \<Longrightarrow> of_char (digitChar n) = 48 + n"
  by (simp add: digitChar_def)

lemma isDigit_digitChar [simp]: "n < 10 \<Longrightarrow> isDigit (digitChar n)"
  by (simp add: isDigit_def)

lemma digitVal_digitChar [simp]: "n < 10 \<Longrightarrow> digitVal (digitChar n) = n"
  by (simp add: digitVal_def)

lemma decimalNat_digits: "list_all isDigit (decimalNat n)"
proof (induction n rule: decimalNat.induct)
  case (1 n)
  then show ?case by (subst decimalNat.simps) simp
qed

lemma decimalNat_nonempty [simp]: "decimalNat n \<noteq> []"
  by (subst decimalNat.simps) simp

lemma parseDigits_snoc: "parseDigits (s @ [c]) = parseDigits s * 10 + digitVal c"
  by (simp add: parseDigits_def)

lemma parseDigits_decimalNat [simp]: "parseDigits (decimalNat n) = n"
proof (induction n rule: decimalNat.induct)
  case (1 n)
  show ?case
  proof (cases "n < 10")
    case True
    then show ?thesis by (subst decimalNat.simps) (simp add: parseDigits_def)
  next
    case False
    with 1 have "parseDigits (decimalNat (n div 10)) = n div 10" by simp
    with False show ?thesis by (subst decimalNat.simps) (simp add: parseDigits_snoc)
  qed
qed

lemma decimalNat_hd: "hd (decimalNat n) \<noteq> CHR ''-''" "hd (decimalNat n) \<noteq> CHR ''+''"
proof -
  have "isDigit (hd (decimalNat n))"
    using decimalNat_digits [of n] by (cases "decimalNat n") auto
  then show "hd (decimalNat n) \<noteq> CHR ''-''" "hd (decimalNat n) \<noteq> CHR ''+''"
    by (auto simp: isDigit_def)
qed

lemma ParseInt_Itoa:
  assumes "minInt64 \<le> i" "i \<le> maxInt64"
  shows "strconv_ParseInt (strconv_Itoa i) = Some i"
proof (cases "i < 0")
  case True
  then show ?thesis
    using assms by (simp add: strconv_Itoa_def strconv_ParseInt_def decimalNat_digits Let_def)
next
  case False
  obtain c t where ct: "decimalNat (nat i) = c # t"
    by (cases "decimalNat (nat i)") auto
  with decimalNat_hd [of "nat i"] have "c \<noteq> CHR ''-''" "c \<noteq> CHR ''+''" by auto
  moreover have "list_all isDigit (c # t)" "parseDigits (c # t) = nat i"
    using decimalNat_digits [of "nat i"] parseDigits_decimalNat [of "nat i"] ct by auto
  ultimately show ?thesis
    using False assms ct by (simp add: strconv_Itoa_def strconv_ParseInt_def Let_def)
qed

lemma Itoa_chars: "list_all (\<lambda>c. isDigit c \<or> c = CHR ''-'') (strconv_Itoa i)"
  using decimalNat_digits by (auto simp: strconv_Itoa_def list_all_iff)

lemma SplitN_Join:
  assumes "list_all (\<lambda>p. d \<notin> set p) (butlast ps)" "ps \<noteq> []" "length ps \<le> Suc n"
    "length ps < Suc n \<longrightarrow> d \<notin> set (last ps)"
  shows "strings_SplitNChar d (Suc n) (strings_Join ps [d]) = ps"
  using assms
proof (induction ps arbitrary: n rule: induct_list012)
  case (2 p)
  then have "n \<noteq> 0 \<Longrightarrow> dropWhile (\<lambda>c. c \<noteq> d) p = []"
    by (auto simp: dropWhile_eq_Nil_conv)
  then show ?case by (cases n) (auto simp del: dropWhile_eq_Nil_conv)
next
  case (3 p q ps)
  then obtain m where m: "n = Suc m" by (cases n) auto
  have *: "takeWhile (\<lambda>c. c \<noteq> d) (p @ d # r) = p" "dropWhile (\<lambda>c. c \<noteq> d) (p @ d # r) = d # r" for r
    using 3(3) by (auto simp: takeWhile_append dropWhile_append)
  have "strings_SplitNChar d (Suc m) (strings_Join (q # ps) [d]) = q # ps"
    using 3(3-) m by (intro 3(2)) auto
  then show ?case using m * by simp
qed simp

section \<open>Wrap-around of \<^verbatim>\<open>int\<close>\<close>

definition wrap64 :: "int \<Rightarrow> int" where
  "wrap64 i = sint (word_of_int i :: i64)"

lemma wrap64_mod: "wrap64 i = (i + 2 ^ 63) mod 2 ^ 64 - 2 ^ 63"
  by (simp add: wrap64_def signed_take_bit_eq_take_bit_shift take_bit_eq_mod sint_sbintrunc')

lemma wrap64_id: "minInt64 \<le> i \<Longrightarrow> i \<le> maxInt64 \<Longrightarrow> wrap64 i = i"
  by (simp add: wrap64_mod minInt64_def maxInt64_def)

lemma wrap64_over: "maxInt64 < i \<Longrightarrow> i \<le> maxInt64 + 2 ^ 64 \<Longrightarrow> wrap64 i = i - 2 ^ 64"
proof -
  assume "maxInt64 < i" "i \<le> maxInt64 + 2 ^ 64"
  then have "(i + 2 ^ 63 - 2 ^ 64) mod 2 ^ 64 = i + 2 ^ 63 - 2 ^ 64"
    by (intro mod_pos_pos_trivial) (auto simp: maxInt64_def)
  moreover have "(i + 2 ^ 63 - 2 ^ 64) mod 2 ^ 64 = (i + 2 ^ 63) mod 2 ^ 64"
    by (rule minus_mod_self2)
  ultimately show ?thesis unfolding wrap64_mod by linarith
qed

lemma wrap64_range: "minInt64 \<le> wrap64 i \<and> wrap64 i \<le> maxInt64"
  by (simp add: wrap64_mod minInt64_def maxInt64_def)

text \<open>Go's integer division truncates toward zero.\<close>

definition goDiv :: "i64 \<Rightarrow> i64 \<Rightarrow> i64" where
  "goDiv a b = word_of_int (sgn (sint a) * sgn (sint b) * (\<bar>sint a\<bar> div \<bar>sint b\<bar>))"

text \<open>\<^verbatim>\<open>strconv.FormatUint(v, 10)\<close>.\<close>

definition strconv_FormatUint :: "u64 \<Rightarrow> string" where
  "strconv_FormatUint v = decimalNat (unat v)"

end
