(* ===== verification/GoFloat.thy ===== *)
theory GoFloat
  imports Prelude Complex_Main "HOL-Library.Log_Nat"
begin

text \<open>
  Go's \<^verbatim>\<open>float64\<close>: IEEE 754 binary64 with round-to-nearest-even. A finite value is a
  sign and a non-negative rational magnitude, so the two zeros are distinct values that compare
  equal; an operation computes the exact rational result and rounds it once. The conversions of
  package \<^verbatim>\<open>strconv\<close> (\<^verbatim>\<open>ParseFloat\<close>, \<^verbatim>\<open>FormatFloat\<close>) follow. The
  lemmas show that rounding is monotone and exact on integers up to \<open>2\<^sup>5\<^sup>3\<close>, which is what
  the percentages and time windows of the program rely on.
\<close>

datatype f64 = NaN | Inf bool | Fin bool rat

definition pow2 :: "int \<Rightarrow> rat" where
  "pow2 e = (if 0 \<le> e then 2 ^ nat e else 1 / 2 ^ nat (- e))"

definition ilog2 :: "rat \<Rightarrow> int" where
  "ilog2 x = (let (n, d) = quotient_of x; k = bitlen n - bitlen d
              in if pow2 k \<le> x then k else k - 1)"

definition roundHalfEven :: "rat \<Rightarrow> int" where
  "roundHalfEven x =
     (let f = \<lfloor>x\<rfloor>; r = x - of_int f
      in if r < 1 / 2 then f else if 1 / 2 < r then f + 1 else if even f then f else f + 1)"

definition ulpExp :: "rat \<Rightarrow> int" where
  "ulpExp x = max (- 1074) (ilog2 x - 52)"

text \<open>Rounding a non-negative magnitude to the binary64 grid (without the overflow check).\<close>

definition roundMag :: "rat \<Rightarrow> rat" where
  "roundMag x = (if x = 0 then 0
                 else of_int (roundHalfEven (x / pow2 (ulpExp x))) * pow2 (ulpExp x))"

definition mkFloat :: "bool \<Rightarrow> rat \<Rightarrow> f64" where
  "mkFloat s x = (let r = roundMag x in if pow2 1024 \<le> r then Inf s else Fin s r)"

fun fval :: "f64 \<Rightarrow> rat" where
  "fval (Fin s r) = (if s then - r else r)"
| "fval _ = 0"

definition f64_of_rat :: "rat \<Rightarrow> f64" where
  "f64_of_rat q = mkFloat (q < 0) \<bar>q\<bar>"

text \<open>\<^verbatim>\<open>float64(i)\<close> for an integer.\<close>

definition f64_of_int :: "int \<Rightarrow> f64" where
  "f64_of_int i = f64_of_rat (of_int i)"

subsection \<open>Arithmetic and comparison\<close>

fun f64_neg :: "f64 \<Rightarrow> f64" where
  "f64_neg NaN = NaN"
| "f64_neg (Inf s) = Inf (\<not> s)"
| "f64_neg (Fin s r) = Fin (\<not> s) r"

fun f64_add :: "f64 \<Rightarrow> f64 \<Rightarrow> f64" where
  "f64_add (Fin s r) (Fin t q) =
     (let v = fval (Fin s r) + fval (Fin t q)
      in if v = 0 then Fin (s \<and> t) 0 else f64_of_rat v)"
| "f64_add (Inf s) (Inf t) = (if s = t then Inf s else NaN)"
| "f64_add (Inf s) (Fin _ _) = Inf s"
| "f64_add (Fin _ _) (Inf t) = Inf t"
| "f64_add _ _ = NaN"

definition f64_sub :: "f64 \<Rightarrow> f64 \<Rightarrow> f64" where
  "f64_sub a b = f64_add a (f64_neg b)"

fun f64_mul :: "f64 \<Rightarrow> f64 \<Rightarrow> f64" where
  "f64_mul (Fin s r) (Fin t q) = mkFloat (s \<noteq> t) (r * q)"
| "f64_mul (Inf s) (Inf t) = Inf (s \<noteq> t)"
| "f64_mul (Inf s) (Fin t q) = (if q = 0 then NaN else Inf (s \<noteq> t))"
| "f64_mul (Fin s r) (Inf t) = (if r = 0 then NaN else Inf (s \<noteq> t))"
| "f64_mul _ _ = NaN"

fun f64_div :: "f64 \<Rightarrow> f64 \<Rightarrow> f64" where
  "f64_div (Fin s r) (Fin t q) =
     (if q = 0 then (if r = 0 then NaN else Inf (s \<noteq> t)) else mkFloat (s \<noteq> t) (r / q))"
| "f64_div (Inf s) (Fin t q) = Inf (s \<noteq> t)"
| "f64_div (Fin s r) (Inf t) = Fin (s \<noteq> t) 0"
| "f64_div _ _ = NaN"

fun f64_lt :: "f64 \<Rightarrow> f64 \<Rightarrow> bool" where
  "f64_lt (Fin s r) (Fin t q) \<longleftrightarrow> fval (Fin s r) < fval (Fin t q)"
| "f64_lt (Inf s) (Inf t) \<longleftrightarrow> s \<and> \<not> t"
| "f64_lt (Inf s) (Fin _ _) \<longleftrightarrow> s"
| "f64_lt (Fin _ _) (Inf t) \<longleftrightarrow> \<not> t"
| "f64_lt _ _ \<longleftrightarrow> False"

fun f64_eq :: "f64 \<Rightarrow> f64 \<Rightarrow> bool" where
  "f64_eq (Fin s r) (Fin t q) \<longleftrightarrow> fval (Fin s r) = fval (Fin t q)"
| "f64_eq (Inf s) (Inf t) \<longleftrightarrow> s = t"
| "f64_eq _ _ \<longleftrightarrow> False"

definition f64_le :: "f64 \<Rightarrow> f64 \<Rightarrow> bool" where
  "f64_le a b \<longleftrightarrow> f64_lt a b \<or> f64_eq a b"

text \<open>
  \<^verbatim>\<open>int64(f)\<close>: truncation towards zero. Out of range (and for NaN) the result is
  implementation-defined in Go; this is the value the amd64 instruction gives.
\<close>

fun f64_to_int64 :: "f64 \<Rightarrow> int" where
  "f64_to_int64 (Fin s r) =
     (let v = (if s then - \<lfloor>r\<rfloor> else \<lfloor>r\<rfloor>)
      in if minInt64 \<le> v \<and> v \<le> maxInt64 then v else minInt64)"
| "f64_to_int64 _ = minInt64"

subsection \<open>strconv.ParseFloat\<close>

definition lowerAscii :: "string \<Rightarrow> string" where
  "lowerAscii s = map lowerByte s"

definition isHexDigit :: "char \<Rightarrow> bool" where
  "isHexDigit c \<longleftrightarrow> isDigit c \<or> (97 \<le> (of_char c :: nat) \<and> of_char c \<le> (102::nat))
                     \<or> (65 \<le> (of_char c :: nat) \<and> of_char c \<le> (70::nat))"

definition hexVal :: "char \<Rightarrow> nat" where
  "hexVal c = (if isDigit c then digitVal c else of_char (lowerByte c) - 87)"

text \<open>
  The mantissa scanner of \<^verbatim>\<open>readFloat\<close>: digits with at most one point. The result is the
  mantissa, the number of digits after the point, whether there was a digit, and the rest.
\<close>

fun scanMantissa :: "nat \<Rightarrow> bool \<Rightarrow> nat \<Rightarrow> nat \<Rightarrow> bool \<Rightarrow> string \<Rightarrow> nat \<times> nat \<times> bool \<times> string" where
  "scanMantissa base dot m fd saw [] = (m, fd, saw, [])"
| "scanMantissa base dot m fd saw (c # s) =
     (if c = CHR ''_'' then scanMantissa base dot m fd saw s
      else if c = CHR ''.'' then
        (if dot then (m, fd, saw, c # s) else scanMantissa base True m fd saw s)
      else if isDigit c \<or> (base = 16 \<and> isHexDigit c) then
        scanMantissa base dot (m * base + (if base = 16 then hexVal c else digitVal c))
          (if dot then Suc fd else fd) True s
      else (m, fd, saw, c # s))"

fun scanExpDigits :: "nat \<Rightarrow> string \<Rightarrow> nat \<times> string" where
  "scanExpDigits e [] = (e, [])"
| "scanExpDigits e (c # s) =
     (if c = CHR ''_'' then scanExpDigits e s
      else if isDigit c then scanExpDigits (if e < 10000 then e * 10 + digitVal c else e) s
      else (e, c # s))"

text \<open>\<^verbatim>\<open>underscoreOK\<close>: an underscore only between digits (or after the base prefix).\<close>

fun underscoreScan :: "bool \<Rightarrow> char \<Rightarrow> string \<Rightarrow> bool" where
  "underscoreScan hex prev [] \<longleftrightarrow> prev \<noteq> CHR ''_''"
| "underscoreScan hex prev (c # s) \<longleftrightarrow>
     (if isDigit c \<or> (hex \<and> isHexDigit c) then underscoreScan hex CHR ''0'' s
      else if c = CHR ''_'' then prev = CHR ''0'' \<and> underscoreScan hex CHR ''_'' s
      else prev \<noteq> CHR ''_'' \<and> underscoreScan hex CHR ''!'' s)"

definition underscoreOK :: "string \<Rightarrow> bool" where
  "underscoreOK s =
     (let t = (case s of c # r \<Rightarrow> if c = CHR ''-'' \<or> c = CHR ''+'' then r else s | [] \<Rightarrow> s)
      in case t of
           z # b # r \<Rightarrow>
             if z = CHR ''0'' \<and> lowerByte b \<in> {CHR ''b'', CHR ''o'', CHR ''x''}
             then underscoreScan (lowerByte b = CHR ''x'') CHR ''0'' r
             else underscoreScan False CHR ''^'' t
         | _ \<Rightarrow> underscoreScan False CHR ''^'' t)"

definition scaleBy :: "nat \<Rightarrow> int \<Rightarrow> rat" where
  "scaleBy b e = (if 0 \<le> e then of_nat b ^ nat e else 1 / of_nat b ^ nat (- e))"

text \<open>Parsing after the sign: \<^verbatim>\<open>None\<close> is a syntax or a range error.\<close>

definition parseUnsigned :: "bool \<Rightarrow> string \<Rightarrow> f64 option" where
  "parseUnsigned neg t =
     (let hex = (case t of z # x # _ \<Rightarrow> z = CHR ''0'' \<and> lowerByte x = CHR ''x'' | _ \<Rightarrow> False);
          base = (if hex then 16 else 10 :: nat);
          (m, fd, saw, rest) = scanMantissa base False 0 0 False (if hex then drop 2 t else t);
          expChar = (if hex then CHR ''p'' else CHR ''e'');
          res = (case rest of
                   [] \<Rightarrow> if hex then None else Some 0
                 | c # r \<Rightarrow>
                     if lowerByte c \<noteq> expChar then None
                     else let eneg = (case r of d # _ \<Rightarrow> d = CHR ''-'' | [] \<Rightarrow> False);
                              ds = (case r of d # r' \<Rightarrow> if d = CHR ''-'' \<or> d = CHR ''+'' then r' else r | [] \<Rightarrow> r)
                          in case ds of
                               [] \<Rightarrow> None
                             | d # _ \<Rightarrow>
                                 if \<not> isDigit d then None
                                 else let (e, rest') = scanExpDigits 0 ds
                                      in if rest' \<noteq> [] then None
                                         else Some (if eneg then - int e else int e))
      in if \<not> saw then None
         else case res of
                None \<Rightarrow> None
              | Some e \<Rightarrow>
                  let v = of_nat m * (if hex then scaleBy 2 (e - 4 * int fd) else scaleBy 10 (e - int fd))
                  in case mkFloat neg v of Inf _ \<Rightarrow> None | f \<Rightarrow> Some f)"

definition strconv_ParseFloat :: "string \<Rightarrow> f64 option" where
  "strconv_ParseFloat s =
     (let neg = (case s of c # _ \<Rightarrow> c = CHR ''-'' | [] \<Rightarrow> False);
          t = (case s of c # r \<Rightarrow> if c = CHR ''-'' \<or> c = CHR ''+'' then r else s | [] \<Rightarrow> s);
          l = lowerAscii t
      in if l = ''inf'' \<or> l = ''infinity'' then Some (Inf neg)
         else if lowerAscii s = ''nan'' then Some NaN
         else if CHR ''_'' \<in> set s \<and> \<not> underscoreOK s then None
         else parseUnsigned neg t)"

subsection \<open>strconv.FormatFloat\<close>

definition ilog10 :: "rat \<Rightarrow> int" where
  "ilog10 r = (if 1 \<le> r then int (length (decimalNat (nat \<lfloor>r\<rfloor>))) - 1
               else - int (length (decimalNat (nat (\<lceil>1 / r\<rceil> - 1)))))"

text \<open>
  The digits of the shortest decimal that parses back to the magnitude, as the integer and the
  power of ten it is scaled by: for each number of digits the two neighbours of the value are
  tried, the nearer first. Seventeen digits always suffice for binary64.
\<close>

fun shortestFrom :: "nat \<Rightarrow> nat \<Rightarrow> rat \<Rightarrow> int \<times> int" where
  "shortestFrom fuel n r =
     (let k = ilog10 r - int n;
          lo = \<lfloor>r / scaleBy 10 k\<rfloor>;
          up = r / scaleBy 10 k - of_int lo > 1 / 2;
          near = (if up then lo + 1 else lo);
          far = (if up then lo else lo + 1)
      in if roundMag (of_int near * scaleBy 10 k) = r then (near, k)
         else if roundMag (of_int far * scaleBy 10 k) = r then (far, k)
         else (case fuel of 0 \<Rightarrow> (near, k) | Suc f \<Rightarrow> shortestFrom f (Suc n) r))"

declare shortestFrom.simps [simp del]

definition stripZeros :: "string \<Rightarrow> string" where
  "stripZeros ds = rev (dropWhile (\<lambda>c. c = CHR ''0'') (rev ds))"

text \<open>\<^verbatim>\<open>FormatFloat(f, 'e', -1, 64)\<close> of a finite magnitude: its digits and decimal exponent.\<close>

definition shortestDigits :: "rat \<Rightarrow> string \<times> int" where
  "shortestDigits r =
     (if r = 0 then (''0'', 0)
      else let (m, k) = shortestFrom 16 0 r; ds = decimalNat (nat m)
           in (case stripZeros ds of [] \<Rightarrow> ''0'' | d # t \<Rightarrow> d # t, k + int (length ds) - 1))"

text \<open>\<^verbatim>\<open>FormatFloat(f, 'f', prec, 64)\<close>.\<close>

fun formatFixed :: "nat \<Rightarrow> f64 \<Rightarrow> string" where
  "formatFixed prec NaN = ''NaN''"
| "formatFixed prec (Inf s) = (if s then ''-Inf'' else ''+Inf'')"
| "formatFixed prec (Fin s r) =
     (let n = nat (roundHalfEven (r * 10 ^ prec));
          ip = decimalNat (n div 10 ^ prec);
          fp = decimalNat (n mod 10 ^ prec);
          body = (if prec = 0 then ip
                  else ip @ ''.'' @ replicate (prec - length fp) (CHR ''0'') @ fp)
      in if s then ''-'' @ body else body)"

subsection \<open>Rounding is monotone and exact on the grid\<close>

lemma pow2_powi: "pow2 e = 2 powi e"
  by (simp add: pow2_def power_int_def inverse_eq_divide power_one_over)

lemma pow2_pos [simp]: "0 < pow2 e"
  by (simp add: pow2_powi)

lemma pow2_nonneg [simp]: "0 \<le> pow2 e"
  by (rule less_imp_le [OF pow2_pos])

lemma pow2_nonzero [simp]: "pow2 e \<noteq> 0"
  using pow2_pos [of e] by linarith

lemma pow2_add: "pow2 (a + b) = pow2 a * pow2 b"
  by (simp add: pow2_powi power_int_add)

lemma pow2_less: "a < b \<Longrightarrow> pow2 a < pow2 b"
  by (simp add: pow2_powi power_int_strict_increasing)

lemma pow2_less_iff [simp]: "pow2 a < pow2 b \<longleftrightarrow> a < b"
  using pow2_less [of a b] pow2_less [of b a] by (cases a b rule: linorder_cases) auto

lemma pow2_le_iff [simp]: "pow2 a \<le> pow2 b \<longleftrightarrow> a \<le> b"
  by (simp flip: linorder_not_less)

lemma pow2_nat: "pow2 (int n) = 2 ^ n"
  by (simp add: pow2_def)

lemma ilog2_bounds:
  assumes "0 < x"
  shows "pow2 (ilog2 x) \<le> x" "x < pow2 (ilog2 x + 1)"
proof -
  obtain n d where q: "quotient_of x = (n, d)" by (cases "quotient_of x")
  have d: "0 < d" using quotient_of_denom_pos [OF q] .
  have x: "x = of_int n / of_int d" using quotient_of_div [OF q] .
  with assms d have n: "0 < n" by (simp add: zero_less_divide_iff)
  define a b where "a = bitlen n" and "b = bitlen d"
  have nb: "pow2 (a - 1) \<le> of_int n" "(of_int n :: rat) < pow2 a"
    and db: "pow2 (b - 1) \<le> of_int d" "(of_int d :: rat) < pow2 b"
  proof -
    have aux: "pow2 (bitlen i - 1) \<le> of_int i \<and> (of_int i :: rat) < pow2 (bitlen i)"
      if "0 < i" for i :: int
    proof -
      have "2 ^ nat (bitlen i - 1) \<le> i \<and> i < 2 ^ nat (bitlen i)"
        using bitlen_bounds that by blast
      moreover have "1 \<le> bitlen i" using that by (auto simp: bitlen_alt_def)
      ultimately have "(2::rat) ^ nat (bitlen i - 1) \<le> of_int i \<and> (of_int i :: rat) < 2 ^ nat (bitlen i)"
        by (metis of_int_le_iff of_int_less_iff of_int_numeral of_int_power)
      then show ?thesis using \<open>1 \<le> bitlen i\<close> by (simp add: pow2_def)
    qed
    show "pow2 (a - 1) \<le> of_int n" "(of_int n :: rat) < pow2 a"
      "pow2 (b - 1) \<le> of_int d" "(of_int d :: rat) < pow2 b"
      using aux n d by (auto simp: a_def b_def)
  qed
  have split: "pow2 (a - 1) = pow2 (a - b - 1) * pow2 b" "pow2 a = pow2 (a - b + 1) * pow2 (b - 1)"
    by (simp_all flip: pow2_add)
  have lo: "pow2 (a - b - 1) < x"
  proof -
    have "pow2 (a - b - 1) * of_int d < pow2 (a - b - 1) * pow2 b" using db by simp
    also have "\<dots> \<le> of_int n" using nb split by simp
    finally show ?thesis using d by (simp add: x pos_less_divide_eq)
  qed
  have hi: "x < pow2 (a - b + 1)"
  proof -
    have "of_int n < pow2 (a - b + 1) * pow2 (b - 1)" using nb split by simp
    also have "\<dots> \<le> pow2 (a - b + 1) * of_int d" using db by simp
    finally show ?thesis using d by (simp add: x pos_divide_less_eq)
  qed
  have ilog: "ilog2 x = (if pow2 (a - b) \<le> x then a - b else a - b - 1)"
    by (simp add: ilog2_def q a_def b_def Let_def)
  show "pow2 (ilog2 x) \<le> x" "x < pow2 (ilog2 x + 1)"
    using lo hi by (auto simp: ilog)
qed

lemma ilog2_mono: "0 < x \<Longrightarrow> x \<le> y \<Longrightarrow> ilog2 x \<le> ilog2 y"
  using ilog2_bounds [of x] ilog2_bounds [of y] pow2_less_iff [of "ilog2 x" "ilog2 y + 1"]
  by linarith

lemma roundHalfEven_of_int [simp]: "roundHalfEven (of_int i) = i"
  by (simp add: roundHalfEven_def)

lemma roundHalfEven_bounds: "\<lfloor>x\<rfloor> \<le> roundHalfEven x" "roundHalfEven x \<le> \<lfloor>x\<rfloor> + 1"
  by (simp_all add: roundHalfEven_def Let_def)

lemma roundHalfEven_mono:
  assumes "x \<le> y"
  shows "roundHalfEven x \<le> roundHalfEven y"
proof (cases "\<lfloor>x\<rfloor> = \<lfloor>y\<rfloor>")
  case True
  with assms show ?thesis by (auto simp: roundHalfEven_def Let_def)
next
  case False
  with assms floor_mono [OF assms] have "\<lfloor>x\<rfloor> + 1 \<le> \<lfloor>y\<rfloor>" by linarith
  with roundHalfEven_bounds [of x] roundHalfEven_bounds [of y] show ?thesis by linarith
qed

lemma roundMag_0 [simp]: "roundMag 0 = 0"
  by (simp add: roundMag_def)

lemma roundHalfEven_nonneg: "0 \<le> x \<Longrightarrow> 0 \<le> roundHalfEven x"
  using roundHalfEven_mono [of 0 x] roundHalfEven_of_int [of 0] by simp

lemma roundMag_nonneg: "0 \<le> x \<Longrightarrow> 0 \<le> roundMag x"
  using pow2_pos [of "ulpExp x"]
  by (auto simp: roundMag_def zero_le_mult_iff zero_le_divide_iff intro!: roundHalfEven_nonneg)

lemma ulpExp_ge: "- 1074 \<le> ulpExp x" "ilog2 x - 52 \<le> ulpExp x"
  by (simp_all add: ulpExp_def)

text \<open>A grid value (mantissa below \<open>2\<^sup>5\<^sup>3\<close>, exponent at least -1074) is rounded to itself.\<close>

lemma roundMag_grid:
  assumes "0 \<le> m" "m \<le> 2 ^ 53" "- 1074 \<le> e" "x = of_int m * pow2 e"
  shows "roundMag x = x"
proof (cases "x = 0")
  case False
  with assms have x: "0 < x" by (simp add: less_le zero_le_mult_iff)
  show ?thesis
  proof (cases "m = 2 ^ 53")
    case True
    have x53: "x = pow2 (e + 53)" using assms(4) True pow2_nat [of 53] by (simp add: pow2_add)
    have "e + 53 \<le> ilog2 x" "ilog2 x \<le> e + 53"
      using ilog2_bounds [OF x] unfolding x53 by simp_all
    then have "ilog2 x = e + 53" by linarith
    then have "ulpExp x = max (- 1074) (e + 1)" by (simp add: ulpExp_def)
    then have u: "ulpExp x = e + 1" using assms(3) by simp
    have "x / pow2 (e + 1) = of_int (2 ^ 52)"
    proof -
      have "e + 53 = (e + 1) + 52" by simp
      then have "x = pow2 (e + 1) * pow2 52" unfolding x53 by (metis pow2_add)
      then show ?thesis using pow2_nat [of 52] by (simp add: field_simps)
    qed
    then have "roundMag x = of_int (roundHalfEven (of_int (2 ^ 52))) * pow2 (e + 1)"
      using x by (simp only: roundMag_def u) simp
    also have "\<dots> = x" using \<open>x / pow2 (e + 1) = of_int (2 ^ 52)\<close>
      by (simp only: roundHalfEven_of_int) (simp add: field_simps)
    finally show ?thesis .
  next
    case False
    with assms have m: "m < 2 ^ 53" by linarith
    have "x < pow2 (e + 53)"
    proof -
      have "(of_int m :: rat) < 2 ^ 53" using m by (metis of_int_less_iff of_int_numeral of_int_power)
      then show ?thesis using assms(4) pow2_nat [of 53] by (simp add: pow2_add)
    qed
    then have "ilog2 x < e + 53"
      using ilog2_bounds(1) [OF x] by (metis le_less_trans pow2_less_iff)
    then have ue: "ulpExp x \<le> e" using assms(3) by (simp add: ulpExp_def)
    define k where "k = nat (e - ulpExp x)"
    have "e = ulpExp x + int k" using ue by (simp add: k_def)
    then have "pow2 e = pow2 (ulpExp x) * 2 ^ k" by (metis pow2_add pow2_nat)
    then have q: "x / pow2 (ulpExp x) = of_int (m * 2 ^ k)"
      using assms(4) by (simp add: field_simps)
    then have "roundMag x = of_int (m * 2 ^ k) * pow2 (ulpExp x)"
      using x by (simp only: roundMag_def q roundHalfEven_of_int) simp
    also have "\<dots> = x" using q by (simp add: field_simps)
    finally show ?thesis .
  qed
qed simp

lemma roundMag_of_int: "0 \<le> i \<Longrightarrow> i \<le> 2 ^ 53 \<Longrightarrow> roundMag (of_int i) = of_int i"
  by (rule roundMag_grid [where e = 0 and m = i]) (auto simp: pow2_def)


lemma roundMag_le_pow2:
  assumes "0 < x" "x \<le> pow2 (ulpExp x + 53)"
  shows "roundMag x \<le> pow2 (ulpExp x + 53)"
proof -
  have "x / pow2 (ulpExp x) \<le> of_int (2 ^ 53)"
    using assms pow2_nat [of 53] by (simp add: pow2_add pos_divide_le_eq mult.commute)
  then have "roundHalfEven (x / pow2 (ulpExp x)) \<le> 2 ^ 53"
    using roundHalfEven_mono roundHalfEven_of_int by metis
  then have "(of_int (roundHalfEven (x / pow2 (ulpExp x))) :: rat) \<le> 2 ^ 53"
    by (metis of_int_le_iff of_int_numeral of_int_power)
  then show ?thesis
    using assms pow2_nat [of 53] by (simp add: roundMag_def pow2_add mult.commute)
qed

lemma pow2_le_roundMag:
  assumes "0 < y" "ulpExp y = ilog2 y - 52"
  shows "pow2 (ilog2 y) \<le> roundMag y"
proof -
  have i: "pow2 (ilog2 y) = pow2 (ulpExp y) * 2 ^ 52"
    using assms(2) pow2_add [of "ulpExp y" 52] pow2_nat [of 52] by simp
  then have "of_int (2 ^ 52) \<le> y / pow2 (ulpExp y)"
    using ilog2_bounds(1) [OF assms(1)] by (simp add: pos_le_divide_eq mult.commute)
  then have "2 ^ 52 \<le> roundHalfEven (y / pow2 (ulpExp y))"
    using roundHalfEven_mono roundHalfEven_of_int by metis
  then have "(2 ^ 52 :: rat) \<le> of_int (roundHalfEven (y / pow2 (ulpExp y)))"
    by (metis of_int_le_iff of_int_numeral of_int_power)
  then show ?thesis
    using assms(1) by (simp add: roundMag_def i mult.commute)
qed

lemma roundMag_mono:
  assumes "0 \<le> x" "x \<le> y"
  shows "roundMag x \<le> roundMag y"
proof (cases "x = 0")
  case True
  then show ?thesis using assms roundMag_nonneg by simp
next
  case False
  with assms have x: "0 < x" and y: "0 < y" by auto
  have le: "ulpExp x \<le> ulpExp y"
    using ilog2_mono [OF x assms(2)] by (simp add: ulpExp_def)
  show ?thesis
  proof (cases "ulpExp x = ulpExp y")
    case True
    have "x / pow2 (ulpExp y) \<le> y / pow2 (ulpExp y)"
      using assms by (simp add: divide_right_mono)
    from roundHalfEven_mono [OF this] show ?thesis
      using x y True by (simp add: roundMag_def mult_right_mono)
  next
    case False
    with le have lt: "ulpExp x < ulpExp y" by simp
    then have uy: "ulpExp y = ilog2 y - 52" using ulpExp_ge(1) [of x] by (auto simp: ulpExp_def)
    have "x \<le> pow2 (ilog2 x + 1)" using ilog2_bounds(2) [OF x] by simp
    also have "\<dots> \<le> pow2 (ulpExp x + 53)" using ulpExp_ge(2) [of x] by simp
    finally have "roundMag x \<le> pow2 (ulpExp x + 53)" by (rule roundMag_le_pow2 [OF x])
    also have "\<dots> \<le> pow2 (ilog2 y)" using lt uy by simp
    also have "\<dots> \<le> roundMag y" by (rule pow2_le_roundMag [OF y uy])
    finally show ?thesis .
  qed
qed

lemma roundMag_le_int: "0 \<le> x \<Longrightarrow> x \<le> of_int i \<Longrightarrow> i \<le> 2 ^ 53 \<Longrightarrow> roundMag x \<le> of_int i"
  using roundMag_mono [of x "of_int i"] roundMag_of_int [of i]
  by (metis of_int_0_le_iff order_trans)

lemma int_le_roundMag: "of_int i \<le> x \<Longrightarrow> 0 \<le> i \<Longrightarrow> i \<le> 2 ^ 53 \<Longrightarrow> of_int i \<le> roundMag x"
  using roundMag_mono [of "of_int i" x] roundMag_of_int [of i] by simp

lemma two53_less_pow2_1024: "(2 ^ 53 :: rat) < pow2 1024"
proof -
  have "pow2 53 < pow2 1024" by (rule pow2_less) simp
  moreover have "pow2 53 = 2 ^ 53" using pow2_nat [of 53] by simp
  ultimately show ?thesis by (simp only:)
qed

lemma mkFloat_small:
  assumes "0 \<le> x" "x \<le> 2 ^ 53"
  shows "mkFloat s x = Fin s (roundMag x)"
proof -
  have "roundMag x \<le> of_int (2 ^ 53)" using assms by (intro roundMag_le_int) auto
  then show ?thesis
    using two53_less_pow2_1024 by (auto simp: mkFloat_def Let_def)
qed

lemma f64_of_int_exact:
  assumes "\<bar>i\<bar> \<le> 2 ^ 53"
  shows "f64_of_int i = Fin (i < 0) (of_int \<bar>i\<bar>)"
proof -
  have "(of_int \<bar>i\<bar> :: rat) \<le> 2 ^ 53"
    using assms by (metis of_int_le_iff of_int_numeral of_int_power)
  moreover have "roundMag (of_int \<bar>i\<bar>) = of_int \<bar>i\<bar>"
    using assms by (intro roundMag_of_int) auto
  ultimately show ?thesis
    using mkFloat_small [of "of_int \<bar>i\<bar>" "i < 0"] by (simp add: f64_of_int_def f64_of_rat_def)
qed

subsection \<open>The order on values that are not NaN\<close>

lemma f64_lt_irrefl [simp]: "\<not> f64_lt a a"
  by (cases a) auto

lemma f64_lt_NaN [simp]: "\<not> f64_lt NaN b" "\<not> f64_lt a NaN"
  by (cases b; simp) (cases a; simp)

lemma f64_eq_NaN [simp]: "\<not> f64_eq NaN b" "\<not> f64_eq a NaN"
  by (cases b; simp) (cases a; simp)

lemma f64_lt_trans: "f64_lt a b \<Longrightarrow> f64_lt b c \<Longrightarrow> f64_lt a c"
  by (cases a; cases b; cases c) (auto split: if_splits)

lemma f64_lt_asym: "f64_lt a b \<Longrightarrow> \<not> f64_lt b a"
  using f64_lt_trans f64_lt_irrefl by blast

lemma f64_trichotomy: "a \<noteq> NaN \<Longrightarrow> b \<noteq> NaN \<Longrightarrow> f64_lt a b \<or> f64_eq a b \<or> f64_lt b a"
  by (cases a; cases b) (auto split: if_splits)

lemma f64_eq_sym: "f64_eq a b \<longleftrightarrow> f64_eq b a"
  by (cases a; cases b) auto

lemma f64_eq_refl [simp]: "f64_eq a a \<longleftrightarrow> a \<noteq> NaN"
  by (cases a) auto

lemma f64_eq_not_lt: "f64_eq a b \<Longrightarrow> \<not> f64_lt a b"
  by (cases a; cases b) auto

lemma f64_lt_negtrans: "b \<noteq> NaN \<Longrightarrow> \<not> f64_lt a b \<Longrightarrow> \<not> f64_lt b c \<Longrightarrow> \<not> f64_lt a c"
  by (cases a; cases b; cases c) (auto split: if_splits)

end
