(* ===== verification/Filter_Lexer.thy ===== *)
theory Filter_Lexer
  imports GoFloat
begin

text \<open>
  The tokenizer of the dashboard filter language (\<^verbatim>\<open>filter/expression.go\<close>,
  \<^verbatim>\<open>Tokenize\<close> and \<^verbatim>\<open>scanNumber\<close>). The scan index of the source becomes the
  remaining text; it is kept as a number only for the position in an error. Every
  \<^verbatim>\<open>exprErr\<close> call of the package is a constructor of \<open>expr_error\<close>.
\<close>

datatype expr_error =
    UnterminatedString
  | MalformedHex
  | UnexpectedCharacter char nat
  | EmptyExpression
  | TrailingToken
  | UnexpectedEnd
  | ExpectedParen
  | UnexpectedToken
  | UnknownField string
  | VariableNotProvided string
  | NotBoolean
  | NonNumericOperands
  | DivisionByZero
  | UnknownOperator string
  | CannotConvertToFloat
  | UnknownDialect string

datatype num = NInt i64 | NFloat f64

datatype token =
    TNumber num
  | TString string
  | TIdent string
  | TOp string
  | TLparen
  | TRparen

definition twoCharOps :: "string list" where
  "twoCharOps = [''<='', ''>='', ''=='', ''!='', ''&&'', ''||'']"

definition oneCharOps :: "char list" where
  "oneCharOps = [CHR ''+'', CHR ''-'', CHR ''*'', CHR ''/'', CHR ''<'', CHR ''>'', CHR ''~'']"

definition isIdentStart :: "char \<Rightarrow> bool" where
  "isIdentStart c \<longleftrightarrow> (97 \<le> (of_char c :: nat) \<and> of_char c \<le> (122::nat))
                       \<or> (65 \<le> (of_char c :: nat) \<and> of_char c \<le> (90::nat))"

definition isIdentBody :: "char \<Rightarrow> bool" where
  "isIdentBody c \<longleftrightarrow> isIdentStart c \<or> isDigit c \<or> c = CHR ''.'' \<or> c = CHR ''_''"

definition parseLeadingInt :: "string \<Rightarrow> i64" where
  "parseLeadingInt s =
     (case strconv_ParseInt s of
        Some v \<Rightarrow> word_of_int v
      | None \<Rightarrow> if strings_HasPrefix s ''-'' then word_of_int minInt64 else word_of_int maxInt64)"

definition ipv4Octet :: "string \<Rightarrow> bool" where
  "ipv4Octet p \<longleftrightarrow> p \<noteq> [] \<and> length p \<le> 3 \<and> list_all isDigit p
                   \<and> \<not> (1 < length p \<and> hd p = CHR ''0'') \<and> parseDigits p \<le> 255"

definition isPyIPv4 :: "string \<Rightarrow> bool" where
  "isPyIPv4 s \<longleftrightarrow> (let parts = strings_SplitChar (CHR ''.'') s
                  in length parts = 4 \<and> list_all ipv4Octet parts)"

definition pyFloatParse :: "string \<Rightarrow> f64 option" where
  "pyFloatParse s = strconv_ParseFloat (strings_TrimSpace s)"

text \<open>\<^verbatim>\<open>strconv.ParseInt(s, 16, 64)\<close> of a non-empty string of hex digits.\<close>

definition parseHex :: "string \<Rightarrow> i64 option" where
  "parseHex hs = (let v = foldl (\<lambda>acc c. acc * 16 + hexVal c) 0 hs
                  in if int v \<le> maxInt64 then Some (word_of_int (int v)) else None)"

text \<open>
  \<^verbatim>\<open>scanNumber(text, i)\<close> on the text from position \<^verbatim>\<open>i\<close>: the number of bytes
  it consumed and the token.
\<close>

definition scanNumber :: "string \<Rightarrow> expr_error + (nat \<times> token)" where
  "scanNumber t =
     (if (case t of z # x # _ \<Rightarrow> z = CHR ''0'' \<and> (x = CHR ''x'' \<or> x = CHR ''X'') | _ \<Rightarrow> False) then
        (let hs = takeWhile isHexDigit (drop 2 t)
         in if hs = [] then Inl MalformedHex
            else (case parseHex hs of
                    None \<Rightarrow> Inl MalformedHex
                  | Some v \<Rightarrow> Inr (2 + length hs, TNumber (NInt v))))
      else
        (let raw = takeWhile (\<lambda>c. isDigit c \<or> c = CHR ''.'') t; j = length raw
         in if CHR ''.'' \<in> set raw then
              (case pyFloatParse raw of
                 Some f \<Rightarrow> Inr (j, TNumber (NFloat f))
               | None \<Rightarrow>
                   if isPyIPv4 raw then Inr (j, TString raw)
                   else let lead = takeWhile (\<lambda>c. c \<noteq> CHR ''.'') raw
                        in if lead = [] then Inr (j, TNumber (NInt 0))
                           else Inr (j, TNumber (NInt (parseLeadingInt lead))))
            else Inr (j, TNumber (NInt (parseLeadingInt raw)))))"

lemma scanNumber_consumes:
  assumes "isDigit c" "scanNumber (c # s) = Inr (n, tok)"
  shows "0 < n"
  using assms by (auto simp: scanNumber_def Let_def split: if_splits option.splits list.splits)

definition consToken :: "token \<Rightarrow> expr_error + token list \<Rightarrow> expr_error + token list" where
  "consToken t r = (case r of Inl e \<Rightarrow> Inl e | Inr ts \<Rightarrow> Inr (t # ts))"

function tokenizeAt :: "nat \<Rightarrow> string \<Rightarrow> expr_error + token list" where
  "tokenizeAt i [] = Inr []"
| "tokenizeAt i (c # s) =
     (if isSpaceByte c then tokenizeAt (i + 1) s
      else if c = CHR ''('' then consToken TLparen (tokenizeAt (i + 1) s)
      else if c = CHR '')'' then consToken TRparen (tokenizeAt (i + 1) s)
      else if c = CHR 0x22 then
        (case dropWhile (\<lambda>d. d \<noteq> CHR 0x22) s of
           [] \<Rightarrow> Inl UnterminatedString
         | _ # rest \<Rightarrow>
             (let lit = takeWhile (\<lambda>d. d \<noteq> CHR 0x22) s
              in consToken (TString lit) (tokenizeAt (i + length lit + 2) (drop (Suc (length lit)) s))))
      else if isDigit c then
        (case scanNumber (c # s) of
           Inl e \<Rightarrow> Inl e
         | Inr (n, tok) \<Rightarrow> consToken tok (tokenizeAt (i + n) (drop n (c # s))))
      else if isIdentStart c then
        (let body = takeWhile isIdentBody s
         in consToken (TIdent (c # body)) (tokenizeAt (i + 1 + length body) (drop (length body) s)))
      else if s \<noteq> [] \<and> [c, hd s] \<in> set twoCharOps then
        consToken (TOp [c, hd s]) (tokenizeAt (i + 2) (tl s))
      else if c \<in> set oneCharOps then consToken (TOp [c]) (tokenizeAt (i + 1) s)
      else Inl (UnexpectedCharacter c i))"
  by pat_completeness auto
termination
proof (relation "measure (\<lambda>(i, s). length s)", goal_cases)
  case (6 i c s x n tok)
  then show ?case by (cases n) (auto dest: scanNumber_consumes)
qed auto

declare tokenizeAt.simps(2) [simp del]

definition Tokenize :: "string \<Rightarrow> expr_error + token list" where
  "Tokenize s = tokenizeAt 0 s"

end
