(* ===== verification/Filter_Parser.thy ===== *)
theory Filter_Parser
  imports Filter_Lexer
begin

text \<open>
  The abstract syntax and the precedence-climbing parser of \<^verbatim>\<open>filter/expression.go\<close>.
  The parser object (token slice and position) becomes the list of the tokens not yet consumed.
  The lemmas relate it to a stratified grammar: the parser accepts exactly the token lists the
  grammar derives, with the tree the grammar gives, which fixes precedence, left associativity and
  the meaning of parentheses. It terminates on every input.
\<close>

datatype node =
    Number num
  | String string
  | Var string
  | BinOp string node node

definition bindingPower :: "string \<Rightarrow> nat option" where
  "bindingPower op =
     map_of [(''||'', 1), (''&&'', 2), (''=='', 3), (''!='', 3), (''~'', 3),
             (''<'', 4), (''<='', 4), (''>'', 4), (''>='', 4),
             (''+'', 5), (''-'', 5), (''*'', 6), (''/'', 6)] op"

type_synonym parse_result = "expr_error + (node \<times> token list)"

function (sequential) parseExpression :: "nat \<Rightarrow> token list \<Rightarrow> parse_result"
  and parseLoop :: "nat \<Rightarrow> node \<Rightarrow> token list \<Rightarrow> parse_result"
  and parseAtom :: "token list \<Rightarrow> parse_result" where
  "parseExpression minBP ts =
     (case parseAtom ts of Inl e \<Rightarrow> Inl e | Inr (left, rest) \<Rightarrow> parseLoop minBP left rest)"
| "parseLoop minBP left (TOp op # ts) =
     (case bindingPower op of
        None \<Rightarrow> Inr (left, TOp op # ts)
      | Some bp \<Rightarrow>
          if bp \<le> minBP then Inr (left, TOp op # ts)
          else (case parseExpression bp ts of
                  Inl e \<Rightarrow> Inl e
                | Inr (right, rest) \<Rightarrow> parseLoop minBP (BinOp op left right) rest))"
| "parseLoop minBP left ts = Inr (left, ts)"
| "parseAtom [] = Inl UnexpectedEnd"
| "parseAtom (TNumber n # ts) = Inr (Number n, ts)"
| "parseAtom (TString s # ts) = Inr (String s, ts)"
| "parseAtom (TIdent x # ts) = Inr (Var x, ts)"
| "parseAtom (TLparen # ts) =
     (case parseExpression 0 ts of
        Inl e \<Rightarrow> Inl e
      | Inr (inner, TRparen # rest) \<Rightarrow> Inr (inner, rest)
      | Inr (inner, _) \<Rightarrow> Inl ExpectedParen)"
| "parseAtom _ = Inl UnexpectedToken"
  by pat_completeness auto

lemma parser_consumes:
  "parseExpression_parseLoop_parseAtom_dom (Inl (p, ts)) \<Longrightarrow>
     parseExpression p ts = Inr (n, rest) \<Longrightarrow> length rest < length ts"
  "parseExpression_parseLoop_parseAtom_dom (Inr (Inl (p, l, ts))) \<Longrightarrow>
     parseLoop p l ts = Inr (n, rest) \<Longrightarrow> length rest \<le> length ts"
  "parseExpression_parseLoop_parseAtom_dom (Inr (Inr ts)) \<Longrightarrow>
     parseAtom ts = Inr (n, rest) \<Longrightarrow> length rest < length ts"
proof (induction p ts and p l ts and ts arbitrary: n rest and n rest and n rest
    rule: parseExpression_parseLoop_parseAtom.pinduct)
  case (1 minBP ts)
  then show ?case
    by (fastforce simp: parseExpression.psimps split: sum.splits prod.splits)
next
  case (2 minBP left op ts)
  then show ?case
    by (fastforce simp: parseLoop.psimps split: sum.splits prod.splits option.splits if_splits)
next
  case (8 ts)
  then show ?case
    by (fastforce simp: parseAtom.psimps split: sum.splits prod.splits list.splits token.splits)
qed (auto simp: parseLoop.psimps parseAtom.psimps)

termination parseExpression
proof (relation "measure (\<lambda>x. case x of Inl (p, ts) \<Rightarrow> 2 * length ts + 1
    | Inr (Inl (p, l, ts)) \<Rightarrow> 2 * length ts | Inr (Inr ts) \<Rightarrow> 2 * length ts)", goal_cases)
  case 1 show ?case by simp
qed (auto dest: parser_consumes)

declare parseExpression.simps [simp del]

definition parseTokens :: "token list \<Rightarrow> expr_error + node" where
  "parseTokens ts =
     (case parseExpression 0 ts of
        Inl e \<Rightarrow> Inl e
      | Inr (n, []) \<Rightarrow> Inr n
      | Inr (n, _ # _) \<Rightarrow> Inl TrailingToken)"

definition Parse :: "string \<Rightarrow> expr_error + node" where
  "Parse s =
     (case Tokenize s of
        Inl e \<Rightarrow> Inl e
      | Inr ts \<Rightarrow> if ts = [] then Inl EmptyExpression else parseTokens ts)"

subsection \<open>The grammar\<close>

text \<open>
  \<open>derives p ts n\<close>: the tokens are an expression all of whose operators outside parentheses
  bind more tightly than \<open>p\<close>. In a binary expression the left operand may hold operators of
  the same power (left associativity), the right one may not.
\<close>

inductive derives :: "nat \<Rightarrow> token list \<Rightarrow> node \<Rightarrow> bool" where
  d_number: "derives p [TNumber v] (Number v)"
| d_string: "derives p [TString v] (String v)"
| d_var: "derives p [TIdent x] (Var x)"
| d_paren: "derives 0 ts n \<Longrightarrow> derives p (TLparen # ts @ [TRparen]) n"
| d_binop: "derives (bp - 1) ls l \<Longrightarrow> derives bp rs r \<Longrightarrow> bindingPower op = Some bp \<Longrightarrow> p < bp \<Longrightarrow>
     derives p (ls @ TOp op # rs) (BinOp op l r)"

text \<open>The first token does not continue an expression at level \<open>p\<close>.\<close>

fun stops :: "nat \<Rightarrow> token list \<Rightarrow> bool" where
  "stops p (TOp op # ts) = (case bindingPower op of None \<Rightarrow> True | Some bp \<Rightarrow> bp \<le> p)"
| "stops p ts = True"

lemma stops_mono: "stops p ts \<Longrightarrow> p \<le> q \<Longrightarrow> stops q ts"
  by (induction p ts rule: stops.induct) (auto split: option.splits)

lemma parseLoop_stops [simp]: "stops p ts \<Longrightarrow> parseLoop p l ts = Inr (l, ts)"
  by (induction p ts rule: stops.induct) (auto split: option.splits)

lemma bindingPower_pos: "bindingPower op = Some bp \<Longrightarrow> 0 < bp"
  by (auto simp: bindingPower_def split: if_splits)

lemma parseExpression_complete:
  assumes "derives p ts n" "stops (p + 1) rest" "q \<le> p"
  shows "parseExpression q (ts @ rest) = parseLoop q n rest"
  using assms
proof (induction arbitrary: rest q rule: derives.induct)
  case (d_paren ts n p)
  have "parseExpression 0 (ts @ TRparen # rest) = parseLoop 0 n (TRparen # rest)"
    by (rule d_paren.IH) simp_all
  then show ?case by (simp add: parseExpression.simps)
next
  case (d_binop bp ls l rs r op p)
  have bp: "0 < bp" using d_binop.hyps by (simp add: bindingPower_pos)
  have right: "parseExpression bp (rs @ rest) = Inr (r, rest)"
  proof -
    have st: "stops b rest" if "bp \<le> b" for b
      using that d_binop.hyps by (intro stops_mono [OF d_binop.prems(1)]) auto
    moreover have "parseExpression bp (rs @ rest) = parseLoop bp r rest"
      using st by (intro d_binop.IH) auto
    ultimately show ?thesis by simp
  qed
  have "parseExpression q (ls @ TOp op # rs @ rest) = parseLoop q l (TOp op # rs @ rest)"
    using d_binop.prems d_binop.hyps bp by (intro d_binop.IH) auto
  then show ?case using right d_binop.hyps d_binop.prems by simp
qed (simp_all add: parseExpression.simps)

text \<open>
  What the loop knows of the operand it carries: it is an expression of the loop's level, and of
  the level the next operator needs.
\<close>

definition operand :: "nat \<Rightarrow> token list \<Rightarrow> node \<Rightarrow> token list \<Rightarrow> bool" where
  "operand p pre l ts \<longleftrightarrow> derives p pre l \<and>
     (case ts of TOp op # _ \<Rightarrow>
        (case bindingPower op of Some bp \<Rightarrow> p < bp \<longrightarrow> derives (bp - 1) pre l | None \<Rightarrow> True)
      | _ \<Rightarrow> True)"

lemma operand_atom: "(\<And>q. derives q pre l) \<Longrightarrow> operand p pre l ts"
  by (auto simp: operand_def split: list.splits token.splits option.splits)

lemma operand_binop:
  assumes "derives (bp - 1) ls l" "derives bp rs r" "bindingPower op = Some bp" "p < bp"
    "stops bp ts"
  shows "operand p (ls @ TOp op # rs) (BinOp op l r) ts"
proof -
  have "derives q (ls @ TOp op # rs) (BinOp op l r)" if "q < bp" for q
    using assms that by (intro derives.d_binop)
  with assms(4,5) show ?thesis
    by (auto simp: operand_def split: list.splits token.splits option.splits)
qed

lemma parser_sound:
  "parseExpression p ts = Inr (n, rest) \<Longrightarrow>
     \<exists>pre. ts = pre @ rest \<and> derives p pre n \<and> stops p rest"
  "operand p pre0 l ts \<Longrightarrow> parseLoop p l ts = Inr (n, rest) \<Longrightarrow>
     \<exists>pre. ts = pre @ rest \<and> derives p (pre0 @ pre) n \<and> stops p rest"
  "parseAtom ts = Inr (n, rest) \<Longrightarrow> \<exists>pre. ts = pre @ rest \<and> (\<forall>q. derives q pre n)"
proof (induction p ts and p l ts and ts arbitrary: n rest and n rest pre0 and n rest
    rule: parseExpression_parseLoop_parseAtom.induct)
  case (1 p ts)
  from "1.prems" obtain l mid where l: "parseAtom ts = Inr (l, mid)" "parseLoop p l mid = Inr (n, rest)"
    by (auto simp: parseExpression.simps split: sum.splits)
  from "1.IH"(1) [OF l(1)] obtain pre where pre: "ts = pre @ mid" "\<And>q. derives q pre l" by blast
  from "1.IH"(2) [OF l(1) refl operand_atom [OF pre(2)] l(2)]
  show ?case using pre(1) by auto
next
  case (2 p l op ts)
  show ?case
  proof (cases "stops p (TOp op # ts)")
    case True
    then have "parseLoop p l (TOp op # ts) = Inr (l, TOp op # ts)" by (rule parseLoop_stops)
    with 2 True show ?thesis by (auto simp: operand_def)
  next
    case False
    then obtain bp where bp: "bindingPower op = Some bp" "p < bp" by (auto split: option.splits)
    with "2.prems" obtain r mid where r: "parseExpression bp ts = Inr (r, mid)"
      "parseLoop p (BinOp op l r) mid = Inr (n, rest)"
      by (auto split: sum.splits)
    from "2.IH"(1) [OF bp(1) _ r(1)] bp obtain rs where
      rs: "ts = rs @ mid" "derives bp rs r" "stops bp mid" by auto
    have "derives (bp - 1) pre0 l" using "2.prems"(1) bp by (simp add: operand_def)
    with rs bp have "operand p (pre0 @ TOp op # rs) (BinOp op l r) mid"
      by (intro operand_binop)
    from "2.IH"(2) [OF bp(1) _ r(1) refl this r(2)] bp
    show ?thesis using rs(1) by auto
  qed
next
  case (8 ts)
  from "8.prems" obtain mid where mid: "parseExpression 0 ts = Inr (n, TRparen # rest)"
    by (auto split: sum.splits list.splits token.splits)
  from "8.IH" [OF this] obtain pre where "ts = pre @ TRparen # rest" "derives 0 pre n" by blast
  then show ?case by (intro exI [of _ "TLparen # pre @ [TRparen]"]) (auto intro: derives.d_paren)
qed (auto simp: operand_def intro: derives.intros)

lemma parseTokens_iff: "parseTokens ts = Inr n \<longleftrightarrow> derives 0 ts n"
proof
  assume "parseTokens ts = Inr n"
  then have "parseExpression 0 ts = Inr (n, [])"
    by (auto simp: parseTokens_def split: sum.splits list.splits)
  from parser_sound(1) [OF this] show "derives 0 ts n" by auto
next
  assume "derives 0 ts n"
  from parseExpression_complete [OF this, of "[]" 0] show "parseTokens ts = Inr n"
    by (simp add: parseTokens_def)
qed

end
