(* ===== verification/Filter_Eval.thy ===== *)
theory Filter_Eval
  imports Filter_Parser
begin

text \<open>
  The in-memory predicate of the filter language (\<^verbatim>\<open>Evaluate\<close> and its helpers in
  \<^verbatim>\<open>filter/expression.go\<close>, \<^verbatim>\<open>EvaluateStream\<close> in \<^verbatim>\<open>filter/namemap.go\<close>):
  dynamic values, Python-style coercions, short-circuit logic, 64-bit wrapping integer arithmetic.
  The lemmas give the laws of the comparison operators, the cases in which evaluation fails, and
  that the filter excludes a record exactly when evaluation fails or yields a false value.
\<close>

text \<open>A Go \<^verbatim>\<open>any\<close> restricted to the dynamic types the value-maps hold.\<close>

datatype val =
    VNil
  | VInt i64
  | VGoInt i64
  | VFloat f64
  | VBool bool
  | VStr string
  | VStrs "string list"

type_synonym valmap = "string \<Rightarrow> val option"

definition fmtExp :: "int \<Rightarrow> string" where
  "fmtExp e =
     (let sign = (if e < 0 then ''-'' else ''+'');
          es = strconv_Itoa \<bar>e\<bar>
      in ''e'' @ sign @ (if length es < 2 then ''0'' @ es else es))"

definition pyReprMag :: "rat \<Rightarrow> string" where
  "pyReprMag r =
     (let (digits, ex) = shortestDigits r; decpt = ex + 1; n = int (length digits)
      in if decpt \<le> - 4 \<or> 16 < decpt then
           take 1 digits @ (if 1 < length digits then ''.'' @ drop 1 digits else []) @ fmtExp (decpt - 1)
         else if decpt \<le> 0 then ''0.'' @ replicate (nat (- decpt)) (CHR ''0'') @ digits
         else if n \<le> decpt then digits @ replicate (nat (decpt - n)) (CHR ''0'') @ ''.0''
         else take (nat decpt) digits @ ''.'' @ drop (nat decpt) digits)"

fun pyReprFloat :: "f64 \<Rightarrow> string" where
  "pyReprFloat (Inf s) = (if s then ''-inf'' else ''inf'')"
| "pyReprFloat NaN = ''nan''"
| "pyReprFloat (Fin s r) = (if s then ''-'' @ pyReprMag r else pyReprMag r)"

fun pyReprNumber :: "num \<Rightarrow> string" where
  "pyReprNumber (NInt i) = strconv_Itoa (sint i)"
| "pyReprNumber (NFloat f) = pyReprFloat f"

fun pyStr :: "val \<Rightarrow> string" where
  "pyStr (VStr s) = s"
| "pyStr (VInt i) = strconv_Itoa (sint i)"
| "pyStr (VFloat f) = pyReprFloat f"
| "pyStr (VBool b) = (if b then ''True'' else ''False'')"
| "pyStr VNil = ''<nil>''"
| "pyStr (VGoInt i) = strconv_Itoa (sint i)"
| "pyStr (VStrs xs) = ''['' @ strings_Join xs '' '' @ '']''"

fun isNumeric :: "val \<Rightarrow> bool" where
  "isNumeric (VInt _) = True"
| "isNumeric (VFloat _) = True"
| "isNumeric (VBool _) = True"
| "isNumeric _ = False"

fun isFloatVal :: "val \<Rightarrow> bool" where
  "isFloatVal (VFloat _) = True"
| "isFloatVal _ = False"

fun asBool :: "val \<Rightarrow> expr_error + bool" where
  "asBool (VBool b) = Inr b"
| "asBool (VInt i) = Inr (i \<noteq> 0)"
| "asBool (VFloat f) = Inr (\<not> f64_eq f (Fin False 0))"
| "asBool (VStr s) = Inr (s \<noteq> [])"
| "asBool _ = Inl NotBoolean"

fun numToInt :: "val \<Rightarrow> i64" where
  "numToInt (VInt i) = i"
| "numToInt (VFloat f) = word_of_int (f64_to_int64 f)"
| "numToInt (VBool b) = (if b then 1 else 0)"
| "numToInt _ = 0"

fun numToFloat :: "val \<Rightarrow> f64" where
  "numToFloat (VInt i) = f64_of_int (sint i)"
| "numToFloat (VFloat f) = f"
| "numToFloat (VBool b) = (if b then Fin False 1 else Fin False 0)"
| "numToFloat _ = Fin False 0"

fun isNumericZero :: "val \<Rightarrow> bool" where
  "isNumericZero (VInt i) = (i = 0)"
| "isNumericZero (VFloat f) = f64_eq f (Fin False 0)"
| "isNumericZero (VBool b) = (\<not> b)"
| "isNumericZero _ = False"

definition arith :: "string \<Rightarrow> val \<Rightarrow> val \<Rightarrow> expr_error + val" where
  "arith op left right =
     (if \<not> isNumeric left \<or> \<not> isNumeric right then Inl NonNumericOperands
      else let bothInt = (\<not> isFloatVal left \<and> \<not> isFloatVal right);
               li = numToInt left; ri = numToInt right;
               lf = numToFloat left; rf = numToFloat right
           in if op = ''+'' then Inr (if bothInt then VInt (li + ri) else VFloat (f64_add lf rf))
              else if op = ''-'' then Inr (if bothInt then VInt (li - ri) else VFloat (f64_sub lf rf))
              else if op = ''*'' then Inr (if bothInt then VInt (li * ri) else VFloat (f64_mul lf rf))
              else if op = ''/'' then
                (if isNumericZero right then Inl DivisionByZero
                 else Inr (if bothInt then VInt (word_of_int (sint li sdiv sint ri))
                           else VFloat (f64_div lf rf)))
              else Inl (UnknownOperator op))"

fun toFloatAny :: "val \<Rightarrow> f64 option" where
  "toFloatAny (VInt i) = Some (f64_of_int (sint i))"
| "toFloatAny (VFloat f) = Some f"
| "toFloatAny (VBool b) = Some (if b then Fin False 1 else Fin False 0)"
| "toFloatAny (VStr s) = pyFloatParse s"
| "toFloatAny _ = None"

text \<open>\<^verbatim>\<open>coercePair\<close>: a pair of floats or a pair of strings.\<close>

datatype pair = FloatPair f64 f64 | StringPair string string

definition coercePair :: "val \<Rightarrow> val \<Rightarrow> pair" where
  "coercePair left right =
     (if isNumeric left \<and> isNumeric right then FloatPair (numToFloat left) (numToFloat right)
      else case (left, right) of
             (VStr ls, VStr rs) \<Rightarrow> StringPair ls rs
           | _ \<Rightarrow> (case (toFloatAny left, toFloatAny right) of
                     (Some lf, Some rf) \<Rightarrow> FloatPair lf rf
                   | _ \<Rightarrow> StringPair (pyStr left) (pyStr right)))"

definition compare :: "string \<Rightarrow> val \<Rightarrow> val \<Rightarrow> expr_error + bool" where
  "compare op left right =
     (case coercePair left right of
        FloatPair lf rf \<Rightarrow>
          if op = ''=='' then Inr (f64_eq lf rf)
          else if op = ''!='' then Inr (\<not> f64_eq lf rf)
          else if op = ''<'' then Inr (f64_lt lf rf)
          else if op = ''<='' then Inr (f64_le lf rf)
          else if op = ''>'' then Inr (f64_lt rf lf)
          else if op = ''>='' then Inr (f64_le rf lf)
          else Inl (UnknownOperator op)
      | StringPair ls rs \<Rightarrow>
          if op = ''=='' then Inr (ls = rs)
          else if op = ''!='' then Inr (ls \<noteq> rs)
          else if op = ''<'' then Inr (str_lt ls rs)
          else if op = ''<='' then Inr (str_le ls rs)
          else if op = ''>'' then Inr (str_lt rs ls)
          else if op = ''>='' then Inr (str_le rs ls)
          else Inl (UnknownOperator op))"

definition containsFold :: "(string \<Rightarrow> string) \<Rightarrow> val \<Rightarrow> val \<Rightarrow> bool" where
  "containsFold uc left right =
     (if left = VNil \<or> right = VNil then False
      else strings_Contains (strings_ToLower uc (pyStr left)) (strings_ToLower uc (pyStr right)))"

fun numVal :: "num \<Rightarrow> val" where
  "numVal (NInt i) = VInt i"
| "numVal (NFloat f) = VFloat f"

definition boolResult :: "expr_error + bool \<Rightarrow> expr_error + val" where
  "boolResult r = (case r of Inl e \<Rightarrow> Inl e | Inr b \<Rightarrow> Inr (VBool b))"

fun Evaluate :: "(string \<Rightarrow> string) \<Rightarrow> valmap \<Rightarrow> node \<Rightarrow> expr_error + val" where
  "Evaluate uc values (Number n) = Inr (numVal n)"
| "Evaluate uc values (String s) = Inr (VStr s)"
| "Evaluate uc values (Var x) =
     (case values x of None \<Rightarrow> Inl (VariableNotProvided x) | Some v \<Rightarrow> Inr v)"
| "Evaluate uc values (BinOp op l r) =
     (case Evaluate uc values l of
        Inl e \<Rightarrow> Inl e
      | Inr lv \<Rightarrow>
          if op = ''&&'' then
            (case asBool lv of
               Inl e \<Rightarrow> Inl e
             | Inr lb \<Rightarrow> if \<not> lb then Inr (VBool False)
                        else (case Evaluate uc values r of
                                Inl e \<Rightarrow> Inl e | Inr rv \<Rightarrow> boolResult (asBool rv)))
          else if op = ''||'' then
            (case asBool lv of
               Inl e \<Rightarrow> Inl e
             | Inr lb \<Rightarrow> if lb then Inr (VBool True)
                        else (case Evaluate uc values r of
                                Inl e \<Rightarrow> Inl e | Inr rv \<Rightarrow> boolResult (asBool rv)))
          else
            (case Evaluate uc values r of
               Inl e \<Rightarrow> Inl e
             | Inr rv \<Rightarrow>
                 if op = ''+'' \<or> op = ''-'' \<or> op = ''*'' \<or> op = ''/'' then arith op lv rv
                 else if op = ''~'' then Inr (VBool (containsFold uc lv rv))
                 else boolResult (compare op lv rv)))"

definition EvaluateStreamNode :: "(string \<Rightarrow> string) \<Rightarrow> node \<Rightarrow> valmap \<Rightarrow> bool" where
  "EvaluateStreamNode uc n values =
     (case Evaluate uc values n of
        Inl e \<Rightarrow> False
      | Inr v \<Rightarrow> (case asBool v of Inl e \<Rightarrow> False | Inr b \<Rightarrow> b))"

definition EvaluateStream :: "(string \<Rightarrow> string) \<Rightarrow> string \<Rightarrow> valmap \<Rightarrow> bool" where
  "EvaluateStream uc expression values =
     (case Parse expression of
        Inl e \<Rightarrow> False
      | Inr n \<Rightarrow> (case Evaluate uc values n of
                    Inl e \<Rightarrow> False
                  | Inr v \<Rightarrow> (case asBool v of Inl e \<Rightarrow> False | Inr b \<Rightarrow> b)))"

subsection \<open>Comparison operators\<close>

fun swapPair :: "pair \<Rightarrow> pair" where
  "swapPair (FloatPair a b) = FloatPair b a"
| "swapPair (StringPair a b) = StringPair b a"

lemma coercePair_swap: "coercePair r l = swapPair (coercePair l r)"
  by (cases l; cases r) (auto simp: coercePair_def split: option.splits)

lemma f64_le_iff: "a \<noteq> NaN \<Longrightarrow> b \<noteq> NaN \<Longrightarrow> f64_le a b \<longleftrightarrow> \<not> f64_lt b a"
  using f64_trichotomy [of a b] f64_lt_asym [of a b] f64_eq_not_lt [of b a] f64_eq_sym [of a b]
  by (auto simp: f64_le_def)

definition ordered :: "pair \<Rightarrow> bool" where
  "ordered p \<longleftrightarrow> (case p of FloatPair a b \<Rightarrow> a \<noteq> NaN \<and> b \<noteq> NaN | StringPair _ _ \<Rightarrow> True)"

lemma compare_le_not_gt:
  "ordered (coercePair l r) \<Longrightarrow> compare ''<='' l r = map_sum id Not (compare ''>'' l r)"
  by (auto simp: compare_def ordered_def f64_le_iff str_le_def split: pair.splits)

subsection \<open>Selection of records\<close>

definition truth :: "(string \<Rightarrow> string) \<Rightarrow> valmap \<Rightarrow> node \<Rightarrow> expr_error + bool" where
  "truth uc vals n = (case Evaluate uc vals n of Inl e \<Rightarrow> Inl e | Inr v \<Rightarrow> asBool v)"

lemma EvaluateStreamNode_truth: "EvaluateStreamNode uc n vals \<longleftrightarrow> truth uc vals n = Inr True"
  by (auto simp: EvaluateStreamNode_def truth_def split: sum.splits)

lemma EvaluateStream_parse:
  "EvaluateStream uc s vals \<longleftrightarrow> (\<exists>n. Parse s = Inr n \<and> EvaluateStreamNode uc n vals)"
  by (auto simp: EvaluateStream_def EvaluateStreamNode_def split: sum.splits)

lemma truth_and:
  "truth uc vals (BinOp ''&&'' l r) =
     (case truth uc vals l of Inl e \<Rightarrow> Inl e | Inr b \<Rightarrow> if b then truth uc vals r else Inr False)"
  by (auto simp: truth_def boolResult_def split: sum.splits)

lemma truth_or:
  "truth uc vals (BinOp ''||'' l r) =
     (case truth uc vals l of Inl e \<Rightarrow> Inl e | Inr b \<Rightarrow> if b then Inr True else truth uc vals r)"
  by (auto simp: truth_def boolResult_def split: sum.splits)

subsection \<open>Which errors evaluation can raise\<close>

fun nodeOps :: "node \<Rightarrow> string set" where
  "nodeOps (BinOp op l r) = insert op (nodeOps l \<union> nodeOps r)"
| "nodeOps _ = {}"

fun nodeVars :: "node \<Rightarrow> string set" where
  "nodeVars (Var x) = {x}"
| "nodeVars (BinOp op l r) = nodeVars l \<union> nodeVars r"
| "nodeVars _ = {}"

lemma derives_ops: "derives p ts n \<Longrightarrow> nodeOps n \<subseteq> dom bindingPower"
  by (induction rule: derives.induct) auto

lemma Parse_ops: "Parse s = Inr n \<Longrightarrow> nodeOps n \<subseteq> dom bindingPower"
  by (auto simp: Parse_def parseTokens_iff dest!: derives_ops split: sum.splits if_splits)

lemma known_operator:
  "op \<in> dom bindingPower \<Longrightarrow>
     op \<in> {''||'', ''&&'', ''=='', ''!='', ''~'', ''<'', ''<='', ''>'', ''>='', ''+'', ''-'', ''*'', ''/''}"
  by (auto simp: bindingPower_def split: if_splits)

definition runtime_error :: "valmap \<Rightarrow> node \<Rightarrow> expr_error \<Rightarrow> bool" where
  "runtime_error vals n e \<longleftrightarrow>
     e \<in> {NotBoolean, NonNumericOperands, DivisionByZero}
     \<or> (\<exists>x \<in> nodeVars n. vals x = None \<and> e = VariableNotProvided x)"

lemma runtime_error_sub:
  "runtime_error vals l e \<Longrightarrow> runtime_error vals (BinOp op l r) e"
  "runtime_error vals r e \<Longrightarrow> runtime_error vals (BinOp op l r) e"
  by (auto simp: runtime_error_def)

lemma asBool_error: "asBool v = Inl e \<Longrightarrow> e = NotBoolean"
  by (cases v) auto

lemma arith_error:
  "op \<in> {''+'', ''-'', ''*'', ''/''} \<Longrightarrow> arith op l r = Inl e \<Longrightarrow> e \<in> {NonNumericOperands, DivisionByZero}"
  by (auto simp: arith_def Let_def split: if_splits)

lemma compare_no_error:
  "op \<in> {''=='', ''!='', ''<'', ''<='', ''>'', ''>=''} \<Longrightarrow> \<exists>b. compare op l r = Inr b"
  by (auto simp: compare_def split: pair.splits)

lemma Evaluate_errors:
  assumes "nodeOps n \<subseteq> dom bindingPower" "Evaluate uc vals n = Inl e"
  shows "runtime_error vals n e"
  using assms
proof (induction n arbitrary: e)
  case (Var x)
  then show ?case by (auto simp: runtime_error_def split: option.splits)
next
  case (BinOp op l r)
  have op: "op \<in> {''||'', ''&&'', ''=='', ''!='', ''~'', ''<'', ''<='', ''>'', ''>='', ''+'', ''-'', ''*'', ''/''}"
    using BinOp.prems(1) by (intro known_operator) simp
  have sub: "Evaluate uc vals l = Inl e' \<Longrightarrow> runtime_error vals l e'"
    "Evaluate uc vals r = Inl e' \<Longrightarrow> runtime_error vals r e'" for e'
    using BinOp by auto
  consider "Evaluate uc vals l = Inl e" | "Evaluate uc vals r = Inl e"
    | v where "asBool v = Inl e"
    | lv rv where "op \<in> {''+'', ''-'', ''*'', ''/''}" "arith op lv rv = Inl e"
    | lv rv where "op \<in> {''=='', ''!='', ''<'', ''<='', ''>'', ''>=''}" "compare op lv rv = Inl e"
    using BinOp.prems(2) op
    by (auto simp: boolResult_def split: sum.splits if_splits)
  then show ?case
  proof cases
    case 1 then show ?thesis using sub by (blast intro: runtime_error_sub)
  next
    case 2 then show ?thesis using sub by (blast intro: runtime_error_sub)
  next
    case 3 then show ?thesis using asBool_error by (auto simp: runtime_error_def)
  next
    case 4 then show ?thesis using arith_error by (fastforce simp: runtime_error_def)
  next
    case 5 then show ?thesis using compare_no_error by (metis Inl_Inr_False)
  qed
qed simp_all

section \<open>Properties\<close>

text \<open>The comparison operators of the filter language are coherent on every pair of values,
  whatever the coercion picks: equality is symmetric, inequality is its negation, greater-than is
  less-than with the operands exchanged (strict and non-strict), and none of the six fails.\<close>

lemma compare_laws:
  "compare ''=='' l r = compare ''=='' r l
   \<and> compare ''!='' l r = map_sum id Not (compare ''=='' l r)
   \<and> compare ''>'' l r = compare ''<'' r l
   \<and> compare ''>='' l r = compare ''<='' r l
   \<and> (\<exists>b c d. compare ''=='' l r = Inr b \<and> compare ''<'' l r = Inr c \<and> compare ''<='' l r = Inr d)"
  by (auto simp: compare_def coercePair_swap [of r l] f64_eq_sym split: pair.splits)

text \<open>A conjunction selects exactly the records both conjuncts select; a disjunction selects a
  record the left side selects, or one the right side selects provided the left side evaluates to
  false without an error. A record on which a needed sub-expression fails is excluded.\<close>

lemma selection_and_or:
  "(EvaluateStreamNode uc (BinOp ''&&'' l r) vals \<longleftrightarrow>
      EvaluateStreamNode uc l vals \<and> EvaluateStreamNode uc r vals)
   \<and> (EvaluateStreamNode uc (BinOp ''||'' l r) vals \<longleftrightarrow>
      EvaluateStreamNode uc l vals \<or> (truth uc vals l = Inr False \<and> EvaluateStreamNode uc r vals))"
  by (auto simp: EvaluateStreamNode_truth truth_and truth_or split: sum.splits)

text \<open>Evaluating any expression the parser returns, on any record, either yields a value or
  fails for one of four reasons: a field the record lacks, a non-boolean operand of a connective,
  a non-numeric operand of arithmetic, or a division by zero. In particular no operator of a parsed
  expression is unknown to the evaluator.\<close>

lemma parsed_expression_errors:
  assumes "Parse s = Inr n" "Evaluate uc vals n = Inl e"
  shows "e \<in> {NotBoolean, NonNumericOperands, DivisionByZero}
     \<or> (\<exists>x \<in> nodeVars n. vals x = None \<and> e = VariableNotProvided x)"
  using Evaluate_errors [OF Parse_ops [OF assms(1)] assms(2)] by (simp add: runtime_error_def)

end
