(* ===== verification/Filter_Text.thy ===== *)
theory Filter_Text
  imports Filter_Eval
begin

text \<open>
  The filter language as text: a printer for expressions and the round trip through the tokenizer
  and the parser. The printer puts parentheses around every binary expression, so the round trip
  exercises every token class next to each of its possible neighbours.
\<close>

fun unparse :: "node \<Rightarrow> string" where
  "unparse (Number (NInt i)) = strconv_Itoa (sint i)"
| "unparse (Number (NFloat f)) = pyReprFloat f"
| "unparse (String s) = [CHR 0x22] @ s @ [CHR 0x22]"
| "unparse (Var x) = x"
| "unparse (BinOp op l r) = ''('' @ unparse l @ '' '' @ op @ '' '' @ unparse r @ '')''"

fun tokens :: "node \<Rightarrow> token list" where
  "tokens (Number v) = [TNumber v]"
| "tokens (String s) = [TString s]"
| "tokens (Var x) = [TIdent x]"
| "tokens (BinOp op l r) = TLparen # tokens l @ TOp op # tokens r @ [TRparen]"

text \<open>Expressions with a concrete text: integer literals that are not negative, strings without a
  quote, identifiers, known operators.\<close>

fun printable :: "node \<Rightarrow> bool" where
  "printable (Number (NInt i)) = (0 \<le> sint i)"
| "printable (Number (NFloat f)) = False"
| "printable (String s) = (CHR 0x22 \<notin> set s)"
| "printable (Var x) = (x \<noteq> [] \<and> isIdentStart (hd x) \<and> list_all isIdentBody (tl x))"
| "printable (BinOp op l r) = (bindingPower op \<noteq> None \<and> printable l \<and> printable r)"

lemma derives_tokens: "printable n \<Longrightarrow> derives p (tokens n) n"
proof (induction n arbitrary: p)
  case (BinOp op l r)
  then obtain bp where bp: "bindingPower op = Some bp" by auto
  with BinOp have "derives 0 (tokens l @ TOp op # tokens r) (BinOp op l r)"
    by (auto intro!: derives.d_binop simp: bindingPower_pos)
  from derives.d_paren [OF this] show ?case by simp
qed (auto intro: derives.intros)

fun appendTokens :: "token list \<Rightarrow> expr_error + token list \<Rightarrow> expr_error + token list" where
  "appendTokens [] r = r"
| "appendTokens (t # ts) r = consToken t (appendTokens ts r)"

lemma appendTokens_append [simp]: "appendTokens (xs @ ys) r = appendTokens xs (appendTokens ys r)"
  by (induction xs) auto

lemma appendTokens_Inr: "appendTokens ts (Inr us) = Inr (ts @ us)"
  by (induction ts) (auto simp: consToken_def)

definition boundary :: "string \<Rightarrow> bool" where
  "boundary s \<longleftrightarrow> s = [] \<or> hd s = CHR '' '' \<or> hd s = CHR '')''"

lemma takeWhile_boundary:
  assumes "list_all P s" "boundary rest" "\<not> P (CHR '' '')" "\<not> P (CHR '')'')"
  shows "takeWhile P (s @ rest) = s"
proof -
  have "takeWhile P rest = []" using assms(2-) by (cases rest) (auto simp: boundary_def)
  then show ?thesis using assms(1) by (simp add: takeWhile_append list_all_iff)
qed

lemma not_body_boundary: "\<not> isIdentBody (CHR '' '')" "\<not> isIdentBody (CHR '')'')"
  by (simp_all add: isIdentBody_def isIdentStart_def isDigit_def)

lemma ident_start_facts:
  "isIdentStart c \<Longrightarrow> \<not> isSpaceByte c \<and> c \<noteq> CHR ''('' \<and> c \<noteq> CHR '')'' \<and> c \<noteq> CHR 0x22 \<and> \<not> isDigit c"
  by (auto simp: isIdentStart_def isSpaceByte_def isDigit_def)

lemma digit_facts:
  "isDigit c \<Longrightarrow> \<not> isSpaceByte c \<and> c \<noteq> CHR ''('' \<and> c \<noteq> CHR '')'' \<and> c \<noteq> CHR 0x22"
  by (auto simp: isSpaceByte_def isDigit_def)

lemma tokenize_ident:
  assumes "isIdentStart c" "list_all isIdentBody s" "boundary rest"
  shows "tokenizeAt i (c # s @ rest) = consToken (TIdent (c # s)) (tokenizeAt (i + 1 + length s) rest)"
  using ident_start_facts [OF assms(1)] assms takeWhile_boundary [OF assms(2,3) not_body_boundary]
  by (simp add: tokenizeAt.simps(2) Let_def)

lemma tokenize_string:
  assumes "CHR 0x22 \<notin> set s"
  shows "tokenizeAt i (CHR 0x22 # s @ CHR 0x22 # rest)
     = consToken (TString s) (tokenizeAt (i + length s + 2) rest)"
proof -
  have tw: "takeWhile (\<lambda>d. d \<noteq> CHR 0x22) (s @ CHR 0x22 # rest) = s"
    "dropWhile (\<lambda>d. d \<noteq> CHR 0x22) (s @ CHR 0x22 # rest) = CHR 0x22 # rest"
    using assms by (auto simp: takeWhile_append dropWhile_append)
  have "\<not> isSpaceByte (CHR 0x22)" by (simp add: isSpaceByte_def)
  then show ?thesis by (simp add: tokenizeAt.simps(2) Let_def tw)
qed

lemma scanNumber_decimal:
  assumes "boundary rest"
  shows "scanNumber (decimalNat k @ rest) =
     Inr (length (decimalNat k), TNumber (NInt (parseLeadingInt (decimalNat k))))"
proof -
  let ?ds = "decimalNat k"
  have ds: "list_all isDigit ?ds" by (rule decimalNat_digits)
  have tw: "takeWhile (\<lambda>c. isDigit c \<or> c = CHR ''.'') (?ds @ rest) = ?ds"
    using ds assms by (intro takeWhile_boundary) (auto simp: list_all_iff isDigit_def)
  have nodot: "CHR ''.'' \<notin> set ?ds" using ds by (auto simp: list_all_iff isDigit_def)
  have nothex: "\<not> (case ?ds @ rest of z # x # _ \<Rightarrow> z = CHR ''0'' \<and> (x = CHR ''x'' \<or> x = CHR ''X'') | _ \<Rightarrow> False)"
    using ds assms by (auto simp: isDigit_def boundary_def split: list.splits)
      (auto simp: append_eq_Cons_conv isDigit_def)
  show ?thesis using nothex by (simp only: scanNumber_def tw Let_def) (simp add: nodot)
qed

lemma parseLeadingInt_Itoa: "parseLeadingInt (strconv_Itoa (sint (i::i64))) = i"
proof -
  have "minInt64 \<le> sint i" "sint i \<le> maxInt64"
    using sint_ge [of i] sint_lt [of i] by (auto simp: minInt64_def maxInt64_def)
  then show ?thesis by (simp add: parseLeadingInt_def ParseInt_Itoa)
qed

lemma tokenize_int:
  assumes "0 \<le> sint i" "boundary rest"
  shows "tokenizeAt j (strconv_Itoa (sint (i::i64)) @ rest)
     = consToken (TNumber (NInt i)) (tokenizeAt (j + length (strconv_Itoa (sint i))) rest)"
proof -
  define k where "k = nat (sint i)"
  have it: "strconv_Itoa (sint i) = decimalNat k" using assms by (simp add: strconv_Itoa_def k_def)
  obtain c s where cs: "decimalNat k = c # s" by (cases "decimalNat k") auto
  then have "isDigit c" using decimalNat_digits [of k] by simp
  note f = digit_facts [OF this] \<open>isDigit c\<close>
  have "scanNumber (c # s @ rest) = Inr (Suc (length s), TNumber (NInt i))"
    using scanNumber_decimal [OF assms(2), of k] parseLeadingInt_Itoa [of i] cs it by simp
  then show ?thesis using f by (simp add: it cs tokenizeAt.simps(2))
qed

lemma tokenize_op:
  assumes "bindingPower op \<noteq> None"
  shows "tokenizeAt i (CHR '' '' # op @ CHR '' '' # rest) =
     consToken (TOp op) (tokenizeAt (i + length op + 2) rest)"
proof -
  have "op \<in> dom bindingPower" using assms by auto
  from known_operator [OF this] show ?thesis
    by (auto simp: tokenizeAt.simps(2) isSpaceByte_def isDigit_def isIdentStart_def twoCharOps_def oneCharOps_def)
qed

lemma tokenize_paren:
  "tokenizeAt i (CHR ''('' # rest) = consToken TLparen (tokenizeAt (i + 1) rest)"
  "tokenizeAt i (CHR '')'' # rest) = consToken TRparen (tokenizeAt (i + 1) rest)"
  by (simp_all add: tokenizeAt.simps(2) isSpaceByte_def)

lemma tokenize_unparse:
  "printable n \<Longrightarrow> boundary rest \<Longrightarrow>
     \<exists>j. tokenizeAt i (unparse n @ rest) = appendTokens (tokens n) (tokenizeAt j rest)"
proof (induction n arbitrary: i rest rule: unparse.induct)
  case (1 v)
  then show ?case using tokenize_int by auto
next
  case (3 s)
  then show ?case using tokenize_string by (auto intro!: exI)
next
  case (4 x)
  then show ?case by (cases x) (auto simp: tokenize_ident)
next
  case (5 op l r)
  let ?R = "unparse r @ CHR '')'' # rest"
  have bl: "boundary (CHR '' '' # op @ CHR '' '' # ?R)" and br: "boundary (CHR '')'' # rest)"
    by (simp_all add: boundary_def)
  from 5 bl obtain j where j: "tokenizeAt (Suc i) (unparse l @ CHR '' '' # op @ CHR '' '' # ?R) =
      appendTokens (tokens l) (tokenizeAt j (CHR '' '' # op @ CHR '' '' # ?R))"
    by fastforce
  from 5 br obtain k where k: "tokenizeAt (Suc (Suc (j + length op))) ?R
      = appendTokens (tokens r) (tokenizeAt k (CHR '')'' # rest))"
    by fastforce
  show ?case
    using 5(3) by (auto simp: tokenize_paren j k tokenize_op)
qed simp

lemma Tokenize_unparse: "printable n \<Longrightarrow> Tokenize (unparse n) = Inr (tokens n)"
proof -
  assume "printable n"
  moreover have "boundary []" by (simp add: boundary_def)
  ultimately obtain j where "tokenizeAt 0 (unparse n @ []) = appendTokens (tokens n) (tokenizeAt j [])"
    using tokenize_unparse by blast
  then show ?thesis by (simp add: Tokenize_def appendTokens_Inr)
qed

lemma derives_nonempty: "derives p ts n \<Longrightarrow> ts \<noteq> []"
  by (induction rule: derives.induct) auto

section \<open>Properties\<close>

text \<open>C10: The filter parser is exactly the declared grammar: a text is accepted, with a given tree, if
  and only if it lexes to tokens that the stratified, left-associative grammar derives with that
  tree. The precedence levels are those of the binding-power table, and parentheses reset them.\<close>

theorem Parse_correct: "Parse s = Inr n \<longleftrightarrow> (\<exists>ts. Tokenize s = Inr ts \<and> derives 0 ts n)"
  using derives_nonempty by (auto simp: Parse_def parseTokens_iff split: sum.splits if_splits)

text \<open>The grammar is unambiguous: the tokens of a text determine its tree, so precedence and
  associativity leave no choice.\<close>

lemma derives_unambiguous: "derives 0 ts m \<Longrightarrow> derives 0 ts n \<Longrightarrow> m = n"
  using parseTokens_iff by (metis Inr_inject)

text \<open>C11: Printing an expression and parsing the text gives the expression back, for every
  expression with non-negative integer literals, strings without a quote and identifiers: the
  tokenizer and the parser lose nothing.\<close>

theorem Parse_unparse: "printable n \<Longrightarrow> Parse (unparse n) = Inr n"
  using Tokenize_unparse derives_tokens derives_nonempty
  by (fastforce simp: Parse_def parseTokens_iff)

theorem Parse_unparse_witness:
  "printable (BinOp ''&&'' (BinOp ''>'' (Var ''jitter'') (Number (NInt 30)))
     (BinOp ''~'' (Var ''sip_src'') (String ''vip'')))
   \<and> Parse (unparse (BinOp ''&&'' (BinOp ''>'' (Var ''jitter'') (Number (NInt 30)))
     (BinOp ''~'' (Var ''sip_src'') (String ''vip''))))
     = Inr (BinOp ''&&'' (BinOp ''>'' (Var ''jitter'') (Number (NInt 30)))
     (BinOp ''~'' (Var ''sip_src'') (String ''vip'')))"
proof -
  have p: "printable (BinOp ''&&'' (BinOp ''>'' (Var ''jitter'') (Number (NInt 30)))
     (BinOp ''~'' (Var ''sip_src'') (String ''vip'')))"
    by (simp add: bindingPower_def isIdentStart_def isIdentBody_def)
  show ?thesis using Parse_unparse [OF p] p by blast
qed

end
