(* ===== verification/Filter_Sql.thy ===== *)
theory Filter_Sql
  imports Filter_Eval
begin

text \<open>
  The SQL emitter of the filter language (\<^verbatim>\<open>ToSQL\<close> in \<^verbatim>\<open>filter/expression.go\<close>), the
  column maps and the ORDER BY whitelist (\<^verbatim>\<open>filter/namemap.go\<close>, \<^verbatim>\<open>filter/sipcalls.go\<close>).
  The lemmas show that string literals reach SQL only as bound parameters: the text does not depend
  on their contents, the parameters are the literals in source order and there is one placeholder
  for each.
\<close>

record sql_fragment =
  frag_text :: string
  frag_params :: "string list"

definition sqlOp :: "string \<Rightarrow> string" where
  "sqlOp op =
     (case map_of [(''=='', ''=''), (''!='', ''<>''), (''&&'', ''AND''), (''||'', ''OR''),
                   (''<'', ''<''), (''<='', ''<=''), (''>'', ''>''), (''>='', ''>=''),
                   (''+'', ''+''), (''-'', ''-''), (''*'', ''*''), (''/'', ''/'')] op of
        Some t \<Rightarrow> t | None \<Rightarrow> [])"

definition marker :: "string \<Rightarrow> expr_error + string" where
  "marker dialect =
     (if dialect = ''qmark'' then Inr ''?''
      else if dialect = ''format'' then Inr ''%s''
      else if dialect = ''numeric'' then Inr '':1''
      else Inl (UnknownDialect dialect))"

function renumberFrom :: "nat \<Rightarrow> string \<Rightarrow> string" where
  "renumberFrom idx [] = []"
| "renumberFrom idx (c # s) =
     (if strings_HasPrefix (c # s) '':1''
      then '':'' @ strconv_Itoa (int (Suc idx)) @ renumberFrom (Suc idx) (drop 2 (c # s))
      else c # renumberFrom idx s)"
  by pat_completeness auto
termination
  by (relation "measure (\<lambda>(i, s). length s)") auto

definition renumber :: "string \<Rightarrow> string" where
  "renumber s = renumberFrom 0 s"

fun ToSQL :: "(string \<Rightarrow> string option) \<Rightarrow> string \<Rightarrow> node \<Rightarrow> expr_error + sql_fragment" where
  "ToSQL nameMap dialect (Number n) = Inr \<lparr>frag_text = pyReprNumber n, frag_params = []\<rparr>"
| "ToSQL nameMap dialect (String s) =
     (case marker dialect of
        Inl e \<Rightarrow> Inl e
      | Inr m \<Rightarrow> Inr \<lparr>frag_text = m, frag_params = [s]\<rparr>)"
| "ToSQL nameMap dialect (Var x) =
     (case nameMap x of
        None \<Rightarrow> Inl (UnknownField x)
      | Some column \<Rightarrow> Inr \<lparr>frag_text = column, frag_params = []\<rparr>)"
| "ToSQL nameMap dialect (BinOp op l r) =
     (case ToSQL nameMap dialect l of
        Inl e \<Rightarrow> Inl e
      | Inr left \<Rightarrow>
          (case ToSQL nameMap dialect r of
             Inl e \<Rightarrow> Inl e
           | Inr right \<Rightarrow>
               let txt = (if op = ''~''
                          then ''(instr(lower(CAST('' @ frag_text left @ '' AS TEXT)), lower(''
                               @ frag_text right @ '')) > 0)''
                          else ''('' @ frag_text left @ '' '' @ sqlOp op @ '' '' @ frag_text right @ '')'')
               in Inr \<lparr>frag_text = (if dialect = ''numeric'' then renumber txt else txt),
                       frag_params = frag_params left @ frag_params right\<rparr>))"

definition silenceRatioSQL :: string where
  "silenceRatioSQL = ''(CAST(COALESCE(rtpmon_statistics.dtx_sid, 0) + COALESCE(rtpmon_statistics.dtx_count, 0) AS REAL) / NULLIF(rtpmon_statistics.dtx_total, 0))''"

definition SQLNameMap :: "string \<Rightarrow> string option" where
  "SQLNameMap = map_of
     [(''start_time'', ''(rtpmon_statistics.start_timestamp / 1000)''),
      (''sevana_mos'', ''rtpmon_statistics.sevana_mos''),
      (''sevana_rfactor'', ''rtpmon_statistics.sevana_rfactor''),
      (''network_mos'', ''rtpmon_statistics.network_mos''),
      (''jitter'', ''rtpmon_statistics.jitter''),
      (''rtt_delay'', ''rtpmon_statistics.rtt_delay''),
      (''silence_ratio'', silenceRatioSQL),
      (''duration'', ''(rtpmon_statistics.end_timestamp - rtpmon_statistics.start_timestamp)''),
      (''duration_audio'', ''rtpmon_statistics.duration_audio''),
      (''src_ip'', ''rtpmon_streams.src_ip''),
      (''src_port'', ''rtpmon_streams.src_port''),
      (''dst_ip'', ''rtpmon_streams.dst_ip''),
      (''dst_port'', ''rtpmon_streams.dst_port''),
      (''sip_source'', ''rtpmon_streams.sip_source''),
      (''sip_src'', ''rtpmon_streams.sip_source''),
      (''sip_destination'', ''rtpmon_streams.sip_destination''),
      (''sip_dst'', ''rtpmon_streams.sip_destination''),
      (''sip_callid'', ''rtpmon_streams.sip_callid''),
      (''ssrc'', ''rtpmon_streams.ssrc''),
      (''instance_id'', ''rtpmon_instances.agent_id''),
      (''instance_name'', ''rtpmon_instances.agent_name'')]"

definition SortColumns :: "string \<Rightarrow> string option" where
  "SortColumns = map_of
     [('''', ''rtpmon_statistics.stream_id''),
      (''duration'', ''(rtpmon_statistics.end_timestamp - rtpmon_statistics.start_timestamp)''),
      (''jitter'', ''rtpmon_statistics.jitter''),
      (''silence_ratio'', silenceRatioSQL),
      (''sevana_mos'', ''rtpmon_statistics.sevana_mos''),
      (''network_mos'', ''rtpmon_statistics.network_mos''),
      (''start_time'', ''rtpmon_statistics.start_timestamp''),
      (''end_time'', ''rtpmon_statistics.end_timestamp''),
      (''src_ip'', ''rtpmon_streams.src_ip''),
      (''dst_ip'', ''rtpmon_streams.dst_ip''),
      (''sip_src'', ''rtpmon_streams.sip_source''),
      (''sip_dst'', ''rtpmon_streams.sip_destination''),
      (''sevana_rfactor'', ''rtpmon_statistics.sevana_rfactor'')]"

definition callStreamsSQL :: string where
  "callStreamsSQL = '' from rtpmon_streams s join rtpmon_statistics t on t.stream_id = s.stream_id where s.sip_callid = c.call_id)''"

definition SipCallNameMap :: "string \<Rightarrow> string option" where
  "SipCallNameMap = map_of
     [(''caller'', ''c.caller''),
      (''callee'', ''c.callee''),
      (''call_id'', ''c.call_id''),
      (''start_time'', ''(c.start_timestamp / 1000)''),
      (''duration'', ''c.duration''),
      (''code'', ''COALESCE(c.response_code, c.setup_code)''),
      (''status'', ''(CASE WHEN c.failed = 1 THEN '' @ [CHR 0x27] @ ''failed'' @ [CHR 0x27]
         @ '' WHEN c.established = 1 THEN '' @ [CHR 0x27] @ ''established'' @ [CHR 0x27]
         @ '' ELSE '' @ [CHR 0x27] @ ''unknown'' @ [CHR 0x27] @ '' END)''),
      (''reinvites'', ''c.reinvite_count''),
      (''sevana_mos'', ''COALESCE((select min(nullif(t.sevana_mos, 0))'' @ callStreamsSQL @ '', 0)''),
      (''network_mos'', ''(select min(t.network_mos)'' @ callStreamsSQL)]"

definition BuildWhereNode :: "node \<Rightarrow> string \<Rightarrow> expr_error + sql_fragment" where
  "BuildWhereNode n dialect = ToSQL SQLNameMap dialect n"

definition BuildWhere :: "string \<Rightarrow> string \<Rightarrow> expr_error + sql_fragment" where
  "BuildWhere expression dialect =
     (case Parse expression of Inl e \<Rightarrow> Inl e | Inr n \<Rightarrow> ToSQL SQLNameMap dialect n)"

definition BuildSipCallWhere :: "string \<Rightarrow> string \<Rightarrow> expr_error + sql_fragment" where
  "BuildSipCallWhere expression dialect =
     (case Parse expression of Inl e \<Rightarrow> Inl e | Inr n \<Rightarrow> ToSQL SipCallNameMap dialect n)"

definition BuildOrderBy :: "string \<Rightarrow> bool \<Rightarrow> string" where
  "BuildOrderBy sortField descending =
     (let column = (case SortColumns sortField of Some c \<Rightarrow> c
                    | None \<Rightarrow> (case SortColumns '''' of Some c \<Rightarrow> c | None \<Rightarrow> []))
      in column @ '' '' @ (if descending then ''desc'' else ''asc''))"

subsection \<open>Literals, fields, placeholders\<close>

fun literals :: "node \<Rightarrow> string list" where
  "literals (String s) = [s]"
| "literals (BinOp op l r) = literals l @ literals r"
| "literals _ = []"

text \<open>The same expression with every string literal replaced.\<close>

fun relabel :: "(string \<Rightarrow> string) \<Rightarrow> node \<Rightarrow> node" where
  "relabel f (String s) = String (f s)"
| "relabel f (BinOp op l r) = BinOp op (relabel f l) (relabel f r)"
| "relabel f n = n"

lemma ToSQL_params: "ToSQL nm d n = Inr fr \<Longrightarrow> frag_params fr = literals n"
  by (induction n arbitrary: fr) (auto simp: Let_def split: sum.splits option.splits)

lemma ToSQL_relabel:
  "ToSQL nm d (relabel f n) =
     map_sum id (\<lambda>fr. fr\<lparr>frag_params := map f (frag_params fr)\<rparr>) (ToSQL nm d n)"
  by (induction n) (auto simp: Let_def split: sum.splits option.splits)

lemma ToSQL_fields: "ToSQL nm d n = Inr fr \<Longrightarrow> nodeVars n \<subseteq> dom nm"
  by (induction n arbitrary: fr) (auto simp: Let_def split: sum.splits option.splits)

lemma ToSQL_total:
  "nodeVars n \<subseteq> dom nm \<Longrightarrow> marker d = Inr m \<Longrightarrow> \<exists>fr. ToSQL nm d n = Inr fr"
  by (induction n) (auto simp: Let_def split: sum.splits option.splits)

lemma ToSQL_error_field:
  "ToSQL nm d n = Inl e \<Longrightarrow> marker d = Inr m \<Longrightarrow> \<exists>x \<in> nodeVars n. nm x = None \<and> e = UnknownField x"
  by (induction n arbitrary: e) (auto simp: Let_def split: sum.splits option.splits)

subsection \<open>Number literals are harmless text\<close>

definition numericText :: "string \<Rightarrow> bool" where
  "numericText s \<longleftrightarrow> list_all (\<lambda>c. isDigit c \<or> c \<in> set ''.+-einfa'') s"

lemma numericText_Nil [simp]: "numericText []"
  by (simp add: numericText_def)

lemma numericText_Cons [simp]:
  "numericText (c # s) \<longleftrightarrow> (isDigit c \<or> c \<in> set ''.+-einfa'') \<and> numericText s"
  by (simp add: numericText_def)

lemma numericText_append [simp]: "numericText (s @ t) \<longleftrightarrow> numericText s \<and> numericText t"
  by (simp add: numericText_def)

lemma numericText_digits: "list_all isDigit s \<Longrightarrow> numericText s"
  by (auto simp: numericText_def list_all_iff)

lemma numericText_Itoa: "numericText (strconv_Itoa i)"
  using Itoa_chars [of i] by (auto simp: numericText_def list_all_iff)

lemma numericText_replicate0: "numericText (replicate n (CHR ''0''))"
  by (auto simp: numericText_def list_all_iff isDigit_def)

lemma shortestDigits_digits: "list_all isDigit (fst (shortestDigits r))"
proof -
  have "list_all isDigit (stripZeros (decimalNat n))" for n
    using decimalNat_digits [of n] set_dropWhileD
    by (fastforce simp: stripZeros_def list_all_iff)
  then have "list_all isDigit (case stripZeros (decimalNat n) of [] \<Rightarrow> ''0'' | d # t \<Rightarrow> d # t)" for n
    by (cases "stripZeros (decimalNat n)") (simp add: isDigit_def, metis list.simps(5))
  then show ?thesis
    by (auto simp: shortestDigits_def isDigit_def Let_def split: prod.splits)
qed

lemma numericText_parts:
  "list_all isDigit ds \<Longrightarrow> numericText (take n ds) \<and> numericText (drop n ds)"
  by (auto simp: numericText_def list_all_iff dest: in_set_takeD in_set_dropD)

lemma numericText_fmtExp: "numericText (fmtExp e)"
  by (simp add: fmtExp_def Let_def numericText_Itoa isDigit_def)

lemma numericText_pyReprMag: "numericText (pyReprMag r)"
proof -
  obtain ds ex where d: "shortestDigits r = (ds, ex)" by (cases "shortestDigits r")
  have ds: "list_all isDigit ds" using shortestDigits_digits [of r] d by simp
  have zero: "isDigit (CHR ''0'')" by (simp add: isDigit_def)
  note parts = numericText_parts [OF ds] numericText_digits [OF ds]
  show ?thesis
    using parts numericText_fmtExp numericText_replicate0 zero
    by (simp add: pyReprMag_def d Let_def)
qed

lemma numericText_pyReprNumber: "numericText (pyReprNumber v)"
proof (cases v)
  case (NInt i)
  then show ?thesis by (simp add: numericText_Itoa)
next
  case (NFloat f)
  then show ?thesis
    using numericText_pyReprMag by (cases f) auto
qed

lemma no_qmark_number: "count_list (pyReprNumber v) (CHR ''?'') = 0"
  using numericText_pyReprNumber [of v]
  by (auto simp: numericText_def list_all_iff isDigit_def count_list_0_iff)

lemma no_qmark_sqlOp: "count_list (sqlOp op) (CHR ''?'') = 0"
  by (auto simp: sqlOp_def count_list_0_iff split: option.splits if_splits)

lemma ToSQL_qmark_count:
  assumes "ToSQL nm ''qmark'' n = Inr fr" "\<And>x c. nm x = Some c \<Longrightarrow> CHR ''?'' \<notin> set c"
  shows "count_list (frag_text fr) (CHR ''?'') = length (frag_params fr)"
  using assms
proof (induction n arbitrary: fr)
  case (Var x)
  then show ?case by (auto simp: count_list_0_iff split: option.splits)
next
  case (BinOp op l r)
  then show ?case
    by (auto simp: Let_def no_qmark_sqlOp split: sum.splits)
qed (auto simp: marker_def no_qmark_number)

lemma SQLNameMap_no_qmark: "SQLNameMap x = Some c \<Longrightarrow> CHR ''?'' \<notin> set c"
  by (auto simp: SQLNameMap_def silenceRatioSQL_def split: if_splits)

lemma SipCallNameMap_no_qmark: "SipCallNameMap x = Some c \<Longrightarrow> CHR ''?'' \<notin> set c"
  by (auto simp: SipCallNameMap_def callStreamsSQL_def split: if_splits)

section \<open>Properties\<close>

text \<open>C12: Filter expressions cannot inject SQL. Replacing the contents of every string literal of an
  expression leaves the SQL text unchanged, in every dialect and for every column map; only the
  bound parameters change, and they are exactly the literals in source order.\<close>

theorem sql_text_independent_of_literals:
  assumes "ToSQL nm d n = Inr fr"
  shows "frag_params fr = literals n
     \<and> ToSQL nm d (relabel f n) = Inr (fr\<lparr>frag_params := map f (literals n)\<rparr>)"
  using assms ToSQL_params [OF assms] by (simp add: ToSQL_relabel)

theorem sql_text_independent_of_literals_witness:
  "\<exists>fr. ToSQL SQLNameMap ''qmark'' (BinOp ''=='' (Var ''sip_src'') (String ''a'')) = Inr fr
     \<and> frag_params fr = [''a'']
     \<and> ToSQL SQLNameMap ''qmark'' (BinOp ''=='' (Var ''sip_src'') (String ''x) OR (1=1'')) =
       Inr (fr\<lparr>frag_params := [''x) OR (1=1'']\<rparr>)"
proof -
  have s: "ToSQL SQLNameMap ''qmark'' (BinOp ''=='' (Var ''sip_src'') (String ''a'')) =
     Inr \<lparr>frag_text = ''(rtpmon_streams.sip_source = ?)'', frag_params = [''a'']\<rparr>"
    by (simp add: SQLNameMap_def marker_def sqlOp_def)
  from sql_text_independent_of_literals [OF s, of "\<lambda>_. ''x) OR (1=1''"]
  show ?thesis using s by auto
qed

text \<open>Compiling a stream filter for SQLite gives one placeholder for each bound parameter, and
  it succeeds exactly when every field of the expression is in the column map: an unknown field is
  the only error, and it is reported by name.\<close>

lemma where_clause_wellformed:
  assumes "Parse s = Inr n"
  shows "case BuildWhere s ''qmark'' of
     Inr fr \<Rightarrow> nodeVars n \<subseteq> dom SQLNameMap \<and> count_list (frag_text fr) (CHR ''?'') = length (frag_params fr)
   | Inl e \<Rightarrow> (\<exists>x \<in> nodeVars n. SQLNameMap x = None \<and> e = UnknownField x)"
proof -
  have m: "marker ''qmark'' = Inr ''?''" by (simp add: marker_def)
  have b: "BuildWhere s ''qmark'' = ToSQL SQLNameMap ''qmark'' n" using assms by (simp add: BuildWhere_def)
  show ?thesis
    using ToSQL_fields ToSQL_qmark_count [OF _ SQLNameMap_no_qmark] ToSQL_error_field [OF _ m]
    by (auto simp: b split: sum.split)
qed

text \<open>In the numeric dialect an expression with three string literals gets colliding placeholders:
  the outer renumbering rewrites only the marks that read \<^verbatim>\<open>:1\<close>, so the second and the third
  parameter are both \<^verbatim>\<open>:2\<close>. (The program uses the qmark dialect only.)\<close>

lemma numeric_dialect_collides:
  "ToSQL SQLNameMap ''numeric''
     (BinOp ''&&'' (BinOp ''&&'' (BinOp ''=='' (Var ''src_ip'') (String ''a''))
                                (BinOp ''=='' (Var ''dst_ip'') (String ''b'')))
                   (BinOp ''=='' (Var ''sip_src'') (String ''c''))) =
   Inr \<lparr>frag_text = ''(((rtpmon_streams.src_ip = :1) AND (rtpmon_streams.dst_ip = :2)) AND (rtpmon_streams.sip_source = :2))'',
        frag_params = [''a'', ''b'', ''c'']\<rparr>"
  by code_simp

end
