(* ===== verification/Go_Time.thy ===== *)
theory Go_Time
  imports Prelude
begin

text \<open>
  The part of package \<^verbatim>\<open>time\<close> the program uses. A \<^verbatim>\<open>time.Time\<close> is the number of
  nanoseconds since the Unix epoch, a \<^verbatim>\<open>time.Duration\<close> a signed number of nanoseconds. The
  difference of two times saturates at the ends of the 64-bit duration, as \<^verbatim>\<open>Time.Sub\<close>
  does; the wall clock and the monotonic clock are one reading.
\<close>

type_synonym time = int
type_synonym duration = int

definition second :: duration where "second = 10 ^ 9"
definition minute :: duration where "minute = 60 * second"

text \<open>The zero \<^verbatim>\<open>time.Time\<close>: January 1 of year 1.\<close>

definition zeroTime :: time where "zeroTime = - 62135596800 * second"

definition time_Sub :: "time \<Rightarrow> time \<Rightarrow> duration" where
  "time_Sub t u = max minInt64 (min maxInt64 (t - u))"

definition time_Add :: "time \<Rightarrow> duration \<Rightarrow> time" where
  "time_Add t d = t + d"

definition UnixMilli :: "time \<Rightarrow> int" where
  "UnixMilli t = t div 10 ^ 6"

text \<open>\<^verbatim>\<open>Duration.Milliseconds\<close> truncates toward zero.\<close>

definition Milliseconds :: "duration \<Rightarrow> int" where
  "Milliseconds d = sgn d * (\<bar>d\<bar> div 10 ^ 6)"

text \<open>\<^verbatim>\<open>int(Duration.Seconds())\<close>, which is exact for a whole number of seconds.\<close>

definition wholeSeconds :: "duration \<Rightarrow> int" where
  "wholeSeconds d = sgn d * (\<bar>d\<bar> div second)"

section \<open>Formatting in UTC\<close>

text \<open>
  The civil date of a day number (days since the Unix epoch) in the proleptic Gregorian calendar:
  years are counted from March, in eras of 400 years.
\<close>

definition civilDate :: "int \<Rightarrow> int \<times> int \<times> int" where
  "civilDate days =
     (let z = days + 719468;
          era = z div 146097;
          doe = z mod 146097;
          yoe = (doe - doe div 1460 + doe div 36524 - doe div 146096) div 365;
          doy = doe - (365 * yoe + yoe div 4 - yoe div 100);
          mp = (5 * doy + 2) div 153;
          d = doy - (153 * mp + 2) div 5 + 1;
          m = (if mp < 10 then mp + 3 else mp - 9)
      in (yoe + era * 400 + (if m \<le> 2 then 1 else 0), m, d))"

definition zeroPad :: "nat \<Rightarrow> int \<Rightarrow> string" where
  "zeroPad n i = (let ds = decimalNat (nat i) in replicate (n - length ds) (CHR ''0'') @ ds)"

text \<open>\<^verbatim>\<open>t.UTC().Format(time.RFC3339)\<close>, for the years 0 to 9999.\<close>

definition formatDate :: "time \<Rightarrow> string" where
  "formatDate t =
     (let (y, m, d) = civilDate (t div (86400 * second))
      in zeroPad 4 y @ ''-'' @ zeroPad 2 m @ ''-'' @ zeroPad 2 d)"

definition formatClock :: "time \<Rightarrow> string" where
  "formatClock t =
     (let s = (t div second) mod 86400
      in zeroPad 2 (s div 3600) @ '':'' @ zeroPad 2 (s div 60 mod 60) @ '':'' @ zeroPad 2 (s mod 60))"

definition RFC3339 :: "time \<Rightarrow> string" where
  "RFC3339 t = formatDate t @ ''T'' @ formatClock t @ ''Z''"

lemma RFC3339_examples:
  "RFC3339 0 = ''1970-01-01T00:00:00Z''"
  "RFC3339 (951827696 * second) = ''2000-02-29T12:34:56Z''"
  "RFC3339 (4102444799 * second) = ''2099-12-31T23:59:59Z''"
  by code_simp+

lemma time_Sub_lt: "- maxInt64 \<le> d \<Longrightarrow> d \<le> maxInt64 \<Longrightarrow> time_Sub t u < d \<longleftrightarrow> t - u < d"
  by (auto simp: time_Sub_def minInt64_def maxInt64_def)

lemma time_Sub_ge: "- maxInt64 \<le> d \<Longrightarrow> d \<le> maxInt64 \<Longrightarrow> d \<le> time_Sub t u \<longleftrightarrow> d \<le> t - u"
  by (auto simp: time_Sub_def minInt64_def maxInt64_def)

end
