(* ===== verification/Alarm_Rules.thy ===== *)
theory Alarm_Rules
  imports Filter_Sql Go_Time
begin

text \<open>
  Alarm rules (\<^verbatim>\<open>alarm/rule.go\<close>) and the snapshot a rule is judged by
  (\<^verbatim>\<open>Snapshot\<close> and \<^verbatim>\<open>Rule.Value\<close> of \<^verbatim>\<open>alarm/source.go\<close>). \<^verbatim>\<open>NewRule\<close> turns an entry of
  the configuration into a rule or one of the errors below; the theorem states what every
  accepted rule satisfies, which the engine and the database source rely on.
\<close>

section \<open>Configuration and counters\<close>

record alarm_config =
  cfgName :: string
  cfgCounter :: string
  cfgOp :: string
  cfgLimit :: f64
  cfgHasLimit :: bool
  cfgIntervalS :: int
  cfgMinSamples :: int
  cfgFilter :: string
  cfgCode :: string
  cfgCommand :: string
  cfgWebhook :: string
  cfgOnClear :: bool

datatype op = Below | Above

fun op_String :: "op \<Rightarrow> string" where
  "op_String Above = ''above''"
| "op_String Below = ''below''"

datatype scope = ScopeStreams | ScopeCalls | ScopeHost | ScopeCapture

record counter_spec =
  specOp :: op
  specScope :: scope
  specUnit :: string

definition counterTable :: "(string \<times> counter_spec) list" where
  "counterTable =
     [(''r_factor'', \<lparr>specOp = Below, specScope = ScopeStreams, specUnit = ''R''\<rparr>),
      (''sevana_mos'', \<lparr>specOp = Below, specScope = ScopeStreams, specUnit = ''MOS''\<rparr>),
      (''network_mos'', \<lparr>specOp = Below, specScope = ScopeStreams, specUnit = ''MOS''\<rparr>),
      (''packet_loss'', \<lparr>specOp = Above, specScope = ScopeStreams, specUnit = ''%''\<rparr>),
      (''jitter'', \<lparr>specOp = Above, specScope = ScopeStreams, specUnit = ''ms''\<rparr>),
      (''duration'', \<lparr>specOp = Below, specScope = ScopeStreams, specUnit = ''s''\<rparr>),
      (''free_disk_space'', \<lparr>specOp = Below, specScope = ScopeHost, specUnit = ''''\<rparr>),
      (''silent_streams'', \<lparr>specOp = Above, specScope = ScopeStreams, specUnit = ''%''\<rparr>),
      (''call_health'', \<lparr>specOp = Above, specScope = ScopeCalls, specUnit = ''%''\<rparr>),
      (''failed_calls'', \<lparr>specOp = Above, specScope = ScopeCalls, specUnit = ''%''\<rparr>),
      (''capture_drops'', \<lparr>specOp = Above, specScope = ScopeCapture, specUnit = ''packets''\<rparr>)]"

definition counters :: "string \<Rightarrow> counter_spec option" where
  "counters = map_of counterTable"

definition Counters :: "string list" where
  "Counters = [''r_factor'', ''sevana_mos'', ''network_mos'', ''packet_loss'', ''jitter'',
     ''duration'', ''free_disk_space'', ''silent_streams'', ''call_health'', ''failed_calls'',
     ''capture_drops'']"

section \<open>Rules\<close>

record rule =
  Name :: string
  Counter :: string
  RuleOp :: op
  Limit :: f64
  Window :: duration
  MinSamples :: int
  RuleFilter :: string
  Code :: string
  Command :: string
  Webhook :: string
  OnClear :: bool
  Scope :: scope
  Unit :: string

definition DefaultWindow :: duration where "DefaultWindow = 15 * minute"

datatype rule_error =
    UnknownCounter string string
  | NoLimit string
  | UnknownOp string string
  | NoAction string
  | NotHttp string string
  | CodeNotAllowed string
  | FilterError string expr_error
  | NoFilterAllowed string string

text \<open>The checks after the defaults are applied, in the order of the source.\<close>

definition filterCheck :: "rule \<Rightarrow> rule_error + rule" where
  "filterCheck r =
     (if RuleFilter r = [] then Inr r
      else case Scope r of
             ScopeStreams \<Rightarrow>
               (case BuildWhere (RuleFilter r) ''qmark'' of
                  Inl e \<Rightarrow> Inl (FilterError (Name r) e) | Inr _ \<Rightarrow> Inr r)
           | ScopeCalls \<Rightarrow>
               (case BuildSipCallWhere (RuleFilter r) ''qmark'' of
                  Inl e \<Rightarrow> Inl (FilterError (Name r) e) | Inr _ \<Rightarrow> Inr r)
           | _ \<Rightarrow> Inl (NoFilterAllowed (Name r) (Counter r)))"

definition actionCheck :: "rule \<Rightarrow> rule_error + rule" where
  "actionCheck r =
     (if Command r = [] \<and> Webhook r = [] then Inl (NoAction (Name r))
      else if Webhook r \<noteq> [] \<and> \<not> strings_HasPrefix (Webhook r) ''http://''
              \<and> \<not> strings_HasPrefix (Webhook r) ''https://''
      then Inl (NotHttp (Name r) (Webhook r))
      else if Code r \<noteq> [] \<and> Counter r \<noteq> ''call_health'' then Inl (CodeNotAllowed (Name r))
      else filterCheck r)"

definition chooseOp :: "op \<Rightarrow> string \<Rightarrow> op option" where
  "chooseOp dflt s =
     (if s = [] then Some dflt
      else if s \<in> {''below'', ''<''} then Some Below
      else if s \<in> {''above'', ''>''} then Some Above
      else None)"

text \<open>\<^verbatim>\<open>time.Duration(c.IntervalS) * time.Second\<close> wraps at 64 bit.\<close>

definition baseRule :: "alarm_config \<Rightarrow> counter_spec \<Rightarrow> op \<Rightarrow> rule" where
  "baseRule c spec d =
     (let w = wrap64 (cfgIntervalS c * second);
          n = strings_TrimSpace (cfgName c)
      in \<lparr>Name = (if n = [] then cfgCounter c else n), Counter = cfgCounter c, RuleOp = d,
          Limit = cfgLimit c, Window = (if w \<le> 0 then DefaultWindow else w),
          MinSamples = (if cfgMinSamples c \<le> 0 then 1 else cfgMinSamples c),
          RuleFilter = strings_TrimSpace (cfgFilter c), Code = cfgCode c,
          Command = strings_TrimSpace (cfgCommand c), Webhook = cfgWebhook c, OnClear = cfgOnClear c,
          Scope = specScope spec, Unit = specUnit spec\<rparr>)"

definition NewRule :: "alarm_config \<Rightarrow> rule_error + rule" where
  "NewRule c =
     (case counters (cfgCounter c) of
        None \<Rightarrow> Inl (UnknownCounter (cfgName c) (cfgCounter c))
      | Some spec \<Rightarrow>
          let name = Name (baseRule c spec Below)
          in if \<not> cfgHasLimit c then Inl (NoLimit name)
             else case chooseOp (specOp spec) (cfgOp c) of
                    None \<Rightarrow> Inl (UnknownOp name (cfgOp c))
                  | Some d \<Rightarrow> actionCheck (baseRule c spec d))"

definition Bad :: "rule \<Rightarrow> f64 \<Rightarrow> bool" where
  "Bad r v = (if RuleOp r = Above then f64_lt (Limit r) v else f64_lt v (Limit r))"

section \<open>Snapshots\<close>

record snapshot =
  snStreams :: int
  snSevanaStreams :: int
  snRFactor :: f64
  snSevanaMOS :: f64
  snNetworkMOS :: f64
  snPacketLoss :: f64
  snJitter :: f64
  snDuration :: f64
  snFreeDisk :: f64
  snSilentStreams :: f64
  snCalls :: int
  snCallHealth :: f64
  snFailedCalls :: f64
  snCaptureDrops :: f64
  snCaptureKnown :: bool

definition f64_zero :: f64 where "f64_zero = Fin False 0"

text \<open>\<^verbatim>\<open>Snapshot{FreeDisk: -1}\<close>: every other field is zero.\<close>

definition emptySnapshot :: snapshot where
  "emptySnapshot = \<lparr>snStreams = 0, snSevanaStreams = 0, snRFactor = f64_zero, snSevanaMOS = f64_zero,
     snNetworkMOS = f64_zero, snPacketLoss = f64_zero, snJitter = f64_zero, snDuration = f64_zero,
     snFreeDisk = Fin True 1, snSilentStreams = f64_zero, snCalls = 0, snCallHealth = f64_zero,
     snFailedCalls = f64_zero, snCaptureDrops = f64_zero, snCaptureKnown = False\<rparr>"

definition Value :: "rule \<Rightarrow> snapshot \<Rightarrow> f64 \<times> int \<times> bool" where
  "Value r s =
     (let c = Counter r
      in if c = ''r_factor'' then (snRFactor s, snSevanaStreams s, 0 < snSevanaStreams s)
         else if c = ''sevana_mos'' then (snSevanaMOS s, snSevanaStreams s, 0 < snSevanaStreams s)
         else if c = ''network_mos'' then (snNetworkMOS s, snStreams s, 0 < snStreams s)
         else if c = ''packet_loss'' then (snPacketLoss s, snStreams s, 0 < snStreams s)
         else if c = ''jitter'' then (snJitter s, snStreams s, 0 < snStreams s)
         else if c = ''duration'' then (snDuration s, snStreams s, 0 < snStreams s)
         else if c = ''silent_streams'' then (snSilentStreams s, snSevanaStreams s, 0 < snSevanaStreams s)
         else if c = ''free_disk_space'' then (snFreeDisk s, 1, f64_le f64_zero (snFreeDisk s))
         else if c = ''call_health'' then (snCallHealth s, snCalls s, 0 < snCalls s)
         else if c = ''failed_calls'' then (snFailedCalls s, snCalls s, 0 < snCalls s)
         else if c = ''capture_drops'' then (snCaptureDrops s, 1, snCaptureKnown s)
         else (f64_zero, 0, False))"

section \<open>What validation guarantees\<close>

text \<open>The filter of a rule compiles in the language of the rule's scope.\<close>

definition filterOk :: "rule \<Rightarrow> bool" where
  "filterOk r \<longleftrightarrow>
     RuleFilter r = [] \<or>
     (Scope r = ScopeStreams \<and> \<not> isl (BuildWhere (RuleFilter r) ''qmark'')) \<or>
     (Scope r = ScopeCalls \<and> \<not> isl (BuildSipCallWhere (RuleFilter r) ''qmark''))"

definition ruleOk :: "rule \<Rightarrow> bool" where
  "ruleOk r \<longleftrightarrow>
     Name r \<noteq> [] \<and> 0 < Window r \<and> Window r \<le> maxInt64 \<and> 1 \<le> MinSamples r \<and>
     (\<exists>spec. counters (Counter r) = Some spec \<and> Scope r = specScope spec \<and> Unit r = specUnit spec) \<and>
     (Command r \<noteq> [] \<or> Webhook r \<noteq> []) \<and>
     (Webhook r = [] \<or> strings_HasPrefix (Webhook r) ''http://'' \<or> strings_HasPrefix (Webhook r) ''https://'') \<and>
     (Code r = [] \<or> Counter r = ''call_health'') \<and>
     filterOk r"

lemma filterCheck_Inr: "filterCheck r = Inr r' \<longleftrightarrow> r' = r \<and> filterOk r"
  by (auto simp: filterCheck_def filterOk_def isl_def split: if_splits scope.splits sum.splits)

lemma actionCheck_Inr:
  "actionCheck r = Inr r' \<longleftrightarrow> r' = r \<and> filterOk r \<and> (Command r \<noteq> [] \<or> Webhook r \<noteq> []) \<and>
     (Webhook r = [] \<or> strings_HasPrefix (Webhook r) ''http://'' \<or> strings_HasPrefix (Webhook r) ''https://'') \<and>
     (Code r = [] \<or> Counter r = ''call_health'')"
  by (auto simp: actionCheck_def filterCheck_Inr)

lemma counters_nonempty: "counters c = Some spec \<Longrightarrow> c \<noteq> []"
  by (auto simp: counters_def counterTable_def split: if_splits)

lemma counters_Counters: "counters c \<noteq> None \<longleftrightarrow> c \<in> set Counters"
  by (auto simp: counters_def counterTable_def Counters_def split: if_splits)

lemma NewRule_Inr:
  "NewRule c = Inr r \<longleftrightarrow>
     (\<exists>spec d. counters (cfgCounter c) = Some spec \<and> cfgHasLimit c \<and>
        chooseOp (specOp spec) (cfgOp c) = Some d \<and> actionCheck (baseRule c spec d) = Inr r)"
  by (auto simp: NewRule_def Let_def split: option.splits if_splits)

lemma baseRule_Window: "0 < Window (baseRule c spec d) \<and> Window (baseRule c spec d) \<le> maxInt64"
  using wrap64_range [of "cfgIntervalS c * second"]
  by (auto simp: baseRule_def Let_def DefaultWindow_def minute_def second_def maxInt64_def)

lemma baseRule_fields:
  "Counter (baseRule c spec d) = cfgCounter c" "Limit (baseRule c spec d) = cfgLimit c"
  "Scope (baseRule c spec d) = specScope spec" "Unit (baseRule c spec d) = specUnit spec"
  "1 \<le> MinSamples (baseRule c spec d)" "cfgCounter c \<noteq> [] \<Longrightarrow> Name (baseRule c spec d) \<noteq> []"
  by (simp_all add: baseRule_def Let_def)

lemma actionCheck_baseRule:
  assumes "counters (cfgCounter c) = Some spec"
  shows "actionCheck (baseRule c spec d) = Inr r \<longleftrightarrow> r = baseRule c spec d \<and> ruleOk r"
  using counters_nonempty [OF assms] baseRule_Window [of c spec d] baseRule_fields [of c spec d] assms
  by (cases "r = baseRule c spec d") (auto simp: actionCheck_Inr ruleOk_def)

text \<open>C17: An alarm configuration is accepted exactly when its counter is known, a limit is given, the
  direction is empty or one of the four spellings, there is an action, the webhook is an http(s)
  address, a warning code comes with the call-health counter only and the filter compiles for the
  counter's scope; every accepted rule is then well formed: non-empty name, positive 64-bit window,
  at least one sample, scope and unit of its counter, and a filter that the database source can
  compile again without an error.\<close>

theorem NewRule_wellformed:
  "(NewRule c = Inr r \<longrightarrow> ruleOk r \<and> Counter r = cfgCounter c \<and> Limit r = cfgLimit c) \<and>
   ((\<exists>r. NewRule c = Inr r) \<longleftrightarrow>
      cfgCounter c \<in> set Counters \<and> cfgHasLimit c \<and>
      cfgOp c \<in> {'''', ''below'', ''<'', ''above'', ''>''} \<and>
      (\<exists>spec d. counters (cfgCounter c) = Some spec \<and> ruleOk (baseRule c spec d)))"
proof
  show "NewRule c = Inr r \<longrightarrow> ruleOk r \<and> Counter r = cfgCounter c \<and> Limit r = cfgLimit c"
    by (auto simp: NewRule_Inr actionCheck_baseRule baseRule_fields)
  have "ruleOk (baseRule c spec d) \<longleftrightarrow> ruleOk (baseRule c spec e)" for spec d e
    by (simp add: ruleOk_def filterOk_def baseRule_def Let_def)
  moreover have "(\<exists>d. chooseOp e (cfgOp c) = Some d) \<longleftrightarrow> cfgOp c \<in> {'''', ''below'', ''<'', ''above'', ''>''}" for e
    by (auto simp: chooseOp_def)
  ultimately show "(\<exists>r. NewRule c = Inr r) \<longleftrightarrow>
      cfgCounter c \<in> set Counters \<and> cfgHasLimit c \<and>
      cfgOp c \<in> {'''', ''below'', ''<'', ''above'', ''>''} \<and>
      (\<exists>spec d. counters (cfgCounter c) = Some spec \<and> ruleOk (baseRule c spec d))"
    unfolding NewRule_Inr counters_Counters [symmetric]
    by (metis actionCheck_baseRule option.discI)
qed

definition config0 :: alarm_config where
  "config0 = \<lparr>cfgName = '' loss '', cfgCounter = ''packet_loss'', cfgOp = [], cfgLimit = Fin False 5,
     cfgHasLimit = True, cfgIntervalS = 60, cfgMinSamples = 0, cfgFilter = ''jitter > 3'',
     cfgCode = [], cfgCommand = ''true'', cfgWebhook = [], cfgOnClear = False\<rparr>"

definition rule0 :: rule where
  "rule0 = \<lparr>Name = ''loss'', Counter = ''packet_loss'', RuleOp = Above, Limit = Fin False 5,
     Window = 60 * second, MinSamples = 1, RuleFilter = ''jitter > 3'', Code = [], Command = ''true'',
     Webhook = [], OnClear = False, Scope = ScopeStreams, Unit = ''%''\<rparr>"

theorem NewRule_wellformed_witness: "NewRule config0 = Inr rule0 \<and> ruleOk rule0"
proof -
  have "NewRule config0 = Inr rule0" by code_simp
  with NewRule_wellformed [of config0 rule0] show ?thesis by simp
qed

end
