(* ===== verification/Alarm_Engine.thy ===== *)
theory Alarm_Engine
  imports Alarm_Rules
begin

text \<open>
  The alarm engine (\<^verbatim>\<open>alarm/engine.go\<close>): every tick measures each rule and notifies when a
  rule enters the alarm state, stays in it for another window, or leaves it. The clock reading and
  the answers of the \<^verbatim>\<open>Source\<close> during a tick are arguments; a notifier is the list of the
  events it was handed. The step relation \<open>transition\<close> is the life cycle a rule is meant to go
  through; rule induction over it gives the shape of every rule's notification history.
\<close>

section \<open>State and operations\<close>

datatype kind = Raised | Repeat | Cleared

text \<open>The constants of type \<^verbatim>\<open>Kind\<close>.\<close>

fun kind_string :: "kind \<Rightarrow> string" where
  "kind_string Raised = ''alarm''"
| "kind_string Repeat = ''repeat''"
| "kind_string Cleared = ''cleared''"

record inst =
  instID :: string
  instName :: string

record event =
  evRule :: rule
  evKind :: kind
  evValue :: f64
  evSamples :: int
  evSnapshot :: snapshot
  evAt :: time
  evInstance :: inst

record status =
  stAlarm :: bool
  stValue :: f64
  stSamples :: int
  stMeasured :: bool
  stLastCheck :: time
  stLastChange :: time
  stLastNotify :: time
  stLastError :: string

text \<open>\<^verbatim>\<open>Status{Rule: r}\<close>; the rule itself is kept beside the status, as in \<^verbatim>\<open>ruleState\<close>.\<close>

definition newStatus :: status where
  "newStatus = \<lparr>stAlarm = False, stValue = f64_zero, stSamples = 0, stMeasured = False,
     stLastCheck = zeroTime, stLastChange = zeroTime, stLastNotify = zeroTime, stLastError = []\<rparr>"

type_synonym rule_state = "rule \<times> status"

record engine =
  rules :: "rule_state list"
  notifiers :: "event list list"
  engInstance :: inst

definition NewEngine :: "rule list \<Rightarrow> inst \<Rightarrow> nat \<Rightarrow> engine" where
  "NewEngine rs i n = \<lparr>rules = map (\<lambda>r. (r, newStatus)) rs, notifiers = replicate n [], engInstance = i\<rparr>"

text \<open>The answer of \<^verbatim>\<open>Source.Measure\<close> for a rule at a moment (in Unix milliseconds).\<close>

type_synonym source = "rule \<Rightarrow> int \<Rightarrow> string + snapshot"

text \<open>The \<^verbatim>\<open>switch\<close> of \<^verbatim>\<open>Tick\<close>, for a measured value.\<close>

definition judge :: "rule \<Rightarrow> time \<Rightarrow> f64 \<Rightarrow> status \<Rightarrow> status \<times> kind option" where
  "judge r now v s =
     (if Bad r v \<and> \<not> stAlarm s
      then (s\<lparr>stAlarm := True, stLastChange := now, stLastNotify := now\<rparr>, Some Raised)
      else if Bad r v \<and> Window r \<le> time_Sub now (stLastNotify s)
      then (s\<lparr>stLastNotify := now\<rparr>, Some Repeat)
      else if \<not> Bad r v \<and> stAlarm s
      then (s\<lparr>stAlarm := False, stLastChange := now, stLastNotify := now\<rparr>, Some Cleared)
      else (s, None))"

text \<open>The body of the loop of \<^verbatim>\<open>Tick\<close> for one rule: its new status and the event to emit.\<close>

definition tickRule :: "inst \<Rightarrow> source \<Rightarrow> time \<Rightarrow> rule \<Rightarrow> status \<Rightarrow> status \<times> event option" where
  "tickRule inst src now r st =
     (let s = st\<lparr>stLastCheck := now\<rparr>
      in case src r (UnixMilli now) of
           Inl err \<Rightarrow> (s\<lparr>stLastError := err, stMeasured := False\<rparr>, None)
         | Inr snap \<Rightarrow>
             let (v, n, ok) = Value r snap;
                 s = s\<lparr>stLastError := [], stValue := v, stSamples := n,
                        stMeasured := (ok \<and> MinSamples r \<le> n)\<rparr>
             in if \<not> stMeasured s then (s, None)
                else let (s, k) = judge r now v s
                     in (s, map_option (\<lambda>k. \<lparr>evRule = r, evKind = k, evValue = v, evSamples = n,
                                             evSnapshot = snap, evAt = now, evInstance = inst\<rparr>) k))"

definition emit :: "event \<Rightarrow> event list list \<Rightarrow> event list list" where
  "emit ev = map (\<lambda>q. q @ [ev])"

fun tickRules :: "inst \<Rightarrow> source \<Rightarrow> time \<Rightarrow> rule_state list \<Rightarrow> event list list \<Rightarrow> rule_state list \<times> event list list" where
  "tickRules inst src now [] ns = ([], ns)"
| "tickRules inst src now ((r, st) # rest) ns =
     (let (st', ev) = tickRule inst src now r st;
          ns' = (case ev of None \<Rightarrow> ns | Some e \<Rightarrow> emit e ns);
          (rest', ns'') = tickRules inst src now rest ns'
      in ((r, st') # rest', ns''))"

definition Tick :: "source \<Rightarrow> time \<Rightarrow> engine \<Rightarrow> engine" where
  "Tick src now e =
     (let (rs, ns) = tickRules (engInstance e) src now (rules e) (notifiers e)
      in e\<lparr>rules := rs, notifiers := ns\<rparr>)"

definition Statuses :: "engine \<Rightarrow> rule_state list" where
  "Statuses e = rules e"

lemmas engine_defs = tickRule_def Tick_def Let_def

section \<open>The life cycle of a rule\<close>

text \<open>
  What a rule's history may look like: whether it is in alarm, when it last notified, and the events
  so far. An event is sent only when a bad (for \<open>Cleared\<close>: a good) value was measured.
\<close>

inductive transition :: "rule \<Rightarrow> bool \<times> time \<Rightarrow> event \<Rightarrow> bool \<times> time \<Rightarrow> bool" where
  raised: "evKind ev = Raised \<Longrightarrow> Bad r (evValue ev) \<Longrightarrow> transition r (False, t) ev (True, evAt ev)"
| repeated: "evKind ev = Repeat \<Longrightarrow> Bad r (evValue ev) \<Longrightarrow> Window r \<le> time_Sub (evAt ev) t \<Longrightarrow>
    transition r (True, t) ev (True, evAt ev)"
| cleared: "evKind ev = Cleared \<Longrightarrow> \<not> Bad r (evValue ev) \<Longrightarrow> transition r (True, t) ev (False, evAt ev)"

inductive history :: "rule \<Rightarrow> bool \<times> time \<Rightarrow> event list \<Rightarrow> bool" for r where
  quiet: "history r (False, zeroTime) []"
| step: "history r st evs \<Longrightarrow> transition r st ev st' \<Longrightarrow> history r st' (evs @ [ev])"

inductive_simps transition_iff: "transition r (b, t) ev (b', t')"
inductive_cases transition_elim: "transition r st ev st'"
inductive_simps history_Nil: "history r st []"

lemma history_snoc: "history r st (evs @ [ev]) \<longleftrightarrow> (\<exists>st0. history r st0 evs \<and> transition r st0 ev st)"
  by (subst history.simps) auto

text \<open>The kinds of a history: any number of complete alarms, and an open one at the end.\<close>

inductive alarm_log :: "bool \<Rightarrow> kind list \<Rightarrow> bool" where
  none: "alarm_log False []"
| opens: "alarm_log False ks \<Longrightarrow> alarm_log True (ks @ Raised # replicate n Repeat)"
| closes: "alarm_log True ks \<Longrightarrow> alarm_log False (ks @ [Cleared])"

lemma alarm_log_repeat: "alarm_log True ks \<Longrightarrow> alarm_log True (ks @ [Repeat])"
proof -
  assume "alarm_log True ks"
  then obtain ks' n where "ks = ks' @ Raised # replicate n Repeat" "alarm_log False ks'"
    by (auto elim: alarm_log.cases)
  moreover have "replicate n Repeat @ [Repeat] = replicate (Suc n) Repeat" for n
    by (simp add: replicate_append_same)
  ultimately show ?thesis
    using alarm_log.opens [of ks' "Suc n"] by simp
qed

lemma history_log: "history r st evs \<Longrightarrow> alarm_log (fst st) (map evKind evs)"
proof (induction rule: history.induct)
  case (step st evs ev st')
  then show ?case
    using alarm_log.opens [of "map evKind evs" 0]
    by (auto elim!: transition_elim intro: alarm_log.closes alarm_log_repeat)
qed (auto intro: alarm_log.none)

lemma history_last:
  "history r (b, t) evs \<Longrightarrow> t = (if evs = [] then zeroTime else evAt (last evs)) \<and>
     (b \<longleftrightarrow> evs \<noteq> [] \<and> evKind (last evs) \<noteq> Cleared)"
  by (cases evs rule: rev_cases) (auto simp: history_Nil history_snoc elim!: transition_elim)

lemma history_spacing:
  assumes "history r st evs" "Suc i < length evs" "evKind (evs ! Suc i) = Repeat"
  shows "Window r \<le> time_Sub (evAt (evs ! Suc i)) (evAt (evs ! i))"
  using assms
proof (induction arbitrary: i rule: history.induct)
  case (step st evs ev st')
  obtain b t where st: "st = (b, t)" by (cases st)
  show ?case
  proof (cases "Suc i < length evs")
    case False
    with step.prems have i: "length evs = Suc i" "evKind ev = Repeat" by (auto simp: nth_append)
    then have "t = evAt (evs ! i)"
      using history_last [of r b t evs] step.hyps(1) st by (cases evs) (auto simp: last_conv_nth)
    moreover have "Window r \<le> time_Sub (evAt ev) t"
      using step.hyps(2) i(2) st by (auto elim!: transition_elim)
    ultimately show ?thesis using i by (simp add: nth_append)
  qed (use step in \<open>auto simp: nth_append\<close>)
qed simp

section \<open>Runs of the engine\<close>

text \<open>What one check says of a rule: nothing, or whether the value is bad.\<close>

definition verdict :: "rule \<Rightarrow> string + snapshot \<Rightarrow> bool option" where
  "verdict r m = (case m of Inl _ \<Rightarrow> None
     | Inr snap \<Rightarrow> (case Value r snap of (v, n, ok) \<Rightarrow>
                      if ok \<and> MinSamples r \<le> n then Some (Bad r v) else None))"

type_synonym tick = "time \<times> source"

definition runTicks :: "tick list \<Rightarrow> engine \<Rightarrow> engine" where
  "runTicks ts e = foldl (\<lambda>e (now, m). Tick m now e) e ts"

text \<open>The verdict of the last check that had one; a fresh rule counts as good.\<close>

definition lastVerdict :: "rule \<Rightarrow> tick list \<Rightarrow> bool" where
  "lastVerdict r ts =
     foldl (\<lambda>b (now, m). case verdict r (m r (UnixMilli now)) of None \<Rightarrow> b | Some v \<Rightarrow> v) False ts"

lemma tickRule_verdict:
  assumes "tickRule i m now r st = (st', ev)"
  shows "case verdict r (m r (UnixMilli now)) of
       None \<Rightarrow> ev = None \<and> stAlarm st' = stAlarm st \<and> stLastNotify st' = stLastNotify st
     | Some b \<Rightarrow> stAlarm st' = b \<and>
         (case ev of
            None \<Rightarrow> stAlarm st = b \<and> stLastNotify st' = stLastNotify st \<and>
                     (b \<longrightarrow> time_Sub now (stLastNotify st) < Window r)
          | Some e \<Rightarrow> evRule e = r \<and> evAt e = now \<and>
                       transition r (stAlarm st, stLastNotify st) e (stAlarm st', stLastNotify st'))"
  using assms
  by (auto simp: tickRule_def judge_def verdict_def Let_def transition_iff
      split: sum.splits prod.splits if_splits option.splits)

definition tickEvents :: "inst \<Rightarrow> source \<Rightarrow> time \<Rightarrow> rule_state list \<Rightarrow> event list" where
  "tickEvents i src now rs =
     concat (map (\<lambda>(r, st). case snd (tickRule i src now r st) of None \<Rightarrow> [] | Some e \<Rightarrow> [e]) rs)"

lemma tickRules_eq:
  "tickRules i src now rs ns =
     (map (\<lambda>(r, st). (r, fst (tickRule i src now r st))) rs, map (\<lambda>q. q @ tickEvents i src now rs) ns)"
  by (induction i src now rs ns rule: tickRules.induct)
    (auto simp: tickEvents_def emit_def Let_def split: prod.splits option.splits)

lemma tickRule_event: "snd (tickRule i src now r st) = Some e \<Longrightarrow> evRule e = r \<and> evAt e = now"
  by (auto simp: tickRule_def Let_def split: sum.splits prod.splits if_splits)

lemma tickEvents_of:
  assumes "distinct (map fst rs)" "(r, st) \<in> set rs"
  shows "filter (\<lambda>e. evRule e = r) (tickEvents i src now rs) =
     (case snd (tickRule i src now r st) of None \<Rightarrow> [] | Some e \<Rightarrow> [e])"
proof -
  have none: "filter (\<lambda>e. evRule e = r) (tickEvents i src now xs) = []" if "r \<notin> fst ` set xs" for xs
    using that by (induction xs) (auto simp: tickEvents_def dest: tickRule_event split: option.splits)
  from assms show ?thesis
  proof (induction rs)
    case (Cons x xs)
    have "tickEvents i src now (x # xs) = tickEvents i src now [x] @ tickEvents i src now xs"
      by (simp add: tickEvents_def)
    moreover have "filter (\<lambda>e. evRule e = r) (tickEvents i src now [x]) = []" if "fst x \<noteq> r"
      using that by (intro none) auto
    moreover have "filter (\<lambda>e. evRule e = r) (tickEvents i src now [(r, st)]) =
        (case snd (tickRule i src now r st) of None \<Rightarrow> [] | Some e \<Rightarrow> [e])"
      by (auto simp: tickEvents_def dest: tickRule_event split: option.splits)
    moreover have "fst x = r \<and> r \<notin> fst ` set xs \<or> fst x \<noteq> r \<and> (r, st) \<in> set xs" "x = (r, st) \<or> (r, st) \<in> set xs"
      using Cons.prems by force+
    ultimately show ?case
      using Cons none [of xs] by (cases "x = (r, st)") (auto intro: rev_image_eqI)
  qed simp
qed

section \<open>The contract of the engine\<close>

text \<open>The state of a rule agrees with its notifications and with the checks so far.\<close>

definition agrees :: "tick list \<Rightarrow> event list \<Rightarrow> rule_state \<Rightarrow> bool" where
  "agrees ts q rs \<longleftrightarrow>
     (case rs of (r, st) \<Rightarrow>
        history r (stAlarm st, stLastNotify st) (filter (\<lambda>e. evRule e = r) q) \<and>
        stAlarm st = lastVerdict r ts)"

lemma agrees_tick:
  assumes d: "distinct (map fst rs)" and x: "(r, st) \<in> set rs" and a: "agrees ts q (r, st)"
  shows "agrees (ts @ [(now, src)]) (q @ tickEvents i src now rs) (r, fst (tickRule i src now r st))"
proof -
  obtain st' ev where t: "tickRule i src now r st = (st', ev)" by (cases "tickRule i src now r st")
  from tickRule_verdict [OF t] a tickEvents_of [OF d x, of i src now] show ?thesis
    by (auto simp: agrees_def lastVerdict_def t history_snoc split: option.splits)
qed

lemma runTicks_agrees:
  fixes ts :: "tick list" and i :: inst and n :: nat
  assumes "distinct rs"
  defines "e \<equiv> runTicks ts (NewEngine rs i n)"
  shows "map fst (rules e) = rs \<and> length (notifiers e) = n \<and>
     (\<forall>x \<in> set (rules e). \<forall>q \<in> set (notifiers e). agrees ts q x)"
  unfolding e_def
proof (induction ts rule: rev_induct)
  case Nil
  then show ?case
    by (auto simp: runTicks_def NewEngine_def agrees_def newStatus_def lastVerdict_def comp_def
        intro: history.quiet)
next
  case (snoc t ts)
  obtain now src where t: "t = (now, src)" by (cases t)
  let ?e = "runTicks ts (NewEngine rs i n)"
  have e: "runTicks (ts @ [t]) (NewEngine rs i n) = Tick src now ?e" by (simp add: runTicks_def t)
  have m: "map fst (map (\<lambda>(r, st). (r, fst (tickRule (engInstance ?e) src now r st))) (rules ?e)) = rs"
    using snoc by (simp add: case_prod_beta comp_def)
  have "agrees (ts @ [t]) (q @ tickEvents (engInstance ?e) src now (rules ?e))
          (r, fst (tickRule (engInstance ?e) src now r st))"
    if "(r, st) \<in> set (rules ?e)" "q \<in> set (notifiers ?e)" for r st q
    using that snoc assms(1) agrees_tick [of "rules ?e" r st ts q] by (auto simp: t)
  with snoc m show ?case
    by (auto simp: e Tick_def tickRules_eq)
qed

lemma rule_has_state: "r \<in> set (map fst xs) \<Longrightarrow> \<exists>st. (r, st) \<in> set xs"
  by auto

lemma history_verdicts: "history r st evs \<Longrightarrow> ev \<in> set evs \<Longrightarrow> Bad r (evValue ev) \<longleftrightarrow> evKind ev \<noteq> Cleared"
  by (induction rule: history.induct) (auto elim!: transition_elim)

text \<open>C15: Run the engine over distinct rules for any sequence of ticks, with any clock readings and
  any answers of the source (errors and too few samples included). For every rule and every
  notifier: the rule is in alarm exactly when the last check with enough samples judged it bad;
  the rule's notifications are a sequence of alarms, each one raised, repeated any number of times
  and cleared, with at most one alarm still open, which is open exactly when the rule is in alarm;
  a repetition comes at least one window after the notification before it; and an event carries a
  bad value exactly when it does not announce the end of an alarm.\<close>

theorem alarm_lifecycle:
  assumes "distinct rs" "r \<in> set rs" "q \<in> set (notifiers (runTicks ts (NewEngine rs i n)))"
  defines "evs \<equiv> filter (\<lambda>e. evRule e = r) q"
  shows "\<exists>st. (r, st) \<in> set (Statuses (runTicks ts (NewEngine rs i n))) \<and>
     stAlarm st = lastVerdict r ts \<and>
     alarm_log (stAlarm st) (map evKind evs) \<and>
     (\<forall>j. Suc j < length evs \<longrightarrow> evKind (evs ! Suc j) = Repeat \<longrightarrow>
        Window r \<le> time_Sub (evAt (evs ! Suc j)) (evAt (evs ! j))) \<and>
     (\<forall>ev \<in> set evs. Bad r (evValue ev) \<longleftrightarrow> evKind ev \<noteq> Cleared)"
proof -
  let ?e = "runTicks ts (NewEngine rs i n)"
  note inv = runTicks_agrees [OF assms(1), of ts i n]
  then obtain st where st: "(r, st) \<in> set (rules ?e)"
    using rule_has_state [of r "rules ?e"] assms(2) by auto
  with inv assms(3) have a: "history r (stAlarm st, stLastNotify st) evs" "stAlarm st = lastVerdict r ts"
    by (auto simp: agrees_def evs_def)
  with st history_log [OF a(1)] history_spacing [OF a(1)] history_verdicts [OF a(1)]
  show ?thesis by (auto simp: Statuses_def)
qed

lemma lastVerdict_snoc:
  "lastVerdict r (ts @ [(now, src)]) =
     (case verdict r (src r (UnixMilli now)) of None \<Rightarrow> lastVerdict r ts | Some v \<Rightarrow> v)"
  by (simp add: lastVerdict_def split: option.split)

text \<open>A rule that stays bad is never silent for a whole window: when the latest check judged the
  rule bad, the last notification of the rule is not the end of an alarm and was sent less than one
  window before that check (possibly at it).\<close>

lemma alarm_reminds:
  assumes "distinct rs" "r \<in> set rs" "0 < Window r"
    and "verdict r (src r (UnixMilli now)) = Some True"
    and "q \<in> set (notifiers (runTicks (ts @ [(now, src)]) (NewEngine rs i n)))"
  defines "evs \<equiv> filter (\<lambda>e. evRule e = r) q"
  shows "evs \<noteq> [] \<and> evKind (last evs) \<noteq> Cleared \<and> time_Sub now (evAt (last evs)) < Window r"
proof -
  let ?e = "runTicks ts (NewEngine rs i n)" and ?ts = "ts @ [(now, src)]"
  have T: "runTicks ?ts (NewEngine rs i n) = Tick src now ?e" by (simp add: runTicks_def)
  note inv = runTicks_agrees [OF assms(1), of ts i n]
  then obtain st where st: "(r, st) \<in> set (rules ?e)"
    using rule_has_state [of r "rules ?e"] assms(2) by auto
  obtain q0 where q0: "q0 \<in> set (notifiers ?e)" "q = q0 @ tickEvents (engInstance ?e) src now (rules ?e)"
    using assms(5) by (auto simp: T Tick_def tickRules_eq)
  obtain st' ev where t: "tickRule (engInstance ?e) src now r st = (st', ev)"
    by (cases "tickRule (engInstance ?e) src now r st")
  have d: "distinct (map fst (rules ?e))" using inv assms(1) by simp
  have "agrees ?ts q (r, st')"
    using agrees_tick [OF d st, of ts q0 now src "engInstance ?e"] inv st q0 t by auto
  then have h: "history r (True, stLastNotify st') evs"
    using assms(4) by (auto simp: agrees_def evs_def lastVerdict_snoc)
  have "time_Sub now (stLastNotify st') < Window r"
    using tickRule_verdict [OF t] assms(3,4)
    by (auto simp: time_Sub_def minInt64_def maxInt64_def split: option.splits elim!: transition_elim)
  with history_last [OF h] show ?thesis by auto
qed

definition snap0 :: "rat \<Rightarrow> snapshot" where
  "snap0 q = emptySnapshot\<lparr>snStreams := 4, snPacketLoss := Fin False q\<rparr>"

definition ticks0 :: "tick list" where
  "ticks0 = [(100 * second, \<lambda>r t. Inr (snap0 9)), (130 * second, \<lambda>r t. Inl ''down''),
             (170 * second, \<lambda>r t. Inr (snap0 8)), (180 * second, \<lambda>r t. Inr emptySnapshot)]"

definition good0 :: tick where
  "good0 = (190 * second, \<lambda>r t. Inr (snap0 1))"

definition inst0 :: inst where "inst0 = \<lparr>instID = ''1'', instName = ''vq''\<rparr>"

lemma run0: "map (map evKind) (notifiers (runTicks (ticks0 @ [good0]) (NewEngine [rule0] inst0 1)))
   = [[Raised, Repeat, Cleared]]"
  by code_simp

theorem alarm_lifecycle_witness:
  "map (map evKind) (notifiers (runTicks (ticks0 @ [good0]) (NewEngine [rule0] inst0 1)))
     = [[Raised, Repeat, Cleared]] \<and>
   (\<exists>q \<in> set (notifiers (runTicks (ticks0 @ [good0]) (NewEngine [rule0] inst0 1))).
      \<exists>b. alarm_log b (map evKind (filter (\<lambda>e. evRule e = rule0) q)))"
proof -
  obtain q where "q \<in> set (notifiers (runTicks (ticks0 @ [good0]) (NewEngine [rule0] inst0 1)))"
    using run0 by (metis list.set_intros(1) map_eq_Cons_conv)
  with alarm_lifecycle [of "[rule0]" rule0 q "ticks0 @ [good0]" inst0 1] run0 show ?thesis by auto
qed

end
