(* ===== verification/Model_Types.thy ===== *)
theory Model_Types
  imports GoFloat
begin

text \<open>
  Package \<^verbatim>\<open>model\<close> (\<^verbatim>\<open>model.go\<close>): the domain events decoded from the bus, one record per
  Go struct, with every field at its width (bytes and byte strings are Isabelle characters). A \<^verbatim>\<open>*float64\<close> is an \<open>option\<close>. Where two
  structs use the same field name the later ones carry a prefix. The sum of all event
  types, what the pipeline dispatches on, is \<open>domain_event\<close>.
\<close>

record endpoint_key =
  EkSrcIP :: string
  EkSrcPort :: u32
  EkDstIP :: string
  EkDstPort :: u32
  EkSSRC :: u32

record media_stream_id =
  SrcIP :: string
  SrcPort :: u32
  DstIP :: string
  DstPort :: u32
  SSRC :: u32
  LinkID :: string

definition EndpointKey :: "media_stream_id \<Rightarrow> endpoint_key" where
  "EndpointKey m = \<lparr>EkSrcIP = SrcIP m, EkSrcPort = SrcPort m, EkDstIP = DstIP m, EkDstPort = DstPort m, EkSSRC = SSRC m\<rparr>"

definition MediaStreamId_String :: "media_stream_id \<Rightarrow> string" where
  "MediaStreamId_String m =
     SrcIP m @ '':'' @ decimalNat (unat (SrcPort m)) @ ''->'' @ DstIP m @ '':'' @ decimalNat (unat (DstPort m))
     @ ''/'' @ decimalNat (unat (SSRC m))"

record stream_report =
  StreamID :: media_stream_id
  StartMs :: i64
  EndMs :: i64
  StartStreamMs :: i64
  RTPPacketCounter :: u64
  IllegalPacketCounter :: u64
  LostPacketCounter :: u64
  SevanaMOS :: "f64 option"
  NetworkMOS :: "f64 option"
  SevanaRfactor :: i64
  Jitter :: f64
  Codec :: string
  RTTDelay :: f64
  DetectorReport :: string
  DurationAudio :: i64
  AmrNbSwitchCounter :: i64
  AmrWbSwitchCounter :: i64
  DtxSid :: u64
  DtxCount :: u64
  DtxTotal :: u64
  FullReport :: bool
  UserReport :: string
  SipCallID :: string
  SipPeerA :: string
  SipPeerB :: string

record stream_audio =
  AudioStreamID :: media_stream_id
  Wav :: string
  AudioStartMs :: i64
  AudioFinishMs :: i64

record sip_peer =
  Aor :: string
  UserAgent :: string
  Codecs :: string
  PeerSSRC :: u32

record sip_call_start =
  StartCallID :: string
  StartTimestamp :: i64
  StartInviteTimestamp :: i64
  SetupCode :: u32
  StartCaller :: sip_peer
  StartCallee :: sip_peer

record sip_call_end =
  EndCallID :: string
  EndTimestamp :: i64
  CallDuration :: i64
  ByeDirection :: i64
  ResponseCodes :: "u32 list"
  HasBye :: bool

record sip_reinvite =
  ReCallID :: string
  ReTimestamp :: i64
  IsRequest :: bool
  ReDirection :: i64
  UpdatedPeer :: sip_peer
  RawMessage :: string

record sip_call_failed =
  FailCallID :: string
  FailTimestamp :: i64
  FailInviteTimestamp :: i64
  FailReason :: i64
  ResponseCode :: u32
  ReasonPhrase :: string
  FailCaller :: sip_peer
  FailCallee :: sip_peer

record call_health_warning =
  WarnCode :: string
  WarnTag :: string
  Explanation :: string
  StreamIDs :: "string list"

record call_health =
  HealthCallID :: string
  HealthTimestamp :: i64
  StreamCount :: i64
  Warnings :: "call_health_warning list"

record esp_sa_event =
  Spis :: "u32 list"
  Dst :: string
  EncAlg :: string
  AuthAlg :: string
  EspSource :: i64
  HasKeys :: bool

record capture_stats =
  Device :: string
  TotalPackets :: u64
  RTPPackets :: u64
  SipPackets :: u64
  TruncatedPackets :: u64
  SrcPortRange :: string
  DstPortRange :: string
  DroppedHwPackets :: u64
  ErroneousPackets :: u64
  MbufAllocFailed :: u64

record instance_statistics =
  InstanceID :: string
  InstanceName :: string
  ServerTime :: string
  InstanceVersion :: string
  UptimeSeconds :: u64
  PvqaInstanceCounter :: u64
  PvqaProcessedSeconds :: u64
  ActiveDecoderCounter :: u64
  ActiveAudioDecoderCounter :: u64
  TotalDecoderCounter :: u64
  Capturers :: "capture_stats list"
  SipCallCounter :: u64
  ResipMessageCounter :: u64
  ResipSipMessageCounter :: u64
  MemAllocatedBytes :: u64
  MemHeapSize :: u64
  MemPageheapFreeBytes :: u64
  MemAllocCount :: u64
  MemFreeCount :: u64
  MemAllocsPerSec :: f64
  MemFreesPerSec :: f64
  CpuUserSeconds :: f64
  CpuSystemSeconds :: f64
  CpuUsagePercent :: f64

datatype domain_event =
    EvStreamStart media_stream_id
  | EvStreamReport stream_report
  | EvStreamAudio stream_audio
  | EvInstanceStatistics instance_statistics
  | EvSipCallStart sip_call_start
  | EvSipCallEnd sip_call_end
  | EvSipReinvite sip_reinvite
  | EvSipCallFailed sip_call_failed
  | EvCallHealth call_health
  | EvEspSa esp_sa_event

lemma EndpointKey_LinkID [simp]: "EndpointKey (m\<lparr>LinkID := l\<rparr>) = EndpointKey m"
  by (simp add: EndpointKey_def)

lemma EndpointKey_eq_iff:
  "EndpointKey a = EndpointKey b \<longleftrightarrow> a\<lparr>LinkID := []\<rparr> = b\<lparr>LinkID := []\<rparr>"
  by (cases a; cases b) (simp add: EndpointKey_def)

text \<open>A stream and one of its interval reports, for examples.\<close>

definition sid0 :: media_stream_id where
  "sid0 = \<lparr>SrcIP = ''10.0.0.1'', SrcPort = 4000, DstIP = ''10.0.0.2'', DstPort = 5000, SSRC = 7, LinkID = ''l''\<rparr>"

definition rep0 :: stream_report where
  "rep0 = \<lparr>StreamID = sid0, StartMs = 1000, EndMs = 6000, StartStreamMs = 1000, RTPPacketCounter = 250,
     IllegalPacketCounter = 0, LostPacketCounter = 3, SevanaMOS = None, NetworkMOS = Some (Fin False 4),
     SevanaRfactor = 90, Jitter = Fin False 1, Codec = ''PCMU'', RTTDelay = Fin False 0, DetectorReport = [],
     DurationAudio = 5000, AmrNbSwitchCounter = 0, AmrWbSwitchCounter = 0, DtxSid = 0, DtxCount = 0,
     DtxTotal = 250, FullReport = False, UserReport = [], SipCallID = ''c'', SipPeerA = [], SipPeerB = []\<rparr>"

end
