(* ===== verification/Store.thy ===== *)
theory Store
  imports Model_Types "HOL-Library.AList"
begin

text \<open>
  The database under package \<^verbatim>\<open>db\<close>: the tables of \<^verbatim>\<open>schema.go\<close> as lists of row records,
  and the connection of \<^verbatim>\<open>busy.go\<close>. A statement of the source is a function on the tables;
  how the driver answers each attempt is a script of outcomes (an empty script means every
  attempt succeeds). A failed attempt changes nothing: an autocommit statement and a rolled
  back transaction leave the tables as they were. Row ids come from SQLite; the parameter
  \<open>fresh\<close> maps the ids in use to the next one.
\<close>

section \<open>Tables\<close>

record stream_row =
  s_stream_id :: int
  s_link_id :: string
  s_src_ip :: string
  s_src_port :: int
  s_dst_ip :: string
  s_dst_port :: int
  s_ssrc :: int
  s_sip_source :: "string option"
  s_sip_destination :: "string option"
  s_sip_callid :: "string option"
  s_agent_id :: "int option"
  s_created_ts :: "int option"

record report_row =
  r_stream_id :: int
  r_start_timestamp :: int
  r_end_timestamp :: int
  r_rtp_packet_counter :: int
  r_illegal_packet_counter :: int
  r_lost_packet_counter :: int
  r_sevana_mos :: "f64 option"
  r_sevana_rfactor :: int
  r_network_mos :: "f64 option"
  r_jitter :: f64
  r_codec :: string
  r_detector_report :: string
  r_rtt_delay :: f64
  r_flags :: int
  r_tags :: "string option"
  r_amr_nb_switch_counter :: int
  r_amr_wb_switch_counter :: int
  r_link_id :: string
  r_duration_audio :: int
  r_user_report :: string
  r_dtx_sid :: int
  r_dtx_count :: int
  r_dtx_total :: int

record audio_row =
  a_id :: int
  a_stream_id :: int
  a_start_timestamp :: int
  a_end_timestamp :: int
  a_audio_wav :: string

datatype sql_value = SqlInt int | SqlText string

record sip_row =
  sip_id :: int
  sip_columns :: "(string \<times> sql_value) list"

record health_row =
  h_id :: int
  h_call_id :: string
  h_event_timestamp :: int
  h_stream_count :: int
  h_warnings :: string

record alarm_row =
  al_id :: int
  al_name :: string
  al_kind :: string
  al_counter :: string
  al_op :: string
  al_value :: f64
  al_limit_value :: f64
  al_samples :: int
  al_event_timestamp :: int

record db =
  rtpmon_streams :: "stream_row list"
  rtpmon_intervals :: "report_row list"
  rtpmon_statistics :: "report_row list"
  rtpmon_audio :: "audio_row list"
  rtpmon_instances :: "(int \<times> string \<times> string) list"
  rtpmon_property :: "(string \<times> string option) list"
  rtpmon_sip_events :: "sip_row list"
  rtpmon_call_health :: "health_row list"
  rtpmon_alarm_events :: "alarm_row list"

definition emptyDb :: db where
  "emptyDb = \<lparr>rtpmon_streams = [], rtpmon_intervals = [], rtpmon_statistics = [], rtpmon_audio = [],
     rtpmon_instances = [], rtpmon_property = [], rtpmon_sip_events = [], rtpmon_call_health = [],
     rtpmon_alarm_events = []\<rparr>"

section \<open>Outcomes and retries\<close>

datatype db_error = SqliteError int | DriverError string

datatype outcome = Done | Failed db_error

definition SQLITE_BUSY :: int where "SQLITE_BUSY = 5"

text \<open>The primary result code is the low byte: \<^verbatim>\<open>se.Code()&0xff\<close>.\<close>

fun isBusy :: "db_error \<Rightarrow> bool" where
  "isBusy (SqliteError code) \<longleftrightarrow> code mod 256 = SQLITE_BUSY"
| "isBusy (DriverError _) \<longleftrightarrow> False"

type_synonym ('s, 'a) action = "'s \<Rightarrow> (db_error + 'a) \<times> 's"

definition ret :: "'a \<Rightarrow> ('s, 'a) action" where
  "ret x s = (Inr x, s)"

definition andThen :: "('s, 'a) action \<Rightarrow> ('a \<Rightarrow> ('s, 'b) action) \<Rightarrow> ('s, 'b) action" where
  "andThen m f s = (case m s of (Inl e, s') \<Rightarrow> (Inl e, s') | (Inr x, s') \<Rightarrow> f x s')"

text \<open>The pauses between attempts, in milliseconds.\<close>

definition busyRetryDelays :: "nat list" where
  "busyRetryDelays = [250, 1000, 2000, 5000]"

fun retryBusy :: "nat list \<Rightarrow> ('s, 'a) action \<Rightarrow> ('s, 'a) action" where
  "retryBusy [] op s = op s"
| "retryBusy (delay # delays) op s =
     (case op s of
        (Inl e, s') \<Rightarrow> if isBusy e then retryBusy delays op s' else (Inl e, s')
      | (Inr x, s') \<Rightarrow> (Inr x, s'))"

text \<open>The state of a connection: the tables and the outcomes still to come. Larger states
  extend it.\<close>

record conn =
  tables :: db
  script :: "outcome list"

definition attempt :: "(db \<Rightarrow> db \<times> 'a) \<Rightarrow> ('z conn_scheme, 'a) action" where
  "attempt stmt s =
     (case script s of
        Failed e # rest \<Rightarrow> (Inl e, s\<lparr>script := rest\<rparr>)
      | _ \<Rightarrow> (let (d, x) = stmt (tables s) in (Inr x, s\<lparr>tables := d, script := tl (script s)\<rparr>)))"

definition exec :: "(db \<Rightarrow> db \<times> 'a) \<Rightarrow> ('z conn_scheme, 'a) action" where
  "exec stmt = retryBusy busyRetryDelays (attempt stmt)"

definition queryDb :: "(db \<Rightarrow> 'a) \<Rightarrow> ('z conn_scheme, 'a) action" where
  "queryDb q = attempt (\<lambda>d. (d, q d))"

text \<open>A transaction keeps the tables it began with for the rollback.\<close>

definition beginTx :: "('z conn_scheme, db) action" where
  "beginTx = retryBusy busyRetryDelays (attempt (\<lambda>d. (d, d)))"

definition rollback :: "db \<Rightarrow> 'z conn_scheme \<Rightarrow> 'z conn_scheme" where
  "rollback snap s = s\<lparr>tables := snap\<rparr>"

definition commit :: "('z conn_scheme, unit) action" where
  "commit = attempt (\<lambda>d. (d, ()))"

text \<open>A body run in a transaction: any error rolls back.\<close>

definition transact :: "('z conn_scheme, unit) action \<Rightarrow> ('z conn_scheme, unit) action" where
  "transact body = andThen beginTx (\<lambda>snap s.
     case andThen body (\<lambda>_. commit) s of
       (Inl e, s') \<Rightarrow> (Inl e, rollback snap s')
     | (Inr x, s') \<Rightarrow> (Inr x, s'))"

section \<open>Every action applies once or not at all\<close>

text \<open>An attempt, an autocommit statement with its retries and a query either have their effect
  once and answer, or leave the tables alone and answer an error.\<close>

definition atomic :: "(db \<Rightarrow> db \<times> 'a) \<Rightarrow> ('z conn_scheme, 'a) action \<Rightarrow> bool" where
  "atomic stmt m \<longleftrightarrow> (\<forall>s. \<exists>os.
     m s = (Inr (snd (stmt (tables s))), s\<lparr>tables := fst (stmt (tables s)), script := os\<rparr>)
     \<or> (\<exists>e. m s = (Inl e, s\<lparr>script := os\<rparr>)))"

lemma atomicE:
  assumes "atomic stmt m"
  obtains (applied) os where "m s = (Inr (snd (stmt (tables s))), s\<lparr>tables := fst (stmt (tables s)), script := os\<rparr>)"
    | (error) e os where "m s = (Inl e, s\<lparr>script := os\<rparr>)"
  using assms unfolding atomic_def by blast

lemma atomic_attempt: "atomic stmt (attempt stmt)"
  unfolding atomic_def
proof (rule allI, goal_cases)
  case (1 s)
  show ?case
    by (intro exI [of _ "tl (script s)"]) (auto simp: attempt_def split_beta split: list.splits outcome.splits)
qed

lemma atomic_retry: "atomic stmt (retryBusy ds (attempt stmt))"
proof (induction ds)
  case Nil
  show ?case using atomic_attempt [of stmt] by (simp add: atomic_def)
next
  case (Cons d ds)
  show ?case
    unfolding atomic_def
  proof (rule allI, goal_cases)
    case (1 s)
    show ?case
    proof (cases rule: atomicE [OF atomic_attempt, of stmt s])
      case (1 os)
      then show ?thesis by auto
    next
      case (2 e os)
      show ?thesis
        by (cases rule: atomicE [OF Cons.IH, of "s\<lparr>script := os\<rparr>"]) (use 2 in auto)
    qed
  qed
qed

lemma atomic_exec: "atomic stmt (exec stmt)"
  by (simp add: exec_def atomic_retry)

lemma atomic_queryDb: "atomic (\<lambda>d. (d, q d)) (queryDb q)"
  by (simp add: queryDb_def atomic_attempt)

lemma atomic_beginTx: "atomic (\<lambda>d. (d, d)) beginTx"
  by (simp add: beginTx_def atomic_retry)

lemma atomic_commit: "atomic (\<lambda>d. (d, ())) commit"
  by (simp add: commit_def atomic_attempt)

text \<open>A body that touches nothing but the tables becomes atomic in a transaction.\<close>

definition tableBody :: "(db \<Rightarrow> db) \<Rightarrow> ('z conn_scheme, unit) action \<Rightarrow> bool" where
  "tableBody f m \<longleftrightarrow> (\<forall>s. \<exists>d os.
     m s = (Inr (), s\<lparr>tables := f (tables s), script := os\<rparr>) \<or> (\<exists>e. m s = (Inl e, s\<lparr>tables := d, script := os\<rparr>)))"

lemma tableBodyE:
  assumes "tableBody f m"
  obtains (applied) os where "m s = (Inr (), s\<lparr>tables := f (tables s), script := os\<rparr>)"
    | (error) e d os where "m s = (Inl e, s\<lparr>tables := d, script := os\<rparr>)"
  using assms unfolding tableBody_def by blast

lemma atomic_transact:
  assumes "tableBody f body"
  shows "atomic (\<lambda>d. (f d, ())) (transact body)"
  unfolding atomic_def
proof (rule allI, goal_cases)
  case (1 s)
  show ?case
  proof (cases rule: atomicE [OF atomic_beginTx, of s])
    case (2 e os)
    then show ?thesis by (auto simp: transact_def andThen_def)
  next
    case begun: (1 os)
    then have b: "beginTx s = (Inr (tables s), s\<lparr>script := os\<rparr>)" by simp
    show ?thesis
    proof (cases rule: tableBodyE [OF assms, of "s\<lparr>script := os\<rparr>"])
      case (2 e d os')
      with b show ?thesis by (auto simp: transact_def andThen_def rollback_def)
    next
      case applied: (1 os')
      show ?thesis
        by (cases rule: atomicE [OF atomic_commit, of "s\<lparr>tables := f (tables s), script := os'\<rparr>"])
          (use b applied in \<open>auto simp: transact_def andThen_def rollback_def\<close>)
    qed
  qed
qed

lemma tableBody_ret: "tableBody (\<lambda>d. d) (ret ())"
  unfolding tableBody_def
proof (rule allI, goal_cases)
  case (1 s)
  show ?case
    by (intro exI [of _ "tables s"] exI [of _ "script s"]) (simp add: ret_def)
qed

lemma tableBody_andThen:
  assumes "tableBody f m" "tableBody g n"
  shows "tableBody (g \<circ> f) (andThen m (\<lambda>_. n))"
  unfolding tableBody_def
proof (rule allI, goal_cases)
  case (1 s)
  show ?case
  proof (cases rule: tableBodyE [OF assms(1), of s])
    case (2 e d os)
    then show ?thesis by (auto simp: andThen_def)
  next
    case applied: (1 os)
    show ?thesis
      by (cases rule: tableBodyE [OF assms(2), of "s\<lparr>tables := f (tables s), script := os\<rparr>"])
        (use applied in \<open>auto simp: andThen_def\<close>)
  qed
qed

lemma tableBody_attempt:
  assumes "\<And>d. fst (stmt d) = f d"
  shows "tableBody f (attempt stmt)"
  unfolding tableBody_def
proof (rule allI, goal_cases)
  case (1 s)
  show ?case
  proof (cases rule: atomicE [OF atomic_attempt [of stmt], of s])
    case (2 e os)
    then show ?thesis by (intro exI [of _ "tables s"]) auto
  qed (use assms in auto)
qed

section \<open>How long a write is tried\<close>

lemma retry_busy_prefix:
  assumes "list_all isBusy es" "length es \<le> length ds" "script s = map Failed es @ rest"
  shows "retryBusy ds (attempt stmt) s = retryBusy (drop (length es) ds) (attempt stmt) (s\<lparr>script := rest\<rparr>)"
  using assms
proof (induction es arbitrary: ds s)
  case (Cons e es)
  then obtain d ds' where ds: "ds = d # ds'" by (cases ds) auto
  from Cons have "attempt stmt s = (Inl e, s\<lparr>script := map Failed es @ rest\<rparr>)" by (simp add: attempt_def)
  with Cons.prems Cons.IH [of ds' "s\<lparr>script := map Failed es @ rest\<rparr>"] ds show ?case by simp
next
  case Nil
  then have r: "rest = script s" by simp
  show ?case unfolding r by simp
qed

text \<open>C9: A write survives a busy database. Up to four busy answers (of any extended code) are
  retried and the statement then takes effect exactly once; a fifth busy answer, or any other
  error at once, is returned with the tables unchanged.\<close>

theorem exec_retries:
  assumes "list_all isBusy es"
  shows "(length es \<le> 4 \<and> script s = map Failed es @ Done # rest \<longrightarrow>
            exec stmt s = (Inr (snd (stmt (tables s))), s\<lparr>tables := fst (stmt (tables s)), script := rest\<rparr>))
    \<and> (length es \<le> 4 \<and> script s = map Failed es @ Failed e # rest \<and> (length es = 4 \<or> \<not> isBusy e) \<longrightarrow>
            exec stmt s = (Inl e, s\<lparr>script := rest\<rparr>))"
proof -
  have run: "exec stmt s = retryBusy (drop (length es) busyRetryDelays) (attempt stmt) (s\<lparr>script := r\<rparr>)"
    if "length es \<le> 4" "script s = map Failed es @ r" for r
    using retry_busy_prefix [OF assms, of busyRetryDelays s r] that by (simp add: exec_def busyRetryDelays_def)
  have ok: "retryBusy ds (attempt stmt) (s\<lparr>script := Done # rest\<rparr>)
      = (Inr (snd (stmt (tables s))), s\<lparr>tables := fst (stmt (tables s)), script := rest\<rparr>)" for ds
    by (cases ds) (simp_all add: attempt_def split_beta)
  have err: "retryBusy ds (attempt stmt) (s\<lparr>script := Failed e # rest\<rparr>) = (Inl e, s\<lparr>script := rest\<rparr>)"
    if "ds = [] \<or> \<not> isBusy e" for ds
    using that by (cases ds) (simp_all add: attempt_def)
  show ?thesis
    using run [of "Done # rest"] run [of "Failed e # rest"] ok err
    by (auto simp: busyRetryDelays_def attempt_def)
qed

theorem exec_retries_witness:
  "exec (\<lambda>d. (d\<lparr>rtpmon_property := [(''a'', Some ''b'')]\<rparr>, ()))
     \<lparr>tables = emptyDb, script = [Failed (SqliteError 517), Failed (SqliteError 5), Done]\<rparr>
   = (Inr (), \<lparr>tables = emptyDb\<lparr>rtpmon_property := [(''a'', Some ''b'')]\<rparr>, script = []\<rparr>)"
  using exec_retries [of "[SqliteError 517, SqliteError 5]"
      "\<lparr>tables = emptyDb, script = [Failed (SqliteError 517), Failed (SqliteError 5), Done]\<rparr>" "[]"
      "\<lambda>d. (d\<lparr>rtpmon_property := [(''a'', Some ''b'')]\<rparr>, ())"]
  by (simp add: SQLITE_BUSY_def)

end
