(* ===== verification/Alarm_Notify.thy ===== *)
theory Alarm_Notify
  imports Alarm_Engine Store
begin

text \<open>
  The notifiers of the alarm package: the command queue, the command line and its environment
  (\<^verbatim>\<open>alarm/command.go\<close>), the webhook queue (\<^verbatim>\<open>alarm/webhook.go\<close>) and the event table
  (\<^verbatim>\<open>alarm/store.go\<close>). Running a shell and posting to a URL are outside the model: a queue hands
  its events to its worker in order. The theorems show that filling in the placeholders adds no
  shell syntax to the operator's command, and what the queues and the table keep.
\<close>

section \<open>The command line\<close>

text \<open>\<^verbatim>\<open>strings.NewReplacer(...).Replace\<close>: at each position the first pair, in argument order,
  whose old string matches.\<close>

function replacer :: "(string \<times> string) list \<Rightarrow> string \<Rightarrow> string" where
  "replacer ps [] = []"
| "replacer ps (c # s) =
     (case filter (\<lambda>(old, _). old \<noteq> [] \<and> strings_HasPrefix (c # s) old) ps of
        [] \<Rightarrow> c # replacer ps s
      | (old, new) # _ \<Rightarrow> new @ replacer ps (drop (length old) (c # s)))"
  by pat_completeness auto
termination
proof (relation "measure (\<lambda>(ps, s). length s)", goal_cases)
  case (3 ps c s old_new rest old new)
  then have "(old, new) \<in> set (filter (\<lambda>(old, _). old \<noteq> [] \<and> strings_HasPrefix (c # s) old) ps)"
    by (metis list.set_intros(1))
  then show ?case by (cases old) auto
qed auto

definition num3 :: "f64 \<Rightarrow> string" where
  "num3 v = formatFixed 3 v"

definition placeholders :: "event \<Rightarrow> (string \<times> string) list" where
  "placeholders ev =
     (let s = evSnapshot ev
      in [(''$free_disk_space'', if f64_le f64_zero (snFreeDisk s) then num3 (snFreeDisk s) else []),
          (''$r_factor'', num3 (snRFactor s)),
          (''$sevana_mos'', num3 (snSevanaMOS s)),
          (''$network_mos'', num3 (snNetworkMOS s)),
          (''$packet_loss'', num3 (snPacketLoss s)),
          (''$jitter'', num3 (snJitter s)),
          (''$duration'', num3 (snDuration s)),
          (''$limit'', num3 (Limit (evRule ev)))])"

text \<open>\<open>home\<close> is \<^verbatim>\<open>os.UserHomeDir()\<close>, empty when it is not known.\<close>

definition CommandLine :: "string \<Rightarrow> event \<Rightarrow> string" where
  "CommandLine home ev =
     (let line = replacer (placeholders ev) (Command (evRule ev))
      in if home \<noteq> [] \<and> strings_HasPrefix line ''~/'' then home @ tl line else line)"

definition Env :: "event \<Rightarrow> string list" where
  "Env ev =
     (let s = evSnapshot ev; r = evRule ev
      in [''VQ_ALARM_NAME='' @ Name r,
          ''VQ_ALARM_STATE='' @ kind_string (evKind ev),
          ''VQ_ALARM_COUNTER='' @ Counter r,
          ''VQ_ALARM_VALUE='' @ num3 (evValue ev),
          ''VQ_ALARM_OP='' @ op_String (RuleOp r),
          ''VQ_ALARM_LIMIT='' @ num3 (Limit r),
          ''VQ_ALARM_UNIT='' @ Unit r,
          ''VQ_ALARM_SAMPLES='' @ strconv_Itoa (evSamples ev),
          ''VQ_ALARM_WINDOW_S='' @ strconv_Itoa (wholeSeconds (Window r)),
          ''VQ_ALARM_FILTER='' @ RuleFilter r,
          ''VQ_ALARM_CODE='' @ Code r,
          ''VQ_ALARM_TIME='' @ RFC3339 (evAt ev),
          ''VQ_INSTANCE_ID='' @ instID (evInstance ev),
          ''VQ_INSTANCE_NAME='' @ instName (evInstance ev),
          ''VQ_STREAMS='' @ strconv_Itoa (snStreams s),
          ''VQ_R_FACTOR='' @ num3 (snRFactor s),
          ''VQ_SEVANA_MOS='' @ num3 (snSevanaMOS s),
          ''VQ_NETWORK_MOS='' @ num3 (snNetworkMOS s),
          ''VQ_PACKET_LOSS='' @ num3 (snPacketLoss s),
          ''VQ_JITTER='' @ num3 (snJitter s),
          ''VQ_DURATION='' @ num3 (snDuration s)]
         @ (if f64_le f64_zero (snFreeDisk s) then [''VQ_FREE_DISK_SPACE='' @ num3 (snFreeDisk s)] else []))"

section \<open>Queues\<close>

definition queueSize :: nat where "queueSize = 64"

text \<open>A non-blocking send on a buffered channel: a full queue drops the event.\<close>

definition offer :: "event \<Rightarrow> event list \<Rightarrow> event list" where
  "offer ev q = (if length q < queueSize then q @ [ev] else q)"

definition commandWanted :: "event \<Rightarrow> bool" where
  "commandWanted ev \<longleftrightarrow> \<not> (Command (evRule ev) = [] \<or> (evKind ev = Cleared \<and> \<not> OnClear (evRule ev)))"

definition CommandNotify :: "event \<Rightarrow> event list \<Rightarrow> event list" where
  "CommandNotify ev q = (if commandWanted ev then offer ev q else q)"

definition WebhookNotify :: "event \<Rightarrow> event list \<Rightarrow> event list" where
  "WebhookNotify ev q = (if Webhook (evRule ev) = [] then q else offer ev q)"

section \<open>The event table\<close>

definition eventRow :: "int \<Rightarrow> event \<Rightarrow> alarm_row" where
  "eventRow i ev =
     \<lparr>al_id = i, al_name = Name (evRule ev), al_kind = kind_string (evKind ev),
      al_counter = Counter (evRule ev), al_op = op_String (RuleOp (evRule ev)), al_value = evValue ev,
      al_limit_value = Limit (evRule ev), al_samples = evSamples ev,
      al_event_timestamp = UnixMilli (evAt ev)\<rparr>"

definition insertEvent :: "(int list \<Rightarrow> int) \<Rightarrow> event \<Rightarrow> db \<Rightarrow> db \<times> unit" where
  "insertEvent fresh ev d =
     (d\<lparr>rtpmon_alarm_events := rtpmon_alarm_events d @
         [eventRow (fresh (map al_id (rtpmon_alarm_events d))) ev]\<rparr>, ())"

text \<open>A plain \<^verbatim>\<open>DB.Exec\<close>, without the retries of the writer; an error is only logged.\<close>

definition StoreNotify :: "(int list \<Rightarrow> int) \<Rightarrow> event \<Rightarrow> 'z conn_scheme \<Rightarrow> 'z conn_scheme" where
  "StoreNotify fresh ev s = snd (attempt (insertEvent fresh ev) s)"

definition RecentEvents :: "nat \<Rightarrow> (conn, alarm_row list) action" where
  "RecentEvents n = queryDb (\<lambda>d. take n (rev (sort_key al_id (rtpmon_alarm_events d))))"

section \<open>No shell syntax from the placeholders\<close>

text \<open>The characters of placeholder names and of printed numbers.\<close>

definition plainChar :: "char \<Rightarrow> bool" where
  "plainChar c \<longleftrightarrow> isDigit c \<or> c \<in> set ''.+-$_NaInf'' \<or> (97 \<le> (of_char c :: nat) \<and> of_char c \<le> (122::nat))"

definition shellText :: "string \<Rightarrow> string" where
  "shellText s = filter (\<lambda>c. \<not> plainChar c) s"

lemma shellText_append [simp]: "shellText (s @ t) = shellText s @ shellText t"
  by (simp add: shellText_def)

lemma shellText_plain: "list_all plainChar s \<Longrightarrow> shellText s = []"
  by (auto simp: shellText_def list_all_iff filter_empty_conv)

lemma plain_digits: "list_all isDigit ds \<Longrightarrow> list_all plainChar ds"
  by (auto simp: list_all_iff plainChar_def)

lemma num3_plain: "list_all plainChar (num3 v)"
proof -
  have "list_all plainChar (decimalNat n)" for n
    by (rule plain_digits [OF decimalNat_digits])
  moreover have "list_all plainChar (replicate n (CHR ''0''))" for n
    by (simp add: list_all_iff plainChar_def isDigit_def)
  ultimately show ?thesis
    by (cases v) (auto simp: num3_def Let_def plainChar_def)
qed

lemma placeholders_plain: "(old, new) \<in> set (placeholders ev) \<Longrightarrow> list_all plainChar old \<and> list_all plainChar new"
  using num3_plain by (auto simp: placeholders_def Let_def plainChar_def split: if_splits)

lemma replacer_shellText:
  assumes "\<And>old new. (old, new) \<in> set ps \<Longrightarrow> list_all plainChar old \<and> list_all plainChar new"
  shows "shellText (replacer ps s) = shellText s"
  using assms
proof (induction ps s rule: replacer.induct)
  case (2 ps c s)
  show ?case
  proof (cases "filter (\<lambda>(old, _). old \<noteq> [] \<and> strings_HasPrefix (c # s) old) ps")
    case Nil
    with 2(1) [OF Nil 2(3)] show ?thesis by (simp add: shellText_def)
  next
    case (Cons p rest)
    obtain old new where p: "p = (old, new)" by (cases p)
    have "(old, new) \<in> set (filter (\<lambda>(old, _). old \<noteq> [] \<and> strings_HasPrefix (c # s) old) ps)"
      unfolding Cons p by simp
    then have m: "(old, new) \<in> set ps" "strings_HasPrefix (c # s) old" by auto
    then have cs: "c # s = old @ drop (length old) (c # s)"
      by (metis append_take_drop_id strings_HasPrefix_def)
    have "shellText (replacer ps (c # s)) = shellText (drop (length old) (c # s))"
      using 2(2) [OF Cons p [symmetric] 2(3)] 2(3) [OF m(1)] Cons p by (simp add: shellText_plain)
    also have "\<dots> = shellText (c # s)"
      using 2(3) [OF m(1)] by (subst (2) cs) (simp only: shellText_append shellText_plain append_Nil)
    finally show ?thesis .
  qed
qed simp

text \<open>C18: Filling the placeholders of an alarm command adds no shell syntax, whatever was measured:
  the characters of the command line other than letters a to z, digits and the signs of numbers and
  placeholders (so every quote, blank, semicolon, pipe, redirection, bracket, backslash, newline)
  are exactly the ones the operator wrote, in the same order. The only other change is the
  replacement of a leading tilde by the home directory.\<close>

theorem command_adds_no_shell_syntax:
  "let line = replacer (placeholders ev) (Command (evRule ev))
   in shellText line = shellText (Command (evRule ev)) \<and>
      CommandLine home ev = (if home \<noteq> [] \<and> strings_HasPrefix line ''~/'' then home @ tl line else line)"
  using replacer_shellText [of "placeholders ev", OF placeholders_plain]
  by (auto simp: CommandLine_def Let_def)

section \<open>What the queues and the table keep\<close>

lemma offer_bound: "length q \<le> queueSize \<Longrightarrow> length (offer ev q) \<le> queueSize"
  by (simp add: offer_def)

lemma offer_all:
  "length q + length (filter W evs) \<le> queueSize \<Longrightarrow>
     fold (\<lambda>ev q. if W ev then offer ev q else q) evs q = q @ filter W evs"
  by (induction evs arbitrary: q) (auto simp: offer_def)

lemma CommandNotify_keeps:
  assumes "length (filter commandWanted evs) \<le> queueSize"
  shows "fold CommandNotify evs [] = filter commandWanted evs"
  using offer_all [of "[]" commandWanted evs] assms by (simp add: CommandNotify_def [abs_def])

lemma WebhookNotify_keeps:
  assumes "length (filter (\<lambda>ev. Webhook (evRule ev) \<noteq> []) evs) \<le> queueSize"
  shows "fold WebhookNotify evs [] = filter (\<lambda>ev. Webhook (evRule ev) \<noteq> []) evs"
proof -
  have "WebhookNotify = (\<lambda>ev q. if Webhook (evRule ev) \<noteq> [] then offer ev q else q)"
    by (intro ext) (simp add: WebhookNotify_def)
  with offer_all [of "[]" "\<lambda>ev. Webhook (evRule ev) \<noteq> []" evs] assms show ?thesis by simp
qed

lemma StoreNotify_once:
  "rtpmon_alarm_events (tables (StoreNotify fresh ev s)) \<in>
     {rtpmon_alarm_events (tables s),
      rtpmon_alarm_events (tables s) @ [eventRow (fresh (map al_id (rtpmon_alarm_events (tables s)))) ev]}"
  by (cases rule: atomicE [OF atomic_attempt, of "insertEvent fresh ev" s])
    (auto simp: StoreNotify_def insertEvent_def)

end
