(* ===== verification/Go_Fmt.thy ===== *)
theory Go_Fmt
  imports Filter_Eval
begin

text \<open>
  Printing a \<^verbatim>\<open>float64\<close> with the verb \<^verbatim>\<open>%v\<close> of package \<^verbatim>\<open>fmt\<close>: the shortest decimal that reads back,
  in exponent form when the exponent is below -4 or at least 6.
\<close>

definition fmtMagV :: "rat \<Rightarrow> string" where
  "fmtMagV r =
     (let (digits, ex) = shortestDigits r; n = int (length digits)
      in if ex < - 4 \<or> 6 \<le> ex
         then take 1 digits @ (if 1 < length digits then ''.'' @ drop 1 digits else []) @ fmtExp ex
         else if ex < 0 then ''0.'' @ replicate (nat (- ex - 1)) (CHR ''0'') @ digits
         else if n \<le> ex + 1 then digits @ replicate (nat (ex + 1 - n)) (CHR ''0'')
         else take (nat (ex + 1)) digits @ ''.'' @ drop (nat (ex + 1)) digits)"

fun fmtFloatV :: "f64 \<Rightarrow> string" where
  "fmtFloatV NaN = ''NaN''"
| "fmtFloatV (Inf s) = (if s then ''-Inf'' else ''+Inf'')"
| "fmtFloatV (Fin s r) = (if s then ''-'' @ fmtMagV r else fmtMagV r)"

end
