(* ===== verification/Api_Values.thy ===== *)
theory Api_Values
  imports Go_Fmt Go_Time
begin

text \<open>
  The coercions of the REST API (\<^verbatim>\<open>api/values.go\<close>): a row is a map from column names to dynamic
  values, those of \<open>Filter_Eval\<close>, and missing or ill-typed values become zero values. The local time
  zone of \<^verbatim>\<open>startTimeLabel\<close> is the argument \<open>zone\<close>, the offset in seconds at an instant.
\<close>

fun fmtSprint :: "val \<Rightarrow> string" where
  "fmtSprint VNil = ''<nil>''"
| "fmtSprint (VInt i) = strconv_Itoa (sint i)"
| "fmtSprint (VGoInt i) = strconv_Itoa (sint i)"
| "fmtSprint (VFloat f) = fmtFloatV f"
| "fmtSprint (VBool b) = (if b then ''true'' else ''false'')"
| "fmtSprint (VStr s) = s"
| "fmtSprint (VStrs xs) = ''['' @ strings_Join xs '' '' @ '']''"

definition rowGet :: "valmap \<Rightarrow> string \<Rightarrow> val" where
  "rowGet row key = (case row key of None \<Rightarrow> VNil | Some v \<Rightarrow> v)"

definition getStr :: "valmap \<Rightarrow> string \<Rightarrow> string" where
  "getStr row key = (case rowGet row key of VNil \<Rightarrow> [] | v \<Rightarrow> fmtSprint v)"

fun toI64 :: "val \<Rightarrow> int" where
  "toI64 (VInt i) = sint i"
| "toI64 (VGoInt i) = sint i"
| "toI64 (VFloat f) = f64_to_int64 f"
| "toI64 (VBool b) = (if b then 1 else 0)"
| "toI64 (VStr s) =
     (case strconv_ParseInt (strings_TrimSpace s) of
        Some n \<Rightarrow> n
      | None \<Rightarrow> (case strconv_ParseFloat (strings_TrimSpace s) of Some f \<Rightarrow> f64_to_int64 f | None \<Rightarrow> 0))"
| "toI64 _ = 0"

definition getI64 :: "valmap \<Rightarrow> string \<Rightarrow> int" where
  "getI64 row key = toI64 (rowGet row key)"

fun toF64 :: "val \<Rightarrow> f64" where
  "toF64 (VFloat f) = f"
| "toF64 (VInt i) = f64_of_int (sint i)"
| "toF64 (VGoInt i) = f64_of_int (sint i)"
| "toF64 (VStr s) = (case strconv_ParseFloat (strings_TrimSpace s) of Some f \<Rightarrow> f | None \<Rightarrow> Fin False 0)"
| "toF64 _ = Fin False 0"

definition getF64 :: "valmap \<Rightarrow> string \<Rightarrow> f64" where
  "getF64 row key = toF64 (rowGet row key)"

definition getBool :: "valmap \<Rightarrow> string \<Rightarrow> bool" where
  "getBool row key =
     (case rowGet row key of
        VBool b \<Rightarrow> b
      | VInt i \<Rightarrow> i \<noteq> 0
      | VGoInt i \<Rightarrow> i \<noteq> 0
      | VFloat f \<Rightarrow> \<not> f64_eq f (Fin False 0)
      | VStr s \<Rightarrow> s \<noteq> []
      | _ \<Rightarrow> False)"

fun math_RoundToEven :: "f64 \<Rightarrow> f64" where
  "math_RoundToEven (Fin s r) = Fin s (of_int (roundHalfEven r))"
| "math_RoundToEven x = x"

definition round3 :: "f64 \<Rightarrow> f64" where
  "round3 v = f64_div (math_RoundToEven (f64_mul v (f64_of_int 1000))) (f64_of_int 1000)"

definition hexDigit :: "nat \<Rightarrow> char" where
  "hexDigit n = ''0123456789abcdef'' ! n"

fun hexNat :: "nat \<Rightarrow> string" where
  "hexNat n = (if n < 16 then [hexDigit n] else hexNat (n div 16) @ [hexDigit (n mod 16)])"

declare hexNat.simps [simp del]

definition hexOf :: "val \<Rightarrow> string" where
  "hexOf v = (let i = toI64 v in if i < 0 then ''-'' @ hexNat (nat (- i)) else hexNat (nat i))"

fun portString :: "val \<Rightarrow> string" where
  "portString VNil = ''0''"
| "portString (VStr s) = s"
| "portString v = strconv_Itoa (toI64 v)"

definition endpoint :: "string \<Rightarrow> val \<Rightarrow> string" where
  "endpoint ip port = ip @ '':'' @ portString port"

text \<open>The layout \<^verbatim>\<open>2006-01-02 15:04:05.000\<close>, of an instant in milliseconds.\<close>

definition formatStamp :: "int \<Rightarrow> string" where
  "formatStamp ms = (let t = ms * 10 ^ 6 in formatDate t @ '' '' @ formatClock t @ ''.'' @ zeroPad 3 (ms mod 1000))"

definition startTimeLabel :: "(int \<Rightarrow> int) \<Rightarrow> int \<Rightarrow> string" where
  "startTimeLabel zone ms = formatStamp (ms + 1000 * zone ms)"

end
