(* ===== verification/Pvqa_Report.thy ===== *)
theory Pvqa_Report
  imports GoFloat
begin

text \<open>
  Package \<^verbatim>\<open>pvqa\<close> (\<^verbatim>\<open>report.go\<close>): the interval-report text is parsed into rows, and the
  rows are decomposed into a trigger count per detector, the R-factor and the silent share.
  A slice expression out of range is a panic, the value \<^verbatim>\<open>None\<close>. The process-wide default
  thresholds are the argument \<open>th\<close>; Go's nil map reads like the empty one. The counters
  count cells of texts held in memory, so Go's int is wide enough for them.
\<close>

record report_row =
  Poor :: bool
  Values :: "f64 list"
  Marked :: "bool list"

record detector =
  IntThresh :: f64
  Flagged :: bool

type_synonym thresholds = "string \<Rightarrow> detector option"

record parsed_report =
  DetectorList :: "string list"
  Rows :: "report_row list"

type_synonym detector_count = "string \<times> int"

record decomposition =
  Detectors :: "detector_count list"
  Intervals :: int
  PoorIntervals :: int

definition RfactorPercents :: "decomposition \<Rightarrow> int" where
  "RfactorPercents d =
     (if Intervals d \<le> 0 then 0
      else let pct = f64_to_int64 (f64_mul (f64_div (f64_of_int (Intervals d - PoorIntervals d)) (f64_of_int (Intervals d)))
                                           (f64_of_int 100))
           in if 100 < pct then 100 else pct)"

section \<open>Parsing\<close>

definition CR :: char where "CR = CHR 0x0D"
definition LF :: char where "LF = CHR 0x0A"

definition splitLines :: "string \<Rightarrow> string list" where
  "splitLines txt =
     strings_SplitChar LF (strings_ReplaceAll (strings_ReplaceAll txt [CR, LF] [LF]) [CR] [LF])"

definition splitStrip :: "string \<Rightarrow> string list" where
  "splitStrip s = map strings_TrimSpace (strings_SplitChar (CHR '';'') s)"

definition parseHeader :: "string list \<Rightarrow> string list \<times> bool" where
  "parseHeader header0 =
     (let header1 = (if header0 \<noteq> [] \<and> hd header0 = ''Time'' then tl header0 else header0);
          average = (header1 \<noteq> [] \<and> hd header1 = ''Average'');
          header2 = (if average then tl header1 else header1);
          header3 = (if header2 \<noteq> [] \<and> last header2 = ''Status'' then butlast header2 else header2)
      in (header3, average))"

definition parseCell :: "string \<Rightarrow> f64 \<times> bool" where
  "parseCell cell =
     (let mark = strings_HasSuffix cell ''!'';
          v = (if mark then strings_TrimSpace (butlast cell) else cell)
      in (case strconv_ParseFloat v of Some f \<Rightarrow> f | None \<Rightarrow> Fin False 0, mark))"

text \<open>Rows of one report: \<^verbatim>\<open>None\<close> when a row is too short for its slice.\<close>

fun parseRows :: "bool \<Rightarrow> string list \<Rightarrow> report_row list option" where
  "parseRows average [] = Some []"
| "parseRows average (line # lines) =
     (let fields = splitStrip (strings_TrimSpace line); startOffset = (if average then 2 else 1)
      in if strings_TrimSpace line = [] \<or> length fields < 2 then parseRows average lines
         else if length fields - 1 < startOffset then None
         else let cells = map parseCell (drop startOffset (butlast fields))
              in map_option (\<lambda>rows. \<lparr>Poor = (last fields = ''Poor''), Values = map fst cells, Marked = map snd cells\<rparr> # rows)
                   (parseRows average lines))"

definition ParseIntervalReport :: "string \<Rightarrow> parsed_report option" where
  "ParseIntervalReport txt =
     (if strings_TrimSpace txt = [] then Some \<lparr>DetectorList = [], Rows = []\<rparr>
      else let lines = splitLines txt; (header, average) = parseHeader (splitStrip (hd lines))
           in map_option (\<lambda>rows. \<lparr>DetectorList = header, Rows = rows\<rparr>) (parseRows average (tl lines)))"

section \<open>Counting triggers\<close>

definition legacyLevel :: f64 where "legacyLevel = f64_of_rat (1 / 1000)"

definition triggered :: "report_row \<Rightarrow> nat \<Rightarrow> f64 \<Rightarrow> bool \<Rightarrow> bool" where
  "triggered row idx threshold known =
     (if idx < length (Marked row) \<and> Marked row ! idx then True
      else if known then f64_lt threshold (Values row ! idx)
      else Poor row \<and> f64_lt legacyLevel (Values row ! idx))"

text \<open>A column's slot (\<^verbatim>\<open>None\<close> is the code's \<^verbatim>\<open>-1\<close>), limit and whether it is known.\<close>

type_synonym slot = "nat option \<times> f64 \<times> bool"

fun assignSlots ::
    "thresholds \<Rightarrow> string list \<Rightarrow> detector_count list \<times> (string \<Rightarrow> nat option)
     \<Rightarrow> slot list \<times> (detector_count list \<times> (string \<Rightarrow> nat option))" where
  "assignSlots th [] st = ([], st)"
| "assignSlots th (name # names) (dets, idx) =
     (if (case th name of Some d \<Rightarrow> \<not> Flagged d | None \<Rightarrow> False)
      then let (slots, st) = assignSlots th names (dets, idx) in ((None, Fin False 0, False) # slots, st)
      else let (limit, known) = (case th name of Some d \<Rightarrow> (IntThresh d, True) | None \<Rightarrow> (Fin False 0, False));
               (slot, dets', idx') = (case idx name of
                                        Some s \<Rightarrow> (s, dets, idx)
                                      | None \<Rightarrow> (length dets, dets @ [(name, 0)], idx(name \<mapsto> length dets)));
               (slots, st) = assignSlots th names (dets', idx')
           in ((Some slot, limit, known) # slots, st))"

definition countCell :: "slot list \<Rightarrow> report_row \<Rightarrow> nat \<Rightarrow> detector_count list \<Rightarrow> detector_count list" where
  "countCell slots row idx dets =
     (if idx < length slots
      then case slots ! idx of
             (Some s, limit, known) \<Rightarrow>
               if triggered row idx limit known then dets[s := (fst (dets ! s), snd (dets ! s) + 1)] else dets
           | (None, _, _) \<Rightarrow> dets
      else dets)"

definition countRow :: "slot list \<Rightarrow> report_row \<Rightarrow> detector_count list \<times> int \<times> int \<Rightarrow> detector_count list \<times> int \<times> int" where
  "countRow slots row = (\<lambda>(dets, intervals, poor).
     (fold (countCell slots row) [0..<length (Values row)] dets,
      intervals + 1, if Poor row then poor + 1 else poor))"

fun decomposeTexts ::
    "thresholds \<Rightarrow> string list \<Rightarrow> (detector_count list \<times> (string \<Rightarrow> nat option)) \<times> int \<times> int
     \<Rightarrow> decomposition option" where
  "decomposeTexts th [] ((dets, idx), intervals, poor) =
     Some \<lparr>Detectors = dets, Intervals = intervals, PoorIntervals = poor\<rparr>"
| "decomposeTexts th (txt # texts) (st, intervals, poor) =
     (case ParseIntervalReport txt of
        None \<Rightarrow> None
      | Some parsed \<Rightarrow>
          let (slots, (dets, idx)) = assignSlots th (DetectorList parsed) st;
              (dets', intervals', poor') = fold (countRow slots) (Rows parsed) (dets, intervals, poor)
          in decomposeTexts th texts ((dets', idx), intervals', poor'))"

definition DecomposeWith :: "string list \<Rightarrow> thresholds \<Rightarrow> decomposition option" where
  "DecomposeWith texts th = decomposeTexts th texts (([], Map.empty), 0, 0)"

section \<open>Silence\<close>

definition SilentCall :: string where "SilentCall = ''SilentCall''"
definition SilentStreamRatio :: f64 where "SilentStreamRatio = f64_of_rat (9 / 10)"
definition SilentStreamMinIntervals :: int where "SilentStreamMinIntervals = 8"
definition defaultSilentCallLevel :: f64 where "defaultSilentCallLevel = f64_of_rat (99 / 100)"

fun silentColumn :: "string list \<Rightarrow> nat option" where
  "silentColumn [] = None"
| "silentColumn (name # names) = (if name = SilentCall then Some 0 else map_option Suc (silentColumn names))"

fun silentRows :: "f64 \<Rightarrow> nat \<Rightarrow> report_row list \<Rightarrow> int \<times> int \<Rightarrow> int \<times> int" where
  "silentRows level col [] acc = acc"
| "silentRows level col (row # rows) (silent, intervals) =
     (if length (Values row) \<le> col then silentRows level col rows (silent, intervals)
      else silentRows level col rows
             (if f64_le level (Values row ! col) then silent + 1 else silent, intervals + 1))"

fun silentTexts :: "f64 \<Rightarrow> string list \<Rightarrow> int \<times> int \<Rightarrow> (int \<times> int) option" where
  "silentTexts level [] acc = Some acc"
| "silentTexts level (txt # texts) acc =
     (case ParseIntervalReport txt of
        None \<Rightarrow> None
      | Some parsed \<Rightarrow>
          (case silentColumn (DetectorList parsed) of
             None \<Rightarrow> silentTexts level texts acc
           | Some col \<Rightarrow> silentTexts level texts (silentRows level col (Rows parsed) acc)))"

definition silentLevel :: "thresholds \<Rightarrow> f64" where
  "silentLevel th = (case th SilentCall of Some d \<Rightarrow> IntThresh d | None \<Rightarrow> defaultSilentCallLevel)"

definition SilentShare :: "thresholds \<Rightarrow> string list \<Rightarrow> (f64 \<times> int) option" where
  "SilentShare th texts =
     map_option (\<lambda>(silent, intervals).
         if intervals = 0 then (Fin False 0, 0)
         else (f64_div (f64_of_int silent) (f64_of_int intervals), intervals))
       (silentTexts (silentLevel th) texts (0, 0))"

definition SilentStream :: "thresholds \<Rightarrow> string list \<Rightarrow> (bool \<times> f64) option" where
  "SilentStream th texts =
     map_option (\<lambda>(share, n). (SilentStreamMinIntervals \<le> n \<and> f64_le SilentStreamRatio share, share))
       (SilentShare th texts)"

section \<open>What is counted\<close>

text \<open>The specification: a detector takes part unless the configuration lists it unflagged;
  its count is the number of cells, over all reports, rows and columns of its name, that
  trigger under its limit; detectors are listed in the order first seen.\<close>

definition counted :: "thresholds \<Rightarrow> string \<Rightarrow> bool" where
  "counted th n \<longleftrightarrow> (case th n of Some d \<Rightarrow> Flagged d | None \<Rightarrow> True)"

definition limitOf :: "thresholds \<Rightarrow> string \<Rightarrow> f64 \<times> bool" where
  "limitOf th n = (case th n of Some d \<Rightarrow> (IntThresh d, True) | None \<Rightarrow> (Fin False 0, False))"

definition cellHits :: "thresholds \<Rightarrow> string list \<Rightarrow> report_row \<Rightarrow> string \<Rightarrow> nat \<Rightarrow> bool" where
  "cellHits th names row n i \<longleftrightarrow>
     i < length names \<and> names ! i = n \<and> counted th n \<and> triggered row i (fst (limitOf th n)) (snd (limitOf th n))"

definition rowHits :: "thresholds \<Rightarrow> string list \<Rightarrow> string \<Rightarrow> report_row \<Rightarrow> int" where
  "rowHits th names n row = int (length (filter (cellHits th names row n) [0..<length (Values row)]))"

definition hits :: "thresholds \<Rightarrow> string \<Rightarrow> parsed_report \<Rightarrow> int" where
  "hits th n p = sum_list (map (rowHits th (DetectorList p) n) (Rows p))"

fun firstSeen :: "string list \<Rightarrow> string list \<Rightarrow> string list" where
  "firstSeen ns [] = ns"
| "firstSeen ns (x # xs) = firstSeen (if x \<in> set ns then ns else ns @ [x]) xs"

lemma firstSeen_append: "firstSeen ns (xs @ ys) = firstSeen (firstSeen ns xs) ys"
  by (induction xs arbitrary: ns) auto

definition cnt :: "detector_count list \<Rightarrow> string \<Rightarrow> int" where
  "cnt dets n = sum_list (map snd (filter (\<lambda>d. fst d = n) dets))"

lemma cnt_new [simp]: "cnt (dets @ [(m, 0)]) = cnt dets"
  by (rule ext) (simp add: cnt_def)

lemma cnt_bump:
  "s < length dets \<Longrightarrow> cnt (dets[s := (fst (dets ! s), snd (dets ! s) + 1)]) n = cnt dets n + (if fst (dets ! s) = n then 1 else 0)"
proof (induction dets arbitrary: s)
  case (Cons d dets)
  then show ?case by (cases s) (auto simp: cnt_def)
qed simp

lemma map_fst_update: "s < length dets \<Longrightarrow> map fst (dets[s := (fst (dets ! s), v)]) = map fst dets"
  by (simp add: map_update list_update_same_conv)

lemma dets_by_count:
  "distinct (map fst dets) \<Longrightarrow> dets = map (\<lambda>n. (n, cnt dets n)) (map fst dets)"
proof (induction dets)
  case (Cons d dets)
  have "filter (\<lambda>e. fst e = fst d) dets = []" using Cons.prems by (auto simp: filter_empty_conv intro: rev_image_eqI)
  then have "cnt (d # dets) (fst d) = snd d" by (simp add: cnt_def)
  moreover have "map (\<lambda>n. (n, cnt (d # dets) n)) (map fst dets) = map (\<lambda>n. (n, cnt dets n)) (map fst dets)"
    using Cons.prems by (intro map_cong) (auto simp: cnt_def)
  moreover have "map (\<lambda>n. (n, cnt dets n)) (map fst dets) = dets" using Cons by simp
  ultimately show ?case by (simp del: map_map)
qed simp

text \<open>The index map and the slots of a report point at the right detectors.\<close>

definition indexOk :: "detector_count list \<times> (string \<Rightarrow> nat option) \<Rightarrow> bool" where
  "indexOk st \<longleftrightarrow> (\<forall>n i. snd st n = Some i \<longleftrightarrow> i < length (fst st) \<and> fst (fst st ! i) = n)"

definition slotOk :: "thresholds \<Rightarrow> string list \<Rightarrow> string \<Rightarrow> slot \<Rightarrow> bool" where
  "slotOk th ns name slot \<longleftrightarrow>
     (if counted th name then \<exists>s < length ns. ns ! s = name \<and> slot = (Some s, limitOf th name) else fst slot = None)"

lemma indexOk_distinct: "indexOk (dets, idx) \<Longrightarrow> distinct (map fst dets)"
  unfolding distinct_conv_nth indexOk_def by (auto simp: nth_map) (metis option.inject)

lemma indexOk_domain: "indexOk (dets, idx) \<Longrightarrow> idx n = None \<longleftrightarrow> n \<notin> fst ` set dets"
  by (force simp: indexOk_def in_set_conv_nth image_iff simp flip: not_Some_eq)

lemma indexOk_new:
  assumes "indexOk (dets, idx)" "idx n = None"
  shows "indexOk (dets @ [(n, 0)], idx(n \<mapsto> length dets))"
proof -
  have "fst (dets ! i) \<noteq> n" if "i < length dets" for i
    using that assms unfolding indexOk_def by (metis fst_conv option.distinct(1) snd_conv)
  with assms(1) show ?thesis by (auto simp: indexOk_def nth_append less_Suc_eq)
qed

lemma firstSeen_prefix: "\<exists>zs. firstSeen ns xs = ns @ zs"
proof (induction xs arbitrary: ns)
  case (Cons x xs)
  then show ?case using Cons [of ns] Cons [of "ns @ [x]"] by auto
qed simp

lemma assignSlots_ok:
  assumes "indexOk (dets, idx)" "assignSlots th names (dets, idx) = (slots, (dets', idx'))"
  shows "indexOk (dets', idx') \<and> cnt dets' = cnt dets
    \<and> map fst dets' = firstSeen (map fst dets) (filter (counted th) names)
    \<and> list_all2 (slotOk th (map fst dets')) names slots"
  using assms
proof (induction names arbitrary: dets idx slots)
  case Nil
  then show ?case by simp
next
  case (Cons name names)
  show ?case
  proof (cases "counted th name")
    case False
    then obtain slots' where "assignSlots th names (dets, idx) = (slots', (dets', idx'))"
      "slots = (None, Fin False 0, False) # slots'"
      using Cons.prems(2) by (cases "assignSlots th names (dets, idx)") (auto simp: counted_def split: option.splits)
    with Cons.IH [OF Cons.prems(1)] False show ?thesis
      by (auto simp: slotOk_def [of th _ name])
  next
    case True
    define st where "st = (case idx name of Some s \<Rightarrow> (s, dets, idx) | None \<Rightarrow> (length dets, dets @ [(name, 0)], idx(name \<mapsto> length dets)))"
    obtain s d i where st: "st = (s, d, i)" by (cases st) auto
    from True Cons.prems(2) st obtain slots' where rest: "assignSlots th names (d, i) = (slots', (dets', idx'))"
      and slots: "slots = (Some s, limitOf th name) # slots'"
      by (cases "assignSlots th names (d, i)")
        (auto simp: counted_def limitOf_def st_def [symmetric] split: option.splits)
    have d: "indexOk (d, i)" "cnt d = cnt dets" "s < length d" "fst (d ! s) = name"
      "map fst d = (if name \<in> set (map fst dets) then map fst dets else map fst dets @ [name])"
      using st Cons.prems(1) indexOk_new [of dets idx name] indexOk_domain [of dets idx name]
      by (auto simp: st_def indexOk_def split: option.splits)
    note IH = Cons.IH [OF d(1) rest]
    then obtain zs where "map fst dets' = map fst d @ zs" using firstSeen_prefix by metis
    then have "s < length (map fst dets')" "map fst dets' ! s = name"
      using d(3,4) by (simp_all add: nth_append)
    then have "list_all2 (slotOk th (map fst dets')) (name # names) slots"
      using IH True slots by (auto simp: slotOk_def [of th _ name])
    moreover have "map fst dets' = firstSeen (map fst dets) (filter (counted th) (name # names))"
      using IH d(5) True by simp
    ultimately show ?thesis using IH d(2) by metis
  qed
qed

lemma countCell_ok:
  assumes "list_all2 (slotOk th (map fst dets)) names slots"
  shows "map fst (countCell slots row i dets) = map fst dets
    \<and> cnt (countCell slots row i dets) n = cnt dets n + (if cellHits th names row n i then 1 else 0)"
proof (cases "i < length slots")
  case True
  then have "slotOk th (map fst dets) (names ! i) (slots ! i)" "i < length names"
    using assms by (auto dest: list_all2_lengthD list_all2_nthD2)
  show ?thesis
  proof (cases "counted th (names ! i)")
    case c: True
    with \<open>slotOk _ _ _ _\<close> obtain s where s: "s < length dets" "fst (dets ! s) = names ! i" "slots ! i = (Some s, limitOf th (names ! i))"
      by (auto simp: slotOk_def)
    then have "countCell slots row i dets =
        (if triggered row i (fst (limitOf th (names ! i))) (snd (limitOf th (names ! i)))
         then dets[s := (fst (dets ! s), snd (dets ! s) + 1)] else dets)"
      using True by (simp add: countCell_def split_beta)
    with s c cnt_bump [OF s(1), of n] map_fst_update [OF s(1)] \<open>i < length names\<close> show ?thesis
      by (auto simp: cellHits_def)
  next
    case False
    with \<open>slotOk _ _ _ _\<close> True show ?thesis
      by (auto simp: slotOk_def countCell_def cellHits_def split: prod.splits)
  qed
next
  case False
  with assms show ?thesis by (auto simp: countCell_def cellHits_def dest: list_all2_lengthD)
qed

lemma countCells_ok:
  assumes "list_all2 (slotOk th (map fst dets)) names slots"
  shows "map fst (fold (countCell slots row) js dets) = map fst dets
    \<and> cnt (fold (countCell slots row) js dets) n = cnt dets n + int (length (filter (cellHits th names row n) js))"
  using assms
proof (induction js arbitrary: dets)
  case (Cons i js)
  note c = countCell_ok [OF Cons.prems, of row i]
  have "list_all2 (slotOk th (map fst (countCell slots row i dets))) names slots" using c Cons.prems by simp
  from Cons.IH [OF this] c [of n] show ?case by simp
qed simp

lemma countRows_ok:
  assumes "list_all2 (slotOk th (map fst dets)) names slots"
  shows "\<exists>dets'. fold (countRow slots) rows (dets, a, b) = (dets', a + int (length rows), b + int (length (filter Poor rows)))
    \<and> map fst dets' = map fst dets \<and> (\<forall>n. cnt dets' n = cnt dets n + sum_list (map (rowHits th names n) rows))"
  using assms
proof (induction rows arbitrary: dets a b)
  case (Cons row rows)
  let ?d = "fold (countCell slots row) [0..<length (Values row)] dets"
  note c = countCells_ok [OF Cons.prems, of row "[0..<length (Values row)]"]
  have "list_all2 (slotOk th (map fst ?d)) names slots" using c Cons.prems by simp
  from Cons.IH [OF this, of "a + 1" "if Poor row then b + 1 else b"] c show ?case
    by (auto simp: countRow_def rowHits_def)
qed simp

definition namesOf :: "thresholds \<Rightarrow> parsed_report list \<Rightarrow> string list" where
  "namesOf th ps = firstSeen [] (filter (counted th) (concat (map DetectorList ps)))"

lemma decomposeTexts_ok:
  assumes "indexOk (dets, idx)" "map ParseIntervalReport texts = map Some ps"
  shows "\<exists>dets'. decomposeTexts th texts ((dets, idx), a, b) =
      Some \<lparr>Detectors = dets', Intervals = a + int (length (concat (map Rows ps))),
            PoorIntervals = b + int (length (filter Poor (concat (map Rows ps))))\<rparr>
    \<and> distinct (map fst dets') \<and> map fst dets' = firstSeen (map fst dets) (filter (counted th) (concat (map DetectorList ps)))
    \<and> (\<forall>n. cnt dets' n = cnt dets n + sum_list (map (hits th n) ps))"
  using assms
proof (induction texts arbitrary: dets idx a b ps)
  case Nil
  then show ?case using indexOk_distinct by simp
next
  case (Cons t ts)
  then obtain p ps' where ps: "ps = p # ps'" and p: "ParseIntervalReport t = Some p"
    and ps': "map ParseIntervalReport ts = map Some ps'" by (cases ps) auto
  obtain slots d i where sl: "assignSlots th (DetectorList p) (dets, idx) = (slots, (d, i))"
    by (metis surj_pair)
  note asg = assignSlots_ok [OF Cons.prems(1) sl]
  then obtain d' where d': "fold (countRow slots) (Rows p) (d, a, b) = (d', a + int (length (Rows p)), b + int (length (filter Poor (Rows p))))"
    "map fst d' = map fst d" "\<forall>n. cnt d' n = cnt d n + hits th n p"
    using countRows_ok [of th d "DetectorList p" slots "Rows p" a b] by (auto simp: hits_def)
  have "length d' = length d" using d'(2) by (metis length_map)
  moreover have "fst (d' ! j) = fst (d ! j)" if "j < length d" for j
    using d'(2) that calculation by (metis nth_map)
  ultimately have "indexOk (d', i)" using asg by (auto simp: indexOk_def)
  from Cons.IH [OF this ps', of "a + int (length (Rows p))" "b + int (length (filter Poor (Rows p)))"]
  obtain e where "decomposeTexts th ts ((d', i), a + int (length (Rows p)), b + int (length (filter Poor (Rows p)))) =
      Some \<lparr>Detectors = e, Intervals = a + int (length (Rows p)) + int (length (concat (map Rows ps'))),
            PoorIntervals = b + int (length (filter Poor (Rows p))) + int (length (filter Poor (concat (map Rows ps'))))\<rparr>"
    "distinct (map fst e)" "map fst e = firstSeen (map fst d') (filter (counted th) (concat (map DetectorList ps')))"
    "\<forall>n. cnt e n = cnt d' n + sum_list (map (hits th n) ps')" by blast
  with asg d' sl p ps show ?case
    by (intro exI [of _ e]) (simp add: firstSeen_append)
qed

lemma parseRows_None:
  "parseRows average lines = None \<longleftrightarrow>
     average \<and> (\<exists>l \<in> set lines. strings_TrimSpace l \<noteq> [] \<and> length (splitStrip (strings_TrimSpace l)) = 2)"
  by (induction lines) (auto simp: Let_def)

text \<open>Percentages: a quotient of two exact integers, scaled.\<close>

lemma ratio_exact:
  assumes "0 \<le> a" "a \<le> b" "0 < b" "b \<le> 2 ^ 53"
  shows "f64_div (f64_of_int a) (f64_of_int b) = Fin False (roundMag (of_int a / of_int b))"
proof -
  have "(of_int a / of_int b :: rat) \<le> 1" using assms by simp
  then have le: "(of_int a / of_int b :: rat) \<le> 2 ^ 53" by simp
  have nz: "(of_int b :: rat) \<noteq> 0" using assms by simp
  have "f64_of_int a = Fin False (of_int a)" "f64_of_int b = Fin False (of_int b)"
    using assms f64_of_int_exact [of a] f64_of_int_exact [of b] by simp_all
  with nz assms show ?thesis by (simp add: mkFloat_small [OF _ le])
qed

lemma ratio_bounds:
  assumes "0 \<le> a" "a \<le> b" "0 < b"
  shows "0 \<le> roundMag (of_int a / of_int b)" "roundMag (of_int a / of_int b) \<le> 1"
  using assms roundMag_le_int [of "of_int a / of_int b" 1] by (auto intro!: roundMag_nonneg)

section \<open>Properties\<close>

text \<open>C8: The decomposition counts what its comment promises. Whenever every report parses, each
  detector (in the order first seen, the unflagged ones of the configuration left out) is
  listed once with the number of cells that triggered in the columns of its name over all
  reports, whatever the column order of each report, and the interval totals are the numbers
  of rows and of Poor rows.\<close>

theorem DecomposeWith_correct:
  assumes "map ParseIntervalReport texts = map Some ps"
  shows "DecomposeWith texts th = Some
    \<lparr>Detectors = map (\<lambda>n. (n, sum_list (map (hits th n) ps))) (namesOf th ps),
     Intervals = int (length (concat (map Rows ps))),
     PoorIntervals = int (length (filter Poor (concat (map Rows ps))))\<rparr>"
proof -
  have "indexOk ([], Map.empty)" by (simp add: indexOk_def)
  from decomposeTexts_ok [OF this assms, of th 0 0] obtain dets where
    dets: "distinct (map fst dets)" "map fst dets = namesOf th ps" "\<forall>n. cnt dets n = sum_list (map (hits th n) ps)"
    and eq: "DecomposeWith texts th = Some \<lparr>Detectors = dets, Intervals = int (length (concat (map Rows ps))),
            PoorIntervals = int (length (filter Poor (concat (map Rows ps))))\<rparr>"
    by (auto simp: DecomposeWith_def namesOf_def cnt_def)
  from dets_by_count [OF dets(1)] dets(2,3) have "dets = map (\<lambda>n. (n, sum_list (map (hits th n) ps))) (namesOf th ps)"
    by simp
  with eq show ?thesis by simp
qed

definition demoReport :: string where
  "demoReport = ''Time;Clip;Status'' @ [LF] @ ''0:1;!;Poor'' @ [LF] @ ''1:2;;Ok''"

lemma demoReport_parsed:
  "map ParseIntervalReport [demoReport] = map Some
    [\<lparr>DetectorList = [''Clip''], Rows = [\<lparr>Poor = True, Values = [Fin False 0], Marked = [True]\<rparr>,
       \<lparr>Poor = False, Values = [Fin False 0], Marked = [False]\<rparr>]\<rparr>]"
  by code_simp

theorem DecomposeWith_correct_witness:
  "map_option Detectors (DecomposeWith [demoReport] Map.empty) = Some [(''Clip'', 1)]"
  using DecomposeWith_correct [OF demoReport_parsed, of Map.empty]
  by (simp add: namesOf_def counted_def hits_def rowHits_def cellHits_def limitOf_def triggered_def)

text \<open>Exactly which report texts make the parser panic: those whose header announces an
  Average column and that have a non-blank line of exactly two fields, for which the slice of
  cells would start after its end.\<close>

lemma ParseIntervalReport_panics:
  "ParseIntervalReport txt = None \<longleftrightarrow>
     strings_TrimSpace txt \<noteq> [] \<and> snd (parseHeader (splitStrip (hd (splitLines txt))))
     \<and> (\<exists>l \<in> set (tl (splitLines txt)). strings_TrimSpace l \<noteq> [] \<and> length (splitStrip (strings_TrimSpace l)) = 2)"
  by (auto simp: ParseIntervalReport_def Let_def split_beta parseRows_None)

text \<open>The R-factor of a decomposition is a percentage: for interval counts a float64 holds
  exactly it lies between 0 and 100, it is 100 when no interval is poor and 0 when all are.\<close>

lemma RfactorPercents_bounds:
  assumes "0 \<le> PoorIntervals d" "PoorIntervals d \<le> Intervals d" "Intervals d \<le> 2 ^ 53"
  shows "0 \<le> RfactorPercents d \<and> RfactorPercents d \<le> 100
    \<and> (PoorIntervals d = 0 \<and> 0 < Intervals d \<longrightarrow> RfactorPercents d = 100)
    \<and> (PoorIntervals d = Intervals d \<longrightarrow> RfactorPercents d = 0)"
proof (cases "Intervals d \<le> 0")
  case True
  then show ?thesis by (auto simp: RfactorPercents_def)
next
  case False
  let ?a = "Intervals d - PoorIntervals d" and ?b = "Intervals d"
  let ?q = "roundMag (of_int ?a / of_int ?b)"
  have q: "0 \<le> ?q" "?q \<le> 1" using ratio_bounds [of ?a ?b] assms False by auto
  have "f64_mul (f64_div (f64_of_int ?a) (f64_of_int ?b)) (f64_of_int 100) = Fin False (roundMag (?q * 100))"
    using ratio_exact [of ?a ?b] assms False q f64_of_int_exact [of 100] mkFloat_small [of "?q * 100" False] by simp
  moreover have "0 \<le> roundMag (?q * 100)" "roundMag (?q * 100) \<le> 100"
    using roundMag_nonneg [of "?q * 100"] roundMag_le_int [of "?q * 100" 100] q by auto
  then have "0 \<le> \<lfloor>roundMag (?q * 100)\<rfloor>" "\<lfloor>roundMag (?q * 100)\<rfloor> \<le> 100"
    by (auto simp: floor_le_iff)
  ultimately have r: "RfactorPercents d = \<lfloor>roundMag (?q * 100)\<rfloor>" "0 \<le> \<lfloor>roundMag (?q * 100)\<rfloor>" "\<lfloor>roundMag (?q * 100)\<rfloor> \<le> 100"
    using False by (auto simp: RfactorPercents_def minInt64_def maxInt64_def Let_def)
  have "RfactorPercents d = 100" if "PoorIntervals d = 0"
    using that False r(1) roundMag_of_int [of 1] roundMag_of_int [of 100] by simp
  moreover have "RfactorPercents d = 0" if "PoorIntervals d = Intervals d"
    using that r(1) by simp
  ultimately show ?thesis using r by auto
qed

section \<open>The silent-stream rule\<close>

definition silentCells :: "parsed_report list \<Rightarrow> f64 list" where
  "silentCells ps = concat (map (\<lambda>p. case silentColumn (DetectorList p) of
       None \<Rightarrow> []
     | Some col \<Rightarrow> map (\<lambda>r. Values r ! col) (filter (\<lambda>r. col < length (Values r)) (Rows p))) ps)"

lemma silentRows_cells:
  "silentRows level col rows (s, n) =
     (let cells = map (\<lambda>r. Values r ! col) (filter (\<lambda>r. col < length (Values r)) rows)
      in (s + int (length (filter (f64_le level) cells)), n + int (length cells)))"
  by (induction rows arbitrary: s n) (auto simp: Let_def)

lemma silentTexts_cells:
  assumes "map ParseIntervalReport texts = map Some ps"
  shows "silentTexts level texts (s, n) =
     Some (s + int (length (filter (f64_le level) (silentCells ps))), n + int (length (silentCells ps)))"
  using assms
proof (induction texts arbitrary: ps s n)
  case (Cons t ts)
  then obtain p ps' where "ps = p # ps'" "ParseIntervalReport t = Some p" "map ParseIntervalReport ts = map Some ps'"
    by (cases ps) auto
  with Cons.IH [of ps'] show ?case
    by (auto simp: silentCells_def silentRows_cells Let_def split: option.splits)
qed (simp add: silentCells_def)

text \<open>The silent-stream verdict. Over reports that parse, the share is a float64 in [0, 1],
  a stream with fewer than eight SilentCall cells is never silent, and one with at least eight
  of which nine tenths or more read at or above the level always is.\<close>

lemma SilentStream_correct:
  assumes "map ParseIntervalReport texts = map Some ps"
    and "n = length (silentCells ps)" "k = length (filter (f64_le (silentLevel th)) (silentCells ps))" "n \<le> 2 ^ 53"
  shows "\<exists>verdict q. SilentStream th texts = Some (verdict, Fin False q) \<and> 0 \<le> q \<and> q \<le> 1
    \<and> (n < 8 \<longrightarrow> \<not> verdict) \<and> (8 \<le> n \<and> 9 * n \<le> 10 * k \<longrightarrow> verdict)"
proof -
  have kn: "k \<le> n" using assms by (simp add: length_filter_le)
  have cells: "silentTexts (silentLevel th) texts (0, 0) = Some (int k, int n)"
    using silentTexts_cells [OF assms(1)] assms by simp
  show ?thesis
  proof (cases "n = 0")
    case True
    with cells show ?thesis by (auto simp: SilentStream_def SilentShare_def SilentStreamMinIntervals_def)
  next
    case False
    let ?q = "roundMag (of_int (int k) / of_int (int n))"
    have "int n \<le> 2 ^ 53" using assms(4) by (metis of_nat_le_iff of_nat_numeral of_nat_power)
    then have share: "SilentShare th texts = Some (Fin False ?q, int n)"
      using cells False kn ratio_exact [of "int k" "int n"] by (simp add: SilentShare_def)
    have q: "0 \<le> ?q" "?q \<le> 1" using ratio_bounds [of "int k" "int n"] kn False by auto
    have ratio: "SilentStreamRatio = Fin False (roundMag (9 / 10))"
      by (simp add: SilentStreamRatio_def f64_of_rat_def mkFloat_small)
    have "f64_le SilentStreamRatio (Fin False ?q)" if "9 * n \<le> 10 * k"
    proof -
      have "(of_nat (9 * n) :: rat) \<le> of_nat (10 * k)" using that by (rule of_nat_mono)
      then have "9 / 10 \<le> (of_int (int k) / of_int (int n) :: rat)"
        using False by (simp add: field_simps)
      then have "roundMag (9 / 10) \<le> ?q" by (intro roundMag_mono) auto
      then show ?thesis by (auto simp: ratio f64_le_def)
    qed
    with share q show ?thesis by (auto simp: SilentStream_def SilentStreamMinIntervals_def)
  qed
qed

end
