(* ===== verification/Api_Serialize.thy ===== *)
theory Api_Serialize
  imports Api_Values Pvqa_Report Model_Types "HOL-Library.AList"
begin

text \<open>
  The response shapes of the REST API (\<^verbatim>\<open>api/serialize.go\<close>). A JSON object is an association list
  with distinct keys, the keys in order of assignment. The lemmas show what a client of \<^verbatim>\<open>/stats\<close> and
  \<^verbatim>\<open>/streamhistory\<close> relies on: active and finished streams have the same fields, the silence
  flag agrees with its source, and the chunks of a history follow each other without a gap.
\<close>

section \<open>JSON values\<close>

datatype json =
    JNull
  | JBool bool
  | JInt int
  | JFloat f64
  | JStr string
  | JList "json list"
  | JObj "(string \<times> json) list"

type_synonym json_object = "(string \<times> json) list"

definition putAll :: "json_object \<Rightarrow> json_object \<Rightarrow> json_object" where
  "putAll fs obj = fold (\<lambda>(k, v). AList.update k v) fs obj"

section \<open>Labels\<close>

definition SipEventTypeLabel :: "int \<Rightarrow> string" where
  "SipEventTypeLabel t =
     (if t = 1 then ''start'' else if t = 2 then ''end'' else if t = 3 then ''reinvite'' else if t = 4 then ''failed'' else ''unknown'')"

definition SipDirectionLabel :: "int \<Rightarrow> string" where
  "SipDirectionLabel d = (if d = 1 then ''caller_to_callee'' else if d = 2 then ''callee_to_caller'' else ''unknown'')"

definition SipReasonLabel :: "int \<Rightarrow> string" where
  "SipReasonLabel r = (if r = 1 then ''rejected'' else if r = 2 then ''canceled'' else if r = 3 then ''timeout'' else ''unknown'')"

definition AgentEnvelope :: "string \<Rightarrow> string \<Rightarrow> json_object" where
  "AgentEnvelope agentID agentName = [(''instance'', JObj [(''id'', JStr agentID), (''name'', JStr agentName)])]"

section \<open>Streams\<close>

definition detectorReports :: "valmap \<Rightarrow> string list" where
  "detectorReports row =
     (case rowGet row ''detector_reports'' of
        VStrs reports \<Rightarrow> reports
      | _ \<Rightarrow> (let txt = getStr row ''detector_report'' in if txt \<noteq> [] then [txt] else []))"

definition silenceSource :: "bool \<Rightarrow> bool \<Rightarrow> string" where
  "silenceSource dtxSilent silentAudio =
     (if dtxSilent \<and> silentAudio then ''dtx+audio'' else if dtxSilent then ''dtx'' else if silentAudio then ''audio'' else [])"

text \<open>\<^verbatim>\<open>None\<close> is the panic of a malformed detector report.\<close>

definition SilenceFields :: "thresholds \<Rightarrow> valmap \<Rightarrow> f64 \<Rightarrow> json_object option" where
  "SilenceFields th row threshold =
     (let sid = getI64 row ''dtx_sid''; cnt = getI64 row ''dtx_count''; tot = getI64 row ''dtx_total'';
          ratio = (if 0 < tot then f64_div (f64_of_int (wrap64 (sid + cnt))) (f64_of_int tot) else Fin False 0);
          dtxSilent = (0 < tot \<and> f64_le threshold ratio)
      in map_option (\<lambda>(silentAudio, audioRatio).
           [(''dtx_sid'', JInt sid), (''dtx_count'', JInt cnt), (''dtx_total'', JInt tot),
            (''silence_ratio'', JFloat (round3 ratio)), (''silent_audio_ratio'', JFloat (round3 audioRatio)),
            (''silence_suspected'', JBool (dtxSilent \<or> silentAudio)),
            (''silence_source'', JStr (silenceSource dtxSilent silentAudio))])
         (SilentStream th (detectorReports row)))"

definition detectorsJSON :: "decomposition \<Rightarrow> json" where
  "detectorsJSON d = JList (map (\<lambda>(name, n). JObj [(''name'', JStr name), (''counter'', JInt n)])
     (filter (\<lambda>dc. fst dc \<noteq> []) (Detectors d)))"

definition millis :: "int \<Rightarrow> f64" where
  "millis ms = f64_div (f64_of_int ms) (f64_of_int 1000)"

definition ReportRowToJSON :: "thresholds \<Rightarrow> valmap \<Rightarrow> json_object option" where
  "ReportRowToJSON th r =
     (let durationMs = wrap64 (getI64 r ''end_timestamp'' - getI64 r ''start_timestamp''); txt = getStr r ''detector_report''
      in map_option (\<lambda>decomp.
           [(''source'', JStr (endpoint (getStr r ''src_ip'') (rowGet r ''src_port''))),
            (''destination'', JStr (endpoint (getStr r ''dst_ip'') (rowGet r ''dst_port''))),
            (''ssrc'', JStr (hexOf (rowGet r ''ssrc''))),
            (''stream_id'', JStr (getStr r ''link_id'')),
            (''codec'', JStr (getStr r ''codec'')),
            (''sevana_mos'', JFloat (getF64 r ''sevana_mos'')),
            (''network_mos'', JFloat (getF64 r ''network_mos'')),
            (''jitter'', JFloat (round3 (getF64 r ''jitter''))),
            (''rtt_delay'', JFloat (round3 (getF64 r ''rtt_delay''))),
            (''duration'', JFloat (millis durationMs)),
            (''rtp_packet_counter'', JInt (getI64 r ''rtp_packet_counter'')),
            (''lost_packet_counter'', JInt (getI64 r ''lost_packet_counter'')),
            (''illegal_packet_counter'', JInt (getI64 r ''illegal_packet_counter'')),
            (''sevana_rfactor'', JInt (RfactorPercents decomp)),
            (''detectors'', detectorsJSON decomp),
            (''detectors_report'', JStr txt),
            (''sip_src'', JStr (getStr r ''sip_source'')),
            (''sip_dst'', JStr (getStr r ''sip_destination'')),
            (''sip_callid'', JStr (getStr r ''sip_callid'')),
            (''json_report'', JStr txt)])
         (DecomposeWith [txt] th))"

text \<open>The chunks of a history: \<open>prev\<close> is the end of the previous chunk, relative to the start of the
  stream.\<close>

definition chunkJSON :: "int \<Rightarrow> int \<Rightarrow> valmap \<Rightarrow> json_object" where
  "chunkJSON start fin r =
     [(''link_id'', JStr (getStr r ''link_id'')), (''stream_end_time'', JInt (getI64 r ''end_timestamp'')),
      (''start_time'', JFloat (millis start)), (''end_time'', JFloat (millis fin)),
      (''sevana_mos'', JFloat (getF64 r ''sevana_mos'')), (''network_mos'', JFloat (getF64 r ''network_mos'')),
      (''jitter'', JFloat (round3 (getF64 r ''jitter''))), (''sevana_rfactor'', JFloat (getF64 r ''sevana_rfactor''))]"

fun historyChunks :: "int \<Rightarrow> int \<Rightarrow> valmap list \<Rightarrow> json_object list" where
  "historyChunks streamStart prev [] = []"
| "historyChunks streamStart prev (r # rows) =
     (let fin = wrap64 (getI64 r ''end_timestamp'' - streamStart)
      in chunkJSON prev fin r # historyChunks streamStart fin rows)"

definition summaryFields :: "valmap \<Rightarrow> int \<Rightarrow> decomposition \<Rightarrow> json_object" where
  "summaryFields s rfactor decomp =
     [(''sevana_mos'', JFloat (getF64 s ''sevana_mos'')), (''network_mos'', JFloat (getF64 s ''network_mos'')),
      (''jitter'', JFloat (round3 (getF64 s ''jitter''))), (''rtt_delay'', JFloat (round3 (getF64 s ''rtt_delay''))),
      (''codec'', JStr (getStr s ''codec'')), (''rtp_packet_counter'', JInt (getI64 s ''rtp_packet_counter'')),
      (''lost_packet_counter'', JInt (getI64 s ''lost_packet_counter'')),
      (''source'', JStr (endpoint (getStr s ''src_ip'') (rowGet s ''src_port''))),
      (''destination'', JStr (endpoint (getStr s ''dst_ip'') (rowGet s ''dst_port''))),
      (''ssrc'', JStr (hexOf (rowGet s ''ssrc''))), (''sip_src'', JStr (getStr s ''sip_source'')),
      (''sip_dst'', JStr (getStr s ''sip_destination'')), (''sip_callid'', JStr (getStr s ''sip_callid'')),
      (''sevana_rfactor'', JInt rfactor), (''detectors'', detectorsJSON decomp),
      (''json_report'', JStr (getStr s ''detector_report''))]"

definition StreamHistoryToJSON ::
    "thresholds \<Rightarrow> valmap list \<Rightarrow> string \<Rightarrow> string \<Rightarrow> valmap option \<Rightarrow> f64 \<Rightarrow> json_object option" where
  "StreamHistoryToJSON th rows agentID agentName final silenceThreshold =
     (let streamStart = (if rows = [] then 0 else getI64 (hd rows) ''start_timestamp'');
          result = putAll [(''chunks'', JList (map JObj (historyChunks streamStart 0 rows)))] (AgentEnvelope agentID agentName)
      in if rows = [] \<and> final = None then Some (putAll [(''json_report'', JStr [])] result)
         else let s = (case final of Some f \<Rightarrow> f | None \<Rightarrow> last rows)
              in case DecomposeWith (map (\<lambda>r. getStr r ''detector_report'') rows) th of
                   None \<Rightarrow> None
                 | Some decomp \<Rightarrow>
                     (let rfactor = (if rows \<noteq> [] then RfactorPercents decomp else getI64 s ''sevana_rfactor'')
                      in map_option (\<lambda>silence. putAll silence (putAll (summaryFields s rfactor decomp) result))
                           (SilenceFields th s silenceThreshold)))"

definition finishedFields :: "(int \<Rightarrow> int) \<Rightarrow> valmap \<Rightarrow> json_object" where
  "finishedFields zone r =
     (let durationMs = wrap64 (getI64 r ''end_timestamp'' - getI64 r ''start_timestamp'')
      in [(''stream_id'', JStr (getStr r ''link_id'')), (''ref_id'', JStr (getStr r ''link_id'')),
            (''instance'', JObj [(''id'', JStr (getStr r ''instance_id'')), (''name'', JStr (getStr r ''instance_name''))]),
            (''start_time'', JStr (startTimeLabel zone (getI64 r ''start_timestamp''))),
            (''duration'', JFloat (millis durationMs)), (''duration_audio'', JInt (getI64 r ''duration_audio'')),
            (''sevana_mos'', JFloat (getF64 r ''sevana_mos'')), (''network_mos'', JFloat (getF64 r ''network_mos'')),
            (''jitter'', JFloat (round3 (getF64 r ''jitter''))), (''sevana_rfactor'', JInt (getI64 r ''sevana_rfactor'')),
            (''source'', JStr (endpoint (getStr r ''src_ip'') (rowGet r ''src_port''))),
            (''destination'', JStr (endpoint (getStr r ''dst_ip'') (rowGet r ''dst_port''))),
            (''sip_src'', JStr (getStr r ''sip_source'')), (''sip_dst'', JStr (getStr r ''sip_destination'')),
            (''sip_callid'', JStr (getStr r ''sip_callid''))])"

definition FinishedStreamRowToJSON :: "thresholds \<Rightarrow> (int \<Rightarrow> int) \<Rightarrow> valmap \<Rightarrow> f64 \<Rightarrow> json_object option" where
  "FinishedStreamRowToJSON th zone r silenceThreshold =
     map_option (putAll (finishedFields zone r)) (SilenceFields th r silenceThreshold)"

definition activeFields :: "(int \<Rightarrow> int) \<Rightarrow> valmap \<Rightarrow> json_object" where
  "activeFields zone r =
       [(''stream_id'', JStr (getStr r ''link_id'')), (''ref_id'', JStr (getStr r ''link_id'')),
        (''instance'', JObj [(''id'', JStr (getStr r ''instance_id'')), (''name'', JStr (getStr r ''instance_name''))]),
        (''start_time'', JStr (startTimeLabel zone (getI64 r ''start_ms''))),
        (''duration'', JFloat (millis (getI64 r ''duration''))), (''duration_audio'', JInt (getI64 r ''duration_audio'')),
        (''sevana_mos'', JFloat (getF64 r ''sevana_mos'')), (''network_mos'', JFloat (getF64 r ''network_mos'')),
        (''jitter'', JFloat (round3 (getF64 r ''jitter''))), (''sevana_rfactor'', JInt (getI64 r ''sevana_rfactor'')),
        (''source'', JStr (endpoint (getStr r ''src_ip'') (rowGet r ''src_port''))),
        (''destination'', JStr (endpoint (getStr r ''dst_ip'') (rowGet r ''dst_port''))),
        (''sip_src'', JStr (getStr r ''sip_src'')), (''sip_dst'', JStr (getStr r ''sip_dst'')),
        (''sip_callid'', JStr (getStr r ''sip_callid''))]"

definition ActiveRecordToJSON :: "thresholds \<Rightarrow> (int \<Rightarrow> int) \<Rightarrow> valmap \<Rightarrow> f64 \<Rightarrow> json_object option" where
  "ActiveRecordToJSON th zone r silenceThreshold =
     map_option (putAll (activeFields zone r)) (SilenceFields th r silenceThreshold)"

section \<open>SIP\<close>

definition SipCallSummaryToJSON :: "valmap \<Rightarrow> json_object" where
  "SipCallSummaryToJSON s =
     (let established = getBool s ''established''; failed = getBool s ''failed'';
          outcome = (if failed then ''failed'' else if established then ''established'' else ''unknown'')
      in [(''call_id'', JStr (getStr s ''call_id'')), (''caller'', JStr (getStr s ''caller'')), (''callee'', JStr (getStr s ''callee'')),
          (''start_timestamp'', JInt (getI64 s ''start_timestamp'')), (''end_timestamp'', JInt (getI64 s ''end_timestamp'')),
          (''duration'', JInt (getI64 s ''duration'')), (''reinvite_count'', JInt (getI64 s ''reinvite_count'')),
          (''outcome'', JStr outcome)]
         @ (if established then [(''setup_code'', JInt (getI64 s ''setup_code''))] else [])
         @ (if failed then [(''response_code'', JInt (getI64 s ''response_code'')), (''reason'', JInt (getI64 s ''reason'')),
                            (''reason_label'', JStr (SipReasonLabel (getI64 s ''reason'')))] else []))"

definition SipEventRowToJSON :: "valmap \<Rightarrow> json_object" where
  "SipEventRowToJSON r =
     (let t = getI64 r ''event_type''; str = (\<lambda>k c. (k, JStr (getStr r c))); int = (\<lambda>k c. (k, JInt (getI64 r c)))
      in [int ''id'' ''id'', (''event_type'', JInt t), (''event_type_label'', JStr (SipEventTypeLabel t)),
          str ''call_id'' ''call_id'', int ''timestamp'' ''event_timestamp'']
         @ (if t = 1 then
              [int ''invite_timestamp'' ''invite_timestamp'', int ''setup_code'' ''setup_code'', str ''caller'' ''caller'',
               str ''callee'' ''callee'', str ''caller_ua'' ''caller_ua'', str ''callee_ua'' ''callee_ua'',
               str ''caller_codecs'' ''caller_codecs'', str ''callee_codecs'' ''callee_codecs'']
            else if t = 2 then
              [int ''duration'' ''duration'', int ''bye_direction'' ''bye_direction'',
               (''bye_direction_label'', JStr (SipDirectionLabel (getI64 r ''bye_direction''))), str ''response_codes'' ''response_codes'']
            else if t = 3 then
              [int ''direction'' ''direction'', (''direction_label'', JStr (SipDirectionLabel (getI64 r ''direction''))),
               (''is_request'', JBool (getBool r ''is_request'')), str ''peer'' ''caller'', str ''peer_ua'' ''caller_ua'',
               str ''peer_codecs'' ''caller_codecs'']
            else if t = 4 then
              [int ''invite_timestamp'' ''invite_timestamp'', int ''reason'' ''reason'',
               (''reason_label'', JStr (SipReasonLabel (getI64 r ''reason''))), int ''response_code'' ''response_code'',
               str ''reason_phrase'' ''reason_phrase'', str ''caller'' ''caller'', str ''callee'' ''callee'']
            else []))"

section \<open>Summary and core\<close>

definition WidgetStatsToJSON :: "valmap \<Rightarrow> json_object" where
  "WidgetStatsToJSON s =
     [(''stream_count'', JInt (getI64 s ''stream_count'')), (''good_sevana_count'', JInt (getI64 s ''good_sevana_count'')),
      (''good_network_count'', JInt (getI64 s ''good_network_count'')), (''with_sevana_mos'', JInt (getI64 s ''with_sevana_mos'')),
      (''avg'', JObj [(''sevana_mos'', JFloat (getF64 s ''sevana_mos'')), (''network_mos'', JFloat (getF64 s ''network_mos'')),
                      (''rfactor'', JFloat (getF64 s ''rfactor'')), (''duration'', JFloat (getF64 s ''duration''))])]"

definition capturerJSON :: "capture_stats \<Rightarrow> json_object" where
  "capturerJSON c =
     [(''device'', JStr (Device c)), (''src_port_range'', JStr (SrcPortRange c)), (''dst_port_range'', JStr (DstPortRange c)),
      (''packets_total'', JInt (uint (TotalPackets c))), (''packets_rtp'', JInt (uint (RTPPackets c))),
      (''packets_sip'', JInt (uint (SipPackets c))), (''packets_truncated'', JInt (uint (TruncatedPackets c))),
      (''packets_dropped_hw'', JInt (uint (DroppedHwPackets c))), (''packets_erroneous'', JInt (uint (ErroneousPackets c))),
      (''mbuf_alloc_failed'', JInt (uint (MbufAllocFailed c)))]"

definition CoreStatsToJSON :: "instance_statistics \<Rightarrow> json_object" where
  "CoreStatsToJSON s =
     [(''instance'', JObj [(''id'', JStr (InstanceID s)), (''name'', JStr (InstanceName s))]),
      (''capturers'', JList (map (JObj \<circ> capturerJSON) (Capturers s))),
      (''server_time'', JStr (ServerTime s)), (''version'', JStr (InstanceVersion s)),
      (''uptime'', JInt (uint (UptimeSeconds s))),
      (''pvqa_instance_counter'', JInt (uint (PvqaInstanceCounter s))),
      (''pvqa_processed_seconds'', JInt (uint (PvqaProcessedSeconds s))),
      (''active_decoder_counter'', JInt (uint (ActiveDecoderCounter s))),
      (''active_audio_decoder_counter'', JInt (uint (ActiveAudioDecoderCounter s))),
      (''total_decoder_counter'', JInt (uint (TotalDecoderCounter s))),
      (''sip_call_counter'', JInt (uint (SipCallCounter s))),
      (''resip_message_counter'', JInt (uint (ResipMessageCounter s))),
      (''resip_sip_message_counter'', JInt (uint (ResipSipMessageCounter s))),
      (''mem_allocated_bytes'', JInt (uint (MemAllocatedBytes s))), (''mem_heap_size'', JInt (uint (MemHeapSize s))),
      (''mem_pageheap_free_bytes'', JInt (uint (MemPageheapFreeBytes s))),
      (''mem_alloc_count'', JInt (uint (MemAllocCount s))), (''mem_free_count'', JInt (uint (MemFreeCount s))),
      (''mem_allocs_per_sec'', JFloat (MemAllocsPerSec s)), (''mem_frees_per_sec'', JFloat (MemFreesPerSec s)),
      (''cpu_user_seconds'', JFloat (CpuUserSeconds s)), (''cpu_system_seconds'', JFloat (CpuSystemSeconds s)),
      (''cpu_usage_percent'', JFloat (CpuUsagePercent s))]"

section \<open>Fields\<close>

lemma fst_putAll: "map fst (putAll fs obj) = fold (\<lambda>k ks. if k \<in> set ks then ks else ks @ [k]) (map fst fs) (map fst obj)"
proof (induction fs arbitrary: obj)
  case (Cons f fs)
  have "map fst (AList.update (fst f) (snd f) obj) = (if fst f \<in> set (map fst obj) then map fst obj else map fst obj @ [fst f])"
    by (simp add: update_keys)
  with Cons show ?case by (simp add: putAll_def case_prod_unfold)
qed (simp add: putAll_def)

lemma map_of_putAll: "distinct (map fst fs) \<Longrightarrow> map_of (putAll fs obj) k =
    (case map_of fs k of None \<Rightarrow> map_of obj k | Some v \<Rightarrow> Some v)"
proof (induction fs arbitrary: obj)
  case (Cons f fs)
  then have "map_of (putAll fs (AList.update (fst f) (snd f) obj)) k =
      (case map_of fs k of None \<Rightarrow> map_of (AList.update (fst f) (snd f) obj) k | Some v \<Rightarrow> Some v)" by simp
  moreover have "map_of fs (fst f) = None" using Cons.prems by (simp add: map_of_eq_None_iff)
  ultimately show ?case
    by (auto simp: putAll_def case_prod_unfold update_conv' split: option.splits)
qed (simp add: putAll_def)

definition silenceKeys :: "string list" where
  "silenceKeys = [''dtx_sid'', ''dtx_count'', ''dtx_total'', ''silence_ratio'', ''silent_audio_ratio'', ''silence_suspected'', ''silence_source'']"

definition streamKeys :: "string list" where
  "streamKeys = silenceKeys @ [''stream_id'', ''ref_id'', ''instance'', ''start_time'', ''duration'', ''duration_audio'', ''sevana_mos'',
     ''network_mos'', ''jitter'', ''sevana_rfactor'', ''source'', ''destination'', ''sip_src'', ''sip_dst'', ''sip_callid'']"

lemma SilenceFields_keys:
  "SilenceFields th r t = Some obj \<Longrightarrow> map fst obj = silenceKeys
   \<and> (\<exists>b s. map_of obj ''silence_suspected'' = Some (JBool b) \<and> map_of obj ''silence_source'' = Some (JStr s) \<and> (b \<longleftrightarrow> s \<noteq> []))"
  by (auto simp: SilenceFields_def Let_def silenceKeys_def silenceSource_def)

lemma fold_new_keys: "distinct (ks @ new) \<Longrightarrow> fold (\<lambda>k ks. if k \<in> set ks then ks else ks @ [k]) new ks = ks @ new"
  by (induction new arbitrary: ks) auto

lemma distinct_streamKeys: "distinct streamKeys"
  by (simp add: streamKeys_def silenceKeys_def)

lemma stream_fields:
  "silenceKeys @ map fst (activeFields zone r) = streamKeys" "silenceKeys @ map fst (finishedFields zone r) = streamKeys"
  by (simp_all add: streamKeys_def activeFields_def finishedFields_def Let_def)

lemma stream_object:
  assumes "SilenceFields th r t = Some sil" "silenceKeys @ map fst fs = streamKeys"
  shows "map fst (putAll fs sil) = streamKeys
   \<and> (\<exists>b s. map_of (putAll fs sil) ''silence_suspected'' = Some (JBool b)
        \<and> map_of (putAll fs sil) ''silence_source'' = Some (JStr s) \<and> (b \<longleftrightarrow> s \<noteq> []))"
proof -
  have k: "map fst sil = silenceKeys" using SilenceFields_keys [OF assms(1)] by simp
  have d: "distinct (map fst fs)" "set silenceKeys \<inter> set (map fst fs) = {}"
    using distinct_streamKeys assms(2) by (metis distinct_append)+
  then have "map_of fs x = None" if "x \<in> set silenceKeys" for x
    using that by (auto simp: map_of_eq_None_iff)
  then have "map_of (putAll fs sil) x = map_of sil x" if "x \<in> set silenceKeys" for x
    using that by (simp add: map_of_putAll [OF d(1)])
  then have "map_of (putAll fs sil) ''silence_suspected'' = map_of sil ''silence_suspected''"
    "map_of (putAll fs sil) ''silence_source'' = map_of sil ''silence_source''"
    by (simp_all add: silenceKeys_def)
  moreover have "map fst (putAll fs sil) = streamKeys"
    using fold_new_keys [of silenceKeys "map fst fs"] distinct_streamKeys assms(2) by (simp add: fst_putAll k)
  ultimately show ?thesis using SilenceFields_keys [OF assms(1)] by metis
qed

text \<open>The streams of \<^verbatim>\<open>/stats\<close> have one shape: an active record and a finished row become objects with
  the same fields in the same order, each field once, and in both the flag \<^verbatim>\<open>silence_suspected\<close> is set
  exactly when \<^verbatim>\<open>silence_source\<close> names a reason.\<close>

lemma stats_rows_uniform:
  assumes "ActiveRecordToJSON th zone r t = Some obj \<or> FinishedStreamRowToJSON th zone r t = Some obj"
  shows "map fst obj = streamKeys \<and> distinct (map fst obj) \<and> (\<exists>b s. map_of obj ''silence_suspected'' = Some (JBool b) \<and> map_of obj ''silence_source'' = Some (JStr s) \<and> (b \<longleftrightarrow> s \<noteq> []))"
proof -
  obtain sil fs where eq: "SilenceFields th r t = Some sil" "silenceKeys @ map fst fs = streamKeys" "obj = putAll fs sil"
    using assms stream_fields [of zone r] by (auto simp: ActiveRecordToJSON_def FinishedStreamRowToJSON_def)
  then show ?thesis using stream_object [OF eq(1,2)] distinct_streamKeys by metis
qed

section \<open>Histories\<close>

lemma length_historyChunks [simp]: "length (historyChunks s p rows) = length rows"
  by (induction rows arbitrary: p) (simp_all add: Let_def)

lemma historyChunks_times:
  "i < length rows \<Longrightarrow>
   map_of (historyChunks s p rows ! i) ''end_time'' = Some (JFloat (millis (wrap64 (getI64 (rows ! i) ''end_timestamp'' - s))))
   \<and> map_of (historyChunks s p rows ! i) ''start_time'' =
       Some (JFloat (millis (if i = 0 then p else wrap64 (getI64 (rows ! (i - 1)) ''end_timestamp'' - s))))"
proof (induction rows arbitrary: i p)
  case (Cons r rows)
  then show ?case by (cases i) (auto simp: Let_def chunkJSON_def nth_Cons')
qed simp

lemma putAll_keeps: "k \<notin> fst ` set fs \<Longrightarrow> map_of (putAll fs obj) k = map_of obj k"
  by (induction fs arbitrary: obj) (auto simp: putAll_def update_conv')

lemma history_chunks_field:
  assumes "StreamHistoryToJSON th rows aid name final t = Some obj"
  shows "map_of obj ''chunks'' = Some (JList (map JObj (historyChunks (if rows = [] then 0 else getI64 (hd rows) ''start_timestamp'') 0 rows)))"
proof -
  have sil: "''chunks'' \<notin> fst ` set s" if "SilenceFields th r t = Some s" for r s
  proof -
    have "fst ` set s = set silenceKeys" using SilenceFields_keys [OF that] by (metis list.set_map)
    then show ?thesis by (simp add: silenceKeys_def)
  qed
  have sm: "''chunks'' \<notin> fst ` set (summaryFields r f d)" for r f d by (simp add: summaryFields_def)
  show ?thesis
  proof (cases "rows = [] \<and> final = None")
    case True
    then show ?thesis using assms by (auto simp: StreamHistoryToJSON_def putAll_def AgentEnvelope_def)
  next
    case False
    then obtain s d f silence where "obj = putAll silence (putAll (summaryFields s f d)
        (putAll [(''chunks'', JList (map JObj (historyChunks (if rows = [] then 0 else getI64 (hd rows) ''start_timestamp'') 0 rows)))]
          (AgentEnvelope aid name)))" "SilenceFields th s t = Some silence"
      using assms by (auto simp: StreamHistoryToJSON_def Let_def split: option.splits if_splits)
    then show ?thesis using sil sm by (simp add: putAll_keeps) (simp add: putAll_def AgentEnvelope_def)
  qed
qed

text \<open>The chunks of \<^verbatim>\<open>/streamhistory\<close> tile the stream: there is one per interval row, the first starts at
  0, every other one starts where the one before ended, and each ends at its interval's end measured
  from the start of the stream.\<close>

lemma history_chunks_tile:
  assumes "StreamHistoryToJSON th rows aid name final t = Some obj"
  shows "\<exists>cs. map_of obj ''chunks'' = Some (JList (map JObj cs)) \<and> length cs = length rows
     \<and> (\<forall>i < length rows. map_of (cs ! i) ''end_time'' =
           Some (JFloat (millis (wrap64 (getI64 (rows ! i) ''end_timestamp'' - getI64 (rows ! 0) ''start_timestamp'')))))
     \<and> (rows \<noteq> [] \<longrightarrow> map_of (cs ! 0) ''start_time'' = Some (JFloat (millis 0)))
     \<and> (\<forall>i. Suc i < length rows \<longrightarrow> map_of (cs ! Suc i) ''start_time'' = map_of (cs ! i) ''end_time'')"
proof -
  let ?s = "if rows = [] then 0 else getI64 (hd rows) ''start_timestamp''"
  show ?thesis
    using history_chunks_field [OF assms] historyChunks_times [of _ rows ?s 0]
    by (intro exI [of _ "historyChunks ?s 0 rows"]) (auto simp: hd_conv_nth)
qed

definition demoRow :: "int \<Rightarrow> int \<Rightarrow> valmap" where
  "demoRow a b = [''start_timestamp'' \<mapsto> VInt (word_of_int a), ''end_timestamp'' \<mapsto> VInt (word_of_int b)]"

lemma demo_history: "StreamHistoryToJSON (\<lambda>_. None) [demoRow 1000 6000, demoRow 6000 11000] [] [] None (Fin False 1) \<noteq> None"
proof -
  have "DecomposeWith [[], []] (\<lambda>_. None) \<noteq> None" by code_simp
  then show ?thesis
    by (auto simp: StreamHistoryToJSON_def SilenceFields_def Let_def SilentStream_def SilentShare_def detectorReports_def
        rowGet_def getStr_def demoRow_def)
qed

end
