(* ===== verification/Stable_Sort.thy ===== *)
theory Stable_Sort
  imports Prelude "HOL-Library.Multiset"
begin

text \<open>
  Go's \<^verbatim>\<open>sort.SliceStable\<close> (and \<^verbatim>\<open>sort.Slice\<close> on keys that are all different): the
  stable sort for a \<^verbatim>\<open>less\<close> function that is a strict weak order on the elements sorted. The
  interface \<open>weak_order\<close> states what a \<^verbatim>\<open>less\<close> function has to promise; the lemmas the
  clients use are proved once inside it.
\<close>

fun insertStable :: "('a \<Rightarrow> 'a \<Rightarrow> bool) \<Rightarrow> 'a \<Rightarrow> 'a list \<Rightarrow> 'a list" where
  "insertStable lt x [] = [x]"
| "insertStable lt x (y # ys) = (if lt y x then y # insertStable lt x ys else x # y # ys)"

fun sortStable :: "('a \<Rightarrow> 'a \<Rightarrow> bool) \<Rightarrow> 'a list \<Rightarrow> 'a list" where
  "sortStable lt [] = []"
| "sortStable lt (x # xs) = insertStable lt x (sortStable lt xs)"

lemma mset_insertStable [simp]: "mset (insertStable lt x xs) = add_mset x (mset xs)"
  by (induction xs) auto

lemma mset_sortStable [simp]: "mset (sortStable lt xs) = mset xs"
  by (induction xs) auto

lemma set_insertStable [simp]: "set (insertStable lt x xs) = insert x (set xs)"
  by (induction xs) auto

lemma set_sortStable [simp]: "set (sortStable lt xs) = set xs"
  by (induction xs) auto

lemma length_sortStable [simp]: "length (sortStable lt xs) = length xs"
  by (metis mset_sortStable size_mset)

lemma distinct_sortStable [simp]: "distinct (sortStable lt xs) \<longleftrightarrow> distinct xs"
  by (metis mset_sortStable mset_eq_imp_distinct_iff)

lemma insertStable_least: "(\<And>y. y \<in> set ys \<Longrightarrow> \<not> lt y x) \<Longrightarrow> insertStable lt x ys = x # ys"
  by (cases ys) auto

text \<open>The elements that belong before each other, in the order the sort leaves them.\<close>

definition sortedBy :: "('a \<Rightarrow> 'a \<Rightarrow> bool) \<Rightarrow> 'a list \<Rightarrow> bool" where
  "sortedBy lt xs \<longleftrightarrow> sorted_wrt (\<lambda>x y. \<not> lt y x) xs"

lemma sortedBy_Cons [simp]:
  "sortedBy lt (x # xs) \<longleftrightarrow> (\<forall>y \<in> set xs. \<not> lt y x) \<and> sortedBy lt xs"
  by (simp add: sortedBy_def)

lemma sortedBy_Nil [simp]: "sortedBy lt []"
  by (simp add: sortedBy_def)

lemma sortedBy_take: "sortedBy lt xs \<Longrightarrow> sortedBy lt (take n xs)"
  by (simp add: sortedBy_def sorted_wrt_take)

lemma sortedBy_drop: "sortedBy lt xs \<Longrightarrow> sortedBy lt (drop n xs)"
  by (simp add: sortedBy_def sorted_wrt_drop)

text \<open>\<open>weak_order lt ok\<close>: on the elements that satisfy \<open>ok\<close>, \<open>lt\<close> is a strict
  weak order.\<close>

locale weak_order =
  fixes lt :: "'a \<Rightarrow> 'a \<Rightarrow> bool" and ok :: "'a \<Rightarrow> bool"
  assumes asym: "ok x \<Longrightarrow> ok y \<Longrightarrow> lt x y \<Longrightarrow> \<not> lt y x"
    and negtrans: "ok x \<Longrightarrow> ok y \<Longrightarrow> ok z \<Longrightarrow> \<not> lt x y \<Longrightarrow> \<not> lt y z \<Longrightarrow> \<not> lt x z"
begin

lemma trans_lt: "ok x \<Longrightarrow> ok y \<Longrightarrow> ok z \<Longrightarrow> lt x y \<Longrightarrow> lt y z \<Longrightarrow> lt x z"
  using asym negtrans by blast

lemma sorted_insertStable:
  "ok x \<Longrightarrow> list_all ok ys \<Longrightarrow> sortedBy lt ys \<Longrightarrow> sortedBy lt (insertStable lt x ys)"
proof (induction ys)
  case (Cons y ys)
  then show ?case
    using asym [of y x] negtrans [of _ y x] by (auto simp: list_all_iff)
qed simp

lemma sorted_sortStable: "list_all ok xs \<Longrightarrow> sortedBy lt (sortStable lt xs)"
  by (induction xs) (auto simp: list_all_iff intro!: sorted_insertStable)

lemma filter_insertStable:
  assumes "ok x" "list_all ok ys" "sortedBy lt ys"
  shows "filter P (insertStable lt x ys) =
     (if P x then insertStable lt x (filter P ys) else filter P ys)"
  using assms(2,3)
proof (induction ys)
  case (Cons y ys)
  show ?case
  proof (cases "lt y x")
    case True
    with Cons show ?thesis by auto
  next
    case False
    have "\<not> lt z x" if "z \<in> set ys" for z
      using that Cons.prems False assms(1) negtrans [of z y x] by (auto simp: list_all_iff)
    with False show ?thesis by (auto intro: insertStable_least [symmetric])
  qed
qed simp

text \<open>Sorting and filtering commute, so it does not matter that a client sorts first.\<close>

lemma filter_sortStable: "list_all ok xs \<Longrightarrow> filter P (sortStable lt xs) = sortStable lt (filter P xs)"
  by (induction xs) (auto simp: filter_insertStable sorted_sortStable list_all_iff)

lemma sortStable_ties:
  "list_all ok xs \<Longrightarrow> (\<And>x y. x \<in> set xs \<Longrightarrow> y \<in> set xs \<Longrightarrow> \<not> lt x y) \<Longrightarrow> sortStable lt xs = xs"
  by (induction xs) (auto intro!: insertStable_least)

text \<open>Stability: the elements equivalent to a given one keep their order.\<close>

lemma stable_sortStable:
  assumes "list_all ok xs" "ok k"
  shows "filter (\<lambda>x. \<not> lt x k \<and> \<not> lt k x) (sortStable lt xs)
     = filter (\<lambda>x. \<not> lt x k \<and> \<not> lt k x) xs"
proof -
  let ?ys = "filter (\<lambda>x. \<not> lt x k \<and> \<not> lt k x) xs"
  have "sortStable lt ?ys = ?ys"
    using assms by (intro sortStable_ties) (auto simp: list_all_iff dest: negtrans [of _ k])
  then show ?thesis using filter_sortStable [OF assms(1)] by simp
qed

end

end
