(* ===== verification/Go_Url.thy ===== *)
theory Go_Url
  imports Stable_Sort "HOL-Library.AList"
begin

text \<open>
  What the dashboard uses of \<^verbatim>\<open>net/url\<close>: query escaping, \<^verbatim>\<open>url.Values\<close> (a map from keys to
  lists of values, here an association list with distinct keys), its encoding with sorted keys,
  and \<^verbatim>\<open>ParseQuery\<close>, which a handler reaches through \<^verbatim>\<open>r.URL.Query()\<close>. The lemmas lead to: reading
  an encoded query gives every key the values it had.
\<close>

section \<open>Escaping\<close>

definition isUnreserved :: "char \<Rightarrow> bool" where
  "isUnreserved c \<longleftrightarrow> (let n = of_char c :: nat in
     (97 \<le> n \<and> n \<le> 122) \<or> (65 \<le> n \<and> n \<le> 90) \<or> (48 \<le> n \<and> n \<le> 57) \<or> c \<in> set ''-_.~'')"

definition upperHex :: "nat \<Rightarrow> char" where
  "upperHex n = ''0123456789ABCDEF'' ! n"

definition unhex :: "char \<Rightarrow> nat option" where
  "unhex c = (let n = of_char c :: nat in
     if 48 \<le> n \<and> n \<le> 57 then Some (n - 48)
     else if 97 \<le> n \<and> n \<le> 102 then Some (n - 87)
     else if 65 \<le> n \<and> n \<le> 70 then Some (n - 55)
     else None)"

fun QueryEscape :: "string \<Rightarrow> string" where
  "QueryEscape [] = []"
| "QueryEscape (c # s) =
     (if isUnreserved c then [c]
      else if c = CHR '' '' then ''+''
      else [CHR ''%'', upperHex (of_char c div 16), upperHex (of_char c mod 16)]) @ QueryEscape s"

fun QueryUnescape :: "string \<Rightarrow> string option" where
  "QueryUnescape [] = Some []"
| "QueryUnescape (c # s) =
     (if c = CHR ''%''
      then (case s of
              h # l # t \<Rightarrow> (case (unhex h, unhex l) of
                             (Some a, Some b) \<Rightarrow> map_option ((#) (char_of (16 * a + b))) (QueryUnescape t)
                           | _ \<Rightarrow> None)
            | _ \<Rightarrow> None)
      else map_option ((#) (if c = CHR ''+'' then CHR '' '' else c)) (QueryUnescape s))"

section \<open>Values\<close>

type_synonym url_values = "(string \<times> string list) list"

definition Values_Get :: "url_values \<Rightarrow> string \<Rightarrow> string" where
  "Values_Get m k = (case map_of m k of Some (v # _) \<Rightarrow> v | _ \<Rightarrow> [])"

definition Values_Set :: "string \<Rightarrow> string \<Rightarrow> url_values \<Rightarrow> url_values" where
  "Values_Set k v m = AList.update k [v] m"

definition Values_Add :: "string \<Rightarrow> string \<Rightarrow> url_values \<Rightarrow> url_values" where
  "Values_Add k v m = AList.update k (case map_of m k of None \<Rightarrow> [v] | Some vs \<Rightarrow> vs @ [v]) m"

definition Values_Encode :: "url_values \<Rightarrow> string" where
  "Values_Encode m =
     strings_Join (concat (map (\<lambda>(k, vs). map (\<lambda>v. QueryEscape k @ ''='' @ QueryEscape v) vs)
                               (sortStable (\<lambda>x y. str_lt (fst x) (fst y)) m))) ''&''"

definition cutChar :: "char \<Rightarrow> string \<Rightarrow> string \<times> string" where
  "cutChar d s = (takeWhile (\<lambda>c. c \<noteq> d) s, drop 1 (dropWhile (\<lambda>c. c \<noteq> d) s))"

definition parsePair :: "string \<Rightarrow> url_values \<Rightarrow> url_values" where
  "parsePair p m =
     (if CHR '';'' \<in> set p \<or> p = [] then m
      else let (k, v) = cutChar (CHR ''='') p
           in case (QueryUnescape k, QueryUnescape v) of
                (Some k, Some v) \<Rightarrow> Values_Add k v m
              | _ \<Rightarrow> m)"

definition ParseQuery :: "string \<Rightarrow> url_values" where
  "ParseQuery q = fold parsePair (strings_SplitChar (CHR ''&'') q) []"

text \<open>\<^verbatim>\<open>r.URL.RawQuery\<close> of a link: the fragment is cut off, then the path.\<close>

definition RawQuery :: "string \<Rightarrow> string" where
  "RawQuery link = snd (cutChar (CHR ''?'') (fst (cutChar (CHR ''#'') link)))"

section \<open>Lemmas\<close>

lemma upperHex_table: "n < 16 \<Longrightarrow> unhex (upperHex n) = Some n \<and> upperHex n \<notin> set ''&=;?#''"
  by (auto simp: upperHex_def unhex_def less_Suc_eq numeral_eq_Suc)

lemma upperHex_byte:
  "unhex (upperHex (of_char c div 16)) = Some (of_char c div 16)"
  "unhex (upperHex (of_char c mod 16)) = Some (of_char c mod 16)"
  "upperHex (of_char c div 16) \<notin> set ''&=;?#''" "upperHex (of_char c mod 16) \<notin> set ''&=;?#''"
proof -
  have "(of_char c :: nat) div 16 < 16" by (rule less_mult_imp_div_less) simp
  then show "unhex (upperHex (of_char c div 16)) = Some (of_char c div 16)"
    "unhex (upperHex (of_char c mod 16)) = Some (of_char c mod 16)"
    "upperHex (of_char c div 16) \<notin> set ''&=;?#''" "upperHex (of_char c mod 16) \<notin> set ''&=;?#''"
    using upperHex_table [of "of_char c div 16"] upperHex_table [of "of_char c mod 16"] by simp_all
qed

lemma QueryUnescape_Escape [simp]: "QueryUnescape (QueryEscape s) = Some s"
proof (induction s)
  case (Cons c s)
  have "isUnreserved c \<Longrightarrow> c \<noteq> CHR ''%'' \<and> c \<noteq> CHR ''+''" by (auto simp: isUnreserved_def)
  then show ?case using Cons upperHex_byte(1,2) [of c] by auto
qed simp

lemma QueryEscape_chars: "set (QueryEscape s) \<inter> set ''&=;?#'' = {}"
proof (induction s)
  case (Cons c s)
  have "isUnreserved c \<Longrightarrow> c \<notin> set ''&=;?#''" by (auto simp: isUnreserved_def)
  then show ?case using Cons upperHex_byte(3,4) [of c] by auto
qed simp

lemma SplitChar_single: "d \<notin> set p \<Longrightarrow> strings_SplitChar d p = [p]"
  by (induction p) auto

lemma SplitChar_append: "d \<notin> set p \<Longrightarrow> strings_SplitChar d (p @ d # s) = p # strings_SplitChar d s"
  by (induction p) auto

lemma SplitChar_Join:
  "ps \<noteq> [] \<Longrightarrow> (\<And>p. p \<in> set ps \<Longrightarrow> d \<notin> set p) \<Longrightarrow> strings_SplitChar d (strings_Join ps [d]) = ps"
  by (induction ps "[d]" rule: strings_Join.induct) (auto simp: SplitChar_single SplitChar_append)

lemma cutChar_append: "d \<notin> set p \<Longrightarrow> cutChar d (p @ d # s) = (p, s)"
  by (induction p) (auto simp: cutChar_def)

text \<open>One encoded pair, and a list of them.\<close>

definition encodePair :: "string \<times> string \<Rightarrow> string" where
  "encodePair p = QueryEscape (fst p) @ ''='' @ QueryEscape (snd p)"

lemma parsePair_encodePair: "parsePair (encodePair p) m = Values_Add (fst p) (snd p) m"
  using QueryEscape_chars [of "fst p"] QueryEscape_chars [of "snd p"]
  by (auto simp: encodePair_def parsePair_def cutChar_append)

lemma encodePair_chars: "set (encodePair p) \<inter> set ''&?#'' = {}"
  using QueryEscape_chars [of "fst p"] QueryEscape_chars [of "snd p"] by (auto simp: encodePair_def)

lemma ParseQuery_pairs:
  "ParseQuery (strings_Join (map encodePair ps) ''&'') = fold (\<lambda>p. Values_Add (fst p) (snd p)) ps []"
proof (cases "ps = []")
  case True
  then show ?thesis by (simp add: ParseQuery_def parsePair_def)
next
  case False
  then have "strings_SplitChar (CHR ''&'') (strings_Join (map encodePair ps) ''&'') = map encodePair ps"
    using encodePair_chars by (intro SplitChar_Join) auto
  then show ?thesis
    by (simp add: ParseQuery_def fold_map o_def parsePair_encodePair [abs_def])
qed

definition valuePairs :: "url_values \<Rightarrow> (string \<times> string) list" where
  "valuePairs m = concat (map (\<lambda>(k, vs). map (Pair k) vs) (sortStable (\<lambda>x y. str_lt (fst x) (fst y)) m))"

lemma Values_Encode_pairs: "Values_Encode m = strings_Join (map encodePair (valuePairs m)) ''&''"
  by (simp add: Values_Encode_def valuePairs_def map_concat o_def case_prod_unfold encodePair_def)

lemma fold_Add:
  "map_of (fold (\<lambda>p. Values_Add (fst p) (snd p)) ps m) k =
     (case (map_of m k, map snd (filter (\<lambda>p. fst p = k) ps)) of
        (None, []) \<Rightarrow> None | (None, vs) \<Rightarrow> Some vs | (Some us, vs) \<Rightarrow> Some (us @ vs))"
proof (induction ps arbitrary: m)
  case (Cons p ps)
  then show ?case
    by (cases "fst p = k") (auto simp: Values_Add_def update_conv' split: option.splits list.splits)
qed (simp split: option.splits)

lemma fst_sorted_keys [simp]: "fst ` set (sortStable lt m) = fst ` set m"
  by simp

lemma distinct_keys_sortStable: "distinct (map fst m) \<Longrightarrow> distinct (map fst (sortStable lt m))"
  by (metis mset_map mset_eq_imp_distinct_iff mset_sortStable)

lemma map_of_sortStable: "distinct (map fst m) \<Longrightarrow> map_of (sortStable lt m) = map_of m"
  by (rule map_of_inject_set [THEN iffD2]) (simp_all add: distinct_keys_sortStable)

lemma pairs_of_key:
  "distinct (map fst m) \<Longrightarrow>
   map snd (filter (\<lambda>p. fst p = k) (concat (map (\<lambda>(k, vs). map (Pair k) vs) m))) =
     (case map_of m k of None \<Rightarrow> [] | Some vs \<Rightarrow> vs)"
proof (induction m)
  case (Cons e m)
  obtain k' vs where e: "e = (k', vs)" by force
  show ?case
  proof (cases "k' = k")
    case True
    then have "map_of m k = None" using Cons.prems e by (simp add: map_of_eq_None_iff)
    then show ?thesis using Cons e True by (simp add: filter_map o_def)
  next
    case False
    then show ?thesis using Cons e by (simp add: filter_map o_def)
  qed
qed simp

lemma ParseQuery_Encode:
  assumes "distinct (map fst m)" "\<And>k vs. map_of m k = Some vs \<Longrightarrow> vs \<noteq> []"
  shows "map_of (ParseQuery (Values_Encode m)) k = map_of m k"
proof -
  have "map snd (filter (\<lambda>p. fst p = k) (valuePairs m)) = (case map_of m k of None \<Rightarrow> [] | Some vs \<Rightarrow> vs)"
    using assms by (simp add: valuePairs_def pairs_of_key distinct_keys_sortStable map_of_sortStable)
  then show ?thesis
    using assms(2) [of k]
    by (auto simp: Values_Encode_pairs ParseQuery_pairs fold_Add split: option.splits list.splits)
qed

lemma Join_subset: "set (strings_Join ps sep) \<subseteq> \<Union> (set ` set ps) \<union> set sep"
  by (induction ps sep rule: strings_Join.induct) auto

lemma Values_Encode_chars: "set (Values_Encode m) \<inter> set ''?#'' = {}"
proof -
  have "set (Values_Encode m) \<subseteq> \<Union> (set ` encodePair ` set (valuePairs m)) \<union> set ''&''"
    using Join_subset [of "map encodePair (valuePairs m)" "''&''"] by (simp add: Values_Encode_pairs)
  then show ?thesis using encodePair_chars by fastforce
qed

lemma cutChar_none: "d \<notin> set p \<Longrightarrow> cutChar d p = (p, [])"
  by (induction p) (auto simp: cutChar_def)

lemma RawQuery_link:
  assumes "set base \<inter> set ''?#'' = {}" "set q \<inter> set ''?#'' = {}"
  shows "RawQuery (base @ (if q = [] then [] else CHR ''?'' # q)) = q"
  using assms by (auto simp: RawQuery_def cutChar_none cutChar_append)

end
