(* ===== verification/Web_Format.thy ===== *)
theory Web_Format
  imports Api_Serialize Go_Url
begin

text \<open>
  The template functions of the dashboard (\<^verbatim>\<open>web/render.go\<close>) and the printers of its pages
  (\<^verbatim>\<open>web/pages.go\<close>). They take values out of the API's JSON objects, so \<^verbatim>\<open>any\<close> is \<open>json\<close> here; an
  unsigned 64-bit counter is an integer that wraps when it is read as \<^verbatim>\<open>int64\<close>. Text outside ASCII
  is written as its UTF-8 bytes. The lemmas show what the printed texts mean: grouped numbers and windows read
  back, an uptime is short by less than the smallest unit it shows, and the bands of the MOS pill
  follow the scale.
\<close>

section \<open>Coercions\<close>

definition fmtShortest :: "f64 \<Rightarrow> string" where
  "fmtShortest f =
     (case f of
        NaN \<Rightarrow> ''NaN''
      | Inf s \<Rightarrow> if s then ''-Inf'' else ''+Inf''
      | Fin s r \<Rightarrow>
          (let (digits, ex) = shortestDigits r; n = int (length digits);
               body = (if ex < 0 then ''0.'' @ replicate (nat (- ex - 1)) (CHR ''0'') @ digits
                       else if n \<le> ex + 1 then digits @ replicate (nat (ex + 1 - n)) (CHR ''0'')
                       else take (nat (ex + 1)) digits @ ''.'' @ drop (nat (ex + 1)) digits)
           in if s then ''-'' @ body else body))"

fun web_toI64 :: "json \<Rightarrow> int" where
  "web_toI64 (JInt n) = wrap64 n"
| "web_toI64 (JFloat f) = f64_to_int64 f"
| "web_toI64 (JStr s) =
     (case strconv_ParseInt (strings_TrimSpace s) of
        Some n \<Rightarrow> n
      | None \<Rightarrow> (case strconv_ParseFloat (strings_TrimSpace s) of Some f \<Rightarrow> f64_to_int64 f | None \<Rightarrow> 0))"
| "web_toI64 _ = 0"

fun web_toF64 :: "json \<Rightarrow> f64" where
  "web_toF64 (JFloat f) = f"
| "web_toF64 (JInt n) = f64_of_int n"
| "web_toF64 (JStr s) = (case strconv_ParseFloat (strings_TrimSpace s) of Some f \<Rightarrow> f | None \<Rightarrow> Fin False 0)"
| "web_toF64 _ = Fin False 0"

text \<open>\<^verbatim>\<open>fmt.Sprint\<close>; the keys of a map are printed in order.\<close>

fun sprintJson :: "json \<Rightarrow> string" where
  "sprintJson JNull = ''<nil>''"
| "sprintJson (JBool b) = (if b then ''true'' else ''false'')"
| "sprintJson (JInt n) = strconv_Itoa n"
| "sprintJson (JFloat f) = fmtFloatV f"
| "sprintJson (JStr s) = s"
| "sprintJson (JList js) = ''['' @ strings_Join (map sprintJson js) '' '' @ '']''"
| "sprintJson (JObj kvs) =
     ''map['' @ strings_Join (map (\<lambda>(k, t). k @ '':'' @ t)
        (sortStable (\<lambda>x y. str_lt (fst x) (fst y)) (map (\<lambda>kv. (fst kv, sprintJson (snd kv))) kvs))) '' '' @ '']''"

fun rawString :: "json \<Rightarrow> string" where
  "rawString JNull = []"
| "rawString (JFloat f) = fmtShortest f"
| "rawString v = sprintJson v"

definition field :: "json_object \<Rightarrow> string \<Rightarrow> json" where
  "field obj k = (case map_of obj k of None \<Rightarrow> JNull | Some v \<Rightarrow> v)"

section \<open>Numbers\<close>

record mos_pill =
  pillText :: string
  pillBand :: string
  pillLabel :: string

definition mosClamp :: "f64 \<Rightarrow> f64" where
  "mosClamp f =
     (let c = (if f = NaN \<or> f64_lt f (Fin False 1) then Fin False 1 else f)
      in if f64_lt (Fin False 5) c then Fin False 5 else c)"

definition mosBand :: "f64 \<Rightarrow> string \<times> string" where
  "mosBand c =
     (if f64_le (f64_of_rat (43 / 10)) c then (''excellent'', ''Excellent'')
      else if f64_le (Fin False 4) c then (''good'', ''Good'')
      else if f64_le (f64_of_rat (36 / 10)) c then (''fair'', ''Fair'')
      else if f64_le (f64_of_rat (31 / 10)) c then (''poor'', ''Poor'')
      else (''bad'', ''Bad''))"

definition mosView :: "json \<Rightarrow> bool \<Rightarrow> mos_pill option" where
  "mosView v hideZero =
     (let f = web_toF64 v
      in if hideZero \<and> f64_eq f (Fin False 0) then None
         else Some \<lparr>pillText = formatFixed 2 f, pillBand = fst (mosBand (mosClamp f)), pillLabel = snd (mosBand (mosClamp f))\<rparr>)"

text \<open>A comma before every digit that has a multiple of three digits from it to the end.\<close>

fun groupDigits :: "bool \<Rightarrow> string \<Rightarrow> string" where
  "groupDigits first [] = []"
| "groupDigits first (c # s) =
     (if \<not> first \<and> length (c # s) mod 3 = 0 then '','' else []) @ c # groupDigits False s"

definition fmtInt :: "json \<Rightarrow> string" where
  "fmtInt v =
     (let s = strconv_Itoa (web_toI64 v)
      in if strings_HasPrefix s ''-'' then ''-'' @ groupDigits True (drop 1 s) else groupDigits True s)"

fun scaleUnits :: "f64 \<Rightarrow> string list \<Rightarrow> f64 \<times> string" where
  "scaleUnits f [] = (f, [])"
| "scaleUnits f [u] = (f, u)"
| "scaleUnits f (u # v # us) = (if f64_le (Fin False 1024) f then scaleUnits (f64_div f (Fin False 1024)) (v # us) else (f, u))"

definition fmtBytes :: "json \<Rightarrow> string" where
  "fmtBytes v =
     (let f = web_toF64 v
      in if f64_le f (Fin False 0) then ''0 B''
         else let (g, u) = scaleUnits f [''B'', ''KB'', ''MB'', ''GB'', ''TB'']
              in formatFixed (if u = ''B'' \<or> f64_le (Fin False 100) g then 0 else 1) g @ '' '' @ u)"

definition fmtPct :: "f64 \<Rightarrow> string" where
  "fmtPct ratio = formatFixed (if f64_le (f64_of_rat (1 / 10)) ratio then 1 else 2) (f64_mul ratio (Fin False 100)) @ ''%''"

definition pct0 :: "json \<Rightarrow> string" where
  "pct0 v = formatFixed 0 (f64_mul (web_toF64 v) (Fin False 100)) @ ''%''"

definition fmtFixed :: "nat \<Rightarrow> json \<Rightarrow> string" where
  "fmtFixed prec v = formatFixed prec (web_toF64 v)"

text \<open>\<^verbatim>\<open>math.Round\<close>: half away from zero.\<close>

fun math_Round :: "f64 \<Rightarrow> f64" where
  "math_Round (Fin s r) = Fin s (of_int \<lfloor>r + 1 / 2\<rfloor>)"
| "math_Round x = x"

definition alarmNum :: "json \<Rightarrow> string" where
  "alarmNum v = fmtShortest (f64_div (math_Round (f64_mul (web_toF64 v) (Fin False 1000))) (Fin False 1000))"

definition unitSuffix :: "string \<Rightarrow> string" where
  "unitSuffix unit = (if unit = ''%'' then ''%'' else if unit \<in> {''ms'', ''s'', ''packets''} then '' '' @ unit else [])"

section \<open>Times\<close>

definition emDash :: string where
  "emDash = [CHR 0xE2, CHR 0x80, CHR 0x94]"

definition fmtUptime :: "json \<Rightarrow> string" where
  "fmtUptime v =
     (let sec = web_toI64 v
      in if sec \<le> 0 then ''0s''
         else let d = sec div 86400; h = sec mod 86400 div 3600; m = sec mod 3600 div 60; s = sec mod 60;
                  parts = (if 0 < d then [strconv_Itoa d @ ''d''] else []) @ (if 0 < h then [strconv_Itoa h @ ''h''] else [])
                    @ (if d = 0 \<and> 0 < m then [strconv_Itoa m @ ''m''] else [])
                    @ (if d = 0 \<and> h = 0 then [strconv_Itoa s @ ''s''] else [])
              in if parts = [] then ''0s'' else strings_Join parts '' '')"

definition sipTime :: "(int \<Rightarrow> int) \<Rightarrow> json \<Rightarrow> string" where
  "sipTime zone v =
     (let ms = web_toI64 v
      in if ms \<le> 0 then emDash
         else let t = (ms + 1000 * zone ms) * 10 ^ 6 in formatDate t @ '' '' @ formatClock t)"

definition sipDur :: "json \<Rightarrow> string" where
  "sipDur v =
     (let ms = web_toI64 v
      in if ms \<le> 0 then emDash
         else let tot = ms div 1000; h = tot div 3600; m = tot mod 3600 div 60; s = tot mod 60
              in if 0 < h then strconv_Itoa h @ '':'' @ zeroPad 2 m @ '':'' @ zeroPad 2 s
                 else strconv_Itoa m @ '':'' @ zeroPad 2 s)"

definition windowText :: "int \<Rightarrow> string" where
  "windowText s =
     (if 86400 dvd s then strconv_Itoa (s div 86400) @ '' d''
      else if 3600 dvd s then strconv_Itoa (s div 3600) @ '' h''
      else if 60 dvd s then strconv_Itoa (s div 60) @ '' min''
      else strconv_Itoa s @ '' s'')"

section \<open>Chips\<close>

definition silenceTip :: "json_object \<Rightarrow> string" where
  "silenceTip row =
     (let src = (case field row ''silence_source'' of JStr s \<Rightarrow> s | _ \<Rightarrow> []);
          dtx = ''DTX/SID frames '' @ pct0 (field row ''silence_ratio'');
          aud = ''silent audio in '' @ pct0 (field row ''silent_audio_ratio'') @ '' of intervals (PVQA SilentCall)''
      in ''Silence suspected'' @
         (if src = ''dtx'' then '': '' @ dtx else if src = ''audio'' then '': '' @ aud
          else if src = ''dtx+audio'' then '': '' @ dtx @ '', '' @ aud else []))"

definition sipCode :: "json_object \<Rightarrow> string" where
  "sipCode row =
     (case map_of row ''setup_code'' of
        Some v \<Rightarrow> rawString v
      | None \<Rightarrow>
          (case map_of row ''response_code'' of
             None \<Rightarrow> []
           | Some v \<Rightarrow> (case field row ''reason_label'' of
                         JStr label \<Rightarrow> if label \<noteq> [] then rawString v @ '' ('' @ label @ '')'' else rawString v
                       | _ \<Rightarrow> rawString v)))"

text \<open>The built-in \<^verbatim>\<open>min\<close>: NaN wins, and the negative zero is below the positive one.\<close>

definition f64_min :: "f64 \<Rightarrow> f64 \<Rightarrow> f64" where
  "f64_min a b =
     (if a = NaN \<or> b = NaN then NaN
      else if f64_lt b a then b else if f64_lt a b then a else if a = Fin True 0 then a else b)"

definition worstMos :: "f64 list \<Rightarrow> int \<Rightarrow> mos_pill option" where
  "worstMos vals n =
     (case vals of
        [] \<Rightarrow> None
      | v # _ \<Rightarrow>
          (let worst = fold (\<lambda>x w. f64_min w x) vals v
           in map_option (\<lambda>p. p\<lparr>pillLabel := pillLabel p @ '' - worst of '' @ strconv_Itoa (int (length vals)) @ ''/'' @ strconv_Itoa n
                @ '' streams: '' @ strings_Join (map (formatFixed 2) vals) '', ''\<rparr>) (mosView (JFloat worst) False)))"

section \<open>Reading the printed texts\<close>

text \<open>Grouped numbers lose their commas; a window is a number and a unit; an uptime is a sum of such parts.\<close>

definition readGrouped :: "string \<Rightarrow> int option" where
  "readGrouped s = strconv_ParseInt (filter (\<lambda>c. c \<noteq> CHR '','') s)"

definition unitS :: "string \<Rightarrow> int" where
  "unitS u = (if u = ''d'' then 86400 else if u = ''h'' then 3600 else if u = ''m'' \<or> u = ''min'' then 60 else 1)"

definition readWindow :: "string \<Rightarrow> int option" where
  "readWindow s = (let (n, u) = cutChar (CHR '' '') s in map_option (\<lambda>i. i * unitS u) (strconv_ParseInt n))"

definition readPart :: "string \<Rightarrow> int" where
  "readPart p = (case strconv_ParseInt (butlast p) of Some i \<Rightarrow> i * unitS [last p] | None \<Rightarrow> 0)"

definition readUptime :: "string \<Rightarrow> int" where
  "readUptime s = sum_list (map readPart (strings_SplitChar (CHR '' '') s))"

lemma filter_groupDigits: "CHR '','' \<notin> set s \<Longrightarrow> filter (\<lambda>c. c \<noteq> CHR '','') (groupDigits b s) = s"
  by (induction b s rule: groupDigits.induct) auto

lemma Itoa_no_comma: "CHR '','' \<notin> set (strconv_Itoa n)" "CHR '' '' \<notin> set (strconv_Itoa n)"
  using Itoa_chars [of n] by (auto simp: list_all_iff isDigit_def)

lemma fmtInt_reads: "filter (\<lambda>c. c \<noteq> CHR '','') (fmtInt v) = strconv_Itoa (web_toI64 v)"
proof -
  let ?s = "strconv_Itoa (web_toI64 v)"
  have "CHR '','' \<notin> set (drop 1 ?s)" using Itoa_no_comma(1) in_set_dropD by metis
  moreover have "?s = CHR ''-'' # drop 1 ?s" if "strings_HasPrefix ?s ''-''"
    using that by (cases ?s) (auto simp: strings_HasPrefix_def)
  ultimately show ?thesis
    using Itoa_no_comma(1) by (auto simp: fmtInt_def Let_def filter_groupDigits)
qed

lemma cut_Itoa: "cutChar (CHR '' '') (strconv_Itoa n @ CHR '' '' # u) = (strconv_Itoa n, u)"
proof -
  have "\<forall>c \<in> set (strconv_Itoa n). c \<noteq> CHR '' ''" using Itoa_no_comma(2) by metis
  then show ?thesis by (simp add: cutChar_def)
qed

lemma ParseInt_part: "0 \<le> n \<Longrightarrow> n \<le> maxInt64 \<Longrightarrow> strconv_ParseInt (strconv_Itoa n) = Some n"
  by (rule ParseInt_Itoa) (simp_all add: minInt64_def)

lemma part_bounds: "0 \<le> n \<Longrightarrow> n \<le> maxInt64 \<Longrightarrow> 0 < k \<Longrightarrow> 0 \<le> n div k \<and> n div k \<le> maxInt64" for n k :: int
  using zdiv_mono2 [of n 1 k] by (simp add: pos_imp_zdiv_nonneg_iff)

lemma readWindow_windowText:
  assumes "0 \<le> s" "s \<le> maxInt64"
  shows "readWindow (windowText s) = Some s"
proof -
  have "readWindow (strconv_Itoa (s div k) @ CHR '' '' # u) = Some s" if "k dvd s" "0 < k" "unitS u = k" for k u
    using that part_bounds [OF assms that(2)] by (simp add: readWindow_def cut_Itoa ParseInt_part)
  from this [of 86400 "''d''"] this [of 3600 "''h''"] this [of 60 "''min''"] this [of 1 "''s''"]
  show ?thesis by (simp add: windowText_def unitS_def)
qed

lemma readPart_Itoa: "0 \<le> n \<Longrightarrow> n \<le> maxInt64 \<Longrightarrow> readPart (strconv_Itoa n @ [u]) = n * unitS [u]"
  by (simp add: readPart_def ParseInt_part)

lemma readUptime_Join:
  assumes "ps \<noteq> []" "\<forall>p \<in> set ps. CHR '' '' \<notin> set p"
  shows "readUptime (strings_Join ps '' '') = sum_list (map readPart ps)"
  using SplitChar_Join [of ps "CHR '' ''"] assms by (simp add: readUptime_def)

text \<open>The smallest unit an uptime shows.\<close>

definition shownUnit :: "int \<Rightarrow> int" where
  "shownUnit sec = (if 86400 \<le> sec then 3600 else if 3600 \<le> sec then 60 else 1)"

definition uptimeParts :: "int \<Rightarrow> int \<Rightarrow> int \<Rightarrow> int \<Rightarrow> string list" where
  "uptimeParts d h m s = (if 0 < d then [strconv_Itoa d @ ''d''] else []) @ (if 0 < h then [strconv_Itoa h @ ''h''] else [])
     @ (if d = 0 \<and> 0 < m then [strconv_Itoa m @ ''m''] else []) @ (if d = 0 \<and> h = 0 then [strconv_Itoa s @ ''s''] else [])"

lemma readUptime_parts:
  assumes "0 \<le> d" "d \<le> maxInt64" "0 \<le> h" "h \<le> maxInt64" "0 \<le> m" "m \<le> maxInt64" "0 \<le> s" "s \<le> maxInt64"
  shows "uptimeParts d h m s \<noteq> []"
    and "readUptime (strings_Join (uptimeParts d h m s) '' '') =
      d * 86400 + h * 3600 + (if d = 0 then m * 60 else 0) + (if d = 0 \<and> h = 0 then s else 0)"
proof -
  show ne: "uptimeParts d h m s \<noteq> []" using assms by (auto simp: uptimeParts_def)
  have "\<forall>p \<in> set (uptimeParts d h m s). CHR '' '' \<notin> set p" by (auto simp: uptimeParts_def Itoa_no_comma split: if_splits)
  then show "readUptime (strings_Join (uptimeParts d h m s) '' '') =
      d * 86400 + h * 3600 + (if d = 0 then m * 60 else 0) + (if d = 0 \<and> h = 0 then s else 0)"
    using assms readUptime_Join [OF ne] by (auto simp: uptimeParts_def readPart_Itoa unitS_def)
qed

lemma fmtUptime_parts:
  assumes "0 < sec" "sec \<le> maxInt64"
  shows "fmtUptime (JInt sec) = strings_Join (uptimeParts (sec div 86400) (sec mod 86400 div 3600) (sec mod 3600 div 60) (sec mod 60)) '' ''"
proof -
  have "web_toI64 (JInt sec) = sec" using assms by (simp add: wrap64_id minInt64_def)
  moreover have "uptimeParts (sec div 86400) (sec mod 86400 div 3600) (sec mod 3600 div 60) (sec mod 60) \<noteq> []"
    using part_bounds [of sec 86400] assms by (intro readUptime_parts(1)) (simp_all add: maxInt64_def)
  moreover have "\<not> sec \<le> 0" using assms(1) by simp
  ultimately show ?thesis unfolding fmtUptime_def Let_def uptimeParts_def [symmetric] by (simp only: if_False)
qed

lemma uptime_rest:
  fixes sec :: int
  shows "sec div 86400 * 86400 + sec mod 86400 div 3600 * 3600 = sec - sec mod 3600"
    and "sec mod 3600 div 60 * 60 = sec mod 3600 - sec mod 60"
proof -
  have "sec mod 86400 mod 3600 = sec mod 3600" "sec mod 3600 mod 60 = sec mod 60" by (simp_all add: mod_mod_cancel)
  then show "sec div 86400 * 86400 + sec mod 86400 div 3600 * 3600 = sec - sec mod 3600"
    "sec mod 3600 div 60 * 60 = sec mod 3600 - sec mod 60"
    using minus_mod_eq_div_mult [of "sec mod 86400" 3600] minus_mod_eq_div_mult [of sec 86400]
      minus_mod_eq_div_mult [of "sec mod 3600" 60] by linarith+
qed

lemma readUptime_fmtUptime:
  assumes "0 < sec" "sec \<le> maxInt64"
  shows "readUptime (fmtUptime (JInt sec)) = sec - sec mod shownUnit sec"
proof -
  let ?d = "sec div 86400" and ?h = "sec mod 86400 div 3600" and ?m = "sec mod 3600 div 60" and ?s = "sec mod 60"
  have eq: "readUptime (fmtUptime (JInt sec)) = ?d * 86400 + ?h * 3600 + (if ?d = 0 then ?m * 60 else 0) + (if ?d = 0 \<and> ?h = 0 then ?s else 0)"
    unfolding fmtUptime_parts [OF assms] using part_bounds [of sec 86400] assms
    by (intro readUptime_parts(2)) (simp_all add: maxInt64_def)
  note rest = uptime_rest [of sec]
  show ?thesis
  proof (cases "sec < 86400")
    case True
    then have small: "?d = 0" "sec mod 86400 = sec" using assms(1) by (simp_all add: zdiv_eq_0_iff)
    then have h: "?h = 0 \<longleftrightarrow> sec < 3600" using assms(1) by (simp add: zdiv_eq_0_iff)
    show ?thesis
    proof (cases "sec < 3600")
      case True
      then have "sec mod 3600 = sec" "sec mod shownUnit sec = 0" using assms(1) by (simp_all add: shownUnit_def)
      moreover have "readUptime (fmtUptime (JInt sec)) = ?m * 60 + ?s" using eq small(1) h True by simp
      ultimately show ?thesis using rest(2) by linarith
    next
      case False
      then have "sec mod shownUnit sec = sec mod 60" using True by (simp add: shownUnit_def)
      moreover have "readUptime (fmtUptime (JInt sec)) = ?d * 86400 + ?h * 3600 + ?m * 60" using eq small(1) h False by simp
      ultimately show ?thesis using rest by linarith
    qed
  next
    case False
    then have "?d \<noteq> 0" using assms(1) by (simp add: zdiv_eq_0_iff)
    then show ?thesis using eq rest(1) False by (simp add: shownUnit_def)
  qed
qed

section \<open>Groups of digits\<close>

text \<open>Groups of three, but for the first, which has one to three digits.\<close>

definition wellGrouped :: "string \<Rightarrow> bool" where
  "wellGrouped s \<longleftrightarrow> (case strings_SplitChar (CHR '','') s of [] \<Rightarrow> False
     | g # gs \<Rightarrow> length g \<in> {1..3} \<and> list_all (\<lambda>h. length h = 3) gs)"

lemma groupDigits_rest:
  "length s = 3 * n \<Longrightarrow> CHR '','' \<notin> set s \<Longrightarrow>
   \<exists>gs. strings_SplitChar (CHR '','') (groupDigits False s) = [] # gs \<and> list_all (\<lambda>h. length h = 3) gs"
proof (induction n arbitrary: s)
  case (Suc n)
  then obtain a b c u where s: "s = a # b # c # u" "length u = 3 * n"
    by (auto simp: length_Suc_conv eval_nat_numeral)
  then have "CHR '','' \<notin> set u" "CHR '','' \<notin> {a, b, c}" using Suc.prems(2) by auto
  with Suc.IH [OF s(2)] show ?case by (auto simp: s mod_Suc)
qed simp

lemma wellGrouped_groupDigits:
  assumes "s \<noteq> []" "CHR '','' \<notin> set s"
  shows "wellGrouped (groupDigits True s)"
proof -
  obtain a u where s: "s = a # u" using assms(1) by (cases s) auto
  define n where "n = length u div 3"
  have len: "length u = 3 * n + length u mod 3" by (simp add: n_def)
  consider "length u = 3 * n" | "length u = Suc (3 * n)" | "length u = Suc (Suc (3 * n))" using len by linarith
  then show ?thesis
  proof cases
    case 1
    then show ?thesis using groupDigits_rest [of u n] assms(2) by (auto simp: s wellGrouped_def)
  next
    case 2
    then obtain b v where u: "u = b # v" "length v = 3 * n" by (auto simp: length_Suc_conv)
    then show ?thesis using groupDigits_rest [of v n] assms(2) by (auto simp: s wellGrouped_def mod_Suc)
  next
    case 3
    then obtain b c v where u: "u = b # c # v" "length v = 3 * n" by (auto simp: length_Suc_conv)
    then show ?thesis using groupDigits_rest [of v n] assms(2) by (auto simp: s wellGrouped_def mod_Suc)
  qed
qed

section \<open>The scale of the MOS pill\<close>

definition bandRank :: "string \<Rightarrow> nat" where
  "bandRank b = (if b = ''excellent'' then 4 else if b = ''good'' then 3 else if b = ''fair'' then 2 else if b = ''poor'' then 1 else 0)"

lemma f64_le_trans: "f64_le a b \<Longrightarrow> f64_le b c \<Longrightarrow> f64_le a c"
  by (cases a; cases b; cases c) (auto simp: f64_le_def)

lemma bandRank_mono:
  assumes "f64_le a b"
  shows "bandRank (fst (mosBand a)) \<le> bandRank (fst (mosBand b))"
  using f64_le_trans [OF _ assms] by (auto simp: mosBand_def bandRank_def)

lemma mosClamp_mono: "f64_le a b \<Longrightarrow> f64_le (mosClamp a) (mosClamp b)"
  by (cases a; cases b) (auto simp: mosClamp_def Let_def f64_le_def)

text \<open>The dashboard's texts mean what they stand for. A counter is printed in groups of three digits
  that read back to it; an alarm's window reads back to its seconds; an uptime is short by less than the
  smallest unit it shows (minutes once days show, seconds once hours show); and a better MOS never gets a
  worse band.\<close>

lemma printed_texts_faithful:
  "(0 \<le> n \<and> n \<le> maxInt64 \<longrightarrow> wellGrouped (fmtInt (JInt n)) \<and> readGrouped (fmtInt (JInt n)) = Some n
      \<and> readWindow (windowText n) = Some n)
   \<and> (0 < n \<and> n \<le> maxInt64 \<longrightarrow> readUptime (fmtUptime (JInt n)) = n - n mod shownUnit n)
   \<and> (f64_le a b \<longrightarrow> bandRank (fst (mosBand (mosClamp a))) \<le> bandRank (fst (mosBand (mosClamp b))))"
proof (intro conjI impI)
  assume n: "0 \<le> n \<and> n \<le> maxInt64"
  then have w: "web_toI64 (JInt n) = n" by (simp add: wrap64_id minInt64_def)
  have "\<not> strings_HasPrefix (strconv_Itoa n) ''-''"
    using n decimalNat_hd(1) [of "nat n"] by (cases "decimalNat (nat n)") (auto simp: strconv_Itoa_def strings_HasPrefix_def)
  then show "wellGrouped (fmtInt (JInt n))"
    using w wellGrouped_groupDigits [of "strconv_Itoa n"] Itoa_no_comma(1) [of n] by (auto simp: fmtInt_def Let_def strconv_Itoa_def)
  show "readGrouped (fmtInt (JInt n)) = Some n"
    unfolding readGrouped_def fmtInt_reads w using n by (simp add: ParseInt_part)
  show "readWindow (windowText n) = Some n" using n readWindow_windowText by blast
next
  show "readUptime (fmtUptime (JInt n)) = n - n mod shownUnit n" if "0 < n \<and> n \<le> maxInt64"
    using that readUptime_fmtUptime by blast
  show "bandRank (fst (mosBand (mosClamp a))) \<le> bandRank (fst (mosBand (mosClamp b)))" if "f64_le a b"
    using that bandRank_mono mosClamp_mono by blast
qed

end
