(* ===== verification/Filter_Transport.thy ===== *)
theory Filter_Transport
  imports Filter_Eval
begin

text \<open>
  The \<^verbatim>\<open>SearchFilter\<close> transport (\<^verbatim>\<open>filter/transport.go\<close>): the string
  \<^verbatim>\<open>field/dir/offset/count/base64(expression)\<close> the frontend sends. Package
  \<^verbatim>\<open>encoding/base64\<close> and \<^verbatim>\<open>utf8.Valid\<close> are modelled as far as it uses them. The
  lemmas lead to the round trip of the transport.
\<close>

section \<open>Base64\<close>

definition alphaNum :: string where
  "alphaNum = ''ABCDEFGHIJKLMNOPQRSTUVWXYZabcdefghijklmnopqrstuvwxyz0123456789''"

definition stdAlphabet :: string where "stdAlphabet = alphaNum @ ''+/''"
definition urlAlphabet :: string where "urlAlphabet = alphaNum @ ''-_''"

abbreviation byte :: "char \<Rightarrow> nat" where "byte \<equiv> of_char"

fun base64_Encode :: "string \<Rightarrow> string \<Rightarrow> string" where
  "base64_Encode al [] = []"
| "base64_Encode al [a] = [al ! (byte a div 4), al ! (byte a mod 4 * 16), CHR ''='', CHR ''='']"
| "base64_Encode al [a, b] =
     [al ! (byte a div 4), al ! (byte a mod 4 * 16 + byte b div 16), al ! (byte b mod 16 * 4), CHR ''='']"
| "base64_Encode al (a # b # c # s) =
     al ! (byte a div 4) # al ! (byte a mod 4 * 16 + byte b div 16)
     # al ! (byte b mod 16 * 4 + byte c div 64) # al ! (byte c mod 64) # base64_Encode al s"

definition decodeChar :: "string \<Rightarrow> char \<Rightarrow> nat option" where
  "decodeChar al c = (let n = length (takeWhile (\<lambda>d. d \<noteq> c) al) in if n < length al then Some n else None)"

text \<open>Decoding, after the line breaks are dropped: four characters at a time, padding only at the
  end. The unused low bits of the last character are ignored, as in \<^verbatim>\<open>StdEncoding\<close>.\<close>

fun decodeQuads :: "string \<Rightarrow> string \<Rightarrow> string option" where
  "decodeQuads al [] = Some []"
| "decodeQuads al (p # q # r # s # t) =
     (case (decodeChar al p, decodeChar al q) of
        (Some i, Some j) \<Rightarrow>
          (if r = CHR ''='' then
             (if s = CHR ''='' \<and> t = [] then Some [char_of (i * 4 + j div 16)] else None)
           else (case decodeChar al r of
                   None \<Rightarrow> None
                 | Some k \<Rightarrow>
                     if s = CHR ''='' then
                       (if t = [] then Some [char_of (i * 4 + j div 16), char_of (j mod 16 * 16 + k div 4)]
                        else None)
                     else (case (decodeChar al s, decodeQuads al t) of
                             (Some l, Some rest) \<Rightarrow>
                               Some (char_of (i * 4 + j div 16) # char_of (j mod 16 * 16 + k div 4)
                                     # char_of (k mod 4 * 64 + l) # rest)
                           | _ \<Rightarrow> None)))
      | _ \<Rightarrow> None)"
| "decodeQuads al _ = None"

definition base64_Decode :: "string \<Rightarrow> string \<Rightarrow> string option" where
  "base64_Decode al s = decodeQuads al (filter (\<lambda>c. c \<noteq> CHR 0x0A \<and> c \<noteq> CHR 0x0D) s)"

section \<open>UTF-8\<close>

definition cont :: "char \<Rightarrow> bool" where
  "cont c \<longleftrightarrow> 128 \<le> byte c \<and> byte c \<le> 191"

fun utf8_Valid :: "string \<Rightarrow> bool" where
  "utf8_Valid [] = True"
| "utf8_Valid (a # s) =
     (if byte a < 128 then utf8_Valid s
      else case s of
        b # s1 \<Rightarrow>
          if 194 \<le> byte a \<and> byte a \<le> 223 then cont b \<and> utf8_Valid s1
          else (case s1 of
            c # s2 \<Rightarrow>
              if 224 \<le> byte a \<and> byte a \<le> 239 then
                cont b \<and> (byte a = 224 \<longrightarrow> 160 \<le> byte b) \<and> (byte a = 237 \<longrightarrow> byte b \<le> 159)
                \<and> cont c \<and> utf8_Valid s2
              else (case s2 of
                d # s3 \<Rightarrow>
                  240 \<le> byte a \<and> byte a \<le> 244 \<and> cont b \<and> (byte a = 240 \<longrightarrow> 144 \<le> byte b)
                  \<and> (byte a = 244 \<longrightarrow> byte b \<le> 143) \<and> cont c \<and> cont d \<and> utf8_Valid s3
              | [] \<Rightarrow> False)
          | [] \<Rightarrow> False)
      | [] \<Rightarrow> False)"

section \<open>SearchFilter\<close>

record date_interval =
  StartSeconds :: int
  EndSeconds :: int

record search_filter =
  PageOffset :: int
  MaxCount :: int
  SortField :: string
  Descending :: bool
  Expression :: string
  DateInterval :: "date_interval option"
  SIPCallID :: string

definition NewSearchFilter :: search_filter where
  "NewSearchFilter = \<lparr>PageOffset = 0, MaxCount = 50, SortField = ''start_time'', Descending = True,
     Expression = [], DateInterval = None, SIPCallID = []\<rparr>"

definition safeInt :: "string \<Rightarrow> int \<Rightarrow> int" where
  "safeInt s def = (case strconv_ParseInt s of Some v \<Rightarrow> v | None \<Rightarrow> def)"

definition b64DecodeText :: "string \<Rightarrow> string" where
  "b64DecodeText token =
     (let padded = token @ replicate ((4 - length token mod 4) mod 4) (CHR ''='')
      in case base64_Decode stdAlphabet padded of
           Some b \<Rightarrow> if utf8_Valid b then b
                     else (case base64_Decode urlAlphabet padded of
                             Some b' \<Rightarrow> if utf8_Valid b' then b' else [] | None \<Rightarrow> [])
         | None \<Rightarrow> (case base64_Decode urlAlphabet padded of
                      Some b' \<Rightarrow> if utf8_Valid b' then b' else [] | None \<Rightarrow> []))"

text \<open>\<^verbatim>\<open>(*SearchFilter).Parse\<close>: fewer than four tokens leave the filter as it is.\<close>

definition SearchFilter_Parse :: "search_filter \<Rightarrow> string \<Rightarrow> search_filter" where
  "SearchFilter_Parse f img =
     (let decoded = strings_ReplaceAll img ''%2F'' ''/'';
          toks = strings_SplitNChar (CHR ''/'') 5 decoded
      in if length toks < 4 then f
         else let f1 = f\<lparr>SortField := toks ! 0, Descending := toks ! 1 \<noteq> ''asc'',
                         PageOffset := safeInt (toks ! 2) (PageOffset f),
                         MaxCount := safeInt (toks ! 3) (MaxCount f)\<rparr>
              in if 5 \<le> length toks \<and> toks ! 4 \<noteq> []
                 then f1\<lparr>Expression := strings_TrimSpace (b64DecodeText (toks ! 4))\<rparr>
                 else f1)"

definition ParseSearchFilter :: "string \<Rightarrow> search_filter" where
  "ParseSearchFilter img = SearchFilter_Parse NewSearchFilter img"

definition SearchFilter_String :: "search_filter \<Rightarrow> string" where
  "SearchFilter_String f =
     (let direction = (if \<not> Descending f then ''asc'' else ''desc'');
          parts = [SortField f, direction, strconv_Itoa (PageOffset f), strconv_Itoa (MaxCount f)]
      in strings_Join
           (if Expression f \<noteq> [] then parts @ [base64_Encode stdAlphabet (Expression f)] else parts) ''/'')"

definition DeriveWithSort :: "search_filter \<Rightarrow> string \<Rightarrow> bool \<Rightarrow> search_filter" where
  "DeriveWithSort f field descending =
     \<lparr>PageOffset = PageOffset f, MaxCount = MaxCount f, SortField = field, Descending = descending,
      Expression = Expression f, DateInterval = DateInterval f, SIPCallID = SIPCallID f\<rparr>"

section \<open>Base64 round trip\<close>

definition alphabet :: "string \<Rightarrow> bool" where
  "alphabet al \<longleftrightarrow> distinct al \<and> length al = 64 \<and> CHR ''='' \<notin> set al
     \<and> CHR 0x0A \<notin> set al \<and> CHR 0x0D \<notin> set al"

lemma stdAlphabet_ok: "alphabet stdAlphabet"
  by (simp add: alphabet_def stdAlphabet_def alphaNum_def)

lemma takeWhile_nth:
  "distinct xs \<Longrightarrow> n < length xs \<Longrightarrow> takeWhile (\<lambda>d. d \<noteq> xs ! n) xs = take n xs"
  by (rule takeWhile_eq_take_P_nth) (auto simp: nth_eq_iff_index_eq)

lemma decodeChar_nth: "alphabet al \<Longrightarrow> n < 64 \<Longrightarrow> decodeChar al (al ! n) = Some n"
  by (simp add: decodeChar_def alphabet_def takeWhile_nth)

lemma alphabet_nth_neq: "alphabet al \<Longrightarrow> n < 64 \<Longrightarrow> al ! n \<noteq> CHR ''=''"
  by (metis alphabet_def nth_mem)

lemma byte_parts:
  "byte c div 16 div 16 = 0" "byte c div 64 div 4 = 0"
  "byte c div 16 mod 16 = byte c div 16" "byte c div 64 mod 4 = byte c div 64"
proof -
  have "byte c < 256" by simp
  then have "byte c div 16 < 16" "byte c div 64 < 4" by (simp_all add: less_mult_imp_div_less)
  then show "byte c div 16 div 16 = 0" "byte c div 64 div 4 = 0"
    "byte c div 16 mod 16 = byte c div 16" "byte c div 64 mod 4 = byte c div 64"
    by simp_all
qed

lemma sextets:
  fixes a b c :: char
  shows "byte a div 4 < 64" "byte a mod 4 * 16 + byte b div 16 < 64" "byte a mod 4 * 16 < 64"
    "byte b mod 16 * 4 + byte c div 64 < 64" "byte b mod 16 * 4 < 64" "byte c mod 64 < 64"
proof -
  have less: "byte a < 256" "byte b < 256" "byte c < 256" by simp_all
  show "byte a div 4 < 64" "byte a mod 4 * 16 + byte b div 16 < 64" "byte a mod 4 * 16 < 64"
    "byte b mod 16 * 4 + byte c div 64 < 64" "byte b mod 16 * 4 < 64" "byte c mod 64 < 64"
    using less by linarith+
qed

lemma decodeQuads_Encode:
  assumes "alphabet al"
  shows "decodeQuads al (base64_Encode al s) = Some s"
  using assms
  by (induction al s rule: base64_Encode.induct) (simp_all add: decodeChar_nth alphabet_nth_neq sextets byte_parts)

lemma Encode_chars: "alphabet al \<Longrightarrow> set (base64_Encode al s) \<subseteq> insert (CHR ''='') (set al)"
  by (induction al s rule: base64_Encode.induct)
     (auto simp: alphabet_def sextets intro!: nth_mem)

lemma length_Encode: "length (base64_Encode al s) mod 4 = 0"
  by (induction al s rule: base64_Encode.induct) auto

lemma base64_roundtrip:
  assumes "alphabet al"
  shows "base64_Decode al (base64_Encode al s) = Some s"
proof -
  have "filter (\<lambda>c. c \<noteq> CHR 0x0A \<and> c \<noteq> CHR 0x0D) (base64_Encode al s) = base64_Encode al s"
    using Encode_chars [OF assms, of s] assms by (intro filter_True) (auto simp: alphabet_def)
  then show ?thesis using decodeQuads_Encode [OF assms] by (simp add: base64_Decode_def)
qed

lemma b64DecodeText_Encode: "utf8_Valid s \<Longrightarrow> b64DecodeText (base64_Encode stdAlphabet s) = s"
  using base64_roundtrip [OF stdAlphabet_ok] length_Encode [of stdAlphabet s]
  by (simp add: b64DecodeText_def)

section \<open>The transport string\<close>

lemma ReplaceAll_absent: "c \<notin> set s \<Longrightarrow> strings_ReplaceAll s (c # old) new = s"
  by (induction s "c # old" new rule: strings_ReplaceAll.induct) (auto simp: HasPrefix_iff)

lemma Itoa_no_char: "\<not> isDigit c \<Longrightarrow> c \<noteq> CHR ''-'' \<Longrightarrow> c \<notin> set (strconv_Itoa i)"
  using Itoa_chars [of i] by (auto simp: list_all_iff)

lemma std_no_percent: "CHR ''%'' \<notin> set (base64_Encode stdAlphabet s)"
  using Encode_chars [OF stdAlphabet_ok, of s] by (auto simp: stdAlphabet_def alphaNum_def)

lemma std_no_empty: "s \<noteq> [] \<Longrightarrow> base64_Encode stdAlphabet s \<noteq> []"
  by (cases "(stdAlphabet, s)" rule: base64_Encode.cases) auto

lemma set_Join: "set (strings_Join ps sep) \<subseteq> set sep \<union> \<Union> (set (map set ps))"
  by (induction ps sep rule: strings_Join.induct) auto

text \<open>What the transport can carry: a sort field without a slash or a percent sign, 64-bit numbers,
  a trimmed UTF-8 expression, and neither a date window nor a Call-ID.\<close>

definition transportable :: "search_filter \<Rightarrow> bool" where
  "transportable f \<longleftrightarrow>
     CHR ''/'' \<notin> set (SortField f) \<and> CHR ''%'' \<notin> set (SortField f)
     \<and> minInt64 \<le> PageOffset f \<and> PageOffset f \<le> maxInt64
     \<and> minInt64 \<le> MaxCount f \<and> MaxCount f \<le> maxInt64
     \<and> utf8_Valid (Expression f) \<and> strings_TrimSpace (Expression f) = Expression f
     \<and> DateInterval f = None \<and> SIPCallID f = []"

definition transportParts :: "search_filter \<Rightarrow> string list" where
  "transportParts f =
     [SortField f, if \<not> Descending f then ''asc'' else ''desc'', strconv_Itoa (PageOffset f),
      strconv_Itoa (MaxCount f)]
     @ (if Expression f \<noteq> [] then [base64_Encode stdAlphabet (Expression f)] else [])"

lemma String_parts: "SearchFilter_String f = strings_Join (transportParts f) ''/''"
  by (simp add: SearchFilter_String_def transportParts_def Let_def)

lemma split_parts:
  assumes "transportable f"
  shows "strings_SplitNChar (CHR ''/'') 5 (SearchFilter_String f) = transportParts f"
proof -
  have "CHR ''/'' \<notin> set (strconv_Itoa i)" for i
    by (rule Itoa_no_char) (simp_all add: isDigit_def)
  moreover have "5 = Suc 4" by simp
  ultimately show ?thesis
    using assms unfolding String_parts by (simp only:) (rule SplitN_Join,
      auto simp: transportParts_def transportable_def)
qed

lemma String_no_percent:
  assumes "transportable f"
  shows "CHR ''%'' \<notin> set (SearchFilter_String f)"
proof -
  have "CHR ''%'' \<notin> set (strconv_Itoa i)" for i
    by (rule Itoa_no_char) (simp_all add: isDigit_def)
  then have "\<forall>p \<in> set (transportParts f). CHR ''%'' \<notin> set p"
    using assms std_no_percent by (auto simp: transportParts_def transportable_def)
  then show ?thesis using set_Join [of "transportParts f" "''/''"] unfolding String_parts by auto
qed

section \<open>Properties\<close>

text \<open>C13: The transport is faithful: serialising a search filter and parsing the string gives the
  filter back, for every filter the transport can carry (sort field without slash or percent sign,
  64-bit paging numbers, trimmed UTF-8 expression, no date window or Call-ID). The base64 payload
  may contain slashes.\<close>

theorem SearchFilter_roundtrip:
  assumes "transportable f"
  shows "ParseSearchFilter (SearchFilter_String f) = f"
proof -
  have d: "strings_ReplaceAll (SearchFilter_String f) ''%2F'' ''/'' = SearchFilter_String f"
    by (rule ReplaceAll_absent [OF String_no_percent [OF assms]])
  have n: "safeInt (strconv_Itoa (PageOffset f)) x = PageOffset f"
    "safeInt (strconv_Itoa (MaxCount f)) x = MaxCount f" for x
    using assms by (auto simp: safeInt_def ParseInt_Itoa transportable_def)
  have e: "Expression f \<noteq> [] \<Longrightarrow> base64_Encode stdAlphabet (Expression f) \<noteq> []"
    "strings_TrimSpace (b64DecodeText (base64_Encode stdAlphabet (Expression f))) = Expression f"
    using assms by (auto simp: std_no_empty b64DecodeText_Encode transportable_def)
  show ?thesis
    by (rule search_filter.equality)
      (use e n assms in \<open>auto simp: ParseSearchFilter_def SearchFilter_Parse_def d split_parts
        transportParts_def NewSearchFilter_def transportable_def Let_def\<close>)
qed

theorem SearchFilter_roundtrip_witness:
  "transportable (NewSearchFilter\<lparr>Descending := False, Expression := ''a>b?''\<rparr>)
   \<and> ParseSearchFilter (SearchFilter_String (NewSearchFilter\<lparr>Descending := False, Expression := ''a>b?''\<rparr>))
     = NewSearchFilter\<lparr>Descending := False, Expression := ''a>b?''\<rparr>"
proof -
  have t: "transportable (NewSearchFilter\<lparr>Descending := False, Expression := ''a>b?''\<rparr>)"
    by code_simp
  show ?thesis using SearchFilter_roundtrip [OF t] t by blast
qed

end
