(* ===== verification/Api_Queries.thy ===== *)
theory Api_Queries
  imports Api_Values Filter_Sql Filter_Transport
begin

text \<open>
  The read queries of the REST API (\<^verbatim>\<open>api/queries.go\<close>). A query is a statement: its SQL text and the
  bound arguments; how the database answers it is the parameter \<open>run\<close> (rows) or \<open>scalar\<close> (a count).
  The lemmas show that every statement the package issues has one placeholder for each argument, and
  which data never reach the text. (Decoding the recordings is in \<open>Api_Stored\<close>.)
\<close>

datatype arg = AInt int | AStr string | AFloat f64

record statement =
  sql :: string
  args :: "arg list"

datatype 'e query_error = BadExpression expr_error | QueryFailed 'e

definition runRows :: "(statement \<Rightarrow> 'e + valmap list) \<Rightarrow> expr_error + statement \<Rightarrow> 'e query_error + valmap list" where
  "runRows run st =
     (case st of
        Inl e \<Rightarrow> Inl (BadExpression e)
      | Inr s \<Rightarrow> (case run s of Inl e \<Rightarrow> Inl (QueryFailed e) | Inr rows \<Rightarrow> Inr rows))"

definition runCount :: "(statement \<Rightarrow> 'e + int) \<Rightarrow> expr_error + statement \<Rightarrow> 'e query_error + int" where
  "runCount scalar st =
     (case st of
        Inl e \<Rightarrow> Inl (BadExpression e)
      | Inr s \<Rightarrow> (case scalar s of Inl e \<Rightarrow> Inl (QueryFailed e) | Inr n \<Rightarrow> Inr n))"

section \<open>SIP events and calls\<close>

definition sipEventColumns :: string where
  "sipEventColumns = ''id, event_type, call_id, event_timestamp, invite_timestamp, caller, callee, caller_ua, callee_ua, caller_codecs, callee_codecs, setup_code, bye_direction, duration, response_codes, reason, response_code, reason_phrase, direction, is_request''"

definition bound :: "string \<Rightarrow> 'a option \<Rightarrow> ('a \<Rightarrow> arg) \<Rightarrow> (string \<times> arg) list" where
  "bound cond v f = (case v of None \<Rightarrow> [] | Some x \<Rightarrow> [(cond, f x)])"

definition sipEventWhere :: "int option \<Rightarrow> int option \<Rightarrow> int option \<Rightarrow> string \<Rightarrow> string \<times> arg list" where
  "sipEventWhere eventType startMs endMs callID =
     (let cs = bound ''event_type = ?'' eventType AInt @ bound ''event_timestamp >= ?'' startMs AInt
             @ bound ''event_timestamp <= ?'' endMs AInt
             @ bound ''call_id = ?'' (if callID \<noteq> [] then Some callID else None) AStr
      in (if cs = [] then [] else '' where '' @ strings_Join (map fst cs) '' and '' @ '' '', map snd cs))"

definition sipCallAggregate :: "string \<Rightarrow> string" where
  "sipCallAggregate whr =
     ''select call_id,'' @
     '' max(case when event_type in (1,4) then caller end) as caller,'' @
     '' max(case when event_type in (1,4) then callee end) as callee,'' @
     '' max(case when event_type=1 then event_timestamp end) as start_timestamp,'' @
     '' max(case when event_type in (2,4) then event_timestamp end) as end_timestamp,'' @
     '' max(case when event_type=1 then setup_code end) as setup_code,'' @
     '' max(case when event_type=4 then response_code end) as response_code,'' @
     '' max(case when event_type=4 then reason end) as reason,'' @
     '' max(duration) as duration,'' @
     '' sum(case when event_type=3 then 1 else 0 end) as reinvite_count,'' @
     '' max(case when event_type=1 then 1 else 0 end) as established,'' @
     '' max(case when event_type=4 then 1 else 0 end) as failed,'' @
     '' max(event_timestamp) as last_ts'' @
     '' from rtpmon_sip_events'' @ whr @ '' group by call_id''"

definition sipCallFilter :: "string \<Rightarrow> expr_error + string \<times> arg list" where
  "sipCallFilter expr =
     (if strings_TrimSpace expr = [] then Inr ([], [])
      else case BuildSipCallWhere expr ''qmark'' of
             Inl e \<Rightarrow> Inl e
           | Inr frag \<Rightarrow> Inr ('' where '' @ frag_text frag, map AStr (frag_params frag)))"

definition sipCallListStmt ::
    "int option \<Rightarrow> int option \<Rightarrow> int \<Rightarrow> int \<Rightarrow> string \<Rightarrow> string \<Rightarrow> expr_error + statement" where
  "sipCallListStmt startMs endMs limit offset callID expr =
     (let (whr, as) = sipEventWhere None startMs endMs callID
      in case sipCallFilter expr of
           Inl e \<Rightarrow> Inl e
         | Inr (cond, condArgs) \<Rightarrow>
             Inr \<lparr>sql = ''select * from ('' @ sipCallAggregate whr @ '') c'' @ cond @ '' order by c.last_ts desc limit ? offset ?'',
                  args = as @ condArgs @ [AInt limit, AInt offset]\<rparr>)"

definition int64Columns :: "string list \<Rightarrow> valmap \<Rightarrow> valmap" where
  "int64Columns cols r = fold (\<lambda>k m. m(k \<mapsto> VInt (word_of_int (getI64 m k)))) cols r"

definition trimmedColumns :: "string list \<Rightarrow> valmap \<Rightarrow> valmap" where
  "trimmedColumns cols r = fold (\<lambda>k m. m(k \<mapsto> VStr (strings_TrimSpace (getStr m k)))) cols r"

definition GetSipCallList ::
    "(statement \<Rightarrow> 'e + valmap list) \<Rightarrow> int option \<Rightarrow> int option \<Rightarrow> int \<Rightarrow> int \<Rightarrow> string \<Rightarrow> string
     \<Rightarrow> 'e query_error + valmap list" where
  "GetSipCallList run startMs endMs limit offset callID expr =
     map_sum id (map (\<lambda>r. trimmedColumns [''caller'', ''callee'']
        (int64Columns [''start_timestamp'', ''end_timestamp'', ''duration'', ''setup_code'', ''response_code'', ''reason'', ''reinvite_count''] r)))
       (runRows run (sipCallListStmt startMs endMs limit offset callID expr))"

definition sipCallCountStmt :: "int option \<Rightarrow> int option \<Rightarrow> string \<Rightarrow> string \<Rightarrow> expr_error + statement" where
  "sipCallCountStmt startMs endMs callID expr =
     (let (whr, as) = sipEventWhere None startMs endMs callID
      in case sipCallFilter expr of
           Inl e \<Rightarrow> Inl e
         | Inr (cond, condArgs) \<Rightarrow>
             if cond = []
             then Inr \<lparr>sql = ''select count(distinct call_id) from rtpmon_sip_events'' @ whr, args = as\<rparr>
             else Inr \<lparr>sql = ''select count(*) from ('' @ sipCallAggregate whr @ '') c'' @ cond, args = as @ condArgs\<rparr>)"

definition GetSipCallCount ::
    "(statement \<Rightarrow> 'e + int) \<Rightarrow> int option \<Rightarrow> int option \<Rightarrow> string \<Rightarrow> string \<Rightarrow> 'e query_error + int" where
  "GetSipCallCount scalar startMs endMs callID expr = runCount scalar (sipCallCountStmt startMs endMs callID expr)"

text \<open>\<^verbatim>\<open>(?,?,...)\<close> with one placeholder per call.\<close>

definition inList :: "string list \<Rightarrow> string" where
  "inList callIDs = ''(?'' @ concat (replicate (length callIDs - 1) '',?'') @ '')''"

definition streamMosStmt :: "string list \<Rightarrow> statement" where
  "streamMosStmt callIDs =
     \<lparr>sql = ''select s.sip_callid as call_id, s.stream_id as stream_id, max(t.sevana_mos) as sevana_mos, max(t.network_mos) as network_mos'' @
            '' from rtpmon_streams s join rtpmon_statistics t on t.stream_id = s.stream_id'' @
            '' where s.sip_callid in '' @ inList callIDs @ '' group by s.stream_id order by s.stream_id'',
      args = map AStr callIDs\<rparr>"

record call_stream_mos =
  csmStreamID :: int
  csmSevanaMos :: f64
  csmNetworkMos :: f64

definition addStreamMos :: "valmap \<Rightarrow> (string \<Rightarrow> call_stream_mos list) \<Rightarrow> (string \<Rightarrow> call_stream_mos list)" where
  "addStreamMos r out = (let i = getStr r ''call_id'' in
     out(i := out i @ [\<lparr>csmStreamID = getI64 r ''stream_id'', csmSevanaMos = getF64 r ''sevana_mos'', csmNetworkMos = getF64 r ''network_mos''\<rparr>]))"

definition GetSipCallStreamMos ::
    "(statement \<Rightarrow> 'e + valmap list) \<Rightarrow> string list \<Rightarrow> 'e + (string \<Rightarrow> call_stream_mos list)" where
  "GetSipCallStreamMos run callIDs =
     (if callIDs = [] then Inr (\<lambda>_. [])
      else map_sum id (\<lambda>rows. fold addStreamMos rows (\<lambda>_. [])) (run (streamMosStmt callIDs)))"

definition callHealthStmt :: "string list \<Rightarrow> statement" where
  "callHealthStmt callIDs =
     \<lparr>sql = ''select call_id, event_timestamp, stream_count, warnings from rtpmon_call_health where call_id in '' @
            inList callIDs @ '' order by id'', args = map AStr callIDs\<rparr>"

definition normalizeSipRow :: "valmap \<Rightarrow> valmap" where
  "normalizeSipRow r =
     (let r = int64Columns [''invite_timestamp'', ''setup_code'', ''bye_direction'', ''duration'', ''reason'', ''response_code'', ''direction''] r;
          r = trimmedColumns [''call_id'', ''caller'', ''callee'', ''caller_ua'', ''callee_ua'', ''caller_codecs'', ''callee_codecs'', ''response_codes'', ''reason_phrase''] r
      in r(''is_request'' \<mapsto> VBool (getBool r ''is_request'')))"

definition sipCallEventsStmt :: "string \<Rightarrow> statement" where
  "sipCallEventsStmt callID =
     \<lparr>sql = ''select '' @ sipEventColumns @ '' from rtpmon_sip_events where call_id = ? order by event_timestamp, id'', args = [AStr callID]\<rparr>"

definition GetSipCallEvents :: "(statement \<Rightarrow> 'e + valmap list) \<Rightarrow> string \<Rightarrow> 'e + valmap list" where
  "GetSipCallEvents run callID = map_sum id (map normalizeSipRow) (run (sipCallEventsStmt callID))"

definition sipEventsStmt :: "int option \<Rightarrow> int option \<Rightarrow> int option \<Rightarrow> int \<Rightarrow> int \<Rightarrow> statement" where
  "sipEventsStmt eventType startMs endMs limit offset =
     (let (whr, as) = sipEventWhere eventType startMs endMs []
      in \<lparr>sql = ''select '' @ sipEventColumns @ '' from rtpmon_sip_events'' @ whr @ '' order by event_timestamp desc, id desc limit ? offset ?'',
          args = as @ [AInt limit, AInt offset]\<rparr>)"

definition GetSipEvents ::
    "(statement \<Rightarrow> 'e + valmap list) \<Rightarrow> int option \<Rightarrow> int option \<Rightarrow> int option \<Rightarrow> int \<Rightarrow> int \<Rightarrow> 'e + valmap list" where
  "GetSipEvents run eventType startMs endMs limit offset =
     map_sum id (map normalizeSipRow) (run (sipEventsStmt eventType startMs endMs limit offset))"

definition sipEventCountStmt :: "int option \<Rightarrow> int option \<Rightarrow> int option \<Rightarrow> statement" where
  "sipEventCountStmt eventType startMs endMs =
     (let (whr, as) = sipEventWhere eventType startMs endMs []
      in \<lparr>sql = ''select count(id) from rtpmon_sip_events'' @ whr, args = as\<rparr>)"

section \<open>Streams\<close>

definition reportCols :: "string \<Rightarrow> string" where
  "reportCols table =
     table @ ''.start_timestamp, '' @ table @ ''.end_timestamp, '' @
     table @ ''.rtp_packet_counter, '' @ table @ ''.illegal_packet_counter, '' @ table @ ''.lost_packet_counter, '' @
     table @ ''.sevana_mos, '' @ table @ ''.sevana_rfactor, '' @ table @ ''.network_mos, '' @ table @ ''.jitter, '' @
     table @ ''.codec, '' @ table @ ''.detector_report, '' @ table @ ''.rtt_delay, '' @ table @ ''.duration_audio, '' @
     table @ ''.dtx_sid, '' @ table @ ''.dtx_count, '' @ table @ ''.dtx_total, '' @
     ''rtpmon_streams.sip_source, rtpmon_streams.sip_destination, rtpmon_streams.sip_callid, '' @
     ''rtpmon_streams.src_ip, rtpmon_streams.src_port, rtpmon_streams.dst_ip, '' @
     ''rtpmon_streams.dst_port, rtpmon_streams.ssrc, rtpmon_streams.link_id''"

definition streamJoin :: "string \<Rightarrow> string" where
  "streamJoin table = '' from '' @ table @ '' inner join rtpmon_streams on rtpmon_streams.stream_id = '' @ table @ ''.stream_id''"

definition firstRow :: "'e + valmap list \<Rightarrow> 'e + valmap option" where
  "firstRow res = map_sum id (\<lambda>rows. case rows of [] \<Rightarrow> None | r # _ \<Rightarrow> Some r) res"

definition streamFinalStmt :: "string \<Rightarrow> statement" where
  "streamFinalStmt linkID =
     \<lparr>sql = ''select '' @ reportCols ''rtpmon_statistics'' @ streamJoin ''rtpmon_statistics'' @
            '' where rtpmon_statistics.link_id = ? order by rtpmon_statistics.end_timestamp desc limit 1'',
      args = [AStr linkID]\<rparr>"

definition GetStreamFinal :: "(statement \<Rightarrow> 'e + valmap list) \<Rightarrow> string \<Rightarrow> 'e + valmap option" where
  "GetStreamFinal run linkID = firstRow (run (streamFinalStmt linkID))"

definition streamHistoryStmt :: "string \<Rightarrow> statement" where
  "streamHistoryStmt linkID =
     \<lparr>sql = ''select '' @ reportCols ''rtpmon_intervals'' @ streamJoin ''rtpmon_intervals'' @
            '' where rtpmon_intervals.link_id = ? order by rtpmon_intervals.start_timestamp'',
      args = [AStr linkID]\<rparr>"

definition GetStreamHistory :: "(statement \<Rightarrow> 'e + valmap list) \<Rightarrow> string \<Rightarrow> 'e + valmap list" where
  "GetStreamHistory run linkID = run (streamHistoryStmt linkID)"

definition reportStmt :: "string \<Rightarrow> int \<Rightarrow> statement" where
  "reportStmt linkID finishTimestamp =
     \<lparr>sql = ''select '' @ reportCols ''rtpmon_intervals'' @ streamJoin ''rtpmon_intervals'' @
            '' where rtpmon_intervals.link_id = ? and rtpmon_intervals.end_timestamp = ? order by rtpmon_intervals.start_timestamp limit 1'',
      args = [AStr linkID, AInt finishTimestamp]\<rparr>"

definition GetReport :: "(statement \<Rightarrow> 'e + valmap list) \<Rightarrow> string \<Rightarrow> int \<Rightarrow> 'e + valmap option" where
  "GetReport run linkID finishTimestamp = firstRow (run (reportStmt linkID finishTimestamp))"

definition audioChunksStmt :: "string \<Rightarrow> statement" where
  "audioChunksStmt linkID =
     \<lparr>sql = ''select rtpmon_audio.audio_wav from rtpmon_audio'' @
            '' inner join rtpmon_streams on rtpmon_streams.stream_id = rtpmon_audio.stream_id'' @
            '' where rtpmon_streams.link_id = ?'' @
            '' order by rtpmon_audio.start_timestamp, rtpmon_audio.id'',
      args = [AStr linkID]\<rparr>"

definition finishedBase :: string where
  "finishedBase = '' from rtpmon_statistics'' @
     '' inner join rtpmon_streams on rtpmon_streams.stream_id = rtpmon_statistics.stream_id'' @
     '' inner join rtpmon_instances on rtpmon_streams.agent_id = rtpmon_instances.id''"

text \<open>The conditions of a search with their arguments.\<close>

definition finishedConds :: "search_filter \<Rightarrow> expr_error + (string \<times> arg list) list" where
  "finishedConds flt =
     (let dates = (case DateInterval flt of
            None \<Rightarrow> []
          | Some d \<Rightarrow> [(''rtpmon_statistics.start_timestamp >= ?'', [AInt (wrap64 (StartSeconds d * 1000))]),
                       (''rtpmon_statistics.end_timestamp < ?'', [AInt (wrap64 (EndSeconds d * 1000))])]);
          call = (if SIPCallID flt \<noteq> [] then [(''rtpmon_streams.sip_callid = ?'', [AStr (SIPCallID flt)])] else [])
      in if Expression flt = [] then Inr (dates @ call)
         else case BuildWhere (Expression flt) ''qmark'' of
                Inl e \<Rightarrow> Inl e
              | Inr frag \<Rightarrow> Inr (dates @ call @ [(frag_text frag, map AStr (frag_params frag))]))"

definition finishedWhere :: "search_filter \<Rightarrow> expr_error + string \<times> arg list" where
  "finishedWhere flt =
     (case finishedConds flt of
        Inl e \<Rightarrow> Inl e
      | Inr cs \<Rightarrow> Inr (if cs = [] then [] else '' where '' @ strings_Join (map fst cs) '' and '', concat (map snd cs)))"

definition finishedStreamsStmt :: "search_filter \<Rightarrow> expr_error + statement" where
  "finishedStreamsStmt flt =
     (let cols = reportCols ''rtpmon_statistics'' @ '', rtpmon_instances.agent_id as instance_id, rtpmon_instances.agent_name as instance_name''
      in case finishedWhere flt of
           Inl e \<Rightarrow> Inl e
         | Inr (whr, as) \<Rightarrow>
             Inr \<lparr>sql = ''select '' @ cols @ finishedBase @ whr @ '' order by '' @ BuildOrderBy (SortField flt) (Descending flt) @ '' limit ? offset ?'',
                  args = as @ [AInt (MaxCount flt), AInt (if PageOffset flt < 0 then 0 else PageOffset flt)]\<rparr>)"

definition GetFinishedStreams :: "(statement \<Rightarrow> 'e + valmap list) \<Rightarrow> search_filter \<Rightarrow> 'e query_error + valmap list" where
  "GetFinishedStreams run flt = runRows run (finishedStreamsStmt flt)"

definition finishedCountStmt :: "search_filter \<Rightarrow> expr_error + statement" where
  "finishedCountStmt flt =
     (case finishedWhere flt of
        Inl e \<Rightarrow> Inl e
      | Inr (whr, as) \<Rightarrow> Inr \<lparr>sql = ''select count(*)'' @ finishedBase @ whr, args = as\<rparr>)"

definition GetFinishedStreamCount :: "(statement \<Rightarrow> 'e + int) \<Rightarrow> search_filter \<Rightarrow> 'e query_error + int" where
  "GetFinishedStreamCount scalar flt = runCount scalar (finishedCountStmt flt)"

section \<open>The summary\<close>

definition widgetStatsQuery :: string where
  "widgetStatsQuery = ''select count(stream_id) as stream_count,'' @
     '' avg(sevana_rfactor) as rfactor,'' @
     '' avg(case when sevana_mos > 0.0001 then sevana_mos else null end) as sevana_mos,'' @
     '' avg(network_mos) as network_mos,'' @
     '' avg(duration_audio) as duration,'' @
     '' sum(case when sevana_mos >= ? then 1 else 0 end) as good_sevana_count,'' @
     '' sum(case when network_mos >= ? then 1 else 0 end) as good_network_count,'' @
     '' sum(case when sevana_mos > 0.0001 then 1 else 0 end) as with_sevana_mos'' @
     '' from rtpmon_statistics where end_timestamp > ?''"

text \<open>The clock reading of a call without \<^verbatim>\<open>nowMs\<close> is the argument \<open>clock\<close>.\<close>

definition widgetStatsStmt :: "int \<Rightarrow> f64 \<Rightarrow> int \<Rightarrow> int \<Rightarrow> statement" where
  "widgetStatsStmt seconds goodMosThreshold nowMs clock =
     (let now = (if nowMs = 0 then clock else nowMs)
      in \<lparr>sql = widgetStatsQuery, args = [AFloat goodMosThreshold, AFloat goodMosThreshold, AInt (wrap64 (now - seconds * 1000))]\<rparr>)"

definition widgetRow :: "valmap \<Rightarrow> valmap" where
  "widgetRow r = map_of
     [(''stream_count'', VInt (word_of_int (getI64 r ''stream_count''))), (''rfactor'', VFloat (getF64 r ''rfactor'')),
      (''sevana_mos'', VFloat (getF64 r ''sevana_mos'')), (''network_mos'', VFloat (getF64 r ''network_mos'')),
      (''duration'', VFloat (f64_div (getF64 r ''duration'') (f64_of_int 1000))),
      (''good_sevana_count'', VInt (word_of_int (getI64 r ''good_sevana_count''))),
      (''good_network_count'', VInt (word_of_int (getI64 r ''good_network_count''))),
      (''with_sevana_mos'', VInt (word_of_int (getI64 r ''with_sevana_mos'')))]"

text \<open>\<^verbatim>\<open>None\<close> is the panic of \<^verbatim>\<open>rows[0]\<close> when the aggregate answers no row.\<close>

definition FindWidgetStats :: "(statement \<Rightarrow> 'e + valmap list) \<Rightarrow> int \<Rightarrow> f64 \<Rightarrow> int \<Rightarrow> int \<Rightarrow> ('e + valmap) option" where
  "FindWidgetStats run seconds goodMosThreshold nowMs clock =
     (case run (widgetStatsStmt seconds goodMosThreshold nowMs clock) of
        Inl e \<Rightarrow> Some (Inl e)
      | Inr [] \<Rightarrow> None
      | Inr (r # _) \<Rightarrow> Some (Inr (widgetRow r)))"

definition agentListStmt :: statement where
  "agentListStmt = \<lparr>sql = ''select agent_id, agent_name from rtpmon_instances'', args = []\<rparr>"

definition GetAgentList :: "(statement \<Rightarrow> 'e + valmap list) \<Rightarrow> 'e + (string \<times> string) list" where
  "GetAgentList run = map_sum id (map (\<lambda>r. (getStr r ''agent_id'', getStr r ''agent_name''))) (run agentListStmt)"

section \<open>One placeholder for each argument\<close>

definition qmarks :: "string \<Rightarrow> nat" where
  "qmarks s = count_list s (CHR ''?'')"

definition bindsAll :: "statement \<Rightarrow> bool" where
  "bindsAll st \<longleftrightarrow> qmarks (sql st) = length (args st)"

lemma qmarks_append [simp]: "qmarks (s @ t) = qmarks s + qmarks t"
  by (simp add: qmarks_def)

lemma qmarks_Cons [simp]: "qmarks (c # s) = (if c = CHR ''?'' then Suc (qmarks s) else qmarks s)" "qmarks [] = 0"
  by (simp_all add: qmarks_def)

lemma qmarks_Join: "qmarks sep = 0 \<Longrightarrow> qmarks (strings_Join ps sep) = sum_list (map qmarks ps)"
  by (induction ps sep rule: strings_Join.induct) simp_all

lemma sipEventWhere_binds: "qmarks (fst (sipEventWhere t a b c)) = length (snd (sipEventWhere t a b c))"
  by (cases t; cases a; cases b; cases "c = []") (simp_all add: sipEventWhere_def bound_def Let_def)

lemma sipCallAggregate_qmarks [simp]: "qmarks (sipCallAggregate whr) = qmarks whr"
  by (simp add: sipCallAggregate_def del: append.simps)

lemma BuildSipCallWhere_binds: "BuildSipCallWhere e ''qmark'' = Inr fr \<Longrightarrow> qmarks (frag_text fr) = length (frag_params fr)"
  by (cases "Parse e")
     (simp_all add: BuildSipCallWhere_def qmarks_def ToSQL_qmark_count [OF _ SipCallNameMap_no_qmark])

lemma BuildWhere_binds: "BuildWhere e ''qmark'' = Inr fr \<Longrightarrow> qmarks (frag_text fr) = length (frag_params fr)"
  by (cases "Parse e")
     (simp_all add: BuildWhere_def qmarks_def ToSQL_qmark_count [OF _ SQLNameMap_no_qmark])

lemma sipCallFilter_binds: "sipCallFilter e = Inr (cond, as) \<Longrightarrow> qmarks cond = length as"
  by (auto simp: sipCallFilter_def BuildSipCallWhere_binds split: if_splits sum.splits)

lemma finishedConds_binds: "finishedConds flt = Inr cs \<Longrightarrow> list_all (\<lambda>c. qmarks (fst c) = length (snd c)) cs"
  by (auto simp: finishedConds_def Let_def BuildWhere_binds split: if_splits sum.splits option.splits)

lemma finishedWhere_binds:
  assumes "finishedWhere flt = Inr (whr, as)"
  shows "qmarks whr = length as"
proof -
  obtain cs where cs: "finishedConds flt = Inr cs"
      "whr = (if cs = [] then [] else '' where '' @ strings_Join (map fst cs) '' and '')" "as = concat (map snd cs)"
    using assms by (auto simp: finishedWhere_def split: sum.splits)
  have "map (qmarks \<circ> fst) cs = map (length \<circ> snd) cs"
    using finishedConds_binds [OF cs(1)] by (auto simp: list_all_iff)
  then have "sum_list (map (qmarks \<circ> fst) cs) = sum_list (map (length \<circ> snd) cs)" by (rule arg_cong)
  then show ?thesis using cs(2,3) by (simp add: qmarks_Join length_concat)
qed

lemma reportCols_qmarks [simp]: "qmarks (reportCols t) = 16 * qmarks t"
  by (simp add: reportCols_def del: append.simps)

lemma SortColumns_no_qmark: "SortColumns x = Some c \<Longrightarrow> qmarks c = 0"
  by (auto simp: SortColumns_def silenceRatioSQL_def split: if_splits)

lemma BuildOrderBy_qmarks [simp]: "qmarks (BuildOrderBy f d) = 0"
  using SortColumns_no_qmark by (auto simp: BuildOrderBy_def Let_def split: option.splits)

lemma inList_qmarks: "ids \<noteq> [] \<Longrightarrow> qmarks (inList ids) = length ids"
proof -
  have "qmarks (concat (replicate n '',?'')) = n" for n by (induction n) simp_all
  then show "ids \<noteq> [] \<Longrightarrow> qmarks (inList ids) = length ids" by (cases ids) (simp_all add: inList_def)
qed

section \<open>Which data never reach the text\<close>

text \<open>Two expressions that differ in their string literals only.\<close>

definition sameExpr :: "(string \<Rightarrow> string) \<Rightarrow> string \<Rightarrow> string \<Rightarrow> bool" where
  "sameExpr f e e' \<longleftrightarrow> (\<exists>n. Parse e = Inr n \<and> Parse e' = Inr (relabel f n))"

text \<open>Two searches of the same shape: they restrict the same things, sort by the same column in the same direction,
  and their expressions differ in the string literals only.\<close>

definition sameShape :: "(string \<Rightarrow> string) \<Rightarrow> search_filter \<Rightarrow> search_filter \<Rightarrow> bool" where
  "sameShape f flt flt' \<longleftrightarrow>
     (DateInterval flt = None \<longleftrightarrow> DateInterval flt' = None) \<and> (SIPCallID flt = [] \<longleftrightarrow> SIPCallID flt' = [])
     \<and> SortColumns (SortField flt) = SortColumns (SortField flt') \<and> Descending flt = Descending flt'
     \<and> (Expression flt = [] \<longleftrightarrow> Expression flt' = []) \<and> (Expression flt = [] \<or> sameExpr f (Expression flt) (Expression flt'))"

definition sameCallExpr :: "(string \<Rightarrow> string) \<Rightarrow> string \<Rightarrow> string \<Rightarrow> bool" where
  "sameCallExpr f e e' \<longleftrightarrow> (strings_TrimSpace e = [] \<longleftrightarrow> strings_TrimSpace e' = []) \<and> (strings_TrimSpace e = [] \<or> sameExpr f e e')"

lemma BuildWhere_shape:
  "Parse e = Inr n \<Longrightarrow> Parse e' = Inr (relabel f n) \<Longrightarrow>
   map_sum id frag_text (BuildWhere e' ''qmark'') = map_sum id frag_text (BuildWhere e ''qmark'')"
  by (cases "ToSQL SQLNameMap ''qmark'' n") (simp_all add: BuildWhere_def ToSQL_relabel)

lemma finishedConds_shape:
  assumes "sameShape f flt flt'"
  shows "map_sum id (map fst) (finishedConds flt') = map_sum id (map fst) (finishedConds flt)"
proof (cases "Expression flt = []")
  case True
  then show ?thesis
    using assms by (cases "DateInterval flt"; cases "DateInterval flt'") (auto simp: sameShape_def finishedConds_def)
next
  case False
  then obtain n where n: "Parse (Expression flt) = Inr n" "Parse (Expression flt') = Inr (relabel f n)"
    using assms by (auto simp: sameShape_def sameExpr_def)
  show ?thesis
    using BuildWhere_shape [OF n] False assms
    by (cases "DateInterval flt"; cases "DateInterval flt'"; cases "BuildWhere (Expression flt) ''qmark''";
        cases "BuildWhere (Expression flt') ''qmark''")
       (auto simp: sameShape_def finishedConds_def)
qed

lemma finishedWhere_shape:
  "sameShape f flt flt' \<Longrightarrow> map_sum id fst (finishedWhere flt') = map_sum id fst (finishedWhere flt)"
  using finishedConds_shape [of f flt flt']
  by (cases "finishedConds flt"; cases "finishedConds flt'") (auto simp: finishedWhere_def)

lemma finishedStmt_shape:
  assumes "sameShape f flt flt'"
  shows "map_sum id sql (finishedStreamsStmt flt') = map_sum id sql (finishedStreamsStmt flt)"
    and "map_sum id sql (finishedCountStmt flt') = map_sum id sql (finishedCountStmt flt)"
proof -
  have "BuildOrderBy (SortField flt') (Descending flt') = BuildOrderBy (SortField flt) (Descending flt)"
    using assms by (simp add: sameShape_def BuildOrderBy_def)
  then show "map_sum id sql (finishedStreamsStmt flt') = map_sum id sql (finishedStreamsStmt flt)"
    and "map_sum id sql (finishedCountStmt flt') = map_sum id sql (finishedCountStmt flt)"
    using finishedWhere_shape [OF assms]
    by (cases "finishedWhere flt"; cases "finishedWhere flt'"; auto simp: finishedStreamsStmt_def finishedCountStmt_def)+
qed

lemma sipEventWhere_shape:
  assumes "(t = None) = (t' = None)" "(a = None) = (a' = None)" "(b = None) = (b' = None)" "(c = []) = (c' = [])"
  shows "fst (sipEventWhere t' a' b' c') = fst (sipEventWhere t a b c)"
  using assms by (cases t; cases t'; cases a; cases a'; cases b; cases b'; cases "c = []") (simp_all add: sipEventWhere_def bound_def Let_def)

lemma sipCallFilter_shape:
  assumes "sameCallExpr f e e'"
  shows "map_sum id fst (sipCallFilter e') = map_sum id fst (sipCallFilter e)"
proof (cases "strings_TrimSpace e = []")
  case False
  with assms obtain n where n: "Parse e = Inr n" "Parse e' = Inr (relabel f n)" "strings_TrimSpace e' \<noteq> []"
    by (auto simp: sameCallExpr_def sameExpr_def)
  then show ?thesis
    using False by (cases "ToSQL SipCallNameMap ''qmark'' n") (simp_all add: sipCallFilter_def BuildSipCallWhere_def ToSQL_relabel)
qed (use assms in \<open>simp add: sameCallExpr_def sipCallFilter_def\<close>)

lemma sipCallStmt_shape:
  assumes "(a = None) = (a' = None)" "(b = None) = (b' = None)" "(c = []) = (c' = [])" "sameCallExpr f e e'"
  shows "map_sum id sql (sipCallListStmt a' b' limit' offset' c' e') = map_sum id sql (sipCallListStmt a b limit offset c e)"
    and "map_sum id sql (sipCallCountStmt a' b' c' e') = map_sum id sql (sipCallCountStmt a b c e)"
  using sipEventWhere_shape [OF refl assms(1-3), of None] sipCallFilter_shape [OF assms(4)]
  by (cases "sipCallFilter e"; cases "sipCallFilter e'"; auto simp: sipCallListStmt_def sipCallCountStmt_def split_beta)+

lemma inList_shape: "length ids = length ids' \<Longrightarrow> inList ids = inList ids'"
  by (simp add: inList_def)

lemma sipEventsStmt_shape:
  assumes "(t = None) = (t' = None)" "(a = None) = (a' = None)" "(b = None) = (b' = None)"
  shows "sql (sipEventsStmt t' a' b' limit' offset') = sql (sipEventsStmt t a b limit offset)"
    and "sql (sipEventCountStmt t' a' b') = sql (sipEventCountStmt t a b)"
  using sipEventWhere_shape [OF assms refl, of "[]"] by (simp_all add: sipEventsStmt_def sipEventCountStmt_def split_beta)

section \<open>All the reads\<close>

text \<open>The reads of \<^verbatim>\<open>queries.go\<close> with what the caller asks for, and the statement each issues. The two that take a
  list of calls return before asking the database when it is empty.\<close>

datatype read_query =
    QAgents
  | QCallList "int option" "int option" int int string string
  | QCallCount "int option" "int option" string string
  | QStreamMos "string list"
  | QCallHealth "string list"
  | QCallEvents string
  | QEvents "int option" "int option" "int option" int int
  | QEventCount "int option" "int option" "int option"
  | QAudio string
  | QWidget int f64 int int
  | QFinal string
  | QHistory string
  | QReport string int
  | QFinished search_filter
  | QFinishedCount search_filter

fun statementOf :: "read_query \<Rightarrow> expr_error + statement" where
  "statementOf QAgents = Inr agentListStmt"
| "statementOf (QCallList a b limit offset c e) = sipCallListStmt a b limit offset c e"
| "statementOf (QCallCount a b c e) = sipCallCountStmt a b c e"
| "statementOf (QStreamMos ids) = Inr (streamMosStmt ids)"
| "statementOf (QCallHealth ids) = Inr (callHealthStmt ids)"
| "statementOf (QCallEvents c) = Inr (sipCallEventsStmt c)"
| "statementOf (QEvents t a b limit offset) = Inr (sipEventsStmt t a b limit offset)"
| "statementOf (QEventCount t a b) = Inr (sipEventCountStmt t a b)"
| "statementOf (QAudio link) = Inr (audioChunksStmt link)"
| "statementOf (QWidget seconds mos now clock) = Inr (widgetStatsStmt seconds mos now clock)"
| "statementOf (QFinal link) = Inr (streamFinalStmt link)"
| "statementOf (QHistory link) = Inr (streamHistoryStmt link)"
| "statementOf (QReport link ts) = Inr (reportStmt link ts)"
| "statementOf (QFinished flt) = finishedStreamsStmt flt"
| "statementOf (QFinishedCount flt) = finishedCountStmt flt"

fun asksDatabase :: "read_query \<Rightarrow> bool" where
  "asksDatabase (QStreamMos ids) \<longleftrightarrow> ids \<noteq> []"
| "asksDatabase (QCallHealth ids) \<longleftrightarrow> ids \<noteq> []"
| "asksDatabase _ \<longleftrightarrow> True"

text \<open>Two requests that differ in data only: Call-IDs, link ids, dates, time stamps, limits, offsets, thresholds and
  the string literals of an expression.\<close>

inductive sameButData :: "(string \<Rightarrow> string) \<Rightarrow> read_query \<Rightarrow> read_query \<Rightarrow> bool" for f where
  "sameButData f QAgents QAgents"
| "\<lbrakk>(a = None) = (a' = None); (b = None) = (b' = None); (c = []) = (c' = []); sameCallExpr f e e'\<rbrakk> \<Longrightarrow>
     sameButData f (QCallList a b limit offset c e) (QCallList a' b' limit' offset' c' e')"
| "\<lbrakk>(a = None) = (a' = None); (b = None) = (b' = None); (c = []) = (c' = []); sameCallExpr f e e'\<rbrakk> \<Longrightarrow>
     sameButData f (QCallCount a b c e) (QCallCount a' b' c' e')"
| "length ids = length ids' \<Longrightarrow> sameButData f (QStreamMos ids) (QStreamMos ids')"
| "length ids = length ids' \<Longrightarrow> sameButData f (QCallHealth ids) (QCallHealth ids')"
| "sameButData f (QCallEvents c) (QCallEvents c')"
| "\<lbrakk>(t = None) = (t' = None); (a = None) = (a' = None); (b = None) = (b' = None)\<rbrakk> \<Longrightarrow>
     sameButData f (QEvents t a b limit offset) (QEvents t' a' b' limit' offset')"
| "\<lbrakk>(t = None) = (t' = None); (a = None) = (a' = None); (b = None) = (b' = None)\<rbrakk> \<Longrightarrow>
     sameButData f (QEventCount t a b) (QEventCount t' a' b')"
| "sameButData f (QAudio link) (QAudio link')"
| "sameButData f (QWidget seconds mos now clock) (QWidget seconds' mos' now' clock')"
| "sameButData f (QFinal link) (QFinal link')"
| "sameButData f (QHistory link) (QHistory link')"
| "sameButData f (QReport link ts) (QReport link' ts')"
| "sameShape f flt flt' \<Longrightarrow> sameButData f (QFinished flt) (QFinished flt')"
| "sameShape f flt flt' \<Longrightarrow> sameButData f (QFinishedCount flt) (QFinishedCount flt')"

lemma fixed_binds:
  "bindsAll agentListStmt" "bindsAll (sipCallEventsStmt c)" "bindsAll (audioChunksStmt link)" "bindsAll (streamFinalStmt link)"
  "bindsAll (streamHistoryStmt link)" "bindsAll (reportStmt link ts)" "bindsAll (widgetStatsStmt seconds mos now clock)"
  by (simp_all add: bindsAll_def sipCallEventsStmt_def sipEventColumns_def streamFinalStmt_def streamJoin_def streamHistoryStmt_def
      reportStmt_def audioChunksStmt_def agentListStmt_def widgetStatsStmt_def widgetStatsQuery_def del: append.simps)

lemma statementOf_binds:
  assumes "asksDatabase q" "statementOf q = Inr st"
  shows "bindsAll st"
proof (cases q)
  case (QCallList a b limit offset c e)
  then show ?thesis
    using assms sipEventWhere_binds [of None a b c] sipCallFilter_binds [of e]
    by (auto simp: sipCallListStmt_def bindsAll_def simp del: append.simps split: sum.splits prod.splits)
next
  case (QCallCount a b c e)
  then show ?thesis
    using assms sipEventWhere_binds [of None a b c] sipCallFilter_binds [of e]
    by (auto simp: sipCallCountStmt_def bindsAll_def simp del: append.simps split: sum.splits prod.splits if_splits)
next
  case (QEvents t a b limit offset)
  then show ?thesis
    using assms sipEventWhere_binds [of t a b "[]"]
    by (auto simp: sipEventsStmt_def bindsAll_def sipEventColumns_def simp del: append.simps split: prod.splits)
next
  case (QEventCount t a b)
  then show ?thesis
    using assms sipEventWhere_binds [of t a b "[]"]
    by (auto simp: sipEventCountStmt_def bindsAll_def simp del: append.simps split: prod.splits)
next
  case (QFinished flt)
  then show ?thesis
    using assms finishedWhere_binds [of flt]
    by (auto simp: finishedStreamsStmt_def bindsAll_def finishedBase_def Let_def simp del: append.simps split: sum.splits)
next
  case (QFinishedCount flt)
  then show ?thesis
    using assms finishedWhere_binds [of flt]
    by (auto simp: finishedCountStmt_def bindsAll_def finishedBase_def simp del: append.simps split: sum.splits)
next
  case (QStreamMos ids)
  then show ?thesis using assms by (auto simp: bindsAll_def streamMosStmt_def inList_qmarks)
next
  case (QCallHealth ids)
  then show ?thesis using assms by (auto simp: bindsAll_def callHealthStmt_def inList_qmarks)
qed (use assms fixed_binds in \<open>auto simp del: append.simps\<close>)

lemma statementOf_text: "sameButData f q q' \<Longrightarrow> map_sum id sql (statementOf q') = map_sum id sql (statementOf q)"
proof (induction rule: sameButData.induct)
  case (2 a a' b b' c c' e e' limit offset limit' offset')
  then show ?case unfolding statementOf.simps by (intro sipCallStmt_shape)
next
  case (3 a a' b b' c c' e e')
  then show ?case unfolding statementOf.simps by (intro sipCallStmt_shape)
next
  case (7 t t' a a' b b' limit offset limit' offset')
  then have "sql (sipEventsStmt t' a' b' limit' offset') = sql (sipEventsStmt t a b limit offset)" by (intro sipEventsStmt_shape(1))
  then show ?case by (simp only: statementOf.simps map_sum.simps)
next
  case (8 t t' a a' b b')
  then have "sql (sipEventCountStmt t' a' b') = sql (sipEventCountStmt t a b)" by (intro sipEventsStmt_shape(2))
  then show ?case by (simp only: statementOf.simps map_sum.simps)
next
  case (14 flt flt')
  then show ?case unfolding statementOf.simps by (rule finishedStmt_shape)
next
  case (15 flt flt')
  then show ?case unfolding statementOf.simps by (rule finishedStmt_shape)
qed (simp_all add: streamMosStmt_def callHealthStmt_def inList_def sipCallEventsStmt_def audioChunksStmt_def widgetStatsStmt_def
      streamFinalStmt_def streamHistoryStmt_def reportStmt_def Let_def del: append.simps)

text \<open>C22: The reads of \<^verbatim>\<open>queries.go\<close> and the data they carry. Every statement that is issued binds exactly as many
  arguments as its text has placeholders, whatever the request asks for. And two requests that differ in data
  only issue the same text: Call-IDs, link ids, dates, time stamps, limits, offsets, thresholds and the string literals
  of a filter expression travel as arguments, and the name of the sort field only chooses a column.
  (What does become text are the operators, variables and numbers of an expression, as the compiler prints them.)\<close>

theorem read_statements_bind_their_data:
  "(asksDatabase q \<and> statementOf q = Inr st \<longrightarrow> bindsAll st)
   \<and> (sameButData f q q' \<longrightarrow> map_sum id sql (statementOf q') = map_sum id sql (statementOf q))"
  using statementOf_binds statementOf_text by blast

lemma sameShape_demo:
  "sameShape (\<lambda>_. ''x' or 1=1'') (NewSearchFilter\<lparr>Expression := ''sip_src == \"a\"'', SIPCallID := ''1''\<rparr>)
     (NewSearchFilter\<lparr>Expression := ''sip_src == \"x' or 1=1\"'', SIPCallID := ''2''\<rparr>)"
proof -
  have "Parse ''sip_src == \"a\"'' = Inr (BinOp ''=='' (Var ''sip_src'') (String ''a''))"
    "Parse ''sip_src == \"x' or 1=1\"'' = Inr (BinOp ''=='' (Var ''sip_src'') (String ''x' or 1=1''))"
    by (code_simp, code_simp)
  then show ?thesis by (simp add: sameShape_def sameExpr_def NewSearchFilter_def)
qed

theorem read_statements_bind_their_data_witness:
  "map_sum id sql (finishedStreamsStmt (NewSearchFilter\<lparr>Expression := ''sip_src == \"x' or 1=1\"'', SIPCallID := ''2''\<rparr>)) =
   map_sum id sql (finishedStreamsStmt (NewSearchFilter\<lparr>Expression := ''sip_src == \"a\"'', SIPCallID := ''1''\<rparr>))
   \<and> bindsAll (streamMosStmt [''1'', ''2''])"
  using read_statements_bind_their_data [THEN conjunct1, of "QStreamMos [''1'', ''2'']"]
    read_statements_bind_their_data [THEN conjunct2, rule_format, OF sameButData.intros(14) [OF sameShape_demo]] by simp

end
