(* ===== verification/Go_Json.thy ===== *)
theory Go_Json
  imports Filter_Transport
begin

text \<open>
  What the program uses of \<^verbatim>\<open>encoding/json\<close>: \<^verbatim>\<open>json.Marshal\<close> of strings, lists and objects
  with string fields. Strings are escaped as Go does, with the HTML-sensitive characters
  and the line separators as \<^verbatim>\<open>\u\<close> escapes and invalid UTF-8 replaced.
\<close>

text \<open>The number of bytes of the valid UTF-8 sequence a string starts with, 0 if there is none.\<close>

definition runeLen :: "string \<Rightarrow> nat" where
  "runeLen s =
     (if s = [] then 0
      else if byte (s ! 0) < 128 then 1
      else if 2 \<le> length s \<and> 194 \<le> byte (s ! 0) \<and> byte (s ! 0) \<le> 223 \<and> cont (s ! 1) then 2
      else if 3 \<le> length s \<and> 224 \<le> byte (s ! 0) \<and> byte (s ! 0) \<le> 239 \<and> cont (s ! 1) \<and> cont (s ! 2)
              \<and> (byte (s ! 0) = 224 \<longrightarrow> 160 \<le> byte (s ! 1)) \<and> (byte (s ! 0) = 237 \<longrightarrow> byte (s ! 1) \<le> 159) then 3
      else if 4 \<le> length s \<and> 240 \<le> byte (s ! 0) \<and> byte (s ! 0) \<le> 244 \<and> cont (s ! 1) \<and> cont (s ! 2) \<and> cont (s ! 3)
              \<and> (byte (s ! 0) = 240 \<longrightarrow> 144 \<le> byte (s ! 1)) \<and> (byte (s ! 0) = 244 \<longrightarrow> byte (s ! 1) \<le> 143) then 4
      else 0)"

definition hexDigitChar :: "nat \<Rightarrow> char" where
  "hexDigitChar n = ''0123456789abcdef'' ! n"

definition bs :: char where "bs = CHR 0x5C"
definition dq :: char where "dq = CHR 0x22"

definition escByte :: "char \<Rightarrow> string" where
  "escByte c =
     (if c = bs \<or> c = dq then [bs, c]
      else if c = CHR 0x08 then [bs, CHR ''b'']
      else if c = CHR 0x0C then [bs, CHR ''f'']
      else if c = CHR 0x0A then [bs, CHR ''n'']
      else if c = CHR 0x0D then [bs, CHR ''r'']
      else if c = CHR 0x09 then [bs, CHR ''t'']
      else if byte c < 32 \<or> c = CHR ''<'' \<or> c = CHR ''>'' \<or> c = CHR ''&''
           then [bs, CHR ''u'', CHR ''0'', CHR ''0'', hexDigitChar (byte c div 16), hexDigitChar (byte c mod 16)]
      else [c])"

function jsonEsc :: "string \<Rightarrow> string" where
  "jsonEsc s =
     (if s = [] then []
      else let n = runeLen s
           in if n = 0 then [bs] @ ''ufffd'' @ jsonEsc (drop 1 s)
              else if n = 1 then escByte (hd s) @ jsonEsc (drop 1 s)
              else if n = 3 \<and> s ! 0 = CHR 0xE2 \<and> s ! 1 = CHR 0x80 \<and> s ! 2 = CHR 0xA8 then [bs] @ ''u2028'' @ jsonEsc (drop 3 s)
              else if n = 3 \<and> s ! 0 = CHR 0xE2 \<and> s ! 1 = CHR 0x80 \<and> s ! 2 = CHR 0xA9 then [bs] @ ''u2029'' @ jsonEsc (drop 3 s)
              else take n s @ jsonEsc (drop n s))"
  by pat_completeness auto
termination jsonEsc
  by (relation "measure length") (auto simp: Let_def)

declare jsonEsc.simps [simp del]

definition jsonString :: "string \<Rightarrow> string" where
  "jsonString s = [dq] @ jsonEsc s @ [dq]"

definition jsonArray :: "string list \<Rightarrow> string" where
  "jsonArray xs = ''['' @ strings_Join xs '','' @ '']''"

definition jsonObject :: "(string \<times> string) list \<Rightarrow> string" where
  "jsonObject kvs = ''{'' @ strings_Join (map (\<lambda>(k, v). jsonString k @ '':'' @ v) kvs) '','' @ ''}''"

end
