(* ===== verification/Ordered_Dict.thy ===== *)
theory Ordered_Dict
  imports Main "HOL-Library.AList" "HOL-Library.Multiset"
begin

text \<open>
  The insertion-ordered dictionary (Python's \<^verbatim>\<open>dict\<close>), the reference for the Go registry,
  which keeps a hash map with an insertion stamp per entry and sorts by the stamp. A
  dictionary is a list of key-value pairs with distinct keys, oldest first. The second
  section holds what an implementation by stamps needs: how sorting by a key commutes with
  adding a newest element, rewriting and removing.
\<close>

section \<open>Dictionary operations\<close>

definition dict_ok :: "('k \<times> 'v) list \<Rightarrow> bool" where
  "dict_ok d \<longleftrightarrow> distinct (map fst d)"

definition dict_setdefault :: "'k \<Rightarrow> 'v \<Rightarrow> ('k \<times> 'v) list \<Rightarrow> ('k \<times> 'v) list" where
  "dict_setdefault k v d = (if k \<in> fst ` set d then d else d @ [(k, v)])"

definition dict_modify :: "'k \<Rightarrow> ('v \<Rightarrow> 'v) \<Rightarrow> ('k \<times> 'v) list \<Rightarrow> ('k \<times> 'v) list" where
  "dict_modify k f d = map (\<lambda>(k', v). if k' = k then (k', f v) else (k', v)) d"

definition dict_remove :: "'k \<Rightarrow> ('k \<times> 'v) list \<Rightarrow> ('k \<times> 'v) list" where
  "dict_remove k d = filter (\<lambda>(k', v). k' \<noteq> k) d"

lemma fst_dict_modify [simp]: "map fst (dict_modify k f d) = map fst d"
  by (auto simp: dict_modify_def)

lemma dict_ok_ops [simp, intro]:
  "dict_ok d \<Longrightarrow> dict_ok (dict_setdefault k v d)"
  "dict_ok d \<Longrightarrow> dict_ok (dict_modify k f d)"
  "dict_ok d \<Longrightarrow> dict_ok (filter P d)"
  by (auto simp: dict_ok_def dict_setdefault_def distinct_map_filter)

lemma map_of_dict [simp]:
  "map_of (dict_setdefault k v d) x = (if x = k \<and> map_of d k = None then Some v else map_of d x)"
  "map_of (dict_modify k f d) x = (if x = k then map_option f (map_of d x) else map_of d x)"
  "map_of (dict_remove k d) x = (if x = k then None else map_of d x)"
proof -
  show "map_of (dict_setdefault k v d) x = (if x = k \<and> map_of d k = None then Some v else map_of d x)"
    by (auto simp: dict_setdefault_def map_add_def simp flip: map_of_eq_None_iff split: option.splits
        dest: weak_map_of_SomeI)
  show "map_of (dict_modify k f d) x = (if x = k then map_option f (map_of d x) else map_of d x)"
    by (induction d) (auto simp: dict_modify_def)
  show "map_of (dict_remove k d) x = (if x = k then None else map_of d x)"
    by (induction d) (auto simp: dict_remove_def)
qed

section \<open>Sorting by a stamp\<close>

lemma sort_key_snoc:
  assumes "\<forall>x\<in>set xs. f x \<le> f y"
  shows "sort_key f (xs @ [y]) = sort_key f xs @ [y]"
proof (rule properties_for_sort_key)
  show "mset (sort_key f xs @ [y]) = mset (xs @ [y])" by simp
  show "filter (\<lambda>x. f k = f x) (sort_key f xs @ [y]) = filter (\<lambda>x. f k = f x) (xs @ [y])" for k
    using sort_key_stable [of f "f k" xs] by (simp add: eq_commute [of "f k"])
  show "sorted (map f (sort_key f xs @ [y]))" using assms by (auto simp: sorted_append)
qed

lemma mset_distinct_map: "mset xs = mset ys \<Longrightarrow> distinct (map f xs) = distinct (map f ys)"
  by (rule mset_eq_imp_distinct_iff) simp

lemma insort_key_map: "(\<And>x. f (g x) = f x) \<Longrightarrow> map g (insort_key f x xs) = insort_key f (g x) (map g xs)"
  by (induction xs) auto

lemma sort_key_map_same: "(\<And>x. f (g x) = f x) \<Longrightarrow> map g (sort_key f xs) = sort_key f (map g xs)"
  by (induction xs) (auto simp: insort_key_map)

lemma update_present:
  assumes "k \<in> fst ` set al" "distinct (map fst al)"
  shows "AList.update k v al = map (\<lambda>(k', v'). (k', if k' = k then v else v')) al"
  using assms
proof (induction al)
  case (Cons p al)
  have "k \<notin> fst ` set al \<Longrightarrow> map (\<lambda>(k', v'). (k', if k' = k then v else v')) al = al"
    by (rule map_idI) (auto simp: image_iff split: prod.splits)
  with Cons show ?case by (cases p) auto
qed simp

lemma update_absent: "k \<notin> fst ` set al \<Longrightarrow> AList.update k v al = al @ [(k, v)]"
  by (induction al) auto

lemma delete_filter: "AList.delete k al = filter (\<lambda>p. fst p \<noteq> k) al"
  by (induction al) auto

end
