(* ===== verification/Writer.thy ===== *)
theory Writer
  imports Store Go_Json Stable_Sort Ordered_Dict
begin

text \<open>
  Package \<^verbatim>\<open>db\<close>, the single-writer layer (\<^verbatim>\<open>writer.go\<close>): domain events become row inserts and
  updates. The state extends a connection by the writer's maps (association lists with
  distinct keys) and options. \<open>fresh\<close> is SQLite's choice of a row id, \<open>uc\<close> the Unicode
  case tables behind \<^verbatim>\<open>strings.ToLower\<close>, \<open>now\<close> a clock reading.
\<close>

record writer = conn +
  defaultAgentID :: string
  defaultAgentName :: string
  streamMap :: "(media_stream_id \<times> int) list"
  endpointMap :: "(endpoint_key \<times> int) list"
  agentCache :: "(string \<times> int) list"
  recordsLimit :: int
  storeSipFilter :: "string list"

definition NewWriter :: "db \<Rightarrow> outcome list \<Rightarrow> string \<Rightarrow> string \<Rightarrow> writer" where
  "NewWriter d os aid name =
     \<lparr>tables = d, script = os, defaultAgentID = aid, defaultAgentName = name, streamMap = [], endpointMap = [],
      agentCache = [], recordsLimit = 0, storeSipFilter = []\<rparr>"

definition SetRecordsLimit :: "int \<Rightarrow> writer \<Rightarrow> writer" where
  "SetRecordsLimit n w = w\<lparr>recordsLimit := n\<rparr>"

definition SetStoreSipFilter :: "(string \<Rightarrow> string) \<Rightarrow> string list \<Rightarrow> writer \<Rightarrow> writer" where
  "SetStoreSipFilter uc patterns w =
     w\<lparr>storeSipFilter := map (strings_ToLower uc) (filter (\<lambda>p. p \<noteq> []) patterns)\<rparr>"

definition sipFilterActive :: "writer \<Rightarrow> bool" where
  "sipFilterActive w \<longleftrightarrow> 0 < length (storeSipFilter w)"

definition reportHasSip :: "stream_report \<Rightarrow> bool" where
  "reportHasSip r \<longleftrightarrow> SipPeerA r \<noteq> [] \<or> SipPeerB r \<noteq> []"

definition sipMatches :: "(string \<Rightarrow> string) \<Rightarrow> writer \<Rightarrow> stream_report \<Rightarrow> bool" where
  "sipMatches uc w r =
     (let a = strings_ToLower uc (SipPeerA r); b = strings_ToLower uc (SipPeerB r)
      in list_ex (\<lambda>p. strings_Contains a p \<or> strings_Contains b p) (storeSipFilter w))"

section \<open>Opening streams\<close>

definition selectAgent :: "string \<Rightarrow> db \<Rightarrow> int option" where
  "selectAgent aid d = map_of (map (\<lambda>(i, a, _). (a, i)) (rtpmon_instances d)) aid"

definition insertAgent :: "(int list \<Rightarrow> int) \<Rightarrow> string \<Rightarrow> string \<Rightarrow> db \<Rightarrow> db \<times> int" where
  "insertAgent fresh aid name d =
     (let i = fresh (map fst (rtpmon_instances d))
      in (d\<lparr>rtpmon_instances := rtpmon_instances d @ [(i, aid, name)]\<rparr>, i))"

definition FindOrAddAgent :: "(int list \<Rightarrow> int) \<Rightarrow> string \<Rightarrow> string \<Rightarrow> (writer, int) action" where
  "FindOrAddAgent fresh aid name w =
     (case map_of (agentCache w) aid of
        Some i \<Rightarrow> (Inr i, w)
      | None \<Rightarrow>
          andThen (andThen (queryDb (selectAgent aid)) (\<lambda>found.
                     case found of None \<Rightarrow> exec (insertAgent fresh aid name) | Some i \<Rightarrow> ret i))
            (\<lambda>i w'. (Inr i, w'\<lparr>agentCache := AList.update aid i (agentCache w')\<rparr>)) w)"

definition insertStream :: "(int list \<Rightarrow> int) \<Rightarrow> media_stream_id \<Rightarrow> int \<Rightarrow> i64 \<Rightarrow> db \<Rightarrow> db \<times> int" where
  "insertStream fresh sid agentRow createdTS d =
     (let i = fresh (map s_stream_id (rtpmon_streams d))
      in (d\<lparr>rtpmon_streams := rtpmon_streams d @
             [\<lparr>s_stream_id = i, s_link_id = LinkID sid, s_src_ip = SrcIP sid, s_src_port = uint (SrcPort sid),
               s_dst_ip = DstIP sid, s_dst_port = uint (DstPort sid), s_ssrc = uint (SSRC sid),
               s_sip_source = None, s_sip_destination = None, s_sip_callid = None,
               s_agent_id = Some agentRow, s_created_ts = Some (sint createdTS)\<rparr>]\<rparr>, i))"

definition OpenStreamAt :: "(int list \<Rightarrow> int) \<Rightarrow> media_stream_id \<Rightarrow> i64 \<Rightarrow> (writer, int) action" where
  "OpenStreamAt fresh sid createdTS w =
     (case map_of (streamMap w) sid of
        Some existing \<Rightarrow> (Inr existing, w)
      | None \<Rightarrow>
          andThen (FindOrAddAgent fresh (defaultAgentID w) (defaultAgentName w)) (\<lambda>agentRow.
          andThen (exec (insertStream fresh sid agentRow createdTS)) (\<lambda>dbID w'.
            (Inr dbID, w'\<lparr>streamMap := AList.update sid dbID (streamMap w'),
                          endpointMap := AList.update (EndpointKey sid) dbID (endpointMap w')\<rparr>))) w)"

section \<open>Reports and audio\<close>

datatype report_table = Table_intervals | Table_statistics

fun insertReport :: "report_table \<Rightarrow> report_row \<Rightarrow> db \<Rightarrow> db \<times> unit" where
  "insertReport Table_intervals row d = (d\<lparr>rtpmon_intervals := rtpmon_intervals d @ [row]\<rparr>, ())"
| "insertReport Table_statistics row d = (d\<lparr>rtpmon_statistics := rtpmon_statistics d @ [row]\<rparr>, ())"

definition reportRow :: "int \<Rightarrow> stream_report \<Rightarrow> report_row" where
  "reportRow dbID r =
     \<lparr>r_stream_id = dbID, r_start_timestamp = sint (StartMs r), r_end_timestamp = sint (EndMs r),
      r_rtp_packet_counter = uint (RTPPacketCounter r), r_illegal_packet_counter = uint (IllegalPacketCounter r),
      r_lost_packet_counter = uint (LostPacketCounter r), r_sevana_mos = SevanaMOS r,
      r_sevana_rfactor = sint (SevanaRfactor r), r_network_mos = NetworkMOS r, r_jitter = Jitter r,
      r_codec = Codec r, r_detector_report = DetectorReport r, r_rtt_delay = RTTDelay r,
      r_flags = (if FullReport r then 1 else 0), r_tags = None,
      r_amr_nb_switch_counter = sint (AmrNbSwitchCounter r), r_amr_wb_switch_counter = sint (AmrWbSwitchCounter r),
      r_link_id = LinkID (StreamID r), r_duration_audio = sint (DurationAudio r), r_user_report = UserReport r,
      r_dtx_sid = uint (DtxSid r), r_dtx_count = uint (DtxCount r), r_dtx_total = uint (DtxTotal r)\<rparr>"

definition addReport :: "(int list \<Rightarrow> int) \<Rightarrow> i64 \<Rightarrow> stream_report \<Rightarrow> report_table \<Rightarrow> (writer, unit) action" where
  "addReport fresh now report table =
     andThen (OpenStreamAt fresh (StreamID report) now) (\<lambda>dbID. exec (insertReport table (reportRow dbID report)))"

definition updateSip :: "string \<Rightarrow> string \<Rightarrow> string \<Rightarrow> int \<Rightarrow> db \<Rightarrow> db \<times> unit" where
  "updateSip callid source dest dbID d =
     (d\<lparr>rtpmon_streams := map (\<lambda>s. if s_stream_id s = dbID
          then s\<lparr>s_sip_callid := Some callid, s_sip_source := Some source, s_sip_destination := Some dest\<rparr> else s)
        (rtpmon_streams d)\<rparr>, ())"

definition maybeUpdateSip :: "stream_report \<Rightarrow> (writer, unit) action" where
  "maybeUpdateSip report w =
     (if SipCallID report = [] then (Inr (), w)
      else case map_of (streamMap w) (StreamID report) of
             None \<Rightarrow> (Inr (), w)
           | Some dbID \<Rightarrow> exec (updateSip (SipCallID report) (SipPeerA report) (SipPeerB report) dbID) w)"

definition AddInterval :: "(int list \<Rightarrow> int) \<Rightarrow> (string \<Rightarrow> string) \<Rightarrow> i64 \<Rightarrow> stream_report \<Rightarrow> (writer, unit) action" where
  "AddInterval fresh uc now report w =
     (if sipFilterActive w \<and> reportHasSip report \<and> \<not> sipMatches uc w report then (Inr (), w)
      else andThen (addReport fresh now report Table_intervals) (\<lambda>_. maybeUpdateSip report) w)"

definition insertAudio :: "(int list \<Rightarrow> int) \<Rightarrow> int \<Rightarrow> int \<Rightarrow> int \<Rightarrow> string \<Rightarrow> db \<Rightarrow> db \<times> unit" where
  "insertAudio fresh dbID startMs finishMs encoded d =
     (d\<lparr>rtpmon_audio := rtpmon_audio d @
         [\<lparr>a_id = fresh (map a_id (rtpmon_audio d)), a_stream_id = dbID, a_start_timestamp = startMs,
           a_end_timestamp = finishMs, a_audio_wav = encoded\<rparr>]\<rparr>, ())"

definition AddAudio :: "(int list \<Rightarrow> int) \<Rightarrow> stream_audio \<Rightarrow> (writer, unit) action" where
  "AddAudio fresh audio w =
     (if length (Wav audio) = 0 then (Inr (), w)
      else case (case map_of (streamMap w) (AudioStreamID audio) of
                   Some dbID \<Rightarrow> Some dbID
                 | None \<Rightarrow> map_of (endpointMap w) (EndpointKey (AudioStreamID audio))) of
             None \<Rightarrow> (Inr (), w)
           | Some dbID \<Rightarrow> exec (insertAudio fresh dbID (sint (AudioStartMs audio)) (sint (AudioFinishMs audio))
                             (base64_Encode stdAlphabet (Wav audio))) w)"

section \<open>SIP events and call health\<close>

definition sipColumns :: "string list" where
  "sipColumns =
     [''event_type'', ''call_id'', ''event_timestamp'', ''invite_timestamp'', ''setup_code'',
      ''caller'', ''callee'', ''caller_ua'', ''callee_ua'', ''caller_codecs'', ''callee_codecs'',
      ''bye_direction'', ''duration'', ''response_codes'', ''reason'', ''response_code'',
      ''reason_phrase'', ''direction'', ''is_request'']"

definition insertSipRow :: "(int list \<Rightarrow> int) \<Rightarrow> (string \<times> sql_value) list \<Rightarrow> db \<Rightarrow> db \<times> unit" where
  "insertSipRow fresh cols d =
     (d\<lparr>rtpmon_sip_events := rtpmon_sip_events d @
         [\<lparr>sip_id = fresh (map sip_id (rtpmon_sip_events d)), sip_columns = cols\<rparr>]\<rparr>, ())"

definition insertSip :: "(int list \<Rightarrow> int) \<Rightarrow> (string \<times> sql_value) list \<Rightarrow> (writer, unit) action" where
  "insertSip fresh values =
     exec (insertSipRow fresh (concat (map (\<lambda>c. case map_of values c of Some v \<Rightarrow> [(c, v)] | None \<Rightarrow> []) sipColumns)))"

definition AddSipCallStart :: "(int list \<Rightarrow> int) \<Rightarrow> sip_call_start \<Rightarrow> (writer, unit) action" where
  "AddSipCallStart fresh e = insertSip fresh
     [(''event_type'', SqlInt 1), (''call_id'', SqlText (StartCallID e)),
      (''event_timestamp'', SqlInt (sint (StartTimestamp e))),
      (''invite_timestamp'', SqlInt (sint (StartInviteTimestamp e))),
      (''setup_code'', SqlInt (uint (SetupCode e))),
      (''caller'', SqlText (Aor (StartCaller e))), (''callee'', SqlText (Aor (StartCallee e))),
      (''caller_ua'', SqlText (UserAgent (StartCaller e))), (''callee_ua'', SqlText (UserAgent (StartCallee e))),
      (''caller_codecs'', SqlText (Codecs (StartCaller e))), (''callee_codecs'', SqlText (Codecs (StartCallee e)))]"

definition AddSipCallEnd :: "(int list \<Rightarrow> int) \<Rightarrow> sip_call_end \<Rightarrow> (writer, unit) action" where
  "AddSipCallEnd fresh e = insertSip fresh
     [(''event_type'', SqlInt 2), (''call_id'', SqlText (EndCallID e)),
      (''event_timestamp'', SqlInt (sint (EndTimestamp e))), (''duration'', SqlInt (sint (CallDuration e))),
      (''bye_direction'', SqlInt (sint (ByeDirection e))),
      (''response_codes'', SqlText (strings_Join (map (\<lambda>c. decimalNat (unat c)) (ResponseCodes e)) '',''))]"

definition AddSipReinvite :: "(int list \<Rightarrow> int) \<Rightarrow> sip_reinvite \<Rightarrow> (writer, unit) action" where
  "AddSipReinvite fresh e = insertSip fresh
     [(''event_type'', SqlInt 3), (''call_id'', SqlText (ReCallID e)),
      (''event_timestamp'', SqlInt (sint (ReTimestamp e))), (''direction'', SqlInt (sint (ReDirection e))),
      (''is_request'', SqlInt (if IsRequest e then 1 else 0)),
      (''caller'', SqlText (Aor (UpdatedPeer e))), (''caller_ua'', SqlText (UserAgent (UpdatedPeer e))),
      (''caller_codecs'', SqlText (Codecs (UpdatedPeer e)))]"

definition AddSipCallFailed :: "(int list \<Rightarrow> int) \<Rightarrow> sip_call_failed \<Rightarrow> (writer, unit) action" where
  "AddSipCallFailed fresh e = insertSip fresh
     [(''event_type'', SqlInt 4), (''call_id'', SqlText (FailCallID e)),
      (''event_timestamp'', SqlInt (sint (FailTimestamp e))),
      (''invite_timestamp'', SqlInt (sint (FailInviteTimestamp e))),
      (''reason'', SqlInt (sint (FailReason e))), (''response_code'', SqlInt (uint (ResponseCode e))),
      (''reason_phrase'', SqlText (ReasonPhrase e)),
      (''caller'', SqlText (Aor (FailCaller e))), (''callee'', SqlText (Aor (FailCallee e))),
      (''caller_ua'', SqlText (UserAgent (FailCaller e))), (''callee_ua'', SqlText (UserAgent (FailCallee e))),
      (''caller_codecs'', SqlText (Codecs (FailCaller e))), (''callee_codecs'', SqlText (Codecs (FailCallee e)))]"

definition warningJson :: "call_health_warning \<Rightarrow> string" where
  "warningJson x = jsonObject
     [(''code'', jsonString (WarnCode x)), (''tag'', jsonString (WarnTag x)),
      (''explanation'', jsonString (Explanation x)), (''stream_ids'', jsonArray (map jsonString (StreamIDs x)))]"

definition insertHealth :: "(int list \<Rightarrow> int) \<Rightarrow> call_health \<Rightarrow> string \<Rightarrow> db \<Rightarrow> db \<times> unit" where
  "insertHealth fresh e js d =
     (d\<lparr>rtpmon_call_health := rtpmon_call_health d @
         [\<lparr>h_id = fresh (map h_id (rtpmon_call_health d)), h_call_id = HealthCallID e,
           h_event_timestamp = sint (HealthTimestamp e), h_stream_count = sint (StreamCount e), h_warnings = js\<rparr>]\<rparr>, ())"

definition AddCallHealth :: "(int list \<Rightarrow> int) \<Rightarrow> call_health \<Rightarrow> (writer, unit) action" where
  "AddCallHealth fresh e = exec (insertHealth fresh e (jsonArray (map warningJson (Warnings e))))"

section \<open>Properties table\<close>

definition selectProperty :: "string \<Rightarrow> db \<Rightarrow> string option option" where
  "selectProperty name d = map_of (rtpmon_property d) name"

definition insertProperty :: "string \<Rightarrow> string \<Rightarrow> db \<Rightarrow> db \<times> unit" where
  "insertProperty name v d = (d\<lparr>rtpmon_property := rtpmon_property d @ [(name, Some v)]\<rparr>, ())"

definition updateProperty :: "string \<Rightarrow> string \<Rightarrow> db \<Rightarrow> db \<times> unit" where
  "updateProperty name v d =
     (d\<lparr>rtpmon_property := map (\<lambda>(n, old). if n = name then (n, Some v) else (n, old)) (rtpmon_property d)\<rparr>, ())"

definition SetProperty :: "string \<Rightarrow> string \<Rightarrow> (writer, unit) action" where
  "SetProperty name v =
     andThen (queryDb (selectProperty name)) (\<lambda>found.
       case found of None \<Rightarrow> exec (insertProperty name v) | Some _ \<Rightarrow> exec (updateProperty name v))"

text \<open>A NULL value reads as the empty string.\<close>

definition GetProperty :: "string \<Rightarrow> (writer, string option) action" where
  "GetProperty name =
     andThen (queryDb (selectProperty name)) (\<lambda>found.
       ret (case found of None \<Rightarrow> None | Some None \<Rightarrow> Some [] | Some (Some v) \<Rightarrow> Some v))"

definition GetStreamCount :: "(writer, nat) action" where
  "GetStreamCount = queryDb (\<lambda>d. length (rtpmon_statistics d))"

section \<open>Deleting streams\<close>

datatype child_table = Del_intervals | Del_statistics | Del_audio | Del_streams

fun deleteFrom :: "child_table \<Rightarrow> int list \<Rightarrow> db \<Rightarrow> db \<times> unit" where
  "deleteFrom Del_intervals ids d = (d\<lparr>rtpmon_intervals := filter (\<lambda>r. r_stream_id r \<notin> set ids) (rtpmon_intervals d)\<rparr>, ())"
| "deleteFrom Del_statistics ids d = (d\<lparr>rtpmon_statistics := filter (\<lambda>r. r_stream_id r \<notin> set ids) (rtpmon_statistics d)\<rparr>, ())"
| "deleteFrom Del_audio ids d = (d\<lparr>rtpmon_audio := filter (\<lambda>r. a_stream_id r \<notin> set ids) (rtpmon_audio d)\<rparr>, ())"
| "deleteFrom Del_streams ids d = (d\<lparr>rtpmon_streams := filter (\<lambda>r. s_stream_id r \<notin> set ids) (rtpmon_streams d)\<rparr>, ())"

fun sequenceActions :: "('s, unit) action list \<Rightarrow> ('s, unit) action" where
  "sequenceActions [] = ret ()"
| "sequenceActions (m # ms) = andThen m (\<lambda>_. sequenceActions ms)"

definition deleteChunk :: "int list \<Rightarrow> ('z conn_scheme, unit) action" where
  "deleteChunk chunk = sequenceActions
     (map (\<lambda>t. attempt (deleteFrom t chunk)) [Del_intervals, Del_statistics, Del_audio, Del_streams])"

definition deleteStreamsByIDs :: "int list \<Rightarrow> ('z conn_scheme, unit) action" where
  "deleteStreamsByIDs ids = sequenceActions (map deleteChunk (chunksOf 500 ids))"

definition deleteStreamsTx :: "int list \<Rightarrow> ('z conn_scheme, unit) action" where
  "deleteStreamsTx ids = transact (deleteStreamsByIDs ids)"

definition purgeStream :: "media_stream_id \<Rightarrow> (writer, unit) action" where
  "purgeStream sid w =
     (case map_of (streamMap w) sid of
        None \<Rightarrow> (Inr (), w)
      | Some dbID \<Rightarrow>
          andThen (transact (deleteStreamsByIDs [dbID])) (\<lambda>_ w'.
            (Inr (), w'\<lparr>streamMap := AList.delete sid (streamMap w'),
                       endpointMap := AList.delete (EndpointKey sid) (endpointMap w')\<rparr>)) w)"

definition forgetDBIDs :: "int list \<Rightarrow> writer \<Rightarrow> writer" where
  "forgetDBIDs ids w =
     (if ids = [] then w
      else w\<lparr>streamMap := filter (\<lambda>(k, v). v \<notin> set ids) (streamMap w),
             endpointMap := filter (\<lambda>(e, v). e \<notin> (EndpointKey \<circ> fst) ` set (filter (\<lambda>(k, v). v \<in> set ids) (streamMap w)))
               (endpointMap w)\<rparr>)"

text \<open>\<^verbatim>\<open>callKeyExpr\<close>: the group a stream belongs to.\<close>

definition callKey :: "stream_row \<Rightarrow> string" where
  "callKey s = (case s_sip_callid s of
       None \<Rightarrow> ''S:'' @ strconv_Itoa (s_stream_id s)
     | Some c \<Rightarrow> if c = [] then ''S:'' @ strconv_Itoa (s_stream_id s) else ''C:'' @ c)"

definition finishedCalls :: "db \<Rightarrow> (string \<times> int) list" where
  "finishedCalls d = concat (map (\<lambda>t. map (\<lambda>s. (callKey s, r_end_timestamp t))
     (filter (\<lambda>s. s_stream_id s = r_stream_id t) (rtpmon_streams d))) (rtpmon_statistics d))"

text \<open>\<^verbatim>\<open>GROUP BY gkey\<close> with \<^verbatim>\<open>MAX(end_timestamp)\<close>, ordered by that and the key, both descending.\<close>

definition lastActive :: "(string \<times> int) list \<Rightarrow> string \<Rightarrow> int" where
  "lastActive calls k = Max (set (map snd (filter (\<lambda>c. fst c = k) calls)))"

definition callBefore :: "(string \<times> int) \<Rightarrow> (string \<times> int) \<Rightarrow> bool" where
  "callBefore x y \<longleftrightarrow> snd y < snd x \<or> (snd x = snd y \<and> str_lt (fst y) (fst x))"

definition callsByRecency :: "db \<Rightarrow> string list" where
  "callsByRecency d =
     (let calls = finishedCalls d
      in map fst (sortStable callBefore (map (\<lambda>k. (k, lastActive calls k)) (remdups (map fst calls)))))"

definition selectStreamsOf :: "string list \<Rightarrow> db \<Rightarrow> int list" where
  "selectStreamsOf keys d = map s_stream_id (filter (\<lambda>s. callKey s \<in> set keys) (rtpmon_streams d))"

fun collectIds :: "string list list \<Rightarrow> ('z conn_scheme, int list) action" where
  "collectIds [] = ret []"
| "collectIds (chunk # chunks) =
     andThen (queryDb (selectStreamsOf chunk)) (\<lambda>ids. andThen (collectIds chunks) (\<lambda>rest. ret (ids @ rest)))"

definition TrimToLastNCalls :: "int \<Rightarrow> (writer, unit) action" where
  "TrimToLastNCalls n w =
     (if n \<le> 0 then (Inr (), w)
      else andThen (queryDb callsByRecency) (\<lambda>keys w1.
             if int (length keys) \<le> n then (Inr (), w1)
             else andThen (collectIds (chunksOf 500 (drop (nat n) keys))) (\<lambda>ids.
                  andThen (transact (deleteStreamsByIDs ids)) (\<lambda>_ w2. (Inr (), forgetDBIDs ids w2))) w1) w)"

definition AddFinal :: "(int list \<Rightarrow> int) \<Rightarrow> (string \<Rightarrow> string) \<Rightarrow> i64 \<Rightarrow> stream_report \<Rightarrow> (writer, unit) action" where
  "AddFinal fresh uc now report w =
     (if sipFilterActive w \<and> \<not> sipMatches uc w report then purgeStream (StreamID report) w
      else andThen (addReport fresh now report Table_statistics) (\<lambda>_.
           andThen (maybeUpdateSip report) (\<lambda>_ w'.
             if 0 < recordsLimit w' then TrimToLastNCalls (recordsLimit w') w' else (Inr (), w'))) w)"

section \<open>The writer's invariant\<close>

definition freshOk :: "(int list \<Rightarrow> int) \<Rightarrow> bool" where
  "freshOk fresh \<longleftrightarrow> (\<forall>ids. fresh ids \<notin> set ids)"

definition streamIds :: "db \<Rightarrow> int set" where
  "streamIds d = s_stream_id ` set (rtpmon_streams d)"

text \<open>Every report and audio row belongs to a stream row.\<close>

definition noOrphans :: "db \<Rightarrow> bool" where
  "noOrphans d \<longleftrightarrow>
     r_stream_id ` set (rtpmon_intervals d) \<subseteq> streamIds d \<and> r_stream_id ` set (rtpmon_statistics d) \<subseteq> streamIds d
     \<and> a_stream_id ` set (rtpmon_audio d) \<subseteq> streamIds d"

definition rowOf :: "media_stream_id \<Rightarrow> stream_row \<Rightarrow> bool" where
  "rowOf sid s \<longleftrightarrow> s_link_id s = LinkID sid \<and> s_src_ip s = SrcIP sid \<and> s_src_port s = uint (SrcPort sid)
     \<and> s_dst_ip s = DstIP sid \<and> s_dst_port s = uint (DstPort sid) \<and> s_ssrc s = uint (SSRC sid)"

text \<open>The invariant of the writer up to a set \<open>R\<close> of ids that were removed behind its back (by the cleanup worker):
  a row or a map entry may refer to such an id instead of a stored stream.\<close>

definition orphansIn :: "int set \<Rightarrow> db \<Rightarrow> bool" where
  "orphansIn R d \<longleftrightarrow>
     r_stream_id ` set (rtpmon_intervals d) \<subseteq> streamIds d \<union> R \<and> r_stream_id ` set (rtpmon_statistics d) \<subseteq> streamIds d \<union> R
     \<and> a_stream_id ` set (rtpmon_audio d) \<subseteq> streamIds d \<union> R"

lemma orphansIn_empty: "orphansIn {} d = noOrphans d"
  by (simp add: orphansIn_def noOrphans_def)

definition mapsOk :: "int set \<Rightarrow> writer \<Rightarrow> bool" where
  "mapsOk R w \<longleftrightarrow> distinct (map fst (streamMap w))
     \<and> (\<forall>(sid, i) \<in> set (streamMap w). i \<notin> R \<longrightarrow> (\<exists>s \<in> set (rtpmon_streams (tables w)). s_stream_id s = i \<and> rowOf sid s))
     \<and> (\<forall>(e, i) \<in> set (endpointMap w). i \<notin> R \<longrightarrow> (\<exists>sid. (sid, i) \<in> set (streamMap w) \<and> EndpointKey sid = e))"

definition writerInv :: "int set \<Rightarrow> writer \<Rightarrow> bool" where
  "writerInv R w \<longleftrightarrow> distinct (map s_stream_id (rtpmon_streams (tables w))) \<and> orphansIn R (tables w) \<and> mapsOk R w"

lemma writerInv_new: "distinct (map s_stream_id (rtpmon_streams d)) \<Longrightarrow> orphansIn R d \<Longrightarrow> writerInv R (NewWriter d os a n)"
  by (simp add: writerInv_def NewWriter_def mapsOk_def)

lemma writerInv_script [simp]: "writerInv R (w\<lparr>script := os\<rparr>) = writerInv R w"
  by (simp add: writerInv_def mapsOk_def)

lemma writerInv_cache [simp]: "writerInv R (w\<lparr>agentCache := c\<rparr>) = writerInv R w"
  by (simp add: writerInv_def mapsOk_def)

text \<open>Changes of the other tables do not matter.\<close>

definition sameStreams :: "db \<Rightarrow> db \<Rightarrow> bool" where
  "sameStreams d d' \<longleftrightarrow> rtpmon_streams d' = rtpmon_streams d \<and> rtpmon_intervals d' = rtpmon_intervals d
     \<and> rtpmon_statistics d' = rtpmon_statistics d \<and> rtpmon_audio d' = rtpmon_audio d"

lemma writerInv_other: "sameStreams (tables w) d' \<Longrightarrow> writerInv R w \<Longrightarrow> writerInv R (w\<lparr>tables := d'\<rparr>)"
  by (simp add: sameStreams_def writerInv_def mapsOk_def orphansIn_def streamIds_def)

lemma exec_other:
  assumes "writerInv R w" "\<And>d. sameStreams d (fst (stmt d))"
  shows "writerInv R (snd (exec stmt w))"
  by (cases rule: atomicE [OF atomic_exec, of stmt w]) (use assms writerInv_other in auto)

lemma record_swap: "w\<lparr>script := os, tables := d\<rparr> = w\<lparr>tables := d, script := os\<rparr>"
  by simp

lemma rowOf_unique: "rowOf a s \<Longrightarrow> rowOf b s \<Longrightarrow> a = b"
  by (cases a; cases b) (auto simp: rowOf_def word_uint_eq_iff)

lemma mapsOk_row: "mapsOk R w \<Longrightarrow> (sid, i) \<in> set (streamMap w) \<Longrightarrow> i \<notin> R
    \<Longrightarrow> \<exists>s \<in> set (rtpmon_streams (tables w)). s_stream_id s = i \<and> rowOf sid s"
  by (auto simp: mapsOk_def)

lemma mapsOk_endpoint: "mapsOk R w \<Longrightarrow> (e, i) \<in> set (endpointMap w) \<Longrightarrow> i \<notin> R
    \<Longrightarrow> \<exists>sid. (sid, i) \<in> set (streamMap w) \<and> EndpointKey sid = e"
  by (auto simp: mapsOk_def)

lemma streamMap_inj:
  assumes "writerInv R w" "(a, i) \<in> set (streamMap w)" "(b, i) \<in> set (streamMap w)" "i \<notin> R"
  shows "a = b"
proof -
  obtain s t where "s \<in> set (rtpmon_streams (tables w))" "s_stream_id s = i" "rowOf a s"
    "t \<in> set (rtpmon_streams (tables w))" "s_stream_id t = i" "rowOf b t"
    using mapsOk_row [of R w a i] mapsOk_row [of R w b i] assms by (auto simp: writerInv_def)
  moreover from this assms(1) have "s = t" by (auto simp: writerInv_def distinct_map dest: inj_onD)
  ultimately show ?thesis by (auto intro: rowOf_unique)
qed

lemma streamMap_live: "writerInv R w \<Longrightarrow> (sid, i) \<in> set (streamMap w) \<Longrightarrow> i \<in> streamIds (tables w) \<union> R"
  using mapsOk_row [of R w sid i] by (auto simp: writerInv_def streamIds_def)

lemma endpointMap_live: "writerInv R w \<Longrightarrow> (e, i) \<in> set (endpointMap w) \<Longrightarrow> i \<in> streamIds (tables w) \<union> R"
  using mapsOk_endpoint [of R w e i] streamMap_live [of R w _ i] by (auto simp: writerInv_def)

section \<open>Every writer operation keeps it, whatever the database answers\<close>

lemma FindOrAddAgent_keeps:
  assumes "writerInv R w"
  shows "writerInv R (snd (FindOrAddAgent fresh aid name w))"
    "streamMap (snd (FindOrAddAgent fresh aid name w)) = streamMap w"
proof -
  let ?m = "andThen (queryDb (selectAgent aid)) (\<lambda>found. case found of None \<Rightarrow> exec (insertAgent fresh aid name) | Some i \<Rightarrow> ret i)"
  have same: "sameStreams d (fst (insertAgent fresh aid name d))" for d
    by (simp add: sameStreams_def insertAgent_def Let_def)
  have "writerInv R (snd (?m w)) \<and> streamMap (snd (?m w)) = streamMap w"
  proof (cases rule: atomicE [OF atomic_queryDb, of "selectAgent aid" w])
    case (1 os)
    show ?thesis
      by (cases rule: atomicE [OF atomic_exec, of "insertAgent fresh aid name" "w\<lparr>script := os\<rparr>"])
        (use 1 assms same writerInv_other in \<open>auto simp: andThen_def ret_def split: option.splits\<close>)
  qed (use assms in \<open>auto simp: andThen_def\<close>)
  then show "writerInv R (snd (FindOrAddAgent fresh aid name w))"
    "streamMap (snd (FindOrAddAgent fresh aid name w)) = streamMap w"
    using assms by (auto simp: FindOrAddAgent_def andThen_def [of ?m] split: option.splits prod.splits sum.splits)
qed

lemma update_new: "i \<notin> dom (map_of m) \<Longrightarrow> set (AList.update i v m) = insert (i, v) (set m)"
  by (induction m) auto

lemma set_AList_update: "set (AList.update k v m) \<subseteq> insert (k, v) (set m)"
  by (induction m) auto

lemma insertStream_keeps:
  assumes "writerInv R w" "freshOk fresh" "map_of (streamMap w) sid = None"
    "insertStream fresh sid ag ts (tables w) = (d, i)"
  shows "writerInv R (w\<lparr>tables := d, streamMap := AList.update sid i (streamMap w),
           endpointMap := AList.update (EndpointKey sid) i (endpointMap w)\<rparr>)"
proof -
  let ?w = "w\<lparr>tables := d, streamMap := AList.update sid i (streamMap w),
           endpointMap := AList.update (EndpointKey sid) i (endpointMap w)\<rparr>"
  obtain row where d: "d = (tables w)\<lparr>rtpmon_streams := rtpmon_streams (tables w) @ [row]\<rparr>" "s_stream_id row = i" "rowOf sid row"
    and i: "i \<notin> streamIds (tables w)"
    using assms(2,4) by (auto simp: insertStream_def Let_def rowOf_def freshOk_def streamIds_def simp flip: set_map)
  have sm: "set (AList.update sid i (streamMap w)) = insert (sid, i) (set (streamMap w))"
    using assms(3) by (intro update_new) auto
  have "mapsOk R ?w"
    unfolding mapsOk_def
  proof (intro conjI ballI, goal_cases)
    case 1
    then show ?case using assms(1) by (simp add: writerInv_def mapsOk_def distinct_update)
  next
    case (2 p)
    then show ?case using assms(1) d mapsOk_row [of R w] sm by (force simp: writerInv_def)
  next
    case (3 p)
    then show ?case
      using assms(1) d mapsOk_endpoint [of R w "fst p" "snd p"] sm set_AList_update [of "EndpointKey sid" i "endpointMap w"]
      by (fastforce simp: writerInv_def)
  qed
  then show ?thesis
    using assms(1) d i by (auto simp: writerInv_def orphansIn_def streamIds_def)
qed

lemma OpenStreamAt_keeps:
  assumes "writerInv R w" "freshOk fresh"
  shows "writerInv R (snd (OpenStreamAt fresh sid ts w))
    \<and> (\<forall>i. fst (OpenStreamAt fresh sid ts w) = Inr i \<longrightarrow> (sid, i) \<in> set (streamMap (snd (OpenStreamAt fresh sid ts w))))"
proof (cases "map_of (streamMap w) sid")
  case (Some i)
  then show ?thesis using assms by (auto simp: OpenStreamAt_def dest: map_of_SomeD)
next
  case None
  let ?a = "FindOrAddAgent fresh (defaultAgentID w) (defaultAgentName w)"
  note ag = FindOrAddAgent_keeps [OF assms(1), of fresh "defaultAgentID w" "defaultAgentName w"]
  show ?thesis
  proof (cases "fst (?a w)")
    case (Inl e)
    with None ag show ?thesis by (cases "?a w") (auto simp: OpenStreamAt_def andThen_def)
  next
    case (Inr ag_row)
    define w1 where "w1 = snd (?a w)"
    have a: "?a w = (Inr ag_row, w1)" using Inr by (simp add: w1_def prod_eq_iff)
    have w1: "writerInv R w1" "map_of (streamMap w1) sid = None" using ag None by (simp_all add: w1_def)
    obtain d i where ins: "insertStream fresh sid ag_row ts (tables w1) = (d, i)" by fastforce
    show ?thesis
    proof (cases rule: atomicE [OF atomic_exec, of "insertStream fresh sid ag_row ts" w1])
      case (1 os)
      have "writerInv R (w1\<lparr>tables := d, script := os, streamMap := AList.update sid i (streamMap w1),
           endpointMap := AList.update (EndpointKey sid) i (endpointMap w1)\<rparr>)"
        using insertStream_keeps [of R "w1\<lparr>script := os\<rparr>" fresh sid ag_row ts d i] w1 assms(2) ins
        by (simp add: record_swap)
      moreover have "(sid, i) \<in> set (AList.update sid i (streamMap w1))" using w1(2) update_new [of sid "streamMap w1" i] by auto
      ultimately show ?thesis using 1 None a ins by (simp add: OpenStreamAt_def andThen_def)
    next
      case (2 e os)
      then show ?thesis using None a w1 by (simp add: OpenStreamAt_def andThen_def)
    qed
  qed
qed

lemma insertReport_keeps:
  assumes "writerInv R w" "i \<in> streamIds (tables w) \<union> R" "r_stream_id row = i"
  shows "writerInv R (w\<lparr>tables := fst (insertReport t row (tables w))\<rparr>)"
  using assms by (cases t) (auto simp: writerInv_def mapsOk_def orphansIn_def streamIds_def)

lemma addReport_keeps:
  assumes "writerInv R w" "freshOk fresh"
  shows "writerInv R (snd (addReport fresh now r t w))"
proof -
  note op = OpenStreamAt_keeps [OF assms, of "StreamID r" now]
  show ?thesis
  proof (cases "OpenStreamAt fresh (StreamID r) now w")
    case (Pair res w1)
    show ?thesis
    proof (cases res)
      case (Inl e)
      with Pair op show ?thesis by (auto simp: addReport_def andThen_def)
    next
      case (Inr i)
      have w1: "writerInv R w1" "i \<in> streamIds (tables w1) \<union> R" using op Pair Inr streamMap_live by auto
      show ?thesis
        by (cases rule: atomicE [OF atomic_exec, of "insertReport t (reportRow i r)" w1])
          (use Pair Inr w1 insertReport_keeps [OF w1, of "reportRow i r" t] in
            \<open>auto simp: addReport_def andThen_def reportRow_def\<close>)
    qed
  qed
qed

lemma rewrite_rows_keeps:
  assumes "writerInv R w" "\<And>s. s_stream_id (u s) = s_stream_id s" "\<And>s sid. rowOf sid (u s) = rowOf sid s"
  shows "writerInv R (w\<lparr>tables := (tables w)\<lparr>rtpmon_streams := map u (rtpmon_streams (tables w))\<rparr>\<rparr>)"
  using assms by (simp add: writerInv_def mapsOk_def orphansIn_def streamIds_def image_image comp_def)

lemma updateSip_keeps: "writerInv R w \<Longrightarrow> writerInv R (w\<lparr>tables := fst (updateSip c a b i (tables w))\<rparr>)"
  unfolding updateSip_def fst_conv by (rule rewrite_rows_keeps) (simp_all add: rowOf_def)

lemma maybeUpdateSip_keeps: "writerInv R w \<Longrightarrow> writerInv R (snd (maybeUpdateSip r w))"
proof -
  assume inv: "writerInv R w"
  have "writerInv R (snd (exec (updateSip c a b i) w))" for c a b i
    by (cases rule: atomicE [OF atomic_exec, of "updateSip c a b i" w]) (use inv updateSip_keeps in auto)
  then show ?thesis using inv by (auto simp: maybeUpdateSip_def split: option.splits)
qed

lemma AddInterval_keeps: "writerInv R w \<Longrightarrow> freshOk fresh \<Longrightarrow> writerInv R (snd (AddInterval fresh uc now r w))"
  using addReport_keeps [of R w fresh now r Table_intervals] maybeUpdateSip_keeps
  by (auto simp: AddInterval_def andThen_def split: prod.splits sum.splits)

lemma AddAudio_keeps:
  assumes "writerInv R w"
  shows "writerInv R (snd (AddAudio fresh au w))"
proof -
  have ins: "writerInv R (w\<lparr>tables := fst (insertAudio fresh i a b e (tables w))\<rparr>)" if "i \<in> streamIds (tables w) \<union> R" for i a b e
    using assms that by (auto simp: insertAudio_def writerInv_def mapsOk_def orphansIn_def streamIds_def)
  have "writerInv R (snd (exec (insertAudio fresh i a b e) w))" if "i \<in> streamIds (tables w) \<union> R" for i a b e
    by (cases rule: atomicE [OF atomic_exec, of "insertAudio fresh i a b e" w]) (use assms ins [OF that] in auto)
  then show ?thesis
    using assms streamMap_live [OF assms] endpointMap_live [OF assms]
    by (auto simp: AddAudio_def dest!: map_of_SomeD split: option.splits)
qed

text \<open>Deleting a set of streams with their rows.\<close>

definition deleteAll :: "int list \<Rightarrow> db \<Rightarrow> db" where
  "deleteAll ids d = d\<lparr>rtpmon_intervals := filter (\<lambda>r. r_stream_id r \<notin> set ids) (rtpmon_intervals d),
     rtpmon_statistics := filter (\<lambda>r. r_stream_id r \<notin> set ids) (rtpmon_statistics d),
     rtpmon_audio := filter (\<lambda>r. a_stream_id r \<notin> set ids) (rtpmon_audio d),
     rtpmon_streams := filter (\<lambda>r. s_stream_id r \<notin> set ids) (rtpmon_streams d)\<rparr>"

lemma deleteAll_append: "deleteAll (xs @ ys) d = deleteAll ys (deleteAll xs d)"
  by (simp add: deleteAll_def conj_commute)

lemma deleteAll_Nil [simp]: "deleteAll [] d = d"
  by (simp add: deleteAll_def)

lemma deleteChunk_body: "tableBody (deleteAll chunk) (deleteChunk chunk)"
proof -
  have "tableBody (\<lambda>d. fst (deleteFrom t chunk d)) (attempt (deleteFrom t chunk))" for t
    by (rule tableBody_attempt) simp
  note one = this
  have "tableBody ((((((\<lambda>d. d) \<circ> (\<lambda>d. fst (deleteFrom Del_streams chunk d))) \<circ> (\<lambda>d. fst (deleteFrom Del_audio chunk d)))
      \<circ> (\<lambda>d. fst (deleteFrom Del_statistics chunk d)))) \<circ> (\<lambda>d. fst (deleteFrom Del_intervals chunk d))) (deleteChunk chunk)"
    unfolding deleteChunk_def sequenceActions.simps list.map
    by (intro tableBody_andThen one tableBody_ret)
  moreover have "((((((\<lambda>d. d) \<circ> (\<lambda>d. fst (deleteFrom Del_streams chunk d))) \<circ> (\<lambda>d. fst (deleteFrom Del_audio chunk d)))
      \<circ> (\<lambda>d. fst (deleteFrom Del_statistics chunk d)))) \<circ> (\<lambda>d. fst (deleteFrom Del_intervals chunk d))) = deleteAll chunk"
    by (rule ext) (simp add: deleteAll_def)
  ultimately show ?thesis by simp
qed

lemma deleteStreamsByIDs_body: "tableBody (deleteAll ids) (deleteStreamsByIDs ids)"
proof -
  have "tableBody (deleteAll (concat chunks)) (sequenceActions (map deleteChunk chunks))" for chunks :: "int list list"
  proof (induction chunks)
    case Nil
    have "deleteAll [] = (\<lambda>d. d)" by (rule ext) simp
    then show ?case using tableBody_ret by simp
  next
    case (Cons c chunks)
    have "deleteAll (concat chunks) \<circ> deleteAll c = deleteAll (concat (c # chunks))"
      by (rule ext) (simp add: deleteAll_append)
    then show ?case using tableBody_andThen [OF deleteChunk_body [of c] Cons] by simp
  qed
  from this [of "chunksOf 500 ids"] show ?thesis
    by (simp add: deleteStreamsByIDs_def concat_chunksOf)
qed

lemma atomic_deleteStreamsTx: "atomic (\<lambda>d. (deleteAll ids d, ())) (transact (deleteStreamsByIDs ids))"
  by (rule atomic_transact [OF deleteStreamsByIDs_body])

lemma deleteAll_keeps:
  assumes "writerInv R w"
    and sm: "\<And>sid i. i \<notin> R \<Longrightarrow> (sid, i) \<in> set sm \<longleftrightarrow> (sid, i) \<in> set (streamMap w) \<and> i \<notin> set ids" "distinct (map fst sm)"
    and em: "\<And>e i. i \<notin> R \<Longrightarrow> (e, i) \<in> set em \<Longrightarrow> (e, i) \<in> set (endpointMap w) \<and> i \<notin> set ids"
  shows "writerInv R (w\<lparr>tables := deleteAll ids (tables w), streamMap := sm, endpointMap := em\<rparr>)"
proof -
  have "orphansIn R (deleteAll ids (tables w))"
    using assms(1) by (force simp: writerInv_def orphansIn_def streamIds_def deleteAll_def)
  moreover have "mapsOk R (w\<lparr>tables := deleteAll ids (tables w), streamMap := sm, endpointMap := em\<rparr>)"
    unfolding mapsOk_def
  proof (intro conjI ballI, goal_cases)
    case 1
    then show ?case using sm(2) by simp
  next
    case (2 p)
    then show ?case
      using assms(1) mapsOk_row [of R w "fst p" "snd p"] sm(1) [of "snd p" "fst p"]
      by (auto simp: writerInv_def deleteAll_def)
  next
    case (3 p)
    obtain e i where p: "p = (e, i)" by (cases p)
    have "\<exists>sid. (sid, i) \<in> set sm \<and> EndpointKey sid = e" if "i \<notin> R"
      using 3 p em [OF that, of e] sm(1) [OF that] assms(1) mapsOk_endpoint [of R w e i] that
      by (auto simp: writerInv_def)
    then show ?case using p by simp
  qed
  ultimately show ?thesis
    using assms(1) by (simp add: writerInv_def deleteAll_def distinct_map_filter)
qed

lemma purgeStream_keeps:
  assumes "writerInv R w"
  shows "writerInv R (snd (purgeStream sid w))"
proof (cases "map_of (streamMap w) sid")
  case (Some i)
  then have mem: "(sid, i) \<in> set (streamMap w)" by (rule map_of_SomeD)
  have dist: "distinct (map fst (streamMap w))" using assms by (simp add: writerInv_def mapsOk_def)
  have only: "(a, j) \<in> set (streamMap w) \<Longrightarrow> j \<notin> R \<Longrightarrow> a = sid \<longleftrightarrow> j = i" for a j
    using streamMap_inj [OF assms, of a j sid] mem dist by (auto dest: eq_key_imp_eq_value)
  have ends: "(e, j) \<in> set (endpointMap w) \<Longrightarrow> j \<notin> R \<Longrightarrow> j = i \<Longrightarrow> e = EndpointKey sid" for e j
    using mapsOk_endpoint [of R w e j] only assms by (auto simp: writerInv_def)
  have "writerInv R (w\<lparr>tables := deleteAll [i] (tables w), streamMap := AList.delete sid (streamMap w),
      endpointMap := AList.delete (EndpointKey sid) (endpointMap w)\<rparr>)"
    using assms dist only ends by (intro deleteAll_keeps) (auto simp: delete_filter distinct_map_filter)
  then have ok: "writerInv R (w\<lparr>tables := deleteAll [i] (tables w), script := os, streamMap := AList.delete sid (streamMap w),
      endpointMap := AList.delete (EndpointKey sid) (endpointMap w)\<rparr>)" for os
    by (simp add: writerInv_def mapsOk_def)
  show ?thesis
    by (cases rule: atomicE [OF atomic_deleteStreamsTx, of "[i]" w])
      (use assms Some ok in \<open>auto simp: purgeStream_def andThen_def\<close>)
qed (use assms in \<open>simp add: purgeStream_def\<close>)

lemma forget_keeps:
  assumes "writerInv R w"
  shows "writerInv R (forgetDBIDs ids (w\<lparr>tables := deleteAll ids (tables w), script := os\<rparr>))"
proof (cases "ids = []")
  case True
  then show ?thesis using assms by (simp add: forgetDBIDs_def)
next
  case False
  let ?sm = "filter (\<lambda>(k, v). v \<notin> set ids) (streamMap w)"
  let ?em = "filter (\<lambda>(e, v). e \<notin> (EndpointKey \<circ> fst) ` set (filter (\<lambda>(k, v). v \<in> set ids) (streamMap w))) (endpointMap w)"
  have "distinct (map fst (streamMap w))" using assms by (simp add: writerInv_def mapsOk_def)
  then have "writerInv R (w\<lparr>tables := deleteAll ids (tables w), streamMap := ?sm, endpointMap := ?em\<rparr>)"
    using assms mapsOk_endpoint [of R w]
    by (intro deleteAll_keeps) (fastforce simp: distinct_map_filter image_iff writerInv_def)+
  then show ?thesis using False by (simp add: forgetDBIDs_def writerInv_def mapsOk_def)
qed

text \<open>Reads leave everything but the script.\<close>

lemma collectIds_reads:
  "\<exists>os. collectIds chunks s = (Inr (concat (map (\<lambda>c. selectStreamsOf c (tables s)) chunks)), s\<lparr>script := os\<rparr>)
     \<or> (\<exists>e. collectIds chunks s = (Inl e, s\<lparr>script := os\<rparr>))"
proof (induction chunks arbitrary: s)
  case Nil
  show ?case by (intro exI [of _ "script s"]) (simp add: ret_def)
next
  case (Cons c chunks)
  show ?case
  proof (cases rule: atomicE [OF atomic_queryDb, of "selectStreamsOf c" s])
    case (1 os)
    from Cons [of "s\<lparr>script := os\<rparr>"] show ?thesis
      using 1 by (auto simp: andThen_def ret_def)
  next
    case (2 e os)
    then show ?thesis by (auto simp: andThen_def)
  qed
qed

definition evicted :: "int \<Rightarrow> db \<Rightarrow> int list" where
  "evicted n d = concat (map (\<lambda>c. selectStreamsOf c d) (chunksOf 500 (drop (nat n) (callsByRecency d))))"

text \<open>What trimming does: nothing, an error, or all of it.\<close>

lemma TrimToLastNCalls_cases:
  "\<exists>os. (TrimToLastNCalls n w = (Inr (), w\<lparr>script := os\<rparr>) \<and> (n \<le> 0 \<or> int (length (callsByRecency (tables w))) \<le> n))
     \<or> (TrimToLastNCalls n w = (Inr (), forgetDBIDs (evicted n (tables w)) (w\<lparr>tables := deleteAll (evicted n (tables w)) (tables w), script := os\<rparr>))
         \<and> 0 < n \<and> n < int (length (callsByRecency (tables w))))
     \<or> (\<exists>e. TrimToLastNCalls n w = (Inl e, w\<lparr>script := os\<rparr>))"
proof (cases "n \<le> 0")
  case True
  then show ?thesis by (intro exI [of _ "script w"]) (simp add: TrimToLastNCalls_def)
next
  case pos: False
  show ?thesis
  proof (cases rule: atomicE [OF atomic_queryDb, of callsByRecency w])
    case (2 e os)
    then show ?thesis using pos by (auto simp: TrimToLastNCalls_def andThen_def)
  next
    case (1 os)
    let ?k = "callsByRecency (tables w)"
    show ?thesis
    proof (cases "int (length ?k) \<le> n")
      case True
      then show ?thesis using 1 pos by (auto simp: TrimToLastNCalls_def andThen_def)
    next
      case False
      note ids = collectIds_reads [of "chunksOf 500 (drop (nat n) ?k)" "w\<lparr>script := os\<rparr>"]
      then obtain os1 where os1: "collectIds (chunksOf 500 (drop (nat n) ?k)) (w\<lparr>script := os\<rparr>) = (Inr (evicted n (tables w)), w\<lparr>script := os1\<rparr>)
          \<or> (\<exists>e. collectIds (chunksOf 500 (drop (nat n) ?k)) (w\<lparr>script := os\<rparr>) = (Inl e, w\<lparr>script := os1\<rparr>))"
        by (auto simp: evicted_def)
      show ?thesis
        by (cases rule: atomicE [OF atomic_deleteStreamsTx, of "evicted n (tables w)" "w\<lparr>script := os1\<rparr>"])
          (use 1 False pos os1 in \<open>auto simp: TrimToLastNCalls_def andThen_def\<close>)
    qed
  qed
qed

lemma TrimToLastNCalls_keeps: "writerInv R w \<Longrightarrow> writerInv R (snd (TrimToLastNCalls n w))"
  using TrimToLastNCalls_cases [of n w] forget_keeps by auto

lemma AddFinal_keeps: "writerInv R w \<Longrightarrow> freshOk fresh \<Longrightarrow> writerInv R (snd (AddFinal fresh uc now r w))"
  using addReport_keeps [of R w fresh now r Table_statistics] maybeUpdateSip_keeps [of R _ r] TrimToLastNCalls_keeps
    purgeStream_keeps [of R w "StreamID r"]
  by (auto simp: AddFinal_def andThen_def split: prod.splits sum.splits) (metis snd_conv)+

lemma insertSip_keeps: "writerInv R w \<Longrightarrow> writerInv R (snd (insertSip fresh vs w))"
  unfolding insertSip_def by (rule exec_other) (simp_all add: insertSipRow_def sameStreams_def)

lemma AddCallHealth_keeps: "writerInv R w \<Longrightarrow> writerInv R (snd (AddCallHealth fresh e w))"
  unfolding AddCallHealth_def by (rule exec_other) (simp_all add: insertHealth_def sameStreams_def)

end
