(* ===== verification/Go_Json_Decode.thy ===== *)
theory Go_Json_Decode
  imports Go_Json
begin

text \<open>
  What the program uses of \<^verbatim>\<open>json.Unmarshal\<close>: decoding into a list of strings. The text must be
  \<^verbatim>\<open>null\<close> or an array whose elements are strings or \<^verbatim>\<open>null\<close> (which leaves the empty string);
  every other text is a syntax error or a type error, and both are \<^verbatim>\<open>None\<close>. String literals
  are unquoted as Go does: escapes, surrogate pairs, and U+FFFD for what is not UTF-8. The lemmas
  show that decoding undoes the encoder on valid UTF-8.
\<close>

section \<open>String literals\<close>

definition replacement :: string where "replacement = [CHR 0xEF, CHR 0xBF, CHR 0xBD]"

text \<open>\<^verbatim>\<open>utf8.AppendRune\<close>: surrogates and values beyond Unicode become U+FFFD.\<close>

definition utf8Encode :: "nat \<Rightarrow> string" where
  "utf8Encode r =
     (if r < 128 then [char_of r]
      else if r < 2048 then [char_of (192 + r div 64), char_of (128 + r mod 64)]
      else if (55296 \<le> r \<and> r \<le> 57343) \<or> 1114111 < r then replacement
      else if r < 65536 then
        [char_of (224 + r div 4096), char_of (128 + r div 64 mod 64), char_of (128 + r mod 64)]
      else [char_of (240 + r div 262144), char_of (128 + r div 4096 mod 64),
            char_of (128 + r div 64 mod 64), char_of (128 + r mod 64)])"

fun hex4 :: "string \<Rightarrow> (nat \<times> string) option" where
  "hex4 (a # b # c # d # s) =
     (if isHexDigit a \<and> isHexDigit b \<and> isHexDigit c \<and> isHexDigit d
      then Some (((hexVal a * 16 + hexVal b) * 16 + hexVal c) * 16 + hexVal d, s) else None)"
| "hex4 _ = None"

definition unescape :: "char \<Rightarrow> char option" where
  "unescape e = map_of [(dq, dq), (bs, bs), (CHR ''/'', CHR ''/''), (CHR ''b'', CHR 0x08),
     (CHR ''f'', CHR 0x0C), (CHR ''n'', CHR 0x0A), (CHR ''r'', CHR 0x0D), (CHR ''t'', CHR 0x09)] e"

text \<open>The rune of a \<^verbatim>\<open>\uXXXX\<close> escape whose digits were read, with the text after it: the low
  half of a surrogate pair is consumed only when it completes the pair.\<close>

definition pairUp :: "nat \<Rightarrow> string \<Rightarrow> string \<times> string" where
  "pairUp r t =
     (if r < 55296 \<or> 57343 < r then (utf8Encode r, t)
      else case t of
             b # u # t' \<Rightarrow>
               (case (if b = bs \<and> u = CHR ''u'' then hex4 t' else None) of
                  None \<Rightarrow> (replacement, t)
                | Some (r1, t'') \<Rightarrow>
                    if r < 56320 \<and> 56320 \<le> r1 \<and> r1 \<le> 57343
                    then (utf8Encode ((r - 55296) * 1024 + (r1 - 56320) + 65536), t'')
                    else (replacement, t))
           | _ \<Rightarrow> (replacement, t))"

lemma hex4_shorter: "hex4 s = Some (r, t) \<Longrightarrow> length t < length s"
  by (induction s rule: hex4.induct) (auto split: if_splits)

lemma pairUp_shorter: "length (snd (pairUp r t)) \<le> length t"
  by (auto simp: pairUp_def split: list.split option.split if_splits dest!: hex4_shorter)

text \<open>The text after the opening quote: the decoded contents and what follows the closing quote.\<close>

function unquote :: "string \<Rightarrow> (string \<times> string) option" where
  "unquote [] = None"
| "unquote (c # s) =
     (if c = dq then Some ([], s)
      else if c = bs then
        (case s of
           [] \<Rightarrow> None
         | e # t \<Rightarrow>
             if e = CHR ''u'' then
               (case hex4 t of
                  None \<Rightarrow> None
                | Some (r, t') \<Rightarrow> map_option (apfst ((@) (fst (pairUp r t')))) (unquote (snd (pairUp r t'))))
             else (case unescape e of
                     None \<Rightarrow> None
                   | Some x \<Rightarrow> map_option (apfst (Cons x)) (unquote t)))
      else if byte c < 32 then None
      else if byte c < 128 then map_option (apfst (Cons c)) (unquote s)
      else let n = runeLen (c # s)
           in if n = 0 then map_option (apfst ((@) replacement)) (unquote s)
              else map_option (apfst ((@) (take n (c # s)))) (unquote (drop n (c # s))))"
  by pat_completeness auto
termination unquote
proof (relation "measure length", goal_cases)
  case (2 c s e t r_t r t')
  then have "length t' < length t" by (auto dest!: hex4_shorter)
  with 2 pairUp_shorter [of r t'] show ?case by simp
qed auto

declare unquote.simps(2) [simp del]

lemma pairUp_hex4: "hex4 t = Some (k, t') \<Longrightarrow> length (snd (pairUp k t')) < Suc (Suc (length t))"
  using hex4_shorter [of t k t'] pairUp_shorter [of k t'] by simp

lemma map_apfst_Some: "map_option (apfst f) m = Some (y, r) \<longleftrightarrow> (\<exists>x. m = Some (x, r) \<and> y = f x)"
  by (cases m) auto

lemma unquote_shorter: "unquote s = Some (x, r) \<Longrightarrow> length r < length s"
proof (induction s arbitrary: x r rule: length_induct)
  case (1 s)
  show ?case
  proof (cases s)
    case (Cons c t)
    have IH: "unquote u = Some (y, r) \<Longrightarrow> length u < length s \<Longrightarrow> length r < length s" for u y
      using 1(1) less_trans by blast
    from 1(2) have "unquote (c # t) = Some (x, r)" using Cons by simp
    then show ?thesis
      unfolding unquote.simps(2)
      by (auto simp: Cons Let_def map_apfst_Some split: if_splits list.splits option.splits
          dest!: IH)
        (erule pairUp_hex4)
  qed (use 1 in simp)
qed

section \<open>Lists of strings\<close>

definition jsonWs :: "char \<Rightarrow> bool" where
  "jsonWs c \<longleftrightarrow> c \<in> {CHR '' '', CHR 0x09, CHR 0x0A, CHR 0x0D}"

definition skipWs :: "string \<Rightarrow> string" where
  "skipWs s = dropWhile jsonWs s"

lemma skipWs_shorter: "length (skipWs s) \<le> length s"
  by (simp add: skipWs_def length_dropWhile_le)

definition decodeElem :: "string \<Rightarrow> (string \<times> string) option" where
  "decodeElem s =
     (case s of
        [] \<Rightarrow> None
      | c # t \<Rightarrow> if c = dq then unquote t
                 else if strings_HasPrefix s ''null'' then Some ([], drop 4 s) else None)"

lemma decodeElem_shorter: "decodeElem s = Some (x, r) \<Longrightarrow> length r < length s"
  by (auto simp: decodeElem_def split: list.splits if_splits dest: unquote_shorter)

text \<open>The elements after the opening bracket of a non-empty array, and the text after its end.\<close>

function decodeElems :: "string \<Rightarrow> (string list \<times> string) option" where
  "decodeElems s =
     (case decodeElem (skipWs s) of
        None \<Rightarrow> None
      | Some (x, r) \<Rightarrow>
          (case skipWs r of
             [] \<Rightarrow> None
           | c # r' \<Rightarrow> if c = CHR '']'' then Some ([x], r')
                       else if c = CHR '','' then map_option (apfst (Cons x)) (decodeElems r')
                       else None))"
  by pat_completeness auto
termination decodeElems
proof (relation "measure length", goal_cases)
  case (2 s xr x r c r')
  then have "length r < length (skipWs s)" "length (c # r') \<le> length r"
    using decodeElem_shorter [of "skipWs s" x r] skipWs_shorter [of r] by auto
  with skipWs_shorter [of s] show ?case by simp
qed auto

declare decodeElems.simps [simp del]

definition decodeStrings :: "string \<Rightarrow> string list option" where
  "decodeStrings s =
     (let t = skipWs s;
          close = (\<lambda>p. case p of None \<Rightarrow> None | Some (xs, r) \<Rightarrow> if skipWs r = [] then Some xs else None)
      in case t of
           [] \<Rightarrow> None
         | c # r \<Rightarrow>
             if c = CHR ''['' then
               (case skipWs r of
                  [] \<Rightarrow> None
                | d # r' \<Rightarrow> if d = CHR '']'' then close (Some ([], r')) else close (decodeElems r))
             else if strings_HasPrefix t ''null'' then close (Some ([], drop 4 t)) else None)"

section \<open>Decoding undoes encoding\<close>

lemma runeLen_le: "runeLen s \<le> length s"
  by (auto simp: runeLen_def Suc_le_eq)

text \<open>The four shapes of a rune.\<close>

definition rune2 :: "char \<Rightarrow> char \<Rightarrow> bool" where
  "rune2 a b \<longleftrightarrow> 194 \<le> byte a \<and> byte a \<le> 223 \<and> cont b"

definition rune3 :: "char \<Rightarrow> char \<Rightarrow> char \<Rightarrow> bool" where
  "rune3 a b c \<longleftrightarrow> 224 \<le> byte a \<and> byte a \<le> 239 \<and> cont b \<and> cont c \<and>
     (byte a = 224 \<longrightarrow> 160 \<le> byte b) \<and> (byte a = 237 \<longrightarrow> byte b \<le> 159)"

definition rune4 :: "char \<Rightarrow> char \<Rightarrow> char \<Rightarrow> char \<Rightarrow> bool" where
  "rune4 a b c d \<longleftrightarrow> 240 \<le> byte a \<and> byte a \<le> 244 \<and> cont b \<and> cont c \<and> cont d \<and>
     (byte a = 240 \<longrightarrow> 144 \<le> byte b) \<and> (byte a = 244 \<longrightarrow> byte b \<le> 143)"

lemma rune_first: "rune2 a b \<Longrightarrow> 194 \<le> byte a" "rune3 a b c \<Longrightarrow> 224 \<le> byte a" "rune4 a b c d \<Longrightarrow> 240 \<le> byte a"
  by (simp_all add: rune2_def rune3_def rune4_def)

lemma runeLen_shapes:
  "byte a < 128 \<Longrightarrow> runeLen (a # s) = 1"
  "rune2 a b \<Longrightarrow> runeLen (a # b # s) = 2"
  "rune3 a b c \<Longrightarrow> runeLen (a # b # c # s) = 3"
  "rune4 a b c d \<Longrightarrow> runeLen (a # b # c # d # s) = 4"
  by (simp_all add: runeLen_def rune2_def rune3_def rune4_def)

lemma utf8_Valid_cases:
  assumes "utf8_Valid s" "s \<noteq> []"
  obtains (one) a t where "s = a # t" "byte a < 128" "utf8_Valid t"
    | (two) a b t where "s = a # b # t" "rune2 a b" "utf8_Valid t"
    | (three) a b c t where "s = a # b # c # t" "rune3 a b c" "utf8_Valid t"
    | (four) a b c d t where "s = a # b # c # d # t" "rune4 a b c d" "utf8_Valid t"
proof -
  from assms(2) obtain a s1 where s: "s = a # s1" by (cases s) auto
  show thesis
  proof (cases "byte a < 128")
    case False
    with assms obtain b s2 where s1: "s1 = b # s2" by (cases s1) (auto simp: s)
    show thesis
    proof (cases "194 \<le> byte a \<and> byte a \<le> 223")
      case n2: False
      with False assms obtain c s3 where s2: "s2 = c # s3" by (cases s2) (auto simp: s s1)
      show thesis
      proof (cases "224 \<le> byte a \<and> byte a \<le> 239")
        case n3: False
        with False n2 assms obtain d s4 where s3: "s3 = d # s4" by (cases s3) (auto simp: s s1 s2)
        from False n2 n3 assms have "rune4 a b c d \<and> utf8_Valid s4"
          by (auto simp: s s1 s2 s3 rune4_def split: if_splits)
        then show thesis using four s s1 s2 s3 by blast
      next
        case True
        with False n2 assms have "rune3 a b c \<and> utf8_Valid s3" by (simp add: s s1 s2 rune3_def)
        then show thesis using three s s1 s2 by blast
      qed
    next
      case True
      with False assms have "rune2 a b \<and> utf8_Valid s2" by (simp add: s s1 rune2_def)
      then show thesis using two s s1 by blast
    qed
  qed (use assms one s in \<open>simp add: s\<close>)
qed

lemma hex_low: "n < 16 \<Longrightarrow> isHexDigit (hexDigitChar n) \<and> hexVal (hexDigitChar n) = n"
proof -
  assume "n < 16"
  moreover have "\<forall>n \<in> set [0..<16]. isHexDigit (hexDigitChar n) \<and> hexVal (hexDigitChar n) = n"
    by code_simp
  ultimately show ?thesis by simp
qed

lemma unquote_plain:
  "c \<noteq> dq \<Longrightarrow> c \<noteq> bs \<Longrightarrow> 32 \<le> byte c \<Longrightarrow> byte c < 128 \<Longrightarrow>
     unquote (c # s) = map_option (apfst (Cons c)) (unquote s)"
  by (simp add: unquote.simps(2))

lemma unquote_escape:
  "unescape e = Some x \<Longrightarrow> unquote (bs # e # s) = map_option (apfst (Cons x)) (unquote s)"
  by (auto simp: unquote.simps(2) unescape_def bs_def dq_def split: if_splits)

lemma unquote_u:
  assumes "hex4 t = Some (r, t')" "r < 55296"
  shows "unquote (bs # CHR ''u'' # t) = map_option (apfst ((@) (utf8Encode r))) (unquote t')"
  using assms by (simp add: unquote.simps(2) pairUp_def bs_def dq_def)

lemma escByte_short:
  "escByte c = [bs, x] \<Longrightarrow> unescape x = Some c \<Longrightarrow>
     unquote (escByte c @ s) = map_option (apfst (Cons c)) (unquote s)"
  by (simp add: unquote_escape)

lemma unquote_u00:
  assumes "byte c < 128"
  shows "unquote (bs # CHR ''u'' # CHR ''0'' # CHR ''0'' # hexDigitChar (byte c div 16) # hexDigitChar (byte c mod 16) # s)
    = map_option (apfst (Cons c)) (unquote s)"
proof -
  let ?t = "CHR ''0'' # CHR ''0'' # hexDigitChar (byte c div 16) # hexDigitChar (byte c mod 16) # s"
  have "isHexDigit (CHR ''0'')" "hexVal (CHR ''0'') = 0"
    by (simp_all add: isHexDigit_def isDigit_def hexVal_def digitVal_def)
  moreover have "byte c div 16 < 16" "byte c mod 16 < 16" using assms by simp_all
  ultimately have "hex4 ?t = Some (byte c, s)"
    using hex_low [of "byte c div 16"] hex_low [of "byte c mod 16"] by simp
  moreover have "utf8Encode (byte c) = [c]" using assms by (simp add: utf8Encode_def)
  ultimately show ?thesis using unquote_u [of ?t "byte c" s] assms
    by (cases "unquote s") auto
qed

lemma unquote_escByte:
  assumes "byte c < 128"
  shows "unquote (escByte c @ s) = map_option (apfst (Cons c)) (unquote s)"
proof -
  let ?short = "{bs, dq, CHR 0x08, CHR 0x0C, CHR 0x0A, CHR 0x0D, CHR 0x09}"
  let ?html = "byte c < 32 \<or> c = CHR ''<'' \<or> c = CHR ''>'' \<or> c = CHR ''&''"
  consider "c \<in> ?short" | "c \<notin> ?short" "?html" | "c \<notin> ?short" "\<not> ?html" by blast
  then show ?thesis
  proof cases
    case 1
    then have "\<exists>x. escByte c = [bs, x] \<and> unescape x = Some c"
      by (elim insertE) (simp_all add: escByte_def unescape_def bs_def dq_def)
    then show ?thesis using escByte_short by blast
  next
    case 2
    then have "escByte c = [bs, CHR ''u'', CHR ''0'', CHR ''0'', hexDigitChar (byte c div 16), hexDigitChar (byte c mod 16)]"
      unfolding escByte_def by simp
    then show ?thesis using unquote_u00 [OF assms] by simp
  next
    case 3
    then have "escByte c = [c]" unfolding escByte_def by simp
    with 3 show ?thesis using assms by (simp add: unquote_plain)
  qed
qed

lemma unquote_long:
  assumes "runeLen (w @ t) = length w" "w = c # v" "128 \<le> byte c"
  shows "unquote (w @ t) = map_option (apfst ((@) w)) (unquote t)"
proof -
  have "c \<noteq> dq" "c \<noteq> bs" using assms(3) by (auto simp: dq_def bs_def)
  with assms show ?thesis by (simp add: unquote.simps(2) Let_def)
qed

lemma jsonEsc_long:
  assumes "runeLen (w @ t) = length w" "1 < length w"
  shows "jsonEsc (w @ t) = w @ jsonEsc t \<or>
    (w = [CHR 0xE2, CHR 0x80, CHR 0xA8] \<and> jsonEsc (w @ t) = [bs] @ ''u2028'' @ jsonEsc t) \<or>
    (w = [CHR 0xE2, CHR 0x80, CHR 0xA9] \<and> jsonEsc (w @ t) = [bs] @ ''u2029'' @ jsonEsc t)"
proof (cases "length w = 3")
  case True
  then obtain x y z where w: "w = [x, y, z]" by (auto simp: numeral_3_eq_3 length_Suc_conv)
  have "jsonEsc (w @ t) =
      (if x = CHR 0xE2 \<and> y = CHR 0x80 \<and> z = CHR 0xA8 then [bs] @ ''u2028'' @ jsonEsc t
       else if x = CHR 0xE2 \<and> y = CHR 0x80 \<and> z = CHR 0xA9 then [bs] @ ''u2029'' @ jsonEsc t
       else w @ jsonEsc t)"
    using assms(1) unfolding w by (subst jsonEsc.simps) (simp add: Let_def)
  then show ?thesis by (simp add: w split: if_splits)
next
  case False
  then have "jsonEsc (w @ t) = w @ jsonEsc t"
    using assms by (subst jsonEsc.simps) (auto simp: Let_def)
  then show ?thesis by simp
qed

lemma unquote_rune_step:
  assumes "runeLen (w @ t) = length w" "w = c # v" "v \<noteq> []" "128 \<le> byte c"
    and "unquote (jsonEsc t @ dq # rest) = Some (t, rest)"
    and "runeLen (w @ jsonEsc t @ dq # rest) = length w"
  shows "unquote (jsonEsc (w @ t) @ dq # rest) = Some (w @ t, rest)"
proof -
  let ?r = "jsonEsc t @ dq # rest"
  have sep: "unquote (bs # CHR ''u'' # CHR ''2'' # CHR ''0'' # CHR ''2'' # d # ?r) = Some (w @ t, rest)"
    if "(d, w) \<in> {(CHR ''8'', [CHR 0xE2, CHR 0x80, CHR 0xA8]), (CHR ''9'', [CHR 0xE2, CHR 0x80, CHR 0xA9])}" for d
  proof -
    have "hex4 (CHR ''2'' # CHR ''0'' # CHR ''2'' # CHR ''8'' # ?r) = Some (8232, ?r)"
      "hex4 (CHR ''2'' # CHR ''0'' # CHR ''2'' # CHR ''9'' # ?r) = Some (8233, ?r)"
      by (simp_all add: isHexDigit_def isDigit_def hexVal_def digitVal_def)
    moreover have "utf8Encode 8232 = [CHR 0xE2, CHR 0x80, CHR 0xA8]" "utf8Encode 8233 = [CHR 0xE2, CHR 0x80, CHR 0xA9]"
      by (simp_all add: utf8Encode_def char_of_def bit_Suc_0_iff)
    ultimately show ?thesis
      using that assms(5) unquote_u [of "CHR ''2'' # CHR ''0'' # CHR ''2'' # CHR ''8'' # ?r" 8232 ?r]
        unquote_u [of "CHR ''2'' # CHR ''0'' # CHR ''2'' # CHR ''9'' # ?r" 8233 ?r] by auto
  qed
  have "1 < length w" using assms(2,3) by (cases v) auto
  from jsonEsc_long [OF assms(1) this] show ?thesis
  proof (elim disjE conjE)
    assume "jsonEsc (w @ t) = w @ jsonEsc t"
    then show ?thesis using unquote_long [OF assms(6,2,4)] assms(5) by simp
  qed (use sep [of "CHR ''8''"] sep [of "CHR ''9''"] in simp_all)
qed

lemma unquote_jsonEsc: "utf8_Valid s \<Longrightarrow> unquote (jsonEsc s @ dq # rest) = Some (s, rest)"
proof (induction s rule: length_induct)
  case (1 s)
  show ?case
  proof (cases "s = []")
    case True
    then show ?thesis by (simp add: jsonEsc.simps unquote.simps(2))
  next
    case False
    from 1(2) False show ?thesis
    proof (cases rule: utf8_Valid_cases)
      case (one a t)
      have "jsonEsc s = escByte a @ jsonEsc t"
        using one by (subst jsonEsc.simps) (simp add: runeLen_shapes Let_def)
      then show ?thesis using one 1(1) by (simp add: unquote_escByte)
    next
      case (two a b t)
      then show ?thesis using 1(1) rune_first(1) [of a b]
        unquote_rune_step [of "[a, b]" t a "[b]" rest] by (simp add: runeLen_shapes)
    next
      case (three a b c t)
      then show ?thesis using 1(1) rune_first(2) [of a b c]
        unquote_rune_step [of "[a, b, c]" t a "[b, c]" rest] by (simp add: runeLen_shapes)
    next
      case (four a b c d t)
      then show ?thesis using 1(1) rune_first(3) [of a b c d]
        unquote_rune_step [of "[a, b, c, d]" t a "[b, c, d]" rest] by (simp add: runeLen_shapes)
    qed
  qed
qed

lemma skipWs_id: "\<not> jsonWs c \<Longrightarrow> skipWs (c # s) = c # s"
  by (simp add: skipWs_def)

lemma jsonWs_simps [simp]: "\<not> jsonWs dq" "\<not> jsonWs (CHR ''['')" "\<not> jsonWs (CHR '']'')" "\<not> jsonWs (CHR '','')"
  by (simp_all add: jsonWs_def dq_def)

lemma decodeElems_Join:
  assumes "xs \<noteq> []" "\<forall>x \<in> set xs. utf8_Valid x"
  shows "decodeElems (strings_Join (map jsonString xs) '','' @ CHR '']'' # rest) = Some (xs, rest)"
  using assms
proof (induction xs rule: induct_list012)
  case (2 x)
  then show ?case
    by (simp add: decodeElems.simps jsonString_def skipWs_id decodeElem_def unquote_jsonEsc)
next
  case (3 x y xs)
  have "decodeElem (dq # jsonEsc x @ dq # r) = Some (x, r)" for r
    using 3 by (simp add: decodeElem_def unquote_jsonEsc)
  then show ?case
    using 3 by (subst decodeElems.simps) (simp add: jsonString_def [of x] skipWs_id)
qed simp

lemma decodeStrings_jsonArray:
  assumes "\<forall>x \<in> set xs. utf8_Valid x"
  shows "decodeStrings (jsonArray (map jsonString xs)) = Some xs"
proof (cases xs)
  case Nil
  then show ?thesis by (simp add: decodeStrings_def jsonArray_def skipWs_id skipWs_def)
next
  case (Cons x ys)
  then have "skipWs (strings_Join (map jsonString xs) '','' @ '']'') \<noteq> []"
    "hd (skipWs (strings_Join (map jsonString xs) '','' @ '']'')) = dq"
    by (cases ys; simp add: jsonString_def skipWs_id)+
  moreover have "dq \<noteq> CHR '']''" by (simp add: dq_def)
  ultimately show ?thesis
    using decodeElems_Join [of xs "[]"] assms Cons
    by (auto simp: decodeStrings_def jsonArray_def skipWs_id Let_def skipWs_def [of "[]"] split: list.split)
qed

end
