(* ===== verification/Go_Json_Value.thy ===== *)
theory Go_Json_Value
  imports Go_Json_Decode
begin

text \<open>
  What the program uses of \<^verbatim>\<open>json.Unmarshal\<close> beyond lists of strings: a text is checked and read as a
  value first, then stored field by field. String literals are those of \<open>Go_Json_Decode\<close>; numbers
  keep their text. The lemmas show that reading undoes the encoder of \<open>Go_Json\<close>.
\<close>

datatype jval =
    JvNull
  | JvBool bool
  | JvNum string
  | JvStr string
  | JvArr "jval list"
  | JvObj "(string \<times> jval) list"

section \<open>Scalars\<close>

text \<open>One digit at least, then the rest of the run.\<close>

definition digitRun :: "string \<Rightarrow> (string \<times> string) option" where
  "digitRun s = (case takeWhile isDigit s of [] \<Rightarrow> None | ds \<Rightarrow> Some (ds, dropWhile isDigit s))"

definition numberInt :: "string \<Rightarrow> (string \<times> string) option" where
  "numberInt s = (if s \<noteq> [] \<and> hd s = CHR ''0'' then Some (''0'', tl s) else digitRun s)"

definition numberFrac :: "string \<Rightarrow> (string \<times> string) option" where
  "numberFrac s =
     (if s \<noteq> [] \<and> hd s = CHR ''.'' then map_option (apfst (Cons (CHR ''.''))) (digitRun (tl s)) else Some ([], s))"

definition numberExp :: "string \<Rightarrow> (string \<times> string) option" where
  "numberExp s =
     (case s of
        e # t \<Rightarrow>
          if e = CHR ''e'' \<or> e = CHR ''E'' then
            (case t of
               g # u \<Rightarrow> if g = CHR ''+'' \<or> g = CHR ''-'' then map_option (apfst (\<lambda>ds. e # g # ds)) (digitRun u)
                         else map_option (apfst (Cons e)) (digitRun t)
             | [] \<Rightarrow> None)
          else Some ([], s)
      | [] \<Rightarrow> Some ([], s))"

definition jsonNumber :: "string \<Rightarrow> (string \<times> string) option" where
  "jsonNumber s =
     (let (sign, t) = (if s \<noteq> [] \<and> hd s = CHR ''-'' then (''-'', tl s) else ([], s))
      in case numberInt t of
           None \<Rightarrow> None
         | Some (a, t1) \<Rightarrow>
             (case numberFrac t1 of
                None \<Rightarrow> None
              | Some (b, t2) \<Rightarrow> map_option (apfst (\<lambda>e. sign @ a @ b @ e)) (numberExp t2)))"

definition jsonScalar :: "string \<Rightarrow> (jval \<times> string) option" where
  "jsonScalar s =
     (if strings_HasPrefix s ''null'' then Some (JvNull, drop 4 s)
      else if strings_HasPrefix s ''true'' then Some (JvBool True, drop 4 s)
      else if strings_HasPrefix s ''false'' then Some (JvBool False, drop 5 s)
      else map_option (apfst JvNum) (jsonNumber s))"

lemma digitRun_shorter: "digitRun s = Some (x, r) \<Longrightarrow> length r < length s"
proof -
  assume "digitRun s = Some (x, r)"
  then have "takeWhile isDigit s \<noteq> []" "r = dropWhile isDigit s" by (auto simp: digitRun_def split: list.splits)
  then show ?thesis by (cases s) (auto simp: length_dropWhile_le le_imp_less_Suc split: if_splits)
qed

lemma numberInt_shorter: "numberInt s = Some (x, r) \<Longrightarrow> length r < length s"
  by (cases s) (auto simp: numberInt_def split: if_splits dest: digitRun_shorter)

lemma numberFrac_shorter: "numberFrac s = Some (x, r) \<Longrightarrow> length r \<le> length s"
  by (cases s) (auto simp: numberFrac_def split: if_splits dest: digitRun_shorter)

lemma numberExp_shorter: "numberExp s = Some (x, r) \<Longrightarrow> length r \<le> length s"
  by (auto simp: numberExp_def split: list.splits if_splits dest: digitRun_shorter)

lemma jsonNumber_shorter: "jsonNumber s = Some (x, r) \<Longrightarrow> length r < length s"
  by (cases s) (auto simp: jsonNumber_def split: if_splits option.splits
      dest!: numberInt_shorter numberFrac_shorter numberExp_shorter)

lemma jsonScalar_shorter:
  assumes "jsonScalar s = Some (v, r)"
  shows "length r < length s"
proof -
  have "s \<noteq> [] \<and> (r = drop 4 s \<or> r = drop 5 s) \<or> (\<exists>x. jsonNumber s = Some (x, r))"
    using assms by (auto simp: jsonScalar_def strings_HasPrefix_def split: if_splits)
  then show ?thesis by (auto dest: jsonNumber_shorter)
qed

section \<open>Values\<close>

text \<open>The decoder refuses texts nested deeper than this.\<close>

definition maxNestingDepth :: nat where
  "maxNestingDepth = 10000"

text \<open>\<open>jsonElems\<close> and \<open>jsonMembers\<close> read what follows the opening bracket of a non-empty array or object,
  up to its end.\<close>

function (sequential) jsonValue :: "nat \<Rightarrow> string \<Rightarrow> (jval \<times> string) option"
  and jsonElems :: "nat \<Rightarrow> string \<Rightarrow> (jval list \<times> string) option"
  and jsonMembers :: "nat \<Rightarrow> string \<Rightarrow> ((string \<times> jval) list \<times> string) option" where
  "jsonValue d s =
     (case skipWs s of
        [] \<Rightarrow> None
      | c # t \<Rightarrow>
          if c = dq then map_option (apfst JvStr) (unquote t)
          else if c = CHR ''['' then
            (if maxNestingDepth \<le> d then None
             else if skipWs t \<noteq> [] \<and> hd (skipWs t) = CHR '']'' then Some (JvArr [], tl (skipWs t))
             else map_option (apfst JvArr) (jsonElems (Suc d) t))
          else if c = CHR ''{'' then
            (if maxNestingDepth \<le> d then None
             else if skipWs t \<noteq> [] \<and> hd (skipWs t) = CHR ''}'' then Some (JvObj [], tl (skipWs t))
             else map_option (apfst JvObj) (jsonMembers (Suc d) t))
          else jsonScalar (c # t))"
| "jsonElems d s =
     (case jsonValue d s of
        None \<Rightarrow> None
      | Some (v, r) \<Rightarrow>
          (case skipWs r of
             [] \<Rightarrow> None
           | c # r' \<Rightarrow> if c = CHR '']'' then Some ([v], r')
                       else if c = CHR '','' then map_option (apfst (Cons v)) (jsonElems d r')
                       else None))"
| "jsonMembers d s =
     (case skipWs s of
        [] \<Rightarrow> None
      | q # t \<Rightarrow>
          (case (if q = dq then unquote t else None) of
             None \<Rightarrow> None
           | Some (k, r) \<Rightarrow>
               (case skipWs r of
                  [] \<Rightarrow> None
                | col # r1 \<Rightarrow>
                    (case (if col = CHR '':'' then jsonValue d r1 else None) of
                       None \<Rightarrow> None
                     | Some (v, r2) \<Rightarrow>
                         (case skipWs r2 of
                            [] \<Rightarrow> None
                          | c # r' \<Rightarrow> if c = CHR ''}'' then Some ([(k, v)], r')
                                      else if c = CHR '','' then map_option (apfst (Cons (k, v))) (jsonMembers d r')
                                      else None)))))"
  by pat_completeness auto

lemma skipWs_Cons_shorter: "skipWs s = c # t \<Longrightarrow> length t < length s"
  using skipWs_shorter [of s] by simp

lemma jsonValue_shorter:
  "jsonValue_jsonElems_jsonMembers_dom (Inl (d, s)) \<Longrightarrow> jsonValue d s = Some (v, r) \<Longrightarrow> length r < length s"
  "jsonValue_jsonElems_jsonMembers_dom (Inr (Inl (d, s))) \<Longrightarrow> jsonElems d s = Some (vs, r) \<Longrightarrow> length r < length s"
  "jsonValue_jsonElems_jsonMembers_dom (Inr (Inr (d, s))) \<Longrightarrow> jsonMembers d s = Some (ms, r) \<Longrightarrow> length r < length s"
proof (induction d s and d s and d s arbitrary: v r and vs r and ms r rule: jsonValue_jsonElems_jsonMembers.pinduct)
  case (1 d s)
  show ?case
  proof (cases "skipWs s")
    case Nil
    then show ?thesis using 1 by (simp add: jsonValue.psimps)
  next
    case (Cons c t)
    have t: "length t < length s" using skipWs_Cons_shorter [OF Cons] .
    have tl: "length (tl (skipWs t)) \<le> length t" using skipWs_shorter [of t] by simp
    show ?thesis
      using 1 t tl Cons
      by (fastforce simp: jsonValue.psimps map_apfst_Some split: if_splits dest: unquote_shorter jsonScalar_shorter)
  qed
next
  case (2 d s)
  then show ?case
    by (fastforce simp: jsonElems.psimps split: option.splits list.splits if_splits dest: skipWs_Cons_shorter)
next
  case (3 d s)
  then show ?case
    by (fastforce simp: jsonMembers.psimps split: option.splits list.splits if_splits
        dest: skipWs_Cons_shorter unquote_shorter)
qed

termination jsonValue
  by (relation "measure (\<lambda>x. case x of Inl (d, s) \<Rightarrow> 2 * length s
      | Inr (Inl (d, s)) \<Rightarrow> 2 * length s + 1 | Inr (Inr (d, s)) \<Rightarrow> 2 * length s + 1)")
    (auto dest!: skipWs_Cons_shorter unquote_shorter jsonValue_shorter split: if_splits)

declare jsonValue.simps [simp del] jsonElems.simps [simp del] jsonMembers.simps [simp del]

definition jsonDecode :: "string \<Rightarrow> jval option" where
  "jsonDecode s =
     (case jsonValue 0 s of
        None \<Rightarrow> None
      | Some (v, r) \<Rightarrow> if skipWs r = [] then Some v else None)"

section \<open>Reading what the encoder wrote\<close>

text \<open>\<open>writes d tx v\<close>: at nesting depth \<open>d\<close> the text is read as the value, whatever follows it.\<close>

definition writes :: "nat \<Rightarrow> string \<Rightarrow> jval \<Rightarrow> bool" where
  "writes d tx v \<longleftrightarrow> tx \<noteq> [] \<and> \<not> jsonWs (hd tx) \<and> hd tx \<noteq> CHR '']'' \<and> (\<forall>rest. jsonValue d (tx @ rest) = Some (v, rest))"

lemma jsonWs_object [simp]: "\<not> jsonWs (CHR ''{'')" "\<not> jsonWs (CHR ''}'')" "\<not> jsonWs (CHR '':'')"
  by (simp_all add: jsonWs_def)

lemma writes_jsonString: "utf8_Valid s \<Longrightarrow> writes d (jsonString s) (JvStr s)"
  by (simp add: writes_def jsonString_def jsonValue.simps skipWs_id unquote_jsonEsc) (simp add: dq_def)

lemma jsonElems_Join:
  assumes "xs \<noteq> []" "\<forall>x \<in> set xs. writes d (enc x) (val x)"
  shows "jsonElems d (strings_Join (map enc xs) '','' @ CHR '']'' # rest) = Some (map val xs, rest)"
  using assms
proof (induction xs rule: induct_list012)
  case (2 x)
  then show ?case by (simp add: jsonElems.simps writes_def skipWs_id)
next
  case (3 x y xs)
  have "jsonValue d (enc x @ r) = Some (val x, r)" for r using 3 by (simp add: writes_def)
  then show ?case using 3 by (subst jsonElems.simps) (simp add: skipWs_id)
qed simp

lemma hd_Join: "xs \<noteq> [] \<Longrightarrow> hd xs \<noteq> [] \<Longrightarrow> strings_Join xs sep \<noteq> [] \<and> hd (strings_Join xs sep) = hd (hd xs)"
  by (induction xs sep rule: strings_Join.induct) simp_all

lemma skipWs_hd: "s \<noteq> [] \<Longrightarrow> \<not> jsonWs (hd s) \<Longrightarrow> skipWs s = s"
  by (cases s) (simp_all add: skipWs_id)

lemma writes_jsonArray:
  assumes "\<forall>x \<in> set xs. writes (Suc d) (enc x) (val x)" "d < maxNestingDepth"
  shows "writes d (jsonArray (map enc xs)) (JvArr (map val xs))"
proof -
  have "jsonValue d (jsonArray (map enc xs) @ rest) = Some (JvArr (map val xs), rest)" for rest
  proof (cases "xs = []")
    case True
    then show ?thesis using assms(2) by (simp add: jsonArray_def jsonValue.simps skipWs_id dq_def)
  next
    case False
    let ?t = "strings_Join (map enc xs) '','' @ CHR '']'' # rest"
    have "writes (Suc d) (enc (hd xs)) (val (hd xs))" using False assms(1) by simp
    then have "strings_Join (map enc xs) '','' \<noteq> []" "hd (strings_Join (map enc xs) '','') = hd (enc (hd xs))"
      "\<not> jsonWs (hd (enc (hd xs)))" "hd (enc (hd xs)) \<noteq> CHR '']''"
      using False hd_Join [of "map enc xs"] by (auto simp: writes_def hd_map)
    then have "skipWs ?t = ?t" "?t \<noteq> []" "hd ?t \<noteq> CHR '']''" by (simp_all add: skipWs_hd)
    then show ?thesis
      using jsonElems_Join [OF False assms(1), of rest] assms(2)
      by (simp add: jsonArray_def jsonValue.simps [of d] skipWs_id dq_def)
  qed
  then show ?thesis by (simp add: writes_def jsonArray_def)
qed

text \<open>Members: key, text of the value and value.\<close>

lemma jsonMembers_Join:
  assumes "ms \<noteq> []" "\<forall>(k, tx, v) \<in> set ms. utf8_Valid k \<and> writes d tx v"
  shows "jsonMembers d (strings_Join (map (\<lambda>(k, tx, v). jsonString k @ '':'' @ tx) ms) '','' @ CHR ''}'' # rest)
    = Some (map (\<lambda>(k, tx, v). (k, v)) ms, rest)"
  using assms
proof (induction ms rule: induct_list012)
  case (2 m)
  obtain k tx v where "m = (k, tx, v)" by (cases m)
  with 2 show ?case
    by (simp add: jsonMembers.simps writes_def jsonString_def skipWs_id unquote_jsonEsc)
next
  case (3 m m' ms)
  obtain k tx v where m: "m = (k, tx, v)" by (cases m)
  then have "jsonValue d (tx @ r) = Some (v, r)" for r using 3 by (simp add: writes_def)
  then show ?case
    using 3 m by (subst jsonMembers.simps) (simp add: jsonString_def skipWs_id unquote_jsonEsc)
qed simp

lemma writes_jsonObject:
  assumes "ms \<noteq> []" "\<forall>(k, tx, v) \<in> set ms. utf8_Valid k \<and> writes (Suc d) tx v" "d < maxNestingDepth"
  shows "writes d (jsonObject (map (\<lambda>(k, tx, v). (k, tx)) ms)) (JvObj (map (\<lambda>(k, tx, v). (k, v)) ms))"
proof -
  let ?t = "\<lambda>rest. strings_Join (map (\<lambda>(k, tx, v). jsonString k @ '':'' @ tx) ms) '','' @ CHR ''}'' # rest"
  have obj: "jsonObject (map (\<lambda>(k, tx, v). (k, tx)) ms) @ rest = CHR ''{'' # ?t rest" for rest
    by (simp add: jsonObject_def o_def case_prod_unfold)
  have "?t rest \<noteq> []" "hd (?t rest) = dq" for rest
    using assms(1) hd_Join [of "map (\<lambda>(k, tx, v). jsonString k @ '':'' @ tx) ms"]
    by (auto simp: hd_map jsonString_def case_prod_unfold)
  then have "skipWs (?t rest) = ?t rest" "hd (?t rest) = dq" for rest by (simp_all add: skipWs_hd)
  then have "jsonValue d (jsonObject (map (\<lambda>(k, tx, v). (k, tx)) ms) @ rest) = Some (JvObj (map (\<lambda>(k, tx, v). (k, v)) ms), rest)" for rest
    using jsonMembers_Join [OF assms(1,2), of rest] assms(3)
    unfolding obj by (simp add: jsonValue.simps [of d] skipWs_id dq_def)
  then show ?thesis by (simp add: writes_def jsonObject_def)
qed

lemma jsonDecode_writes: "writes 0 tx v \<Longrightarrow> jsonDecode tx = Some v"
proof -
  assume "writes 0 tx v"
  then have "jsonValue 0 (tx @ []) = Some (v, [])" unfolding writes_def by blast
  then show ?thesis by (simp add: jsonDecode_def skipWs_def)
qed

end
