(* ===== verification/Api_Stored.thy ===== *)
theory Api_Stored
  imports Api_Queries Api_Serialize Writer Go_Json_Value
begin

text \<open>
  The two reads of \<^verbatim>\<open>api/queries.go\<close> that decode what the writer encoded: the verdicts of
  \<^verbatim>\<open>rtpmon_call_health\<close> (JSON) and the recordings of \<^verbatim>\<open>rtpmon_audio\<close> (base64). \<open>healthAnswer\<close> and
  \<open>audioAnswer\<close> are the answers of SQLite to the two statements over the tables of \<open>Store\<close>. The lemmas
  show that what the writer stores is what the API reads.
\<close>

section \<open>Call health\<close>

record call_verdict =
  v_Timestamp :: int
  v_StreamCount :: int
  v_Warnings :: "call_health_warning list"

text \<open>Keys match the names of the fields without regard to case; beside ASCII, U+017F folds to s and
  U+212A to k.\<close>

fun foldKey :: "string \<Rightarrow> string" where
  "foldKey [] = []"
| "foldKey (c # s) =
     (if c = CHR 0xC5 \<and> s \<noteq> [] \<and> hd s = CHR 0xBF then CHR ''s'' # foldKey (tl s)
      else if c = CHR 0xE2 \<and> take 2 s = [CHR 0x84, CHR 0xAA] then CHR ''k'' # foldKey (drop 2 s)
      else lowerByte c # foldKey s)"

fun decodeString :: "string \<Rightarrow> jval \<Rightarrow> string option" where
  "decodeString old JvNull = Some old"
| "decodeString old (JvStr s) = Some s"
| "decodeString old _ = None"

fun decodeList :: "jval \<Rightarrow> string list option" where
  "decodeList JvNull = Some []"
| "decodeList (JvArr vs) = those (map (decodeString []) vs)"
| "decodeList _ = None"

fun decodeField :: "string \<times> jval \<Rightarrow> call_health_warning \<Rightarrow> call_health_warning option" where
  "decodeField (k, v) x =
     (let key = foldKey k
      in if key = ''code'' then map_option (\<lambda>s. x\<lparr>WarnCode := s\<rparr>) (decodeString (WarnCode x) v)
         else if key = ''tag'' then map_option (\<lambda>s. x\<lparr>WarnTag := s\<rparr>) (decodeString (WarnTag x) v)
         else if key = ''explanation'' then map_option (\<lambda>s. x\<lparr>Explanation := s\<rparr>) (decodeString (Explanation x) v)
         else if key = ''stream_ids'' then map_option (\<lambda>ss. x\<lparr>StreamIDs := ss\<rparr>) (decodeList v)
         else Some x)"

definition noWarning :: call_health_warning where
  "noWarning = \<lparr>WarnCode = [], WarnTag = [], Explanation = [], StreamIDs = []\<rparr>"

fun decodeWarning :: "jval \<Rightarrow> call_health_warning option" where
  "decodeWarning JvNull = Some noWarning"
| "decodeWarning (JvObj ms) = fold (\<lambda>m x. Option.bind x (decodeField m)) ms (Some noWarning)"
| "decodeWarning _ = None"

text \<open>A syntax error or a value of another type leaves no warnings.\<close>

definition decodeWarnings :: "string \<Rightarrow> call_health_warning list" where
  "decodeWarnings s =
     (case jsonDecode s of
        Some (JvArr vs) \<Rightarrow> (case those (map decodeWarning vs) of Some ws \<Rightarrow> ws | None \<Rightarrow> [])
      | _ \<Rightarrow> [])"

definition verdictOf :: "valmap \<Rightarrow> call_verdict" where
  "verdictOf r = \<lparr>v_Timestamp = getI64 r ''event_timestamp'', v_StreamCount = getI64 r ''stream_count'',
     v_Warnings = decodeWarnings (getStr r ''warnings'')\<rparr>"

definition GetCallHealth :: "(statement \<Rightarrow> 'e + valmap list) \<Rightarrow> string list \<Rightarrow> 'e + (string \<rightharpoonup> call_verdict)" where
  "GetCallHealth run callIDs =
     (if callIDs = [] then Inr Map.empty
      else map_sum id (\<lambda>rows. fold (\<lambda>r out. out(getStr r ''call_id'' \<mapsto> verdictOf r)) rows Map.empty)
             (run (callHealthStmt callIDs)))"

definition warningJSON :: "call_health_warning \<Rightarrow> json" where
  "warningJSON x = JObj [(''code'', JStr (WarnCode x)), (''tag'', JStr (WarnTag x)),
     (''explanation'', JStr (Explanation x)), (''stream_ids'', JList (map JStr (StreamIDs x)))]"

definition CallHealthToJSON :: "call_verdict option \<Rightarrow> json" where
  "CallHealthToJSON h =
     (case h of
        None \<Rightarrow> JNull
      | Some v \<Rightarrow> JObj [(''timestamp'', JInt (v_Timestamp v)), (''stream_count'', JInt (v_StreamCount v)),
                        (''warnings'', JList (map warningJSON (v_Warnings v)))])"

section \<open>Recordings\<close>

text \<open>NULL, empty and undecodable recordings are skipped.\<close>

definition audioChunk :: "valmap \<Rightarrow> string list" where
  "audioChunk r =
     (let encoded = getStr r ''audio_wav''
      in if encoded = [] then []
         else case base64_Decode stdAlphabet encoded of None \<Rightarrow> [] | Some wav \<Rightarrow> [wav])"

definition GetStreamAudioChunks :: "(statement \<Rightarrow> 'e + valmap list) \<Rightarrow> string \<Rightarrow> 'e + string list" where
  "GetStreamAudioChunks run linkID = map_sum id (\<lambda>rows. concat (map audioChunk rows)) (run (audioChunksStmt linkID))"

section \<open>The answers of the database\<close>

definition healthCols :: "health_row \<Rightarrow> valmap" where
  "healthCols h = map_of [(''call_id'', VStr (h_call_id h)), (''event_timestamp'', VInt (word_of_int (h_event_timestamp h))),
     (''stream_count'', VInt (word_of_int (h_stream_count h))), (''warnings'', VStr (h_warnings h))]"

definition healthAnswer :: "db \<Rightarrow> string list \<Rightarrow> valmap list" where
  "healthAnswer d callIDs =
     map healthCols (sort_key h_id (filter (\<lambda>h. h_call_id h \<in> set callIDs) (rtpmon_call_health d)))"

definition joinedAudio :: "db \<Rightarrow> string \<Rightarrow> audio_row list" where
  "joinedAudio d linkID =
     concat (map (\<lambda>a. map (\<lambda>_. a) (filter (\<lambda>r. s_stream_id r = a_stream_id a \<and> s_link_id r = linkID) (rtpmon_streams d)))
       (rtpmon_audio d))"

definition audioAnswer :: "db \<Rightarrow> string \<Rightarrow> valmap list" where
  "audioAnswer d linkID =
     map (\<lambda>a. map_of [(''audio_wav'', VStr (a_audio_wav a))])
       (sort_key a_start_timestamp (sort_key a_id (joinedAudio d linkID)))"

text \<open>\<open>run\<close> answers the two statements from the tables \<open>d\<close>.\<close>

definition answersFrom :: "db \<Rightarrow> (statement \<Rightarrow> 'e + valmap list) \<Rightarrow> bool" where
  "answersFrom d run \<longleftrightarrow> (\<forall>ids. run (callHealthStmt ids) = Inr (healthAnswer d ids))
     \<and> (\<forall>link. run (audioChunksStmt link) = Inr (audioAnswer d link))"

text \<open>A new row id is above every id of the table.\<close>

definition ascending :: "(int list \<Rightarrow> int) \<Rightarrow> bool" where
  "ascending fresh \<longleftrightarrow> (\<forall>ids. \<forall>i \<in> set ids. i < fresh ids)"

section \<open>What is stored is what is read\<close>

lemma insort_key_append_last: "f y \<le> f x \<Longrightarrow> insort_key f y (xs @ [x]) = insort_key f y xs @ [x]" for f :: "'a \<Rightarrow> int"
  by (induction xs) auto

lemma sort_key_append_last:
  "\<forall>y \<in> set xs. f y \<le> f x \<Longrightarrow> sort_key f (xs @ [x]) = sort_key f xs @ [x]" for f :: "'a \<Rightarrow> int"
  by (induction xs) (simp_all add: insort_key_append_last)

lemma ascending_le: "ascending fresh \<Longrightarrow> x \<in> set xs \<Longrightarrow> f x \<le> fresh (map f xs)"
  unfolding ascending_def by (metis imageI less_imp_le list.set_map)

definition warningOk :: "call_health_warning \<Rightarrow> bool" where
  "warningOk x \<longleftrightarrow> utf8_Valid (WarnCode x) \<and> utf8_Valid (WarnTag x) \<and> utf8_Valid (Explanation x) \<and> list_all utf8_Valid (StreamIDs x)"

definition warningVal :: "call_health_warning \<Rightarrow> jval" where
  "warningVal x = JvObj [(''code'', JvStr (WarnCode x)), (''tag'', JvStr (WarnTag x)),
     (''explanation'', JvStr (Explanation x)), (''stream_ids'', JvArr (map JvStr (StreamIDs x)))]"

lemma utf8_keys: "utf8_Valid ''code''" "utf8_Valid ''tag''" "utf8_Valid ''explanation''" "utf8_Valid ''stream_ids''"
  by (code_simp, code_simp, code_simp, code_simp)

lemma foldKey_keys: "foldKey ''code'' = ''code''" "foldKey ''tag'' = ''tag''" "foldKey ''explanation'' = ''explanation''"
  "foldKey ''stream_ids'' = ''stream_ids''"
  by (code_simp, code_simp, code_simp, code_simp)

lemma writes_warning:
  assumes "warningOk x" "Suc d < maxNestingDepth"
  shows "writes d (warningJson x) (warningVal x)"
proof -
  have ids: "writes (Suc d) (jsonArray (map jsonString (StreamIDs x))) (JvArr (map JvStr (StreamIDs x)))"
    using assms by (intro writes_jsonArray) (auto simp: warningOk_def list_all_iff writes_jsonString)
  let ?ms = "[(''code'', jsonString (WarnCode x), JvStr (WarnCode x)), (''tag'', jsonString (WarnTag x), JvStr (WarnTag x)),
     (''explanation'', jsonString (Explanation x), JvStr (Explanation x)),
     (''stream_ids'', jsonArray (map jsonString (StreamIDs x)), JvArr (map JvStr (StreamIDs x)))]"
  have "writes d (jsonObject (map (\<lambda>(k, tx, v). (k, tx)) ?ms)) (JvObj (map (\<lambda>(k, tx, v). (k, v)) ?ms))"
    using assms ids by (intro writes_jsonObject) (auto simp: warningOk_def writes_jsonString utf8_keys)
  then show ?thesis by (simp add: warningJson_def warningVal_def)
qed

lemma those_Some: "those (map Some xs) = Some xs"
  by (induction xs) simp_all

lemma decodeWarning_val: "decodeWarning (warningVal x) = Some x"
  by (simp add: warningVal_def foldKey_keys noWarning_def those_Some o_def del: foldKey.simps)

lemma decodeWarnings_written:
  assumes "list_all warningOk ws"
  shows "decodeWarnings (jsonArray (map warningJson ws)) = ws"
proof -
  have "writes 0 (jsonArray (map warningJson ws)) (JvArr (map warningVal ws))"
    using assms by (intro writes_jsonArray) (auto simp: list_all_iff maxNestingDepth_def intro!: writes_warning)
  then show ?thesis
    by (simp add: decodeWarnings_def jsonDecode_writes o_def decodeWarning_val those_Some)
qed

definition verdict :: "call_health \<Rightarrow> call_verdict" where
  "verdict e = \<lparr>v_Timestamp = sint (HealthTimestamp e), v_StreamCount = sint (StreamCount e), v_Warnings = Warnings e\<rparr>"

lemma AddCallHealth_tables:
  assumes "AddCallHealth fresh e w = (Inr (), w')"
  shows "tables w' = fst (insertHealth fresh e (jsonArray (map warningJson (Warnings e))) (tables w))"
  by (cases rule: atomicE [OF atomic_exec, of "insertHealth fresh e (jsonArray (map warningJson (Warnings e)))" w])
     (use assms in \<open>auto simp: AddCallHealth_def\<close>)

lemma healthAnswer_insert:
  assumes "ascending fresh"
  shows "healthAnswer (fst (insertHealth fresh e js d)) ids = healthAnswer d ids @
    (if HealthCallID e \<in> set ids
     then [healthCols \<lparr>h_id = fresh (map h_id (rtpmon_call_health d)), h_call_id = HealthCallID e,
             h_event_timestamp = sint (HealthTimestamp e), h_stream_count = sint (StreamCount e), h_warnings = js\<rparr>]
     else [])"
proof -
  have "\<forall>h \<in> set (filter (\<lambda>h. h_call_id h \<in> set ids) (rtpmon_call_health d)). h_id h \<le> fresh (map h_id (rtpmon_call_health d))"
    using ascending_le [OF assms] by auto
  then show ?thesis by (simp add: healthAnswer_def insertHealth_def sort_key_append_last)
qed

section \<open>An example\<close>

definition nextId :: "int list \<Rightarrow> int" where
  "nextId ids = fold max ids 0 + 1"

lemma nextId_ascending: "ascending nextId"
proof -
  have "nextId ids = Max (insert 0 (set ids)) + 1" for ids
    using Max.set_eq_fold [of 0 ids] by (simp add: nextId_def)
  then show ?thesis by (simp add: ascending_def less_add_one [THEN le_less_trans [rotated]])
qed

definition tableRun :: "db \<Rightarrow> statement \<Rightarrow> unit + valmap list" where
  "tableRun d st =
     (let strs = map (\<lambda>a. case a of AStr s \<Rightarrow> s | _ \<Rightarrow> []) (args st)
      in Inr (if take 8 (sql st) = ''select r'' then audioAnswer d (hd strs) else healthAnswer d strs))"

lemma tableRun_answers: "answersFrom d (tableRun d)"
  by (auto simp: answersFrom_def tableRun_def Let_def callHealthStmt_def audioChunksStmt_def o_def)

lemma exec_calm: "script s = [] \<Longrightarrow> exec stmt s = (Inr (snd (stmt (tables s))), s\<lparr>tables := fst (stmt (tables s))\<rparr>)"
  by (simp add: exec_def busyRetryDelays_def attempt_def split_beta)

definition demoHealth :: call_health where
  "demoHealth = \<lparr>HealthCallID = ''c1'', HealthTimestamp = 7, StreamCount = 2,
     Warnings = [\<lparr>WarnCode = ''one_way_audio'', WarnTag = ''1-way'', Explanation = ''no \"reply\"'', StreamIDs = [''a'', ''b'']\<rparr>]\<rparr>"

definition demoStreams :: db where
  "demoStreams = emptyDb\<lparr>rtpmon_streams := [\<lparr>s_stream_id = 1, s_link_id = ''l'', s_src_ip = [], s_src_port = 0, s_dst_ip = [],
     s_dst_port = 0, s_ssrc = 0, s_sip_source = None, s_sip_destination = None, s_sip_callid = None, s_agent_id = None, s_created_ts = None\<rparr>]\<rparr>"

definition demoAudio :: stream_audio where
  "demoAudio = \<lparr>AudioStreamID = \<lparr>SrcIP = [], SrcPort = 0, DstIP = [], DstPort = 0, SSRC = 0, LinkID = ''l''\<rparr>, Wav = ''RIFF'', AudioStartMs = 0, AudioFinishMs = 9\<rparr>"

definition demoConn :: writer where
  "demoConn = NewWriter demoStreams [] [] []\<lparr>streamMap := [(AudioStreamID demoAudio, 1)]\<rparr>"

section \<open>Reading back\<close>

text \<open>C28: a verdict the writer stored is the one the API reports: whatever is in the table, after a
  successful \<^verbatim>\<open>AddCallHealth\<close> the verdict of its call is the new one, with its time, its stream count and its
  warnings character for character, and the verdicts of all other calls of the request are unchanged.\<close>

theorem stored_verdict_reads_back:
  assumes "AddCallHealth fresh e w = (Inr (), w')" "ascending fresh" "list_all warningOk (Warnings e)"
    and "answersFrom (tables w) run" "answersFrom (tables w') run'"
  shows "GetCallHealth run' ids = map_sum id (\<lambda>m. if HealthCallID e \<in> set ids then m(HealthCallID e \<mapsto> verdict e) else m) (GetCallHealth run ids)"
proof -
  have "getStr (healthCols h) ''call_id'' = h_call_id h" for h
    by (simp add: healthCols_def getStr_def rowGet_def)
  then show ?thesis
    using assms(3-5) unfolding AddCallHealth_tables [OF assms(1)]
    by (auto simp: GetCallHealth_def answersFrom_def healthAnswer_insert [OF assms(2)] verdictOf_def verdict_def
        healthCols_def getI64_def getStr_def rowGet_def decodeWarnings_written)
qed

theorem stored_verdict_reads_back_witness:
  "let w' = snd (AddCallHealth nextId demoHealth demoConn)
   in GetCallHealth (tableRun (tables w')) [''c1'', ''c2''] =
        map_sum id (\<lambda>m. m(''c1'' \<mapsto> verdict demoHealth)) (GetCallHealth (tableRun demoStreams) [''c1'', ''c2''])"
proof -
  have "AddCallHealth nextId demoHealth demoConn = (Inr (), snd (AddCallHealth nextId demoHealth demoConn))"
    by (simp add: AddCallHealth_def exec_calm demoConn_def NewWriter_def insertHealth_def)
  moreover have "list_all warningOk (Warnings demoHealth)" by code_simp
  moreover have "tables demoConn = demoStreams" by (simp add: demoConn_def NewWriter_def)
  ultimately show ?thesis
    using stored_verdict_reads_back [OF _ nextId_ascending _ tableRun_answers tableRun_answers, of demoHealth demoConn _ "[''c1'', ''c2'']"]
    by (simp add: Let_def) (simp add: demoHealth_def)
qed

lemma AddAudio_tables:
  assumes "AddAudio fresh audio w = (Inr (), w')" "Wav audio \<noteq> []" "map_of (streamMap w) (AudioStreamID audio) = Some i"
  shows "tables w' = fst (insertAudio fresh i (sint (AudioStartMs audio)) (sint (AudioFinishMs audio))
    (base64_Encode stdAlphabet (Wav audio)) (tables w))"
  by (cases rule: atomicE [OF atomic_exec, of "insertAudio fresh i (sint (AudioStartMs audio)) (sint (AudioFinishMs audio))
        (base64_Encode stdAlphabet (Wav audio))" w])
     (use assms in \<open>auto simp: AddAudio_def\<close>)

lemma set_joinedAudio: "set (joinedAudio d link) \<subseteq> set (rtpmon_audio d)"
  by (auto simp: joinedAudio_def)

lemma filter_key_one:
  assumes "distinct (map f xs)" "x \<in> set xs"
  shows "filter (\<lambda>y. f y = f x \<and> P y) xs = (if P x then [x] else [])"
proof -
  have "filter (\<lambda>y. f y = f x) xs = [x]"
    using assms by (induction xs) (auto simp: filter_empty_conv image_iff)
  moreover have "filter (\<lambda>y. f y = f x \<and> P y) xs = filter P (filter (\<lambda>y. f y = f x) xs)" by (simp add: conj_commute)
  ultimately show ?thesis by simp
qed

lemma audioAnswer_insert:
  assumes "ascending fresh" "\<forall>a \<in> set (rtpmon_audio d). a_start_timestamp a \<le> t"
    and "distinct (map s_stream_id (rtpmon_streams d))" "r \<in> set (rtpmon_streams d)"
  shows "audioAnswer (fst (insertAudio fresh (s_stream_id r) t t' enc d)) link =
    audioAnswer d link @ (if s_link_id r = link then [map_of [(''audio_wav'', VStr enc)]] else [])"
proof -
  let ?a = "\<lparr>a_id = fresh (map a_id (rtpmon_audio d)), a_stream_id = s_stream_id r, a_start_timestamp = t, a_end_timestamp = t', a_audio_wav = enc\<rparr>"
  have "joinedAudio (fst (insertAudio fresh (s_stream_id r) t t' enc d)) link =
      joinedAudio d link @ (if s_link_id r = link then [?a] else [])"
    using filter_key_one [OF assms(3,4), of "\<lambda>y. s_link_id y = link"] by (simp add: joinedAudio_def insertAudio_def)
  moreover have "\<forall>a \<in> set (joinedAudio d link). a_id a \<le> a_id ?a" "\<forall>a \<in> set (joinedAudio d link). a_start_timestamp a \<le> a_start_timestamp ?a"
    using set_joinedAudio [of d link] assms(2) ascending_le [OF assms(1), of _ "rtpmon_audio d" a_id] by auto
  ultimately show ?thesis by (simp add: audioAnswer_def sort_key_append_last)
qed

lemma base64_Encode_ne: "s \<noteq> [] \<Longrightarrow> base64_Encode al s \<noteq> []"
  by (induction al s rule: base64_Encode.induct) simp_all

text \<open>C29: a recording the writer stored is the one \<^verbatim>\<open>/audio\<close> serves: when a chunk of a known stream arrives
  in order of time, the chunks read for the stream's link grow by exactly the bytes that were sent, and the
  chunks of every other link stay as they were.\<close>

theorem stored_audio_reads_back:
  assumes "AddAudio fresh audio w = (Inr (), w')" "Wav audio \<noteq> []"
    and "map_of (streamMap w) (AudioStreamID audio) = Some (s_stream_id r)" "r \<in> set (rtpmon_streams (tables w))"
    and "distinct (map s_stream_id (rtpmon_streams (tables w)))" "ascending fresh"
    and "\<forall>a \<in> set (rtpmon_audio (tables w)). a_start_timestamp a \<le> sint (AudioStartMs audio)"
    and "answersFrom (tables w) run" "answersFrom (tables w') run'"
  shows "GetStreamAudioChunks run' link = map_sum id (\<lambda>chunks. if s_link_id r = link then chunks @ [Wav audio] else chunks) (GetStreamAudioChunks run link)"
proof -
  have "audioChunk [''audio_wav'' \<mapsto> VStr (base64_Encode stdAlphabet (Wav audio))] = [Wav audio]"
    using assms(2) by (simp add: audioChunk_def getStr_def rowGet_def base64_Encode_ne base64_roundtrip [OF stdAlphabet_ok])
  then show ?thesis
    using assms(8,9) unfolding AddAudio_tables [OF assms(1-3)]
    by (simp add: GetStreamAudioChunks_def answersFrom_def audioAnswer_insert [OF assms(6,7,5,4)])
qed

theorem stored_audio_reads_back_witness:
  "let w' = snd (AddAudio nextId demoAudio demoConn)
   in GetStreamAudioChunks (tableRun (tables w')) ''l'' =
        map_sum id (\<lambda>cs. cs @ [''RIFF'']) (GetStreamAudioChunks (tableRun demoStreams) ''l'')"
proof -
  have "AddAudio nextId demoAudio demoConn = (Inr (), snd (AddAudio nextId demoAudio demoConn))"
    by (simp add: AddAudio_def exec_calm demoConn_def NewWriter_def insertAudio_def demoAudio_def)
  moreover have t: "tables demoConn = demoStreams" by (simp add: demoConn_def NewWriter_def)
  ultimately show ?thesis
    using stored_audio_reads_back [of nextId demoAudio demoConn _ "hd (rtpmon_streams demoStreams)", OF _ _ _ _ _ nextId_ascending _
        tableRun_answers tableRun_answers, of _ "''l''"]
    by (simp add: Let_def) (simp add: demoStreams_def demoAudio_def demoConn_def emptyDb_def)
qed

end
