(* ===== verification/Api_Csv.thy ===== *)
theory Api_Csv
  imports Api_Values Pvqa_Report Filter_Transport
begin

text \<open>
  The CSV export of the REST API (\<^verbatim>\<open>api/csv.go\<close>), with what it uses of \<^verbatim>\<open>encoding/csv\<close>. The read
  queries are parameters of \<open>FinishedCSV\<close>. A reader for quoted CSV is the reference: reading an
  export gives the header and the cells back, and the detector counts stand under the names of their
  detectors.
\<close>

section \<open>Package encoding/csv\<close>

definition fieldNeedsQuotes :: "string \<Rightarrow> bool" where
  "fieldNeedsQuotes field \<longleftrightarrow>
     field \<noteq> [] \<and> (field = [CHR 0x5C, CHR ''.''] \<or> list_ex (\<lambda>c. c \<in> {CHR 0x0A, CHR 0x0D, CHR 0x22, CHR '',''}) field
     \<or> leadingSpace wideSpaces field \<noteq> 0)"

text \<open>The bytes of a quoted field, with \<^verbatim>\<open>UseCRLF\<close>: quotes are doubled, a carriage return is dropped
  and a line feed becomes both.\<close>

definition quotedByte :: "char \<Rightarrow> string" where
  "quotedByte c = (if c = CHR 0x22 then [CHR 0x22, CHR 0x22] else if c = CHR 0x0D then []
     else if c = CHR 0x0A then [CHR 0x0D, CHR 0x0A] else [c])"

definition writeField :: "string \<Rightarrow> string" where
  "writeField field =
     (if fieldNeedsQuotes field then CHR 0x22 # concat (map quotedByte field) @ [CHR 0x22] else field)"

definition writeRecord :: "string list \<Rightarrow> string" where
  "writeRecord record = strings_Join (map writeField record) '','' @ [CHR 0x0D, CHR 0x0A]"

section \<open>The export\<close>

definition BasicHeaders :: "string list" where
  "BasicHeaders = [''Source'', ''Destination'', ''SSRC'', ''DB_ID'', ''Time_Start'', ''Length'', ''Sevana_MOS'',
     ''Sevana_Rfactor'', ''Network_MOS'', ''Jitter'', ''Rtp_Received'', ''Rtp_Lost'', ''Call_ID'', ''SIP_source'', ''SIP_dest'']"

definition ExportLimit :: int where "ExportLimit = 1000000"

definition fmtCSVTs :: "int \<Rightarrow> string" where
  "fmtCSVTs ms = formatStamp ms"

definition fmtNum :: "f64 \<Rightarrow> nat \<Rightarrow> string" where
  "fmtNum v ndigits = formatFixed ndigits v"

definition basicFromActive :: "valmap \<Rightarrow> string list" where
  "basicFromActive rec =
     [endpoint (getStr rec ''src_ip'') (rowGet rec ''src_port''),
      endpoint (getStr rec ''dst_ip'') (rowGet rec ''dst_port''),
      getStr rec ''ssrc'', getStr rec ''link_id'',
      fmtCSVTs (getI64 rec ''start_ms''),
      fmtNum (f64_div (f64_of_int (getI64 rec ''duration'')) (f64_of_int 1000)) 3,
      fmtNum (getF64 rec ''sevana_mos'') 2,
      strconv_Itoa (getI64 rec ''sevana_rfactor''),
      fmtNum (getF64 rec ''network_mos'') 2,
      fmtNum (getF64 rec ''jitter'') 2,
      strconv_Itoa (getI64 rec ''rtp_packet_counter''),
      strconv_Itoa (getI64 rec ''lost_packet_counter''),
      getStr rec ''sip_callid'', getStr rec ''sip_src'', getStr rec ''sip_dst'']"

definition BasicFromFinished :: "valmap \<Rightarrow> string list" where
  "BasicFromFinished row =
     (let durationS = f64_div (f64_of_int (wrap64 (getI64 row ''end_timestamp'' - getI64 row ''start_timestamp''))) (f64_of_int 1000)
      in [endpoint (getStr row ''src_ip'') (rowGet row ''src_port''),
          endpoint (getStr row ''dst_ip'') (rowGet row ''dst_port''),
          strconv_Itoa (getI64 row ''ssrc''), getStr row ''link_id'',
          fmtCSVTs (getI64 row ''start_timestamp''),
          fmtNum durationS 3,
          fmtNum (getF64 row ''sevana_mos'') 2,
          strconv_Itoa (getI64 row ''sevana_rfactor''),
          fmtNum (getF64 row ''network_mos'') 2,
          fmtNum (getF64 row ''jitter'') 2,
          strconv_Itoa (getI64 row ''rtp_packet_counter''),
          strconv_Itoa (getI64 row ''lost_packet_counter''),
          getStr row ''sip_callid'', getStr row ''sip_source'', getStr row ''sip_destination''])"

record csv_stream =
  basic :: "string list"
  detectors :: "detector_count list"

text \<open>The column of a detector is its index in the list of names.\<close>

definition addName :: "detector_count \<Rightarrow> string list \<Rightarrow> string list" where
  "addName dc names = (if fst dc \<in> set names then names else names @ [fst dc])"

definition detectorNames :: "csv_stream list \<Rightarrow> string list" where
  "detectorNames streams = fold (\<lambda>s. fold addName (detectors s)) streams []"

definition columnOf :: "string list \<Rightarrow> string \<Rightarrow> nat" where
  "columnOf names n = length (takeWhile (\<lambda>m. m \<noteq> n) names)"

definition detectorCells :: "string list \<Rightarrow> csv_stream \<Rightarrow> string list" where
  "detectorCells names s =
     fold (\<lambda>dc det. det[columnOf names (fst dc) := strconv_Itoa (snd dc)]) (detectors s) (replicate (length names) [])"

definition csvRow :: "bool \<Rightarrow> string list \<Rightarrow> csv_stream \<Rightarrow> string list" where
  "csvRow detailed names s = basic s @ (if detailed then detectorCells names s else [])"

definition renderCSV :: "csv_stream list \<Rightarrow> bool \<Rightarrow> string" where
  "renderCSV streams detailed =
     (let names = (if detailed then detectorNames streams else [])
      in writeRecord (BasicHeaders @ names) @ concat (map (\<lambda>s. writeRecord (csvRow detailed names s)) streams))"

text \<open>A stream with its decomposition; \<^verbatim>\<open>None\<close> is the panic of a malformed report.\<close>

definition csvStream :: "thresholds \<Rightarrow> bool \<Rightarrow> string list \<Rightarrow> string list \<Rightarrow> csv_stream option" where
  "csvStream th detailed cells texts =
     (if detailed then map_option (\<lambda>d. \<lparr>basic = cells, detectors = Detectors d\<rparr>) (DecomposeWith texts th)
      else Some \<lparr>basic = cells, detectors = []\<rparr>)"

definition activeReports :: "valmap \<Rightarrow> string list" where
  "activeReports rec = (case rowGet rec ''detector_reports'' of VStrs reports \<Rightarrow> reports | _ \<Rightarrow> [])"

definition ActiveCSV :: "thresholds \<Rightarrow> valmap list \<Rightarrow> bool \<Rightarrow> string option" where
  "ActiveCSV th records detailed =
     map_option (\<lambda>out. renderCSV out detailed)
       (those (map (\<lambda>rec. csvStream th detailed (basicFromActive rec) (activeReports rec)) records))"

fun finishedRows ::
    "thresholds \<Rightarrow> (string \<Rightarrow> 'e + valmap list) \<Rightarrow> bool \<Rightarrow> valmap list \<Rightarrow> ('e + csv_stream list) option" where
  "finishedRows th history detailed [] = Some (Inr [])"
| "finishedRows th history detailed (row # rows) =
     (case (if detailed then history (getStr row ''link_id'') else Inr []) of
        Inl err \<Rightarrow> Some (Inl err)
      | Inr hs \<Rightarrow>
          (case csvStream th detailed (BasicFromFinished row) (map (\<lambda>h. getStr h ''detector_report'') hs) of
             None \<Rightarrow> None
           | Some s \<Rightarrow> map_option (map_sum id (Cons s)) (finishedRows th history detailed rows)))"

definition FinishedCSV ::
    "thresholds \<Rightarrow> (search_filter \<Rightarrow> 'e + valmap list) \<Rightarrow> (string \<Rightarrow> 'e + valmap list) \<Rightarrow> search_filter \<Rightarrow> bool
     \<Rightarrow> ('e + string) option" where
  "FinishedCSV th getFinishedStreams getStreamHistory flt detailed =
     (case getFinishedStreams (flt\<lparr>PageOffset := 0, MaxCount := ExportLimit\<rparr>) of
        Inl err \<Rightarrow> Some (Inl err)
      | Inr rows \<Rightarrow> map_option (map_sum id (\<lambda>out. renderCSV out detailed)) (finishedRows th getStreamHistory detailed rows))"

section \<open>A reader\<close>

text \<open>\<open>csvRead quoted field row s\<close>: \<open>field\<close> and \<open>row\<close> hold what was read of the current field and of
  the current record.\<close>

fun csvRead :: "bool \<Rightarrow> string \<Rightarrow> string list \<Rightarrow> string \<Rightarrow> string list list" where
  "csvRead q f row [] = (if f = [] \<and> row = [] then [] else [row @ [f]])"
| "csvRead True f row (c # s) =
     (if c = CHR 0x22
      then (case s of d # t \<Rightarrow> if d = CHR 0x22 then csvRead True (f @ [d]) row t else csvRead False f row s
                    | [] \<Rightarrow> csvRead False f row s)
      else csvRead True (f @ [c]) row s)"
| "csvRead False f row (c # s) =
     (if c = CHR 0x22 \<and> f = [] then csvRead True [] row s
      else if c = CHR '','' then csvRead False [] (row @ [f]) s
      else if c = CHR 0x0D then (case s of d # t \<Rightarrow> if d = CHR 0x0A then (row @ [f]) # csvRead False [] [] t
                                                    else csvRead False (f @ [c]) row s
                                         | [] \<Rightarrow> csvRead False (f @ [c]) row s)
      else csvRead False (f @ [c]) row s)"

text \<open>What a cell reads as: line ends are normalised.\<close>

definition crlf :: "string \<Rightarrow> string" where
  "crlf s = concat (map (\<lambda>c. if c = CHR 0x0D then [] else if c = CHR 0x0A then [CHR 0x0D, CHR 0x0A] else [c]) s)"

lemma crlf_simps [simp]: "crlf [] = []"
  "crlf (c # s) = (if c = CHR 0x0D then [] else if c = CHR 0x0A then [CHR 0x0D, CHR 0x0A] else [c]) @ crlf s"
  by (simp_all add: crlf_def)

lemma read_plain:
  "list_all (\<lambda>c. c \<notin> {CHR 0x0A, CHR 0x0D, CHR 0x22, CHR '',''}) field \<Longrightarrow>
   csvRead False f row (field @ rest) = csvRead False (f @ crlf field) row rest"
  by (induction field arbitrary: f) auto

lemma read_quoted:
  "rest = [] \<or> hd rest \<noteq> CHR 0x22 \<Longrightarrow>
   csvRead True f row (concat (map quotedByte field) @ CHR 0x22 # rest) = csvRead False (f @ crlf field) row rest"
proof (induction field arbitrary: f)
  case Nil
  then show ?case by (cases rest) auto
next
  case (Cons c field)
  then show ?case by (auto simp: quotedByte_def)
qed

lemma read_field:
  assumes "rest \<noteq> []" "hd rest \<noteq> CHR 0x22"
  shows "csvRead False [] row (writeField field @ rest) = csvRead False (crlf field) row rest"
proof (cases "fieldNeedsQuotes field")
  case True
  then show ?thesis using assms read_quoted [of rest "[]" row field] by (simp add: writeField_def)
next
  case False
  then have "list_all (\<lambda>c. c \<notin> {CHR 0x0A, CHR 0x0D, CHR 0x22, CHR '',''}) field"
    by (auto simp: fieldNeedsQuotes_def list_all_iff list_ex_iff)
  then show ?thesis using False read_plain [of field "[]" row rest] by (simp add: writeField_def)
qed

lemma read_fields:
  "fs \<noteq> [] \<Longrightarrow> csvRead False [] row (strings_Join (map writeField fs) '','' @ CHR 0x0D # CHR 0x0A # rest) =
     (row @ map crlf fs) # csvRead False [] [] rest"
proof (induction fs arbitrary: row rule: induct_list012)
  case (2 x)
  then show ?case by (simp add: read_field)
next
  case (3 x y zs)
  then show ?case by (simp add: read_field)
qed simp

lemma read_records:
  "list_all (\<lambda>r. r \<noteq> []) rs \<Longrightarrow> csvRead False [] [] (concat (map writeRecord rs)) = map (map crlf) rs"
  by (induction rs) (simp_all add: writeRecord_def read_fields)

section \<open>Columns\<close>

lemma addNames: "distinct names \<Longrightarrow> distinct (fold addName dcs names) \<and> set (fold addName dcs names) = set names \<union> fst ` set dcs"
  by (induction dcs arbitrary: names) (auto simp: addName_def)

lemma detectorNames_set: "distinct (detectorNames ss) \<and> set (detectorNames ss) = (\<Union>s\<in>set ss. fst ` set (detectors s))"
proof -
  have "distinct names \<Longrightarrow> distinct (fold (\<lambda>s. fold addName (detectors s)) ss names)
      \<and> set (fold (\<lambda>s. fold addName (detectors s)) ss names) = set names \<union> (\<Union>s\<in>set ss. fst ` set (detectors s))" for names
  proof (induction ss arbitrary: names)
    case (Cons s ss)
    then show ?case using addNames [of names "detectors s"] by auto
  qed simp
  then show ?thesis by (simp add: detectorNames_def)
qed

lemma columnOf_nth: "distinct names \<Longrightarrow> j < length names \<Longrightarrow> columnOf names n = j \<longleftrightarrow> names ! j = n"
proof (induction names arbitrary: j)
  case (Cons m names)
  then show ?case by (cases j) (auto simp: columnOf_def)
qed simp

lemma cells_at:
  assumes "distinct names" "j < length names" "length det = length names"
  shows "fold (\<lambda>dc det. det[columnOf names (fst dc) := strconv_Itoa (snd dc)]) dcs det ! j =
     (case map_of (rev dcs) (names ! j) of Some n \<Rightarrow> strconv_Itoa n | None \<Rightarrow> det ! j)"
  using assms(3)
proof (induction dcs arbitrary: det)
  case (Cons dc dcs)
  then show ?case
    using columnOf_nth [OF assms(1,2), of "fst dc"] assms(2)
    by (cases dc) (auto simp: map_add_def map_of_append nth_list_update split: option.splits)
qed simp

lemma length_cells: "length (detectorCells names s) = length names"
proof -
  have "length (fold (\<lambda>dc det. det[columnOf names (fst dc) := strconv_Itoa (snd dc)]) dcs det) = length det" for dcs det
    by (induction dcs arbitrary: det) simp_all
  then show ?thesis by (simp add: detectorCells_def)
qed

lemma renderCSV_parts:
  fixes streams :: "csv_stream list"
  assumes "list_all (\<lambda>s. basic s \<noteq> []) streams"
  defines "names \<equiv> detectorNames streams"
  shows "csvRead False [] [] (renderCSV streams True) =
     map (map crlf) ((BasicHeaders @ names) # map (\<lambda>s. basic s @ detectorCells names s) streams)"
    and "distinct names" "set names = (\<Union>s\<in>set streams. fst ` set (detectors s))"
    and "s \<in> set streams \<Longrightarrow> j < length names \<Longrightarrow>
      detectorCells names s ! j =
        (case map_of (rev (detectors s)) (names ! j) of Some n \<Rightarrow> strconv_Itoa n | None \<Rightarrow> [])"
proof -
  have "list_all (\<lambda>r. r \<noteq> []) ((BasicHeaders @ names) # map (\<lambda>s. basic s @ detectorCells names s) streams)"
    using assms(1) by (auto simp: list_all_iff BasicHeaders_def)
  from read_records [OF this] show "csvRead False [] [] (renderCSV streams True) =
      map (map crlf) ((BasicHeaders @ names) # map (\<lambda>s. basic s @ detectorCells names s) streams)"
    by (simp add: renderCSV_def csvRow_def names_def o_def Let_def)
  show "distinct names" "set names = (\<Union>s\<in>set streams. fst ` set (detectors s))"
    using detectorNames_set [of streams] by (simp_all add: names_def)
  then show "detectorCells names s ! j =
      (case map_of (rev (detectors s)) (names ! j) of Some n \<Rightarrow> strconv_Itoa n | None \<Rightarrow> [])"
    if "j < length names" using that by (simp add: detectorCells_def cells_at split: option.splits)
qed

text \<open>A detailed export reads back as a table: a header line with the detector names, each once,
  and one line per stream, in which the basic cells come first and the cell under a detector's name is
  that detector's count in the stream, empty for a stream without the detector. Quotes, commas and
  line breaks inside a cell do not shift columns; only line ends are normalised.\<close>

lemma renderCSV_table:
  assumes "list_all (\<lambda>s. basic s \<noteq> []) streams"
  shows "let names = detectorNames streams in
     csvRead False [] [] (renderCSV streams True) =
       map (map crlf) ((BasicHeaders @ names) # map (\<lambda>s. basic s @ detectorCells names s) streams)
     \<and> distinct names \<and> set names = (\<Union>s\<in>set streams. fst ` set (detectors s))
     \<and> (\<forall>s \<in> set streams. \<forall>j < length names. detectorCells names s ! j =
          (case map_of (rev (detectors s)) (names ! j) of Some n \<Rightarrow> strconv_Itoa n | None \<Rightarrow> []))"
  using renderCSV_parts [OF assms] by (simp add: Let_def)

lemma Itoa_3: "strconv_Itoa 3 = ''3''"
  by code_simp

end
