(* ===== verification/Registry.thy ===== *)
theory Registry
  imports Model_Types Filter_Eval Ordered_Dict
begin

text \<open>
  Package \<^verbatim>\<open>state\<close>: the in-memory registry of active streams (\<^verbatim>\<open>registry.go\<close>) and the last
  instance snapshot (\<^verbatim>\<open>snapshot.go\<close>). The Go map is an association list with distinct
  keys whose order stands for the iteration order; every reader sorts by the insertion
  stamp, so that order never shows. The clock reading of an operation is an argument.
  The operations refine an insertion-ordered dictionary (the Python \<^verbatim>\<open>dict\<close> the package
  was ported from).
\<close>

section \<open>The registry\<close>

record entry =
  e_streamID :: media_stream_id
  e_reports :: "stream_report list"
  e_order :: int
  lastSeenMs :: i64

record registry =
  agentID :: string
  agentName :: string
  streams :: "(media_stream_id \<times> entry) list"
  order_ctr :: int
  started :: int
  finished :: int
  lastUptime :: "u64 option"

definition NewActiveStreamRegistry :: "string \<Rightarrow> string \<Rightarrow> registry" where
  "NewActiveStreamRegistry aid name =
     \<lparr>agentID = aid, agentName = name, streams = [], order_ctr = 0, started = 0, finished = 0, lastUptime = None\<rparr>"

definition OnStreamDetected :: "media_stream_id \<Rightarrow> i64 \<Rightarrow> registry \<Rightarrow> registry" where
  "OnStreamDetected sid now r0 =
     (let r1 = r0\<lparr>started := wrap64 (started r0 + 1)\<rparr>;
          r = r1\<lparr>order_ctr := wrap64 (order_ctr r1 + 1)\<rparr>
      in case map_of (streams r) sid of
           Some _ \<Rightarrow> r
         | None \<Rightarrow> r\<lparr>streams := AList.update sid
                      \<lparr>e_streamID = sid, e_reports = [], e_order = order_ctr r, lastSeenMs = now\<rparr> (streams r)\<rparr>)"

definition OnReport :: "stream_report \<Rightarrow> i64 \<Rightarrow> registry \<Rightarrow> registry" where
  "OnReport rp now r0 =
     (let (r, e) = (case map_of (streams r0) (StreamID rp) of
                      Some e \<Rightarrow> (r0, e)
                    | None \<Rightarrow> let r1 = r0\<lparr>order_ctr := wrap64 (order_ctr r0 + 1)\<rparr>
                              in (r1, \<lparr>e_streamID = StreamID rp, e_reports = [], e_order = order_ctr r1, lastSeenMs = now\<rparr>))
      in r\<lparr>streams := AList.update (StreamID rp)
             (e\<lparr>e_reports := e_reports e @ [rp], lastSeenMs := now\<rparr>) (streams r)\<rparr>)"

definition OnFinished :: "stream_report \<Rightarrow> registry \<Rightarrow> registry" where
  "OnFinished rp r = r\<lparr>finished := wrap64 (finished r + 1), streams := AList.delete (StreamID rp) (streams r)\<rparr>"

definition NoteUptime :: "u64 \<Rightarrow> registry \<Rightarrow> registry \<times> bool" where
  "NoteUptime uptime r =
     (r\<lparr>lastUptime := Some uptime\<rparr>, case lastUptime r of None \<Rightarrow> False | Some previous \<Rightarrow> uptime < previous)"

definition sumU :: "('a \<Rightarrow> 'b::len word) \<Rightarrow> 'a list \<Rightarrow> 'b word" where
  "sumU f xs = fold (\<lambda>x acc. acc + f x) xs 0"

definition synthesizeFinal :: "entry \<Rightarrow> stream_report" where
  "synthesizeFinal e =
     (let first = hd (e_reports e); lst = last (e_reports e)
      in \<lparr>StreamID = e_streamID e,
          StartMs = StartMs first,
          EndMs = EndMs lst,
          StartStreamMs = 0,
          RTPPacketCounter = sumU RTPPacketCounter (e_reports e),
          IllegalPacketCounter = sumU IllegalPacketCounter (e_reports e),
          LostPacketCounter = sumU LostPacketCounter (e_reports e),
          SevanaMOS = SevanaMOS lst,
          NetworkMOS = NetworkMOS lst,
          SevanaRfactor = SevanaRfactor lst,
          Jitter = Jitter lst,
          Codec = Codec lst,
          RTTDelay = RTTDelay lst,
          DetectorReport = DetectorReport lst,
          DurationAudio = sumU DurationAudio (e_reports e),
          AmrNbSwitchCounter = sumU AmrNbSwitchCounter (e_reports e),
          AmrWbSwitchCounter = sumU AmrWbSwitchCounter (e_reports e),
          DtxSid = sumU DtxSid (e_reports e),
          DtxCount = sumU DtxCount (e_reports e),
          DtxTotal = sumU DtxTotal (e_reports e),
          FullReport = True,
          UserReport = (if UserReport lst = [] then ''auto-finalized'' else UserReport lst),
          SipCallID = SipCallID lst,
          SipPeerA = SipPeerA lst,
          SipPeerB = SipPeerB lst\<rparr>)"

fun evictLocked :: "entry list \<Rightarrow> registry \<Rightarrow> registry \<times> stream_report list" where
  "evictLocked [] r = (r, [])"
| "evictLocked (e # es) r =
     (let (r', finals) = evictLocked es
            (r\<lparr>streams := AList.delete (e_streamID e) (streams r), finished := wrap64 (finished r + 1)\<rparr>)
      in (r', (if 0 < length (e_reports e) then [synthesizeFinal e] else []) @ finals))"

definition orderedEntries :: "registry \<Rightarrow> entry list" where
  "orderedEntries r = sort_key e_order (map snd (streams r))"

definition stale :: "i64 \<Rightarrow> i64 \<Rightarrow> i64 \<Rightarrow> bool" where
  "stale idleMs nowMs seen \<longleftrightarrow> sint idleMs \<le> sint (nowMs - seen)"

definition SweepGhostsAt :: "i64 \<Rightarrow> i64 \<Rightarrow> registry \<Rightarrow> registry \<times> stream_report list" where
  "SweepGhostsAt idleMs nowMs r =
     evictLocked (filter (\<lambda>e. stale idleMs nowMs (lastSeenMs e)) (orderedEntries r)) r"

definition DrainAll :: "registry \<Rightarrow> registry \<times> stream_report list" where
  "DrainAll r = evictLocked (orderedEntries r) r"

definition ActiveCount :: "registry \<Rightarrow> nat" where
  "ActiveCount r = length (streams r)"

definition mosOrZero :: "f64 option \<Rightarrow> f64" where
  "mosOrZero p = (case p of None \<Rightarrow> Fin False 0 | Some f \<Rightarrow> f)"

definition recordLocked :: "registry \<Rightarrow> entry \<Rightarrow> valmap" where
  "recordLocked r e =
     (let first = hd (e_reports e); lst = last (e_reports e); sid = e_streamID e;
          streamStart = (if StartStreamMs first = 0 then StartMs first else StartStreamMs first);
          durationMs = EndMs lst - streamStart;
          durationMs = (if sint durationMs < 0 then 0 else durationMs);
          dtxSid = sumU DtxSid (e_reports e);
          dtxCount = sumU DtxCount (e_reports e);
          dtxTotal = sumU DtxTotal (e_reports e);
          silenceRatio = (if 0 < dtxTotal
                          then f64_div (f64_of_int (uint (dtxSid + dtxCount))) (f64_of_int (uint dtxTotal))
                          else Fin False 0)
      in map_of
          [(''start_time'', VInt (goDiv streamStart 1000)),
           (''sevana_mos'', VFloat (mosOrZero (SevanaMOS lst))),
           (''network_mos'', VFloat (mosOrZero (NetworkMOS lst))),
           (''sevana_rfactor'', VInt (SevanaRfactor lst)),
           (''jitter'', VFloat (Jitter lst)),
           (''rtt_delay'', VFloat (RTTDelay lst)),
           (''silence_ratio'', VFloat silenceRatio),
           (''duration'', VInt durationMs),
           (''src_ip'', VStr (SrcIP sid)),
           (''dst_ip'', VStr (DstIP sid)),
           (''src_port'', VInt (ucast (SrcPort sid))),
           (''dst_port'', VInt (ucast (DstPort sid))),
           (''ssrc'', VStr (strconv_FormatUint (ucast (SSRC sid)))),
           (''sip_src'', VStr (SipPeerA lst)),
           (''sip_dst'', VStr (SipPeerB lst)),
           (''sip_callid'', VStr (SipCallID lst)),
           (''instance_id'', VStr (agentID r)),
           (''instance_name'', VStr (agentName r)),
           (''link_id'', VStr (LinkID sid)),
           (''duration_audio'', VInt (sumU DurationAudio (e_reports e))),
           (''start_ms'', VInt streamStart),
           (''rtp_packet_counter'', VInt (sumU RTPPacketCounter (e_reports e))),
           (''lost_packet_counter'', VInt (sumU LostPacketCounter (e_reports e))),
           (''dtx_sid'', VInt dtxSid),
           (''dtx_count'', VInt dtxCount),
           (''dtx_total'', VInt dtxTotal),
           (''detector_reports'', VStrs (map DetectorReport (e_reports e)))])"

definition SnapshotRecords :: "registry \<Rightarrow> valmap list" where
  "SnapshotRecords r = map (recordLocked r) (filter (\<lambda>e. length (e_reports e) \<noteq> 0) (orderedEntries r))"

section \<open>The instance snapshot\<close>

record instance_snapshot =
  snapshot_value :: "instance_statistics option"

definition NewInstanceSnapshot :: instance_snapshot where
  "NewInstanceSnapshot = \<lparr>snapshot_value = None\<rparr>"

definition InstanceSnapshot_Set :: "instance_statistics \<Rightarrow> instance_snapshot \<Rightarrow> instance_snapshot" where
  "InstanceSnapshot_Set stats s = s\<lparr>snapshot_value := Some stats\<rparr>"

definition InstanceSnapshot_Get :: "instance_snapshot \<Rightarrow> instance_statistics option" where
  "InstanceSnapshot_Get s = snapshot_value s"

section \<open>The registry invariant\<close>

definition regInv :: "registry \<Rightarrow> bool" where
  "regInv r \<longleftrightarrow>
     distinct (map fst (streams r)) \<and> distinct (map (e_order \<circ> snd) (streams r)) \<and> 0 \<le> order_ctr r
     \<and> (\<forall>(k, e) \<in> set (streams r). e_streamID e = k \<and> e_order e \<le> order_ctr r)"

lemma regInv_new: "regInv (NewActiveStreamRegistry a n)"
  by (simp add: regInv_def NewActiveStreamRegistry_def)

lemma wrap64_Suc: "0 \<le> i \<Longrightarrow> i < maxInt64 \<Longrightarrow> wrap64 (i + 1) = i + 1"
  by (rule wrap64_id) (auto simp: minInt64_def)

text \<open>The dictionary a registry stands for.\<close>

type_synonym stream_dict = "(media_stream_id \<times> (stream_report list \<times> i64)) list"

definition dictEntry :: "entry \<Rightarrow> media_stream_id \<times> (stream_report list \<times> i64)" where
  "dictEntry e = (e_streamID e, e_reports e, lastSeenMs e)"

definition regDict :: "registry \<Rightarrow> stream_dict" where
  "regDict r = map dictEntry (orderedEntries r)"

lemma set_orderedEntries [simp]: "set (orderedEntries r) = snd ` set (streams r)"
  by (simp add: orderedEntries_def)

lemma orderedEntries_cong [simp]:
  "orderedEntries (r\<lparr>started := a\<rparr>) = orderedEntries r"
  "orderedEntries (r\<lparr>finished := a\<rparr>) = orderedEntries r"
  "orderedEntries (r\<lparr>order_ctr := a\<rparr>) = orderedEntries r"
  "orderedEntries (r\<lparr>lastUptime := u\<rparr>) = orderedEntries r"
  by (simp_all add: orderedEntries_def)

lemma regDict_counters [simp]:
  "regDict (r\<lparr>started := a\<rparr>) = regDict r"
  "regDict (r\<lparr>finished := a\<rparr>) = regDict r"
  "regDict (r\<lparr>order_ctr := b\<rparr>) = regDict r"
  "regDict (r\<lparr>lastUptime := u\<rparr>) = regDict r"
  by (simp_all add: regDict_def)

lemma keys_regDict: "regInv r \<Longrightarrow> fst ` set (regDict r) = fst ` set (streams r)"
  by (force simp: regDict_def dictEntry_def regInv_def)

text \<open>Adding an entry with the newest stamp appends to the dictionary.\<close>

lemma insert_newest:
  assumes "regInv r" "map_of (streams r) (e_streamID e) = None" "\<forall>p\<in>set (streams r). e_order (snd p) < e_order e"
  shows "orderedEntries (r\<lparr>streams := AList.update (e_streamID e) e (streams r)\<rparr>) = orderedEntries r @ [e]"
  using assms by (auto simp: orderedEntries_def update_absent map_of_eq_None_iff sort_key_snoc less_imp_le)

lemma update_entry:
  assumes "regInv r" "map_of (streams r) k = Some e"
  shows "AList.update k e' (streams r) = map (\<lambda>(k', v'). (k', if k' = k then e' else v')) (streams r)"
  using assms by (intro update_present) (auto simp: regInv_def image_iff dest!: map_of_SomeD intro: bexI [rotated])

lemma entry_unique:
  assumes "regInv r" "map_of (streams r) k = Some e" "(k', x) \<in> set (streams r)" "e_streamID x = k"
  shows "x = e"
  using assms by (auto simp: regInv_def dest!: map_of_SomeD elim!: eq_key_imp_eq_value)

text \<open>Replacing an entry in place rewrites the dictionary in place.\<close>

lemma replace_entry:
  assumes "regInv r" "map_of (streams r) k = Some e" "e_streamID e' = e_streamID e" "e_order e' = e_order e"
  shows "orderedEntries (r\<lparr>streams := AList.update k e' (streams r)\<rparr>)
    = map (\<lambda>x. if e_streamID x = k then e' else x) (orderedEntries r)"
proof -
  let ?g = "\<lambda>x. if e_streamID x = k \<and> e_order x = e_order e then e' else x"
  have g: "?g x = (if e_streamID x = k then e' else x)" if "x \<in> snd ` set (streams r)" for x
    using that entry_unique [OF assms(1,2)] by auto
  have "map snd (AList.update k e' (streams r)) = map (\<lambda>x. if e_streamID x = k then e' else x) (map snd (streams r))"
    unfolding update_entry [OF assms(1,2)] map_map using assms(1) by (intro map_cong) (auto simp: regInv_def)
  also have "\<dots> = map ?g (map snd (streams r))" using g by (intro map_cong) auto
  finally have "orderedEntries (r\<lparr>streams := AList.update k e' (streams r)\<rparr>) = map ?g (orderedEntries r)"
    using assms by (simp add: orderedEntries_def sort_key_map_same)
  also have "\<dots> = map (\<lambda>x. if e_streamID x = k then e' else x) (orderedEntries r)"
    using g by (intro map_cong) auto
  finally show ?thesis .
qed

lemma delete_entry:
  assumes "regInv r"
  shows "orderedEntries (r\<lparr>streams := AList.delete k (streams r)\<rparr>) = filter (\<lambda>e. e_streamID e \<noteq> k) (orderedEntries r)"
proof -
  have "map snd (filter (\<lambda>p. fst p \<noteq> k) (streams r)) = filter (\<lambda>e. e_streamID e \<noteq> k) (map snd (streams r))"
    unfolding filter_map o_def
    using assms by (intro arg_cong [where f = "map snd"] filter_cong) (auto simp: regInv_def)
  then show ?thesis by (simp add: orderedEntries_def delete_filter filter_sort)
qed

section \<open>Every operation keeps the invariant and refines the dictionary\<close>

lemma regInv_delete: "regInv r \<Longrightarrow> regInv (r\<lparr>streams := AList.delete k (streams r)\<rparr>)"
  by (auto simp: regInv_def delete_filter distinct_map_filter)

lemma regInv_counters [simp]:
  "regInv (r\<lparr>started := a\<rparr>) = regInv r" "regInv (r\<lparr>finished := a\<rparr>) = regInv r" "regInv (r\<lparr>lastUptime := u\<rparr>) = regInv r"
  by (simp_all add: regInv_def)

lemma regInv_order: "regInv r \<Longrightarrow> order_ctr r \<le> n \<Longrightarrow> regInv (r\<lparr>order_ctr := n\<rparr>)"
  by (auto simp: regInv_def)

lemma regInv_insert:
  assumes "regInv r" "map_of (streams r) (e_streamID e) = None" "\<forall>p\<in>set (streams r). e_order (snd p) < e_order e"
    "e_order e \<le> order_ctr r"
  shows "regInv (r\<lparr>streams := AList.update (e_streamID e) e (streams r)\<rparr>)"
  using assms by (auto simp: regInv_def update_absent map_of_eq_None_iff)

lemma regInv_replace:
  assumes "regInv r" "map_of (streams r) k = Some e" "e_streamID e' = e_streamID e" "e_order e' = e_order e"
  shows "regInv (r\<lparr>streams := AList.update k e' (streams r)\<rparr>)"
proof -
  note up = update_entry [OF assms(1,2)]
  have e: "e_streamID e = k" "e_order e \<le> order_ctr r"
    using assms(1,2) by (auto simp: regInv_def dest!: map_of_SomeD)
  have "e_order x = e_order e" if "(k, x) \<in> set (streams r)" for x
    using that entry_unique [OF assms(1,2)] assms(1) by (auto simp: regInv_def)
  then have "map (e_order \<circ> snd) (AList.update k e' (streams r)) = map (e_order \<circ> snd) (streams r)"
    using assms(4) by (auto simp: up)
  moreover have "map fst (AList.update k e' (streams r)) = map fst (streams r)"
    by (auto simp: up)
  moreover have "\<forall>(k', x) \<in> set (AList.update k e' (streams r)). e_streamID x = k' \<and> e_order x \<le> order_ctr r"
    using assms e by (auto simp: regInv_def up)
  ultimately show ?thesis
    using assms(1) by (simp add: regInv_def)
qed

lemma OnStreamDetected_refines:
  assumes "regInv r" "order_ctr r < maxInt64"
  shows "regInv (OnStreamDetected sid now r)"
    "regDict (OnStreamDetected sid now r) = dict_setdefault sid ([], now) (regDict r)"
proof -
  let ?r = "r\<lparr>started := wrap64 (started r + 1), order_ctr := order_ctr r + 1\<rparr>"
  let ?e = "\<lparr>e_streamID = sid, e_reports = [], e_order = order_ctr r + 1, lastSeenMs = now\<rparr>"
  have w: "wrap64 (order_ctr r + 1) = order_ctr r + 1" using assms by (auto simp: regInv_def intro: wrap64_Suc)
  have inv: "regInv ?r" using assms regInv_order [of r "order_ctr r + 1"] by (simp add: regInv_def)
  have less: "\<forall>p\<in>set (streams ?r). e_order (snd p) < e_order ?e"
    using assms by (force simp: regInv_def)
  show "regInv (OnStreamDetected sid now r)"
    using inv regInv_insert [of ?r ?e] less
    by (auto simp: OnStreamDetected_def Let_def w split: option.splits)
  show "regDict (OnStreamDetected sid now r) = dict_setdefault sid ([], now) (regDict r)"
  proof (cases "map_of (streams r) sid")
    case None
    then have "orderedEntries (?r\<lparr>streams := AList.update sid ?e (streams ?r)\<rparr>) = orderedEntries ?r @ [?e]"
      using insert_newest [of ?r ?e] inv less by simp
    then have "regDict (OnStreamDetected sid now r) = regDict r @ [(sid, [], now)]"
      using None by (simp add: OnStreamDetected_def Let_def w regDict_def dictEntry_def)
    with None keys_regDict [OF assms(1)] show ?thesis
      by (simp add: dict_setdefault_def map_of_eq_None_iff)
  next
    case (Some e)
    then have "sid \<in> fst ` set (regDict r)"
      by (force simp: keys_regDict [OF assms(1)] dest!: map_of_SomeD)
    with Some show ?thesis
      by (simp add: OnStreamDetected_def Let_def w dict_setdefault_def)
  qed
qed

lemma regDict_replace:
  assumes "regInv r" "map_of (streams r) k = Some e"
  shows "regDict (r\<lparr>streams := AList.update k (e\<lparr>e_reports := f (e_reports e), lastSeenMs := now\<rparr>) (streams r)\<rparr>)
    = dict_modify k (\<lambda>(rs, seen). (f rs, now)) (regDict r)"
proof -
  have "x = e" if "x \<in> snd ` set (streams r)" "e_streamID x = k" for x
    using that entry_unique [OF assms] by auto
  then show ?thesis
    using replace_entry [OF assms, of "e\<lparr>e_reports := f (e_reports e), lastSeenMs := now\<rparr>"]
    by (auto simp: regDict_def dict_modify_def dictEntry_def)
qed

lemma OnReport_refines:
  assumes "regInv r" "order_ctr r < maxInt64"
  shows "regInv (OnReport rp now r)"
    "regDict (OnReport rp now r)
      = dict_modify (StreamID rp) (\<lambda>(rs, seen). (rs @ [rp], now)) (dict_setdefault (StreamID rp) ([], now) (regDict r))"
proof -
  let ?r = "r\<lparr>order_ctr := order_ctr r + 1\<rparr>"
  let ?e = "\<lparr>e_streamID = StreamID rp, e_reports = [rp], e_order = order_ctr r + 1, lastSeenMs = now\<rparr>"
  have w: "wrap64 (order_ctr r + 1) = order_ctr r + 1" using assms by (auto simp: regInv_def intro: wrap64_Suc)
  have inv: "regInv ?r" using assms regInv_order [of r "order_ctr r + 1"] by (simp add: regInv_def)
  have less: "\<forall>p\<in>set (streams ?r). e_order (snd p) < e_order ?e"
    using assms by (force simp: regInv_def)
  show "regInv (OnReport rp now r)"
    using assms(1) inv regInv_insert [of ?r ?e] less
    by (auto simp: OnReport_def Let_def w intro: regInv_replace split: option.splits)
  have keys: "fst ` set (regDict r) = fst ` set (streams r)" using assms(1) by (rule keys_regDict)
  show "regDict (OnReport rp now r)
      = dict_modify (StreamID rp) (\<lambda>(rs, seen). (rs @ [rp], now)) (dict_setdefault (StreamID rp) ([], now) (regDict r))"
  proof (cases "map_of (streams r) (StreamID rp)")
    case None
    then have "orderedEntries (?r\<lparr>streams := AList.update (StreamID rp) ?e (streams ?r)\<rparr>) = orderedEntries ?r @ [?e]"
      using insert_newest [of ?r ?e] inv less by simp
    then have "regDict (OnReport rp now r) = regDict r @ [(StreamID rp, [rp], now)]"
      using None by (simp add: OnReport_def Let_def w regDict_def dictEntry_def)
    moreover have "StreamID rp \<notin> fst ` set (regDict r)"
      using None keys by (simp add: map_of_eq_None_iff)
    then have "dict_modify (StreamID rp) g (regDict r) = regDict r" for g
      unfolding dict_modify_def by (intro map_idI) (auto simp: image_iff split: prod.splits)
    ultimately show ?thesis
      using \<open>StreamID rp \<notin> _\<close> by (simp add: dict_setdefault_def) (simp add: dict_modify_def)
  next
    case (Some e)
    then have "StreamID rp \<in> fst ` set (regDict r)" by (force simp: keys dest!: map_of_SomeD)
    with Some show ?thesis
      using regDict_replace [OF assms(1) Some, where f = "\<lambda>rs. rs @ [rp]" and now = now]
      by (simp add: OnReport_def dict_setdefault_def)
  qed
qed

lemma regDict_delete:
  "regInv r \<Longrightarrow> regDict (r\<lparr>streams := AList.delete k (streams r)\<rparr>) = dict_remove k (regDict r)"
  by (simp add: regDict_def delete_entry dict_remove_def dictEntry_def filter_map o_def)

lemma OnFinished_refines:
  assumes "regInv r"
  shows "regInv (OnFinished rp r)" "regDict (OnFinished rp r) = dict_remove (StreamID rp) (regDict r)"
  using assms regInv_delete [of "r\<lparr>finished := wrap64 (finished r + 1)\<rparr>"]
    regDict_delete [of "r\<lparr>finished := wrap64 (finished r + 1)\<rparr>"]
  by (simp_all add: OnFinished_def)

lemma evict_refines:
  assumes "regInv r"
  shows "regInv (fst (evictLocked es r))
    \<and> regDict (fst (evictLocked es r)) = filter (\<lambda>p. fst p \<notin> e_streamID ` set es) (regDict r)
    \<and> snd (evictLocked es r) = map synthesizeFinal (filter (\<lambda>e. e_reports e \<noteq> []) es)"
  using assms
proof (induction es arbitrary: r)
  case Nil
  then show ?case by simp
next
  case (Cons e es)
  let ?r = "r\<lparr>streams := AList.delete (e_streamID e) (streams r), finished := wrap64 (finished r + 1)\<rparr>"
  have "regInv ?r" using regInv_delete [of r "e_streamID e"] Cons.prems by simp
  note IH = Cons.IH [OF this]
  have "filter (\<lambda>p. fst p \<notin> e_streamID ` set es) (regDict ?r)
      = filter (\<lambda>p. fst p \<notin> e_streamID ` set (e # es)) (regDict r)"
    using Cons.prems regDict_delete [of r "e_streamID e"]
    by (auto simp: dict_remove_def split_beta intro: filter_cong)
  with IH show ?case by (simp add: split_beta)
qed

text \<open>A stream is finalised from what the dictionary holds of it.\<close>

definition finalOf :: "media_stream_id \<times> (stream_report list \<times> i64) \<Rightarrow> stream_report" where
  "finalOf p = synthesizeFinal \<lparr>e_streamID = fst p, e_reports = fst (snd p), e_order = 0, lastSeenMs = snd (snd p)\<rparr>"

lemma finalOf_dictEntry: "finalOf (dictEntry e) = synthesizeFinal e"
  by (simp add: finalOf_def dictEntry_def synthesizeFinal_def)

lemma finalOf_fields [simp]: "StreamID (finalOf p) = fst p" "FullReport (finalOf p)"
  by (simp_all add: finalOf_def synthesizeFinal_def Let_def)

definition spec_evict :: "(i64 \<Rightarrow> bool) \<Rightarrow> stream_dict \<Rightarrow> stream_dict \<times> stream_report list" where
  "spec_evict old d =
     (filter (\<lambda>(k, rs, seen). \<not> old seen) d,
      map finalOf (filter (\<lambda>(k, rs, seen). old seen \<and> rs \<noteq> []) d))"

lemma evict_old:
  assumes "regInv r"
  shows "regInv (fst (evictLocked (filter (\<lambda>e. old (lastSeenMs e)) (orderedEntries r)) r))"
    "map_prod regDict id (evictLocked (filter (\<lambda>e. old (lastSeenMs e)) (orderedEntries r)) r) = spec_evict old (regDict r)"
proof -
  let ?es = "filter (\<lambda>e. old (lastSeenMs e)) (orderedEntries r)"
  show "regInv (fst (evictLocked ?es r))" using evict_refines [OF assms] by blast
  have same: "a = b" if "(k, a) \<in> set (streams r)" "(l, b) \<in> set (streams r)" "e_streamID a = e_streamID b" for k l a b
  proof -
    have "e_streamID a = k" "e_streamID b = l" using that(1,2) assms by (auto simp: regInv_def)
    then have "k = l" using that(3) by simp
    with that assms show ?thesis by (auto simp: regInv_def elim!: eq_key_imp_eq_value)
  qed
  have "filter (\<lambda>p. fst p \<notin> e_streamID ` set ?es) (regDict r) = filter (\<lambda>(k, rs, seen). \<not> old seen) (regDict r)"
    by (rule filter_cong) (auto simp: regDict_def dictEntry_def image_iff dest: same)
  moreover have "map synthesizeFinal (filter (\<lambda>e. e_reports e \<noteq> []) ?es)
      = map finalOf (filter (\<lambda>(k, rs, seen). old seen \<and> rs \<noteq> []) (regDict r))"
    by (simp add: regDict_def filter_map o_def finalOf_dictEntry) (simp add: dictEntry_def conj_commute)
  ultimately show "map_prod regDict id (evictLocked ?es r) = spec_evict old (regDict r)"
    using evict_refines [OF assms, of ?es] by (simp add: spec_evict_def prod_eq_iff)
qed

lemma SweepGhostsAt_refines:
  assumes "regInv r"
  shows "regInv (fst (SweepGhostsAt idle now r))"
    "map_prod regDict id (SweepGhostsAt idle now r) = spec_evict (stale idle now) (regDict r)"
  using evict_old [OF assms] by (simp_all add: SweepGhostsAt_def)

lemma DrainAll_refines:
  assumes "regInv r"
  shows "regInv (fst (DrainAll r))" "map_prod regDict id (DrainAll r) = spec_evict (\<lambda>_. True) (regDict r)"
  using evict_old [OF assms, of "\<lambda>_. True"] by (simp_all add: DrainAll_def)

section \<open>Runs\<close>

text \<open>The calls the bus goroutine and the sweeper make, each with its clock reading, and
  what each call returns.\<close>

datatype reg_op =
    Detected media_stream_id i64
  | Reported stream_report i64
  | Finalised stream_report
  | Uptime u64
  | Sweep i64 i64
  | Drain

datatype reg_out = Nothing | Restarted bool | Finals "stream_report list"

fun reg_step :: "reg_op \<Rightarrow> registry \<Rightarrow> registry \<times> reg_out" where
  "reg_step (Detected sid now) r = (OnStreamDetected sid now r, Nothing)"
| "reg_step (Reported rp now) r = (OnReport rp now r, Nothing)"
| "reg_step (Finalised rp) r = (OnFinished rp r, Nothing)"
| "reg_step (Uptime u) r = map_prod id Restarted (NoteUptime u r)"
| "reg_step (Sweep idle now) r = map_prod id Finals (SweepGhostsAt idle now r)"
| "reg_step Drain r = map_prod id Finals (DrainAll r)"

fun reg_run :: "reg_op list \<Rightarrow> registry \<Rightarrow> registry \<times> reg_out list" where
  "reg_run [] r = (r, [])"
| "reg_run (x # xs) r = (let (r1, o1) = reg_step x r; (r2, os) = reg_run xs r1 in (r2, o1 # os))"

text \<open>The specification: a dictionary and the last uptime.\<close>

fun spec_step :: "reg_op \<Rightarrow> stream_dict \<times> u64 option \<Rightarrow> (stream_dict \<times> u64 option) \<times> reg_out" where
  "spec_step (Detected sid now) (d, u) = ((dict_setdefault sid ([], now) d, u), Nothing)"
| "spec_step (Reported rp now) (d, u) =
     ((dict_modify (StreamID rp) (\<lambda>(rs, seen). (rs @ [rp], now)) (dict_setdefault (StreamID rp) ([], now) d), u), Nothing)"
| "spec_step (Finalised rp) (d, u) = ((dict_remove (StreamID rp) d, u), Nothing)"
| "spec_step (Uptime v) (d, u) = ((d, Some v), Restarted (\<exists>w \<in> set_option u. v < w))"
| "spec_step (Sweep idle now) (d, u) = (let (d', finals) = spec_evict (stale idle now) d in ((d', u), Finals finals))"
| "spec_step Drain (d, u) = (let (d', finals) = spec_evict (\<lambda>_. True) d in ((d', u), Finals finals))"

fun spec_run :: "reg_op list \<Rightarrow> stream_dict \<times> u64 option \<Rightarrow> (stream_dict \<times> u64 option) \<times> reg_out list" where
  "spec_run [] s = (s, [])"
| "spec_run (x # xs) s = (let (s1, o1) = spec_step x s; (s2, os) = spec_run xs s1 in (s2, o1 # os))"

definition regAbs :: "registry \<Rightarrow> stream_dict \<times> u64 option" where
  "regAbs r = (regDict r, lastUptime r)"

lemma evict_keeps: "lastUptime (fst (evictLocked es r)) = lastUptime r \<and> order_ctr (fst (evictLocked es r)) = order_ctr r"
  by (induction es arbitrary: r) (auto simp: split_beta)

lemma order_step:
  assumes "regInv r" "order_ctr r < maxInt64"
  shows "order_ctr (fst (reg_step x r)) \<le> order_ctr r + 1"
proof -
  have "wrap64 (order_ctr r + 1) = order_ctr r + 1" using assms by (auto simp: regInv_def intro: wrap64_Suc)
  then show ?thesis
    by (cases x) (auto simp: OnStreamDetected_def OnReport_def OnFinished_def NoteUptime_def
        SweepGhostsAt_def DrainAll_def Let_def evict_keeps split: option.splits)
qed

lemma step_refines:
  assumes "regInv r" "order_ctr r < maxInt64"
  shows "regInv (fst (reg_step x r))" "map_prod regAbs id (reg_step x r) = spec_step x (regAbs r)"
proof -
  show "regInv (fst (reg_step x r))"
    using assms OnStreamDetected_refines(1) OnReport_refines(1) OnFinished_refines(1)
      SweepGhostsAt_refines(1) DrainAll_refines(1)
    by (cases x) (auto simp: NoteUptime_def)
  show "map_prod regAbs id (reg_step x r) = spec_step x (regAbs r)"
  proof (cases x)
    case (Detected sid now)
    then show ?thesis using OnStreamDetected_refines(2) [OF assms, of sid now]
      by (simp add: regAbs_def) (simp add: OnStreamDetected_def Let_def split: option.splits)
  next
    case (Reported rp now)
    then show ?thesis using OnReport_refines(2) [OF assms, of rp now]
      by (simp add: regAbs_def) (simp add: OnReport_def Let_def split: option.splits)
  next
    case (Finalised rp)
    then show ?thesis using OnFinished_refines(2) [OF assms(1), of rp]
      by (simp add: regAbs_def) (simp add: OnFinished_def)
  next
    case (Uptime u)
    then show ?thesis by (simp add: regAbs_def NoteUptime_def split: option.splits)
  next
    case (Sweep idle now)
    have "lastUptime (fst (SweepGhostsAt idle now r)) = lastUptime r"
      by (simp add: SweepGhostsAt_def evict_keeps)
    with Sweep SweepGhostsAt_refines(2) [OF assms(1), of idle now] show ?thesis
      by (simp add: regAbs_def split_beta prod_eq_iff)
  next
    case Drain
    have "lastUptime (fst (DrainAll r)) = lastUptime r" by (simp add: DrainAll_def evict_keeps)
    with Drain DrainAll_refines(2) [OF assms(1)] show ?thesis
      by (simp add: regAbs_def split_beta prod_eq_iff)
  qed
qed

lemma run_refines:
  assumes "regInv r" "order_ctr r + int (length xs) \<le> maxInt64"
  shows "regInv (fst (reg_run xs r)) \<and> map_prod regAbs id (reg_run xs r) = spec_run xs (regAbs r)"
  using assms
proof (induction xs arbitrary: r)
  case (Cons x xs)
  then have lt: "order_ctr r < maxInt64" by simp
  note step = step_refines [OF Cons.prems(1) lt, of x]
  from order_step [OF Cons.prems(1) lt, of x] Cons.prems
  have "regInv (fst (reg_run xs (fst (reg_step x r)))) \<and>
      map_prod regAbs id (reg_run xs (fst (reg_step x r))) = spec_run xs (regAbs (fst (reg_step x r)))"
    by (intro Cons.IH step(1)) simp
  moreover have "fst (spec_step x (regAbs r)) = regAbs (fst (reg_step x r))" "snd (spec_step x (regAbs r)) = snd (reg_step x r)"
    by (simp_all flip: step(2))
  ultimately show ?case
    by (cases "reg_step x r"; cases "reg_run xs (fst (reg_step x r))"; cases "spec_step x (regAbs r)";
        cases "spec_run xs (regAbs (fst (reg_step x r)))") auto
qed simp

section \<open>Conservation of the counters\<close>

lemma sumU_fold: "fold (\<lambda>x acc. acc + f x) ys a = a + sumU f ys"
proof (induction ys arbitrary: a)
  case (Cons y ys)
  show ?case using Cons [of "a + f y"] Cons [of "f y"] by (simp add: sumU_def add.assoc)
qed (simp add: sumU_def)

lemma sumU_append [simp]: "sumU f (xs @ ys) = sumU f xs + sumU f ys"
  by (simp add: sumU_def [of f "xs @ ys"] sumU_fold)

lemma sumU_simps [simp]: "sumU f [] = 0" "sumU f (x # xs) = f x + sumU f xs"
  using sumU_fold [of f xs "f x"] by (simp_all add: sumU_def)

text \<open>A counter that a final report sums over its intervals, as seen in the reports a run
  receives, the finals it returns and the reports the registry still holds.\<close>

definition received :: "(stream_report \<Rightarrow> 'b::len word) \<Rightarrow> reg_op list \<Rightarrow> 'b word" where
  "received f xs = sumU (\<lambda>x. case x of Reported rp _ \<Rightarrow> f rp | _ \<Rightarrow> 0) xs"

definition returned :: "(stream_report \<Rightarrow> 'b::len word) \<Rightarrow> reg_out list \<Rightarrow> 'b word" where
  "returned f os = sumU (\<lambda>x. case x of Finals rs \<Rightarrow> sumU f rs | _ \<Rightarrow> 0) os"

definition held :: "(stream_report \<Rightarrow> 'b::len word) \<Rightarrow> stream_dict \<Rightarrow> 'b word" where
  "held f d = sumU (\<lambda>(k, rs, seen). sumU f rs) d"

lemma held_setdefault: "held f (dict_setdefault k ([], now) d) = held f d"
  by (simp add: dict_setdefault_def held_def)

lemma dict_modify_absent: "k \<notin> fst ` set d \<Longrightarrow> dict_modify k g d = d"
  unfolding dict_modify_def by (rule map_idI) (auto simp: image_iff split: prod.splits)

lemma held_modify:
  assumes "dict_ok d" "k \<in> fst ` set d"
  shows "held f (dict_modify k (\<lambda>(rs, seen). (rs @ [rp], now)) d) = held f d + f rp"
  using assms
proof (induction d)
  case (Cons p d)
  have cons: "dict_modify k g (q # d) = (if fst q = k then (fst q, g (snd q)) else q) # dict_modify k g d" for g q
    by (cases q) (simp add: dict_modify_def)
  obtain l rs seen where p: "p = (l, rs, seen)" by (cases p) auto
  show ?case
  proof (cases "l = k")
    case True
    with Cons.prems p have "k \<notin> fst ` set d" by (simp add: dict_ok_def)
    with True show ?thesis by (simp add: cons p dict_modify_absent held_def)
  next
    case False
    with Cons p show ?thesis by (simp add: cons p held_def dict_ok_def)
  qed
qed simp

lemma held_evict:
  assumes "\<And>p. f (finalOf p) = sumU f (fst (snd p))"
  shows "held f d = sumU f (snd (spec_evict old d)) + held f (fst (spec_evict old d))"
  by (induction d) (auto simp: spec_evict_def held_def assms)

lemma spec_step_conserves:
  assumes "\<And>p. f (finalOf p) = sumU f (fst (snd p))" "dict_ok (fst s)" "\<forall>rp. x \<noteq> Finalised rp"
  shows "held f (fst s) + received f [x] = returned f [snd (spec_step x s)] + held f (fst (fst (spec_step x s)))"
proof (cases s)
  case (Pair d u)
  show ?thesis
  proof (cases x)
    case (Reported rp now)
    have "StreamID rp \<in> fst ` set (dict_setdefault (StreamID rp) ([], now) d)"
      by (auto simp: dict_setdefault_def)
    then show ?thesis
      using Reported Pair assms(2)
      by (simp add: held_modify held_setdefault received_def returned_def)
  qed (use assms Pair held_evict [OF assms(1), of d] in
      \<open>auto simp: received_def returned_def held_setdefault split_beta\<close>)
qed

lemma spec_step_ok: "dict_ok (fst s) \<Longrightarrow> dict_ok (fst (fst (spec_step x s)))"
  by (cases s; cases x) (auto simp: dict_remove_def spec_evict_def, simp add: dict_ok_def)

lemma spec_run_conserves:
  assumes "\<And>p. f (finalOf p) = sumU f (fst (snd p))" "dict_ok (fst s)" "\<forall>rp. Finalised rp \<notin> set xs"
  shows "held f (fst s) + received f xs = returned f (snd (spec_run xs s)) + held f (fst (fst (spec_run xs s)))"
  using assms(2,3)
proof (induction xs arbitrary: s)
  case (Cons x xs)
  let ?s = "fst (spec_step x s)"
  have one: "held f (fst s) + received f [x] = returned f [snd (spec_step x s)] + held f (fst ?s)"
    using Cons.prems by (intro spec_step_conserves assms(1)) auto
  have rest: "held f (fst ?s) + received f xs = returned f (snd (spec_run xs ?s)) + held f (fst (fst (spec_run xs ?s)))"
    using Cons.prems by (intro Cons.IH spec_step_ok) auto
  have split: "received f (x # xs) = received f [x] + received f xs"
    "returned f (snd (spec_step x s) # snd (spec_run xs ?s)) = returned f [snd (spec_step x s)] + returned f (snd (spec_run xs ?s))"
    by (simp_all add: received_def returned_def)
  have run: "snd (spec_run (x # xs) s) = snd (spec_step x s) # snd (spec_run xs ?s)"
    "fst (spec_run (x # xs) s) = fst (spec_run xs ?s)"
    by (simp_all add: split_beta)
  have "held f (fst s) + received f (x # xs) = (held f (fst s) + received f [x]) + received f xs"
    by (simp only: split add.assoc)
  also have "\<dots> = returned f [snd (spec_step x s)] + (held f (fst ?s) + received f xs)"
    by (simp only: one add.assoc)
  finally show ?case by (simp only: rest run split add.assoc)
qed (simp add: received_def returned_def)

lemma evict_finished:
  assumes "0 \<le> finished r" "finished r + int (length es) \<le> maxInt64"
  shows "finished (fst (evictLocked es r)) = finished r + int (length es)"
  using assms
proof (induction es arbitrary: r)
  case (Cons e es)
  then show ?case by (simp add: split_beta wrap64_Suc)
qed simp

lemma ActiveCount_length: "ActiveCount r = length (regDict r)"
  by (simp add: ActiveCount_def regDict_def orderedEntries_def)

section \<open>Properties\<close>

text \<open>C2: The registry refines the insertion-ordered dictionary it was ported from. After any
  sequence of calls (fewer than the counter can hold) the hash map with its stamps stands
  for exactly the dictionary the specification computes, and every call has returned the
  same finals in the same order and the same restart verdicts.\<close>

theorem registry_refines_dict:
  assumes "int (length xs) \<le> maxInt64"
  shows "map_prod regAbs id (reg_run xs (NewActiveStreamRegistry a n)) = spec_run xs ([], None)"
proof -
  have "regAbs (NewActiveStreamRegistry a n) = ([], None)" "order_ctr (NewActiveStreamRegistry a n) = 0"
    by (simp_all add: regAbs_def regDict_def orderedEntries_def NewActiveStreamRegistry_def)
  with run_refines [OF regInv_new, of a n xs] assms show ?thesis by simp
qed

theorem registry_refines_dict_witness:
  "map_prod regAbs id (reg_run [Detected sid0 0, Reported rep0 10, Drain] (NewActiveStreamRegistry [] []))
   = (([], None), [Nothing, Nothing, Finals [finalOf (sid0, [rep0], 10)]])"
  using registry_refines_dict [of "[Detected sid0 0, Reported rep0 10, Drain]" "[]" "[]"]
  by (simp add: maxInt64_def dict_setdefault_def dict_modify_def spec_evict_def rep0_def)

text \<open>C6: No packet is lost between reports and finals. Over any run without finals from the
  bus, the packets, lost packets and audio milliseconds reported by the bus are those of the
  finals the sweeps and drains returned plus those of the reports still held, as sums of
  the 64-bit counters.\<close>

theorem registry_conserves_counters:
  assumes "int (length xs) \<le> maxInt64" "\<forall>rp. Finalised rp \<notin> set xs"
    and "reg_run xs (NewActiveStreamRegistry a n) = (r, os)"
  shows "received RTPPacketCounter xs = returned RTPPacketCounter os + held RTPPacketCounter (regDict r)
    \<and> received LostPacketCounter xs = returned LostPacketCounter os + held LostPacketCounter (regDict r)
    \<and> received DurationAudio xs = returned DurationAudio os + held DurationAudio (regDict r)"
proof -
  have "regAbs (NewActiveStreamRegistry a n) = ([], None)" "order_ctr (NewActiveStreamRegistry a n) = 0"
    by (simp_all add: regAbs_def regDict_def orderedEntries_def NewActiveStreamRegistry_def)
  with run_refines [OF regInv_new, of a n xs] assms
  have run: "spec_run xs ([], None) = (regAbs r, os)" by simp
  have "received f xs = returned f os + held f (regDict r)" if "\<And>p. f (finalOf p) = sumU f (fst (snd p))"
    for f :: "stream_report \<Rightarrow> 64 word"
    using spec_run_conserves [of f "([], None)" xs, OF that] assms(2)
    by (simp add: run regAbs_def dict_ok_def held_def)
  then show ?thesis by (simp add: finalOf_def synthesizeFinal_def Let_def)
qed

theorem registry_conserves_counters_witness:
  "returned RTPPacketCounter (snd (reg_run [Reported rep0 10, Drain, Reported rep0 20] (NewActiveStreamRegistry [] [])))
   + held RTPPacketCounter (regDict (fst (reg_run [Reported rep0 10, Drain, Reported rep0 20] (NewActiveStreamRegistry [] []))))
   = 500"
proof -
  have "received RTPPacketCounter [Reported rep0 10, Drain, Reported rep0 20] = 500"
    by (simp add: received_def rep0_def)
  with registry_conserves_counters [of "[Reported rep0 10, Drain, Reported rep0 20]" "[]" "[]",
      OF _ _ prod.collapse [symmetric]]
  show ?thesis by (auto simp: maxInt64_def simp del: reg_run.simps)
qed

text \<open>C7: A ghost sweep evicts exactly the streams idle for at least the limit, leaves every
  other stream as it was, counts each evicted stream as finished once and returns, in order
  of appearance, a final for each evicted stream that had reported.\<close>

theorem SweepGhostsAt_exact:
  assumes "regInv r" "0 \<le> finished r" "finished r + int (ActiveCount r) \<le> maxInt64"
    and "SweepGhostsAt idle now r = (r', finals)"
  shows "regDict r' = filter (\<lambda>(k, rs, seen). \<not> stale idle now seen) (regDict r)
    \<and> map StreamID finals = map fst (filter (\<lambda>(k, rs, seen). stale idle now seen \<and> rs \<noteq> []) (regDict r))
    \<and> list_all FullReport finals
    \<and> finished r' + int (ActiveCount r') = finished r + int (ActiveCount r)"
proof -
  let ?es = "filter (\<lambda>e. stale idle now (lastSeenMs e)) (orderedEntries r)"
  have refines: "(regDict r', finals) = spec_evict (stale idle now) (regDict r)" "regInv r'"
    using SweepGhostsAt_refines [OF assms(1), of idle now] assms(4) by auto
  have "length ?es \<le> ActiveCount r" by (simp add: ActiveCount_length regDict_def length_filter_le)
  then have "finished r' = finished r + int (length ?es)"
    using evict_finished [of r ?es] assms by (simp add: SweepGhostsAt_def)
  moreover have "length ?es = length (filter (\<lambda>(k, rs, seen). stale idle now seen) (regDict r))"
    by (simp add: regDict_def filter_map o_def) (simp add: dictEntry_def)
  moreover have "ActiveCount r' = length (filter (\<lambda>(k, rs, seen). \<not> stale idle now seen) (regDict r))"
    using refines by (simp add: ActiveCount_length spec_evict_def)
  moreover have compl: "length (filter (\<lambda>(k, rs, seen). stale idle now seen) d)
      + length (filter (\<lambda>(k, rs, seen). \<not> stale idle now seen) d) = length d" for d :: stream_dict
    by (induction d) auto
  ultimately have "finished r' + int (ActiveCount r') = finished r + int (ActiveCount r)"
    using ActiveCount_length [of r] compl [of "regDict r"] by linarith
  moreover have "map StreamID finals = map fst (filter (\<lambda>(k, rs, seen). stale idle now seen \<and> rs \<noteq> []) (regDict r))"
    "list_all FullReport finals"
    using refines(1) by (simp_all add: spec_evict_def list_all_iff)
  ultimately show ?thesis using refines(1) by (simp add: spec_evict_def)
qed

theorem SweepGhostsAt_exact_witness:
  "finished (fst (SweepGhostsAt 30 100 (OnReport rep0 10 (NewActiveStreamRegistry [] []))))
   + int (ActiveCount (fst (SweepGhostsAt 30 100 (OnReport rep0 10 (NewActiveStreamRegistry [] []))))) = 1"
proof -
  let ?r = "OnReport rep0 10 (NewActiveStreamRegistry [] [])"
  have "regInv ?r" by (rule OnReport_refines(1) [OF regInv_new]) (simp add: NewActiveStreamRegistry_def maxInt64_def)
  moreover have "finished ?r = 0" "ActiveCount ?r = 1"
    by (simp_all add: OnReport_def NewActiveStreamRegistry_def ActiveCount_def)
  ultimately show ?thesis
    using SweepGhostsAt_exact [of ?r 30 100, OF _ _ _ prod.collapse [symmetric]] by (simp add: maxInt64_def)
qed

text \<open>The iteration order of Go's map never shows: however the runtime enumerates the
  streams, the records for the list, the finals of a sweep and the finals of a drain come
  out the same, in order of appearance.\<close>

lemma map_order_irrelevant:
  assumes "regInv r" and "mset ss = mset (streams r)"
  shows "SnapshotRecords (r\<lparr>streams := ss\<rparr>) = SnapshotRecords r
    \<and> snd (SweepGhostsAt idle now (r\<lparr>streams := ss\<rparr>)) = snd (SweepGhostsAt idle now r)
    \<and> snd (DrainAll (r\<lparr>streams := ss\<rparr>)) = snd (DrainAll r)"
proof -
  have set: "set ss = set (streams r)" by (rule mset_eq_setD [OF assms(2)])
  have "distinct (map fst ss)" "distinct (map (e_order \<circ> snd) ss)"
    using assms by (simp_all add: regInv_def mset_distinct_map [OF assms(2)])
  then have inv: "regInv (r\<lparr>streams := ss\<rparr>)" using assms(1) set by (simp add: regInv_def)
  have "sort_key e_order (map snd ss) = sort_key e_order (map snd (streams r))"
  proof (rule sort_key_inj_key_eq)
    show "mset (map snd ss) = mset (sort_key e_order (map snd (streams r)))" using assms(2) by simp
    have "inj_on (e_order \<circ> snd) (set (streams r))" using assms(1) by (simp add: regInv_def distinct_map)
    then show "inj_on e_order (set (map snd ss))" by (auto simp: set inj_on_def)
  qed simp
  then have "orderedEntries (r\<lparr>streams := ss\<rparr>) = orderedEntries r" by (simp add: orderedEntries_def)
  moreover have "recordLocked (r\<lparr>streams := ss\<rparr>) = recordLocked r"
    by (rule ext) (simp add: recordLocked_def Let_def)
  ultimately show ?thesis
    using evict_refines [OF inv] evict_refines [OF assms(1)]
    by (simp add: SnapshotRecords_def SweepGhostsAt_def DrainAll_def)
qed

end
