(* ===== verification/Active_List.thy ===== *)
theory Active_List
  imports Filter_Sql Filter_Transport Stable_Sort
begin

text \<open>
  Package \<^verbatim>\<open>stats\<close>: the active-stream list pipeline (\<^verbatim>\<open>active_list.go\<close>: sort, date
  window, exact Call-ID, filter expression, page slice) and the paging actions
  (\<^verbatim>\<open>pagination.go\<close>). Go's \<^verbatim>\<open>int\<close> arithmetic is written out with its wrap-around;
  a panic is \<^verbatim>\<open>None\<close>. The sort is an instance of the \<open>weak_order\<close> interface, in both
  directions.
\<close>

section \<open>pagination.go\<close>

datatype page_action = PageAction string string

definition scopes :: "string set" where "scopes = {''mem'', ''db''}"
definition ops :: "string set" where "ops = {''first'', ''last'', ''prev'', ''next'', ''refresh''}"

text \<open>\<^verbatim>\<open>strings.Cut(action, "_")\<close>.\<close>

definition ParseAction :: "string \<Rightarrow> page_action option" where
  "ParseAction action =
     (if action = [] then None
      else case dropWhile (\<lambda>c. c \<noteq> CHR ''_'') action of
             [] \<Rightarrow> None
           | _ # op \<Rightarrow>
               let scope = takeWhile (\<lambda>c. c \<noteq> CHR ''_'') action
               in if scope \<notin> scopes \<or> op \<notin> ops then None else Some (PageAction scope op))"

definition max0 :: "int \<Rightarrow> int" where
  "max0 v = (if v < 0 then 0 else v)"

definition ResolvePageOffset :: "string \<Rightarrow> int \<Rightarrow> int \<Rightarrow> int \<Rightarrow> string + int" where
  "ResolvePageOffset op offset maxCount tot =
     (let lastPage = max0 (wrap64 (tot - maxCount))
      in if op = ''first'' then Inr 0
         else if op = ''last'' then Inr lastPage
         else if op = ''prev'' then Inr (max0 (wrap64 (offset - maxCount)))
         else if op = ''next'' then Inr (max0 (min lastPage (wrap64 (offset + maxCount))))
         else if op = ''refresh'' then Inr (max0 offset)
         else Inl op)"

section \<open>active_list.go\<close>

definition sortKeys :: "string \<Rightarrow> string option" where
  "sortKeys = map_of
     [('''', ''start_time''), (''sevana_mos'', ''sevana_mos''), (''sevana_rfactor'', ''sevana_rfactor''),
      (''src_ip'', ''src_ip''), (''dst_ip'', ''dst_ip''), (''network_mos'', ''network_mos''),
      (''jitter'', ''jitter''), (''duration'', ''duration''), (''sip_src'', ''sip_src''),
      (''sip_dst'', ''sip_dst'')]"

text \<open>\<^verbatim>\<open>r[key]\<close> on a Go map: a missing key reads as \<^verbatim>\<open>nil\<close>.\<close>

definition getv :: "valmap \<Rightarrow> string \<Rightarrow> val" where
  "getv r k = (case r k of Some v \<Rightarrow> v | None \<Rightarrow> VNil)"

record sort_key =
  rank :: nat
  num_key :: f64
  str_key :: string

fun makeSortKey :: "val \<Rightarrow> sort_key" where
  "makeSortKey VNil = \<lparr>rank = 0, num_key = Fin False 0, str_key = []\<rparr>"
| "makeSortKey (VInt i) = \<lparr>rank = 1, num_key = f64_of_int (sint i), str_key = []\<rparr>"
| "makeSortKey (VGoInt i) = \<lparr>rank = 1, num_key = f64_of_int (sint i), str_key = []\<rparr>"
| "makeSortKey (VFloat f) = \<lparr>rank = 1, num_key = f, str_key = []\<rparr>"
| "makeSortKey (VBool b) = \<lparr>rank = 2, num_key = Fin False 0, str_key = (if b then ''True'' else ''False'')\<rparr>"
| "makeSortKey (VStr s) = \<lparr>rank = 2, num_key = Fin False 0, str_key = s\<rparr>"
| "makeSortKey (VStrs _) = \<lparr>rank = 2, num_key = Fin False 0, str_key = []\<rparr>"

definition keyLess :: "sort_key \<Rightarrow> sort_key \<Rightarrow> bool" where
  "keyLess a b =
     (if rank a \<noteq> rank b then rank a < rank b
      else if rank a = 1 then f64_lt (num_key a) (num_key b)
      else str_lt (str_key a) (str_key b))"

fun numOf :: "val \<Rightarrow> f64" where
  "numOf (VInt i) = f64_of_int (sint i)"
| "numOf (VGoInt i) = f64_of_int (sint i)"
| "numOf (VFloat f) = f"
| "numOf (VBool b) = (if b then Fin False 1 else Fin False 0)"
| "numOf (VStr s) = (case strconv_ParseFloat (strings_TrimSpace s) of Some f \<Rightarrow> f | None \<Rightarrow> Fin False 0)"
| "numOf _ = Fin False 0"

definition pairLess :: "bool \<Rightarrow> valmap \<times> sort_key \<Rightarrow> valmap \<times> sort_key \<Rightarrow> bool" where
  "pairLess descending p q = (if descending then keyLess (snd q) (snd p) else keyLess (snd p) (snd q))"

definition sortKeyName :: "string \<Rightarrow> string" where
  "sortKeyName sortField = (case sortKeys sortField of Some k \<Rightarrow> k | None \<Rightarrow> ''start_time'')"

definition decorate :: "string \<Rightarrow> valmap \<Rightarrow> valmap \<times> sort_key" where
  "decorate sortField r = (r, makeSortKey (getv r (sortKeyName sortField)))"

definition sortRecords :: "valmap list \<Rightarrow> string \<Rightarrow> bool \<Rightarrow> valmap list" where
  "sortRecords items sortField descending =
     map fst (sortStable (pairLess descending) (map (decorate sortField) items))"

definition inWindow :: "date_interval option \<Rightarrow> valmap \<Rightarrow> bool" where
  "inWindow di r =
     (case di of
        None \<Rightarrow> True
      | Some d \<Rightarrow> (let lo = f64_of_int (StartSeconds d); hi = f64_of_int (EndSeconds d);
                       x = numOf (getv r ''start_time'')
                   in f64_le lo x \<and> f64_le x hi))"

definition callIdMatches :: "string \<Rightarrow> valmap \<Rightarrow> bool" where
  "callIdMatches cid r \<longleftrightarrow> cid = [] \<or> getv r ''sip_callid'' = VStr cid"

definition expressionMatches :: "(string \<Rightarrow> string) \<Rightarrow> string \<Rightarrow> valmap list \<Rightarrow> valmap list" where
  "expressionMatches uc expr items =
     (if expr = [] then items
      else case Parse expr of
             Inl e \<Rightarrow> []
           | Inr n \<Rightarrow> filter (EvaluateStreamNode uc n) items)"

text \<open>The page slice: \<^verbatim>\<open>None\<close> is the panic of \<^verbatim>\<open>make\<close> when the end of the page wraps
  below its start.\<close>

definition pageSlice :: "'a list \<Rightarrow> int \<Rightarrow> int \<Rightarrow> 'a list option" where
  "pageSlice items offset maxCount =
     (let len = int (length items); start = (if offset < 0 then 0 else offset)
      in if maxCount \<le> 0 then Some []
         else if len \<le> start then Some []
         else let e = wrap64 (start + maxCount); e' = (if len < e then len else e)
              in if e' < start then None else Some (take (nat (e' - start)) (drop (nat start) items)))"

definition PaginateActive ::
    "(string \<Rightarrow> string) \<Rightarrow> valmap list \<Rightarrow> search_filter \<Rightarrow> (valmap list \<times> nat) option" where
  "PaginateActive uc records flt =
     (let items1 = sortRecords records (SortField flt) (Descending flt);
          items2 = filter (inWindow (DateInterval flt)) items1;
          items3 = filter (callIdMatches (SIPCallID flt)) items2;
          items4 = expressionMatches uc (Expression flt) items3
      in map_option (\<lambda>page. (page, length items4)) (pageSlice items4 (PageOffset flt) (MaxCount flt)))"

section \<open>The sort is a weak order on keys without NaN\<close>

definition keyOk :: "sort_key \<Rightarrow> bool" where
  "keyOk k \<longleftrightarrow> (rank k = 1 \<longrightarrow> num_key k \<noteq> NaN)"

definition pairOk :: "valmap \<times> sort_key \<Rightarrow> bool" where
  "pairOk p \<longleftrightarrow> keyOk (snd p)"

lemma keyLess_asym: "keyLess a b \<Longrightarrow> \<not> keyLess b a"
  by (auto simp: keyLess_def f64_lt_asym str_lt_asym split: if_splits)

lemma keyLess_negtrans:
  "keyOk b \<Longrightarrow> \<not> keyLess a b \<Longrightarrow> \<not> keyLess b c \<Longrightarrow> \<not> keyLess a c"
  using f64_lt_negtrans [of "num_key b" "num_key a" "num_key c"]
    str_lt_negtrans [of "str_key a" "str_key b" "str_key c"]
  by (auto simp: keyLess_def keyOk_def split: if_splits)

interpretation keys: weak_order "pairLess d" pairOk for d
  by unfold_locales
    (auto simp: pairLess_def pairOk_def dest: keyLess_asym keyLess_negtrans split: if_splits)

definition sortable :: "string \<Rightarrow> valmap list \<Rightarrow> bool" where
  "sortable sortField rs \<longleftrightarrow> list_all pairOk (map (decorate sortField) rs)"

lemma sortRecords_filter:
  assumes "sortable sf rs"
  shows "filter P (sortRecords rs sf d) = sortRecords (filter P rs) sf d"
proof -
  have "filter P (sortRecords rs sf d)
      = map fst (filter (\<lambda>p. P (fst p)) (sortStable (pairLess d) (map (decorate sf) rs)))"
    by (simp add: sortRecords_def filter_map o_def)
  also have "\<dots> = map fst (sortStable (pairLess d) (filter (\<lambda>p. P (fst p)) (map (decorate sf) rs)))"
    using assms by (simp add: keys.filter_sortStable sortable_def)
  also have "filter (\<lambda>p. P (fst p)) (map (decorate sf) rs) = map (decorate sf) (filter P rs)"
    by (simp add: filter_map o_def decorate_def)
  finally show ?thesis by (simp add: sortRecords_def)
qed

lemma mset_sortRecords [simp]: "mset (sortRecords rs sf d) = mset rs"
proof -
  have "mset (sortRecords rs sf d) = image_mset fst (mset (map (decorate sf) rs))"
    by (simp add: sortRecords_def)
  also have "\<dots> = mset (map (fst \<circ> decorate sf) rs)" by (simp flip: mset_map)
  also have "fst \<circ> decorate sf = id" by (auto simp: decorate_def)
  finally show ?thesis by simp
qed

lemma length_sortRecords [simp]: "length (sortRecords rs sf d) = length rs"
  by (simp add: sortRecords_def)

definition recordLess :: "string \<Rightarrow> bool \<Rightarrow> valmap \<Rightarrow> valmap \<Rightarrow> bool" where
  "recordLess sf d a b = pairLess d (decorate sf a) (decorate sf b)"

lemma sorted_decorated:
  "sortStable (pairLess d) (map (decorate sf) rs) = map (decorate sf) (sortRecords rs sf d)"
proof -
  have "map (\<lambda>p. decorate sf (fst p)) (sortStable (pairLess d) (map (decorate sf) rs))
      = sortStable (pairLess d) (map (decorate sf) rs)"
    by (rule map_idI) (auto simp: decorate_def)
  then show ?thesis by (simp add: sortRecords_def o_def)
qed

lemma sortRecords_sorted:
  assumes "sortable sf rs"
  shows "sortedBy (recordLess sf d) (sortRecords rs sf d)"
  using keys.sorted_sortStable [of "map (decorate sf) rs" d] assms
  by (simp add: sorted_decorated sortable_def sortedBy_def sorted_wrt_map recordLess_def)

lemma sortRecords_stable:
  assumes "sortable sf rs" "sortable sf [k]"
  shows "filter (\<lambda>r. \<not> recordLess sf d r k \<and> \<not> recordLess sf d k r) (sortRecords rs sf d)
     = filter (\<lambda>r. \<not> recordLess sf d r k \<and> \<not> recordLess sf d k r) rs"
proof -
  have "filter (\<lambda>p. \<not> pairLess d p (decorate sf k) \<and> \<not> pairLess d (decorate sf k) p)
          (map (decorate sf) (sortRecords rs sf d))
      = filter (\<lambda>p. \<not> pairLess d p (decorate sf k) \<and> \<not> pairLess d (decorate sf k) p) (map (decorate sf) rs)"
    using keys.stable_sortStable [of "map (decorate sf) rs" "decorate sf k" d] assms
    by (simp add: sorted_decorated sortable_def)
  then have "map fst (map (decorate sf) (filter (\<lambda>r. \<not> recordLess sf d r k \<and> \<not> recordLess sf d k r) (sortRecords rs sf d)))
      = map fst (map (decorate sf) (filter (\<lambda>r. \<not> recordLess sf d r k \<and> \<not> recordLess sf d k r) rs))"
    by (simp only: filter_map o_def recordLess_def)
  then show ?thesis by (simp add: decorate_def o_def)
qed

section \<open>What the list shows\<close>

definition selected :: "(string \<Rightarrow> string) \<Rightarrow> search_filter \<Rightarrow> valmap \<Rightarrow> bool" where
  "selected uc flt r \<longleftrightarrow>
     inWindow (DateInterval flt) r \<and> callIdMatches (SIPCallID flt) r
     \<and> (Expression flt = [] \<or> EvaluateStream uc (Expression flt) r)"

lemma expressionMatches_filter:
  "expressionMatches uc expr items = filter (\<lambda>r. expr = [] \<or> EvaluateStream uc expr r) items"
  by (cases "Parse expr") (auto simp: expressionMatches_def EvaluateStream_parse)

lemma PaginateActive_selected:
  "PaginateActive uc rs flt =
     (let items = filter (selected uc flt) (sortRecords rs (SortField flt) (Descending flt))
      in map_option (\<lambda>page. (page, length items)) (pageSlice items (PageOffset flt) (MaxCount flt)))"
proof -
  have "filter (\<lambda>r. Expression flt = [] \<or> EvaluateStream uc (Expression flt) r)
          (filter (callIdMatches (SIPCallID flt)) (filter (inWindow (DateInterval flt)) xs))
      = filter (selected uc flt) xs" for xs
    unfolding filter_filter by (rule filter_cong) (auto simp: selected_def)
  then show ?thesis by (simp only: PaginateActive_def expressionMatches_filter Let_def)
qed

lemma pageSlice_ok:
  assumes "max0 off + cnt \<le> maxInt64"
  shows "pageSlice xs off cnt = Some (if cnt \<le> 0 then [] else take (nat cnt) (drop (nat (max0 off)) xs))"
proof (cases "cnt \<le> 0 \<or> int (length xs) \<le> max0 off")
  case True
  then show ?thesis by (auto simp: pageSlice_def Let_def max0_def)
next
  case False
  then have "wrap64 (max0 off + cnt) = max0 off + cnt"
    using assms by (intro wrap64_id) (auto simp: max0_def minInt64_def)
  with False show ?thesis
    by (auto simp: pageSlice_def Let_def max0_def nat_diff_distrib nat_add_distrib)
qed

lemma pageSlice_overflow:
  assumes "0 \<le> off" "off < int (length xs)" "off \<le> maxInt64" "0 < cnt" "cnt \<le> maxInt64" "maxInt64 < off + cnt"
  shows "pageSlice xs off cnt = None"
proof -
  have "wrap64 (off + cnt) = off + cnt - 2 ^ 64"
    using assms by (intro wrap64_over) (auto simp: maxInt64_def)
  then have "wrap64 (off + cnt) < 0" using assms by (simp add: maxInt64_def)
  with assms show ?thesis by (auto simp: pageSlice_def Let_def)
qed

lemma PaginateActive_run:
  assumes "sortable (SortField flt) rs"
  shows "PaginateActive uc rs flt =
     map_option (\<lambda>page. (page, length (filter (selected uc flt) rs)))
       (pageSlice (sortRecords (filter (selected uc flt) rs) (SortField flt) (Descending flt))
          (PageOffset flt) (MaxCount flt))"
  using assms by (simp add: PaginateActive_selected sortRecords_filter Let_def)

text \<open>C14: The active-stream list returns what it promises: with sort keys free of NaN and
  a page whose end fits Go's int, \<^verbatim>\<open>PaginateActive\<close> answers the requested slice of the
  stable sort of exactly the records inside the window, with the Call-ID and matching the
  expression, and the total counts those records.\<close>

theorem PaginateActive_correct:
  assumes "sortable (SortField flt) rs" and "max0 (PageOffset flt) + MaxCount flt \<le> maxInt64"
  shows "PaginateActive uc rs flt =
     Some (if MaxCount flt \<le> 0 then []
           else take (nat (MaxCount flt)) (drop (nat (max0 (PageOffset flt)))
                  (sortRecords (filter (selected uc flt) rs) (SortField flt) (Descending flt))),
           length (filter (selected uc flt) rs))"
  using assms by (simp add: PaginateActive_run pageSlice_ok)

definition demoStream :: "int \<Rightarrow> string \<Rightarrow> valmap" where
  "demoStream j cid = [''jitter'' \<mapsto> VInt (word_of_int j), ''sip_callid'' \<mapsto> VStr cid]"

definition demoFilter :: search_filter where
  "demoFilter = NewSearchFilter \<lparr>SortField := ''jitter'', SIPCallID := ''a'', MaxCount := 1\<rparr>"

theorem PaginateActive_correct_witness:
  "PaginateActive id [demoStream 7 ''a'', demoStream 3 ''b'', demoStream 5 ''a''] demoFilter \<noteq> None"
  using PaginateActive_correct [of demoFilter "[demoStream 7 ''a'', demoStream 3 ''b'', demoStream 5 ''a'']" id]
  by (simp add: sortable_def pairOk_def keyOk_def decorate_def demoFilter_def demoStream_def getv_def
      sortKeyName_def sortKeys_def max0_def NewSearchFilter_def maxInt64_def f64_of_int_exact)

text \<open>Sorting the records keeps every one of them, orders them by the chosen key in the
  chosen direction, and keeps records with equal keys in the order they came in (the
  comparison is strict, so the descending order is stable too).\<close>

lemma sortRecords_correct:
  assumes "sortable sf rs"
  shows "mset (sortRecords rs sf d) = mset rs
    \<and> sortedBy (recordLess sf d) (sortRecords rs sf d)
    \<and> (\<forall>k. sortable sf [k] \<longrightarrow>
         filter (\<lambda>r. \<not> recordLess sf d r k \<and> \<not> recordLess sf d k r) (sortRecords rs sf d)
         = filter (\<lambda>r. \<not> recordLess sf d r k \<and> \<not> recordLess sf d k r) rs)"
  using assms sortRecords_sorted sortRecords_stable by simp

text \<open>Page arithmetic: for offsets and counts a filter can carry without overflow,
  every repaging action answers a non-negative offset; \<^verbatim>\<open>first\<close>, \<^verbatim>\<open>last\<close> and \<^verbatim>\<open>next\<close>
  never go past the last full page, and \<^verbatim>\<open>prev\<close> goes back one page at most.\<close>

lemma ResolvePageOffset_bounds:
  assumes "op \<in> ops" "0 \<le> offset" "0 \<le> maxCount" "offset + maxCount \<le> maxInt64" "0 \<le> tot" "tot \<le> maxInt64"
  shows "\<exists>o'. ResolvePageOffset op offset maxCount tot = Inr o' \<and> 0 \<le> o'
     \<and> (op \<in> {''first'', ''last'', ''next''} \<longrightarrow> o' \<le> max 0 (tot - maxCount))
     \<and> (op = ''prev'' \<longrightarrow> offset - maxCount \<le> o' \<and> o' \<le> offset)"
proof -
  have "wrap64 (tot - maxCount) = tot - maxCount" "wrap64 (offset - maxCount) = offset - maxCount"
    "wrap64 (offset + maxCount) = offset + maxCount"
    using assms by (auto intro!: wrap64_id simp: minInt64_def maxInt64_def)
  with assms(1-3) show ?thesis by (auto simp: ops_def ResolvePageOffset_def max0_def Let_def)
qed

text \<open>A page whose end does not fit Go's int is not sliced but panics: an offset inside
  the list and a page size close to the largest int make the end of the page wrap below
  its start, and \<^verbatim>\<open>make\<close> gets a negative length.\<close>

lemma PaginateActive_overflow:
  assumes "sortable (SortField flt) rs" "0 \<le> PageOffset flt"
    "PageOffset flt < int (length (filter (selected uc flt) rs))"
    "PageOffset flt \<le> maxInt64" "0 < MaxCount flt" "MaxCount flt \<le> maxInt64"
    "maxInt64 < PageOffset flt + MaxCount flt"
  shows "PaginateActive uc rs flt = None"
  using assms by (simp add: PaginateActive_run pageSlice_overflow)

end
