(* ===== verification/Wav.thy ===== *)
theory Wav
  imports Prelude
begin

text \<open>
  The WAV output of the REST API (\<^verbatim>\<open>api/wav.go\<close>): the stored audio chunks of a stream, each
  with its own 44-byte header, become one file with one header. A byte is a character; the header
  fields are words at their width, so the sizes wrap as in Go. The lemmas read the produced header
  back, which gives the theorem: the output is itself a chunk that can be concatenated further.
\<close>

unbundle bit_operations_syntax

type_synonym u16 = "16 word"

definition wavHeaderSize :: nat where "wavHeaderSize = 44"

section \<open>Package encoding/binary, little endian\<close>

definition appendU16 :: "string \<Rightarrow> u16 \<Rightarrow> string" where
  "appendU16 b v = b @ map (\<lambda>i. char_of (drop_bit (8 * i) (unat v))) [0, 1]"

definition appendU32 :: "string \<Rightarrow> u32 \<Rightarrow> string" where
  "appendU32 b v = b @ map (\<lambda>i. char_of (drop_bit (8 * i) (unat v))) [0, 1, 2, 3]"

definition leWord :: "string \<Rightarrow> nat" where
  "leWord b = foldr (\<lambda>c n. of_char c + 256 * n) b 0"

definition Uint16 :: "string \<Rightarrow> u16" where
  "Uint16 b = word_of_nat (leWord (take 2 b))"

definition Uint32 :: "string \<Rightarrow> u32" where
  "Uint32 b = word_of_nat (leWord (take 4 b))"

section \<open>ConcatWav\<close>

text \<open>The local variables of the loop.\<close>

record wav_state =
  rate :: u32
  channels :: u16
  bits :: u16
  pcm :: string

definition isChunk :: "string \<Rightarrow> bool" where
  "isChunk w \<longleftrightarrow> \<not> (length w \<le> wavHeaderSize \<or> take 4 w \<noteq> ''RIFF'')"

definition readFormat :: "string \<Rightarrow> wav_state \<Rightarrow> wav_state" where
  "readFormat w s =
     (if rate s = 0
      then let ch = Uint16 (drop 22 w); bt = Uint16 (drop 34 w)
           in s\<lparr>channels := if ch = 0 then 1 else ch, rate := Uint32 (drop 24 w), bits := if bt = 0 then 16 else bt\<rparr>
      else s)"

definition addChunk :: "string \<Rightarrow> wav_state \<Rightarrow> wav_state" where
  "addChunk w s =
     (if isChunk w then let s' = readFormat w s in s'\<lparr>pcm := pcm s' @ drop wavHeaderSize w\<rparr> else s)"

definition initWav :: wav_state where
  "initWav = \<lparr>rate = 0, channels = 1, bits = 16, pcm = []\<rparr>"

definition scanChunks :: "string list \<Rightarrow> wav_state" where
  "scanChunks chunks = fold addChunk chunks initWav"

definition wavFile :: "wav_state \<Rightarrow> string" where
  "wavFile s =
     (let blockAlign = channels s * bits s div 8;
          byteRate = rate s * word_of_nat (unat blockAlign);
          dataBytes = word_of_nat (length (pcm s)) :: u32;
          out = ''RIFF'';
          out = appendU32 out (36 + dataBytes);
          out = out @ ''WAVE'' @ ''fmt '';
          out = appendU32 out 16;
          out = appendU16 out 1;
          out = appendU16 out (channels s);
          out = appendU32 out (rate s);
          out = appendU32 out byteRate;
          out = appendU16 out blockAlign;
          out = appendU16 out (bits s);
          out = out @ ''data'';
          out = appendU32 out dataBytes
      in out @ pcm s)"

definition ConcatWav :: "string list \<Rightarrow> string" where
  "ConcatWav chunks =
     (let s = scanChunks chunks in if pcm s = [] \<or> rate s = 0 then [] else wavFile s)"

section \<open>Reading a header back\<close>

lemma leWord_simps [simp]: "leWord [] = 0" "leWord (c # b) = of_char c + 256 * leWord b"
  by (simp_all add: leWord_def)

lemma base256_2: "(n :: nat) mod 256 + 256 * (n div 256 mod 256) = n mod 65536"
  using mod_mult2_eq [of n 256 256] by simp

lemma base256_4:
  "(n :: nat) mod 256 + (256 * (n div 256 mod 256) + (65536 * (n div 65536 mod 256) + 16777216 * (n div 16777216 mod 256)))
     = n mod 4294967296"
  using mod_mult2_eq [of n 65536 65536] base256_2 [of n] base256_2 [of "n div 65536"]
  by (simp add: div_mult2_eq [symmetric] algebra_simps)

lemma length_appendU [simp]: "length (appendU16 b v) = length b + 2" "length (appendU32 b w) = length b + 4"
  by (simp_all add: appendU16_def appendU32_def)

lemma Uint16_append [simp]: "Uint16 (appendU16 [] v @ t) = v"
proof -
  have "unat v < 65536" using unsigned_less [of v, where ?'a = nat] by simp
  then show ?thesis
    by (simp add: Uint16_def appendU16_def drop_bit_eq_div base256_2)
qed

lemma Uint32_append [simp]: "Uint32 (appendU32 [] v @ t) = v"
proof -
  have "unat v < 4294967296" using unsigned_less [of v, where ?'a = nat] by simp
  then have "leWord (take 4 (appendU32 [] v @ t)) = unat v"
    using base256_4 [of "unat v"] by (simp add: appendU32_def drop_bit_eq_div)
  then show ?thesis by (simp add: Uint32_def)
qed

text \<open>The 44 bytes in front of the samples, field by field.\<close>

lemma wavFile_layout:
  "wavFile s =
     ''RIFF'' @ appendU32 [] (36 + word_of_nat (length (pcm s))) @ ''WAVEfmt '' @ appendU32 [] 16 @ appendU16 [] 1
     @ appendU16 [] (channels s) @ appendU32 [] (rate s)
     @ appendU32 [] (rate s * word_of_nat (unat (channels s * bits s div 8))) @ appendU16 [] (channels s * bits s div 8)
     @ appendU16 [] (bits s) @ ''data'' @ appendU32 [] (word_of_nat (length (pcm s))) @ pcm s"
  by (simp add: wavFile_def appendU16_def appendU32_def Let_def)

lemma drop_past: "length a \<le> n \<Longrightarrow> drop n (a @ b) = drop (n - length a) b"
  by simp

lemma wavFile_fields:
  "take 4 (wavFile s) = ''RIFF''" "length (wavFile s) = wavHeaderSize + length (pcm s)"
  "Uint16 (drop 22 (wavFile s)) = channels s" "Uint32 (drop 24 (wavFile s)) = rate s"
  "Uint16 (drop 34 (wavFile s)) = bits s" "drop wavHeaderSize (wavFile s) = pcm s"
  by (simp_all add: wavFile_layout wavHeaderSize_def)

section \<open>Concatenation\<close>

lemma initWav_nonzero: "bits initWav \<noteq> 0" "channels initWav \<noteq> 0"
  by (simp_all add: initWav_def)

lemma addChunk_nonzero:
  "bits s \<noteq> 0 \<Longrightarrow> bits (addChunk w s) \<noteq> 0" "channels s \<noteq> 0 \<Longrightarrow> channels (addChunk w s) \<noteq> 0"
  by (simp_all add: addChunk_def readFormat_def Let_def)

lemma scanChunks_nonzero: "bits (scanChunks cs) \<noteq> 0 \<and> channels (scanChunks cs) \<noteq> 0"
proof -
  have "bits s \<noteq> 0 \<and> channels s \<noteq> 0 \<Longrightarrow> bits (fold addChunk cs s) \<noteq> 0 \<and> channels (fold addChunk cs s) \<noteq> 0" for s
    by (induction cs arbitrary: s) (simp_all add: addChunk_nonzero)
  then show ?thesis by (simp add: scanChunks_def initWav_nonzero)
qed

lemma addChunk_pcm: "pcm (addChunk w s) = pcm s @ (if isChunk w then drop wavHeaderSize w else [])"
  by (simp add: addChunk_def readFormat_def Let_def)

lemma scan_pcm: "pcm (fold addChunk cs s) = pcm s @ concat (map (drop wavHeaderSize) (filter isChunk cs))"
  by (induction cs arbitrary: s) (simp_all add: addChunk_pcm)

text \<open>A file that was written is read as the chunk it was written from.\<close>

lemma scan_wavFile:
  assumes "pcm s \<noteq> []" "channels s \<noteq> 0" "bits s \<noteq> 0"
  shows "addChunk (wavFile s) initWav = s"
  using assms by (simp add: addChunk_def isChunk_def readFormat_def initWav_def wavFile_fields)

lemma ConcatWav_nonempty:
  "ConcatWav cs \<noteq> [] \<longleftrightarrow> pcm (scanChunks cs) \<noteq> [] \<and> rate (scanChunks cs) \<noteq> 0"
  by (auto simp: ConcatWav_def Let_def wavFile_layout)

lemma scanChunks_again:
  assumes "ConcatWav cs \<noteq> []"
  shows "scanChunks (ConcatWav cs # ds) = scanChunks (cs @ ds)"
proof -
  have "ConcatWav cs = wavFile (scanChunks cs)"
    using assms ConcatWav_nonempty [of cs] by (simp add: ConcatWav_def Let_def)
  then show ?thesis
    using assms scanChunks_nonzero [of cs] ConcatWav_nonempty [of cs]
    by (simp add: scanChunks_def scan_wavFile)
qed

text \<open>The format is that of the first chunk with a sampling rate.\<close>

definition formatOf :: "string \<Rightarrow> u32 \<times> u16 \<times> u16" where
  "formatOf w = (Uint32 (drop 24 w), if Uint16 (drop 22 w) = 0 then 1 else Uint16 (drop 22 w),
                 if Uint16 (drop 34 w) = 0 then 16 else Uint16 (drop 34 w))"

lemma addChunk_format:
  "(rate (addChunk w s), channels (addChunk w s), bits (addChunk w s)) =
     (if isChunk w \<and> rate s = 0 then formatOf w else (rate s, channels s, bits s))"
  by (simp add: addChunk_def readFormat_def formatOf_def Let_def)

lemma scan_format_fixed:
  "rate s \<noteq> 0 \<Longrightarrow> (rate (fold addChunk cs s), channels (fold addChunk cs s), bits (fold addChunk cs s)) =
     (rate s, channels s, bits s)"
proof (induction cs arbitrary: s)
  case (Cons w cs)
  have "(rate (addChunk w s), channels (addChunk w s), bits (addChunk w s)) = (rate s, channels s, bits s)"
    using Cons.prems addChunk_format [of w s] by simp
  then show ?case using Cons.IH [of "addChunk w s"] Cons.prems by simp
qed simp

lemma scan_format:
  "rate (fold addChunk cs s) \<noteq> 0 \<Longrightarrow> rate s = 0 \<Longrightarrow>
   (rate (fold addChunk cs s), channels (fold addChunk cs s), bits (fold addChunk cs s)) =
     formatOf (hd (filter (\<lambda>w. isChunk w \<and> fst (formatOf w) \<noteq> 0) cs))"
proof (induction cs arbitrary: s)
  case (Cons w cs)
  have fmt: "(rate (addChunk w s), channels (addChunk w s), bits (addChunk w s)) =
      (if isChunk w then formatOf w else (rate s, channels s, bits s))"
    using Cons.prems addChunk_format [of w s] by simp
  show ?case
  proof (cases "rate (addChunk w s) = 0")
    case True
    then have "\<not> (isChunk w \<and> fst (formatOf w) \<noteq> 0)" using fmt by (auto split: if_splits dest: arg_cong [where f = fst])
    then show ?thesis using Cons.IH [of "addChunk w s"] Cons.prems True by auto
  next
    case False
    then have *: "isChunk w" using fmt Cons.prems by (auto split: if_splits)
    then have "fst (formatOf w) \<noteq> 0" using fmt False by (metis fst_conv)
    then show ?thesis using scan_format_fixed [OF False, of cs] fmt * by simp
  qed
qed simp

lemma scan_rate_zero: "rate (fold addChunk cs s) = 0 \<Longrightarrow> w \<in> set cs \<Longrightarrow> isChunk w \<Longrightarrow> fst (formatOf w) = 0"
proof (induction cs arbitrary: s)
  case (Cons v cs)
  have "rate (addChunk v s) = 0"
    using Cons.prems(1) scan_format_fixed [of "addChunk v s" cs] by auto
  then show ?case
    using Cons addChunk_format [of v s] by (metis fold_simps(2) fst_conv set_ConsD)
qed simp

lemma ConcatWav_defined:
  assumes "w \<in> set cs" "isChunk w" "fst (formatOf w) \<noteq> 0"
  shows "ConcatWav cs \<noteq> []"
proof -
  have "rate (scanChunks cs) \<noteq> 0"
    using scan_rate_zero [of cs initWav w] assms by (auto simp: scanChunks_def)
  moreover have "drop wavHeaderSize w \<in> set (map (drop wavHeaderSize) (filter isChunk cs))" "drop wavHeaderSize w \<noteq> []"
    using assms by (auto simp: isChunk_def)
  then have "pcm (scanChunks cs) \<noteq> []"
    unfolding scanChunks_def scan_pcm by (metis append_is_Nil_conv concat_eq_Nil_conv)
  ultimately show ?thesis by (simp add: ConcatWav_nonempty)
qed

lemma ConcatWav_parts:
  fixes chunks later :: "string list"
  assumes "w \<in> set chunks" "isChunk w" "fst (formatOf w) \<noteq> 0"
  defines "out \<equiv> ConcatWav chunks"
  shows "drop 44 out = concat (map (drop 44) (filter isChunk chunks))"
    and "isChunk out \<and> formatOf out = formatOf (hd (filter (\<lambda>w. isChunk w \<and> fst (formatOf w) \<noteq> 0) chunks))"
    and "Uint32 (drop 4 out) = word_of_nat (length out - 8) \<and> Uint32 (drop 40 out) = word_of_nat (length out - 44)"
    and "ConcatWav (out # later) = ConcatWav (chunks @ later)"
proof -
  let ?s = "scanChunks chunks"
  have ne: "out \<noteq> []" using ConcatWav_defined [OF assms(1-3)] by (simp add: out_def)
  then have s: "pcm ?s \<noteq> []" "rate ?s \<noteq> 0" using ConcatWav_nonempty [of chunks] by (simp_all add: out_def)
  then have out: "out = wavFile ?s" by (simp add: out_def ConcatWav_def Let_def)
  show "drop 44 out = concat (map (drop 44) (filter isChunk chunks))"
    using wavFile_fields(6) [of ?s] scan_pcm [of chunks initWav]
    by (simp add: out scanChunks_def initWav_def wavHeaderSize_def)
  show "isChunk out \<and> formatOf out = formatOf (hd (filter (\<lambda>w. isChunk w \<and> fst (formatOf w) \<noteq> 0) chunks))"
    using s scanChunks_nonzero [of chunks] scan_format [of chunks initWav]
    by (simp add: out isChunk_def formatOf_def wavFile_fields) (simp add: scanChunks_def initWav_def formatOf_def)
  show "Uint32 (drop 4 out) = word_of_nat (length out - 8) \<and> Uint32 (drop 40 out) = word_of_nat (length out - 44)"
    by (simp add: out wavFile_layout)
  show "ConcatWav (out # later) = ConcatWav (chunks @ later)"
    using scanChunks_again [of chunks later] ne by (simp add: out_def ConcatWav_def)
qed

text \<open>C26: as soon as one stored chunk states a sampling rate, \<^verbatim>\<open>ConcatWav\<close> answers a file whose
  samples are the samples of all chunks in order, whose format is that of the first chunk with a
  sampling rate and whose size fields are the sizes modulo \<open>2\<^sup>3\<^sup>2\<close>; and the file can stand for the
  chunks it was made of, whatever chunks follow.\<close>

theorem ConcatWav_correct:
  assumes "w \<in> set chunks" "isChunk w" "fst (formatOf w) \<noteq> 0"
  shows "let out = ConcatWav chunks in
     drop 44 out = concat (map (drop 44) (filter isChunk chunks))
     \<and> isChunk out \<and> formatOf out = formatOf (hd (filter (\<lambda>w. isChunk w \<and> fst (formatOf w) \<noteq> 0) chunks))
     \<and> Uint32 (drop 4 out) = word_of_nat (length out - 8) \<and> Uint32 (drop 40 out) = word_of_nat (length out - 44)
     \<and> ConcatWav (out # later) = ConcatWav (chunks @ later)"
  unfolding Let_def using ConcatWav_parts [OF assms] by blast

definition chunkExample :: string where
  "chunkExample = ''RIFF'' @ replicate 18 (CHR 0x00) @ [CHR 0x02, CHR 0x00, CHR 0x40, CHR 0x1F, CHR 0x00, CHR 0x00]
     @ replicate 6 (CHR 0x00) @ [CHR 0x10, CHR 0x00] @ replicate 8 (CHR 0x00) @ ''abcd''"

lemma chunkExample_ok: "isChunk chunkExample" "formatOf chunkExample = (8000, 2, 16)"
  by (simp_all add: isChunk_def wavHeaderSize_def formatOf_def chunkExample_def Uint16_def Uint32_def)

theorem ConcatWav_correct_witness:
  "chunkExample \<in> set [''junk'', chunkExample, chunkExample]
   \<and> drop 44 (ConcatWav [''junk'', chunkExample, chunkExample]) = concat (map (drop 44) (filter isChunk [''junk'', chunkExample, chunkExample]))
   \<and> ConcatWav [ConcatWav [''junk'', chunkExample, chunkExample]] = ConcatWav [''junk'', chunkExample, chunkExample]"
  using ConcatWav_correct [of chunkExample "[''junk'', chunkExample, chunkExample]" "[]"]
  by (simp add: chunkExample_ok Let_def)

end
