(* ===== verification/Control_Client.thy ===== *)
theory Control_Client
  imports Prelude
begin

text \<open>
  The track-list control client (\<^verbatim>\<open>bus/control.go\<close>): a REQ socket to vq-core that must
  receive a reply before it may send again. The network (package \<^verbatim>\<open>zmq4\<close>) is a script of
  outcomes, consumed one per operation: how each dial, each send and each wait for a reply ends;
  when a list is used up, a dial and a send succeed and no reply comes. The protobuf encoding of
  \<^verbatim>\<open>Command\<close> and \<^verbatim>\<open>CommandAck\<close> is the pair of parameters \<open>enc\<close> and \<open>dec\<close>.
\<close>

datatype track_op = TrackAdd | TrackRemove | TrackReplace | TrackQuery

datatype command_op = TRACK_ADD | TRACK_REMOVE | TRACK_REPLACE | TRACK_QUERY

fun protoOp :: "track_op \<Rightarrow> command_op" where
  "protoOp TrackAdd = TRACK_ADD"
| "protoOp TrackRemove = TRACK_REMOVE"
| "protoOp TrackReplace = TRACK_REPLACE"
| "protoOp _ = TRACK_QUERY"

record track_ack =
  TransportOK :: bool
  AckOK :: bool
  AckError :: string
  Current :: "string list"
  AffectedStreams :: u32

definition emptyAck :: track_ack where
  "emptyAck = \<lparr>TransportOK = False, AckOK = False, AckError = [], Current = [], AffectedStreams = 0\<rparr>"

record command =
  cmdOp :: command_op
  cmdEntries :: "string list"

record command_ack =
  pbOk :: bool
  pbError :: string
  pbCurrent :: "string list"
  pbAffected :: u32

text \<open>A REQ socket is ready to send, or waits for the reply to what it sent.\<close>

datatype req_socket = Ready | AwaitingReply

record control_client =
  socket :: "req_socket option"
  dials :: "string option list"
  sends :: "string option list"
  replies :: "string option list"

definition nextOf :: "'a option list \<Rightarrow> 'a option" where
  "nextOf xs = (case xs of [] \<Rightarrow> None | x # _ \<Rightarrow> x)"

text \<open>\<^verbatim>\<open>openSocket\<close> answers the dial error, \<^verbatim>\<open>None\<close> on success.\<close>

definition openSocket :: "control_client \<Rightarrow> string option \<times> control_client" where
  "openSocket c =
     (let err = nextOf (dials c)
      in (err, c\<lparr>dials := tl (dials c), socket := (case err of None \<Rightarrow> Some Ready | Some _ \<Rightarrow> None)\<rparr>))"

definition NewControlClient :: "string option list \<Rightarrow> string option list \<Rightarrow> string option list \<Rightarrow> string option \<times> control_client" where
  "NewControlClient ds ss rs = openSocket \<lparr>socket = None, dials = ds, sends = ss, replies = rs\<rparr>"

definition Reconnect :: "control_client \<Rightarrow> string option \<times> control_client" where
  "Reconnect = openSocket"

definition Close :: "control_client \<Rightarrow> control_client" where
  "Close c = c\<lparr>socket := None\<rparr>"

text \<open>A send leaves the socket waiting for its reply; an answer makes it ready again.\<close>

definition zmqSend :: "control_client \<Rightarrow> string option \<times> control_client" where
  "zmqSend c =
     (let err = nextOf (sends c)
      in (err, c\<lparr>sends := tl (sends c), socket := (case err of None \<Rightarrow> Some AwaitingReply | Some _ \<Rightarrow> socket c)\<rparr>))"

definition recvWithTimeout :: "control_client \<Rightarrow> string option \<times> control_client" where
  "recvWithTimeout c =
     (let msg = nextOf (replies c)
      in (msg, c\<lparr>replies := tl (replies c), socket := (case msg of None \<Rightarrow> socket c | Some _ \<Rightarrow> Some Ready)\<rparr>))"

definition ackOf :: "command_ack option \<Rightarrow> track_ack" where
  "ackOf ack =
     (case ack of
        None \<Rightarrow> emptyAck\<lparr>TransportOK := True, AckError := ''failed to parse CommandAck''\<rparr>
      | Some a \<Rightarrow> emptyAck\<lparr>TransportOK := True, AckOK := pbOk a, AckError := pbError a,
                            AffectedStreams := pbAffected a, Current := pbCurrent a\<rparr>)"

text \<open>The exchange on an open socket.\<close>

definition exchange :: "(string \<Rightarrow> command_ack option) \<Rightarrow> control_client \<Rightarrow> track_ack \<times> control_client" where
  "exchange dec c =
     (case zmqSend c of
        (Some err, c1) \<Rightarrow> (emptyAck\<lparr>AckError := err\<rparr>, snd (openSocket c1))
      | (None, c1) \<Rightarrow>
          (case recvWithTimeout c1 of
             (None, c2) \<Rightarrow> (emptyAck\<lparr>AckError := ''control socket did not reply''\<rparr>, snd (openSocket c2))
           | (Some reply, c2) \<Rightarrow> (ackOf (dec reply), c2)))"

definition Send :: "(command \<Rightarrow> string + string) \<Rightarrow> (string \<Rightarrow> command_ack option) \<Rightarrow> track_op \<Rightarrow> string list
    \<Rightarrow> control_client \<Rightarrow> track_ack \<times> control_client" where
  "Send enc dec op patterns c =
     (case enc \<lparr>cmdOp = protoOp op, cmdEntries = patterns\<rparr> of
        Inl err \<Rightarrow> (emptyAck\<lparr>AckError := err\<rparr>, c)
      | Inr buffer \<Rightarrow>
          (if socket c = None
           then (case openSocket c of
                   (Some err, c1) \<Rightarrow> (emptyAck\<lparr>AckError := err\<rparr>, c1)
                 | (None, c1) \<Rightarrow> exchange dec c1)
           else exchange dec c))"

section \<open>The socket is never left waiting\<close>

definition ready :: "control_client \<Rightarrow> bool" where
  "ready c \<longleftrightarrow> socket c \<noteq> Some AwaitingReply"

lemmas socket_defs = openSocket_def zmqSend_def recvWithTimeout_def Let_def

lemma openSocket_ready: "ready (snd (openSocket c))"
  by (auto simp: socket_defs ready_def split: option.splits)

lemma exchange_ready: "ready (snd (exchange dec c))"
proof -
  have "ready c2" if "recvWithTimeout c1 = (Some m, c2)" for c1 c2 m
    using that by (auto simp: socket_defs ready_def)
  then show ?thesis
    by (auto simp: exchange_def openSocket_ready split: prod.splits option.splits)
qed

lemma Send_ready: "ready c \<Longrightarrow> ready (snd (Send enc dec op ps c))"
  using openSocket_ready [of c]
  by (auto simp: Send_def exchange_ready split: sum.splits prod.splits option.splits)

lemma Reconnect_ready: "ready (snd (Reconnect c))"
  by (simp add: Reconnect_def openSocket_ready)

lemma Close_ready: "ready (Close c)"
  by (simp add: Close_def ready_def)

text \<open>What a caller may do with a client.\<close>

datatype client_call = CallSend track_op "string list" | CallReconnect | CallClose

fun call :: "(command \<Rightarrow> string + string) \<Rightarrow> (string \<Rightarrow> command_ack option) \<Rightarrow> client_call \<Rightarrow> control_client \<Rightarrow> control_client" where
  "call enc dec (CallSend op ps) c = snd (Send enc dec op ps c)"
| "call enc dec CallReconnect c = snd (Reconnect c)"
| "call enc dec CallClose c = Close c"

lemma call_ready: "ready c \<Longrightarrow> ready (call enc dec k c)"
  by (cases k) (auto simp: Send_ready Reconnect_ready Close_ready)

lemma calls_ready: "ready c \<Longrightarrow> ready (fold (call enc dec) ks c)"
  by (induction ks arbitrary: c) (auto simp: call_ready)

lemma exchange_ack:
  assumes "exchange dec c = (ack, c')"
  shows "TransportOK ack \<Longrightarrow> \<exists>reply. nextOf (replies c) = Some reply \<and> ack = ackOf (dec reply)"
    and "\<not> TransportOK ack \<Longrightarrow> ack = emptyAck\<lparr>AckError := AckError ack\<rparr> \<and> dials c' = tl (dials c)"
  using assms
  by (auto simp: exchange_def socket_defs emptyAck_def ackOf_def split: option.splits)

lemma Send_cases:
  assumes "Send enc dec op ps c = (ack, c')"
  obtains (unencodable) err where "enc \<lparr>cmdOp = protoOp op, cmdEntries = ps\<rparr> = Inl err" "ack = emptyAck\<lparr>AckError := err\<rparr>" "c' = c"
    | (no_dial) err where "ack = emptyAck\<lparr>AckError := err\<rparr>" "dials c' = tl (dials c)"
    | (dialled) c1 where "exchange dec c1 = (ack, c')" "dials c1 = tl (dials c)" "replies c1 = replies c"
    | (connected) "exchange dec c = (ack, c')"
proof (cases "enc \<lparr>cmdOp = protoOp op, cmdEntries = ps\<rparr>")
  case (Inr b)
  show thesis
  proof (cases "socket c = None")
    case True
    with assms Inr show thesis
      by (cases "nextOf (dials c)")
        (auto simp: Send_def openSocket_def Let_def intro: no_dial dialled)
  next
    case False
    with assms Inr have "exchange dec c = (ack, c')" by (simp add: Send_def)
    then show thesis by (rule connected)
  qed
qed (use assms unencodable in \<open>simp add: Send_def\<close>)

lemma Send_ack:
  assumes "Send enc dec op ps c = (ack, c')"
  shows "if TransportOK ack then \<exists>reply. nextOf (replies c) = Some reply \<and> ack = ackOf (dec reply)
    else ack = emptyAck\<lparr>AckError := AckError ack\<rparr> \<and>
      (isl (enc \<lparr>cmdOp = protoOp op, cmdEntries = ps\<rparr>) \<and> c' = c \<or> dials c' \<in> {tl (dials c), tl (tl (dials c))})"
  using assms
proof (cases rule: Send_cases)
  case (dialled c1)
  with exchange_ack [OF dialled(1)] show ?thesis by (cases "TransportOK ack") simp_all
next
  case connected
  with exchange_ack [OF connected] show ?thesis by (cases "TransportOK ack") simp_all
qed (simp_all add: emptyAck_def)

text \<open>C20: The control socket is never stuck: from a new client (even one whose first dial failed),
  after any sequence of commands, reconnects and closes and whatever the network answers, the REQ
  socket is closed or ready to send. A further command reports a reply (\<open>TransportOK\<close>) only when
  one arrived, and then exactly what the reply decodes to; otherwise it reports nothing but the
  failure, and unless the command could not even be encoded it has dialled again.\<close>

theorem control_socket_never_stuck:
  "let c = fold (call enc dec) ks (snd (NewControlClient ds ss rs));
       (ack, c') = Send enc dec op ps c
   in ready c \<and> ready c' \<and>
      (if TransportOK ack then \<exists>reply. nextOf (replies c) = Some reply \<and> ack = ackOf (dec reply)
       else ack = emptyAck\<lparr>AckError := AckError ack\<rparr> \<and>
            (isl (enc \<lparr>cmdOp = protoOp op, cmdEntries = ps\<rparr>) \<and> c' = c \<or>
             dials c' \<in> {tl (dials c), tl (tl (dials c))}))"
proof -
  let ?c = "fold (call enc dec) ks (snd (NewControlClient ds ss rs))"
  obtain ack c' where s: "Send enc dec op ps ?c = (ack, c')" by (cases "Send enc dec op ps ?c")
  have "ready ?c" by (intro calls_ready) (simp add: NewControlClient_def openSocket_ready)
  then show ?thesis
    using s Send_ready [of ?c enc dec op ps] Send_ack [OF s] by (simp add: Let_def)
qed

end
