(* ===== verification/Track_Store.thy ===== *)
theory Track_Store
  imports Writer Go_Json_Decode
begin

text \<open>
  The persisted SIP track patterns (\<^verbatim>\<open>db/track_store.go\<close>), kept as JSON under one key of a
  property store. The store is the interface \<open>property_store\<close> (Go's \<^verbatim>\<open>PropertyStore\<close>); the
  writer's \<^verbatim>\<open>GetProperty\<close> and \<^verbatim>\<open>SetProperty\<close> are its interpretation.
\<close>

definition PropertyKey :: string where "PropertyKey = ''track_patterns''"

definition nonEmpty :: "string list \<Rightarrow> string list" where
  "nonEmpty ps = filter (\<lambda>p. p \<noteq> []) ps"

text \<open>\<open>getp\<close> and \<open>setp\<close> are the two operations of the property store.\<close>

definition Load :: "(string \<Rightarrow> ('w, string option) action) \<Rightarrow> ('w, string list) action" where
  "Load getp = andThen (getp PropertyKey) (\<lambda>found. ret (
     case found of
       None \<Rightarrow> []
     | Some raw \<Rightarrow> if raw = [] then []
                   else case decodeStrings raw of None \<Rightarrow> [] | Some v \<Rightarrow> nonEmpty v))"

definition Save :: "(string \<Rightarrow> string \<Rightarrow> ('w, unit) action) \<Rightarrow> string list \<Rightarrow> ('w, unit) action" where
  "Save setp patterns = setp PropertyKey (jsonArray (map jsonString (nonEmpty patterns)))"

locale property_store =
  fixes getp :: "string \<Rightarrow> ('w, string option) action"
    and setp :: "string \<Rightarrow> string \<Rightarrow> ('w, unit) action"
  assumes get_set: "setp n v w = (Inr (), w1) \<Longrightarrow> getp n w1 = (Inr x, w2) \<Longrightarrow> x = Some v"
begin

lemma Load_Save:
  assumes "Save setp ps w = (Inr (), w1)" "Load getp w1 = (Inr qs, w2)" "\<forall>p \<in> set ps. utf8_Valid p"
  shows "qs = nonEmpty ps"
proof -
  let ?raw = "jsonArray (map jsonString (nonEmpty ps))"
  obtain x where x: "getp PropertyKey w1 = (Inr x, w2)"
      "qs = (case x of None \<Rightarrow> [] | Some raw \<Rightarrow> if raw = [] then []
             else case decodeStrings raw of None \<Rightarrow> [] | Some v \<Rightarrow> nonEmpty v)"
    using assms(2) by (auto simp: Load_def andThen_def ret_def split: prod.splits sum.splits)
  have "x = Some ?raw" using get_set [OF assms(1) [unfolded Save_def] x(1)] .
  moreover have "decodeStrings ?raw = Some (nonEmpty ps)"
    using assms(3) by (intro decodeStrings_jsonArray) (auto simp: nonEmpty_def)
  moreover have "?raw \<noteq> []" by (simp add: jsonArray_def)
  ultimately show ?thesis using x(2) by (simp add: nonEmpty_def)
qed

end

lemma map_of_update_property:
  "map_of xs n = Some old \<Longrightarrow> map_of (map (\<lambda>(m, x). if m = n then (m, Some v) else (m, x)) xs) n = Some (Some v)"
  by (induction xs) (auto split: if_splits)

lemma SetProperty_stores:
  assumes "SetProperty n v w = (Inr (), w1)"
  shows "selectProperty n (tables w1) = Some (Some v)"
proof (cases rule: atomicE [OF atomic_queryDb, of "selectProperty n" w])
  case (1 os)
  let ?w = "w\<lparr>script := os\<rparr>"
  show ?thesis
  proof (cases "selectProperty n (tables w)")
    case None
    then have m: "exec (insertProperty n v) ?w = (Inr (), w1)" using assms 1 by (simp add: SetProperty_def andThen_def)
    show ?thesis
      by (cases rule: atomicE [OF atomic_exec, of "insertProperty n v" ?w])
        (use m None in \<open>auto simp: selectProperty_def insertProperty_def map_add_def\<close>)
  next
    case (Some old)
    then have m: "exec (updateProperty n v) ?w = (Inr (), w1)" using assms 1 by (simp add: SetProperty_def andThen_def)
    show ?thesis
      by (cases rule: atomicE [OF atomic_exec, of "updateProperty n v" ?w])
        (use m Some in \<open>auto simp: selectProperty_def updateProperty_def map_of_update_property\<close>)
  qed
qed (use assms in \<open>simp add: SetProperty_def andThen_def\<close>)

lemma GetProperty_reads:
  assumes "GetProperty n w = (Inr x, w2)"
  shows "x = map_option (case_option [] id) (selectProperty n (tables w))"
  using assms
  by (cases rule: atomicE [OF atomic_queryDb, of "selectProperty n" w])
    (auto simp: GetProperty_def andThen_def ret_def split: option.splits)

interpretation writer_properties: property_store GetProperty SetProperty
  by unfold_locales (frule GetProperty_reads, simp add: SetProperty_stores)

lemma Save_then_Load:
  assumes "script w = []" "\<forall>p \<in> set ps. utf8_Valid p"
  shows "\<exists>w1. Save SetProperty ps w = (Inr (), w1) \<and> Load GetProperty w1 = (Inr (nonEmpty ps), w1)"
proof -
  obtain w1 where w1: "Save SetProperty ps w = (Inr (), w1)" "script w1 = []"
    using assms(1) by (cases "selectProperty PropertyKey (tables w)")
      (simp_all add: Save_def SetProperty_def andThen_def queryDb_def exec_def busyRetryDelays_def attempt_def
        insertProperty_def updateProperty_def)
  then obtain qs where "Load GetProperty w1 = (Inr qs, w1)"
    by (simp add: Load_def GetProperty_def andThen_def ret_def queryDb_def attempt_def)
  with w1 writer_properties.Load_Save [of ps w w1 qs w1] assms show ?thesis by auto
qed

text \<open>Saving track patterns and loading them again gives the same patterns in the same order,
  without the empty ones, whatever busy errors the database answered on the way, as long as both
  calls report success; and on a database that answers they do succeed. The patterns are valid
  UTF-8: quotes, control characters and the characters Go escapes for HTML survive the JSON text.\<close>

lemma track_patterns_roundtrip:
  assumes "\<forall>p \<in> set ps. utf8_Valid p"
  shows "(\<forall>w1 qs w2. Save SetProperty ps w = (Inr (), w1) \<and> Load GetProperty w1 = (Inr qs, w2) \<longrightarrow> qs = nonEmpty ps) \<and>
    (script w = [] \<longrightarrow>
       (\<exists>w1. Save SetProperty ps w = (Inr (), w1) \<and> Load GetProperty w1 = (Inr (nonEmpty ps), w1)))"
proof
  show "\<forall>w1 qs w2. Save SetProperty ps w = (Inr (), w1) \<and> Load GetProperty w1 = (Inr qs, w2) \<longrightarrow> qs = nonEmpty ps"
    using writer_properties.Load_Save assms by blast
  show "script w = [] \<longrightarrow>
       (\<exists>w1. Save SetProperty ps w = (Inr (), w1) \<and> Load GetProperty w1 = (Inr (nonEmpty ps), w1))"
    using Save_then_Load assms by blast
qed

definition patterns0 :: "string list" where
  "patterns0 = [''alice'' @ [CHR 0x22, CHR 0x3C], [], [CHR 0xC3, CHR 0xA4]]"

end
