(* ===== verification/Api_App.thy ===== *)
theory Api_App
  imports Api_Stored Api_Csv Registry Active_List Wav Go_Url Control_Client Track_Store
begin

text \<open>
  The handlers of the REST API (\<^verbatim>\<open>api/app.go\<close>) as functions from a request to a response; \<^verbatim>\<open>None\<close> is a
  panic, which \<^verbatim>\<open>net/http\<close> turns into a dropped connection. A body the JSON encoder refuses is an empty one
  (\<open>EmptyBody\<close>), and the target of a redirect is what the code hands to \<^verbatim>\<open>http.Redirect\<close>, which cleans its
  path. The database is the pair \<open>dRows\<close>, \<open>dScalar\<close> of
  answers to statements, the texts of errors are \<open>dErrText\<close>; the registry, the snapshot, the control client
  and the track store are the models of their packages. A nil slice and an empty one are the same
  JSON list here. Files (\<^verbatim>\<open>serveStatic\<close>) are in \<open>Api_Static\<close>.
\<close>

section \<open>Requests, responses, dependencies\<close>

record request =
  rawQuery :: string
  forwardedPrefix :: string

datatype payload =
    JsonBody json
  | EmptyBody
  | FileBody string string string
  | RedirectTo string

record response =
  status :: int
  payload :: payload

record alarm_view =
  Configured :: bool
  AlarmRules :: "json_object list"
  AlarmEvents :: "json_object list"
  AlarmError :: string

record 'e api_deps =
  dRows :: "statement \<Rightarrow> 'e + valmap list"
  dScalar :: "statement \<Rightarrow> 'e + int"
  dErrText :: "'e query_error \<Rightarrow> string"
  dAgentID :: string
  dAgentName :: string
  dGoodMosThreshold :: f64
  dSilenceRatioThreshold :: f64
  dMaxStreams :: int
  dVersion :: string
  dRegistry :: "registry option"
  dSnapshot :: "instance_snapshot option"
  dAlarms :: "(int \<Rightarrow> alarm_view) option"
  dThresholds :: thresholds
  dZone :: "int \<Rightarrow> int"
  dUnicode :: "string \<Rightarrow> string"
  dClock :: int

section \<open>Helpers\<close>

definition envelope :: "'e api_deps \<Rightarrow> json_object" where
  "envelope a = AgentEnvelope (dAgentID a) (dAgentName a)"

definition snapshotJSON :: "'e api_deps \<Rightarrow> json_object option" where
  "snapshotJSON a = (case dSnapshot a of None \<Rightarrow> None | Some s \<Rightarrow> map_option CoreStatsToJSON (InstanceSnapshot_Get s))"

definition activeCount :: "'e api_deps \<Rightarrow> int" where
  "activeCount a = (case dRegistry a of None \<Rightarrow> 0 | Some r \<Rightarrow> int (ActiveCount r))"

text \<open>The encoder refuses NaN and the infinities before it writes a byte; \<^verbatim>\<open>writeJSON\<close> has sent the status by then
  and ignores the error, so the client gets the status with an empty body.\<close>

fun encodable :: "json \<Rightarrow> bool" where
  "encodable (JFloat f) \<longleftrightarrow> (case f of Fin _ _ \<Rightarrow> True | _ \<Rightarrow> False)"
| "encodable (JList js) \<longleftrightarrow> list_all encodable js"
| "encodable (JObj kvs) \<longleftrightarrow> list_all (\<lambda>kv. encodable (snd kv)) kvs"
| "encodable _ \<longleftrightarrow> True"

definition writeJSON :: "int \<Rightarrow> json \<Rightarrow> response" where
  "writeJSON st body = \<lparr>status = st, payload = (if encodable body then JsonBody body else EmptyBody)\<rparr>"

definition httpError :: "int \<Rightarrow> string \<Rightarrow> response" where
  "httpError st detail = writeJSON st (JObj [(''detail'', JStr detail)])"

lemma status_simps [simp]:
  "status (writeJSON st j) = st" "status (httpError st d) = st" "payload (httpError st d) = JsonBody (JObj [(''detail'', JStr d)])"
  by (simp_all add: httpError_def writeJSON_def)

definition query :: "request \<Rightarrow> string \<Rightarrow> string" where
  "query r key = Values_Get (ParseQuery (rawQuery r)) key"

definition queryIntOpt :: "request \<Rightarrow> string \<Rightarrow> int option" where
  "queryIntOpt r key = (let v = query r key in if v = [] then None else strconv_ParseInt v)"

definition queryFloatOpt :: "request \<Rightarrow> string \<Rightarrow> f64 option" where
  "queryFloatOpt r key = (let v = query r key in if v = [] then None else strconv_ParseFloat v)"

definition queryBool :: "(string \<Rightarrow> string) \<Rightarrow> request \<Rightarrow> string \<Rightarrow> bool" where
  "queryBool uc r key \<longleftrightarrow> strings_ToLower uc (query r key) \<in> {''true'', ''1'', ''yes'', ''on''}"

definition optOr :: "int option \<Rightarrow> int \<Rightarrow> int" where
  "optOr p d = (case p of None \<Rightarrow> d | Some v \<Rightarrow> v)"

fun firstNonEmptyQ :: "request \<Rightarrow> string list \<Rightarrow> string" where
  "firstNonEmptyQ r [] = []"
| "firstNonEmptyQ r (k # ks) = (let v = query r k in if v \<noteq> [] then v else firstNonEmptyQ r ks)"

definition unavailable :: "'e api_deps \<Rightarrow> 'e query_error \<Rightarrow> response" where
  "unavailable a e = httpError 503 (dErrText a e)"

definition pageLimit :: "'e api_deps \<Rightarrow> request \<Rightarrow> int" where
  "pageLimit a r = (let limit = optOr (queryIntOpt r ''limit'') 0 in if limit \<le> 0 then dMaxStreams a else limit)"

definition pageStart :: "request \<Rightarrow> int" where
  "pageStart r = (let offset = optOr (queryIntOpt r ''offset'') 0 in if offset < 0 then 0 else offset)"

section \<open>Instances, version, summary\<close>

definition instanceList :: "'e api_deps \<Rightarrow> response" where
  "instanceList a =
     (case GetAgentList (dRows a) of
        Inl e \<Rightarrow> unavailable a (QueryFailed e)
      | Inr agents \<Rightarrow> writeJSON 200 (JList (map (\<lambda>(i, n). JObj [(''id'', JStr i), (''name'', JStr n)]) agents)))"

definition serverStats :: "'e api_deps \<Rightarrow> response" where
  "serverStats a =
     (let body = [(''id'', JStr (dAgentID a)), (''name'', JStr (dAgentName a))]
      in writeJSON 200 (JObj (case snapshotJSON a of None \<Rightarrow> body | Some snap \<Rightarrow> putAll snap body)))"

definition version :: "'e api_deps \<Rightarrow> response" where
  "version a = writeJSON 200 (JObj [(''version'', JStr (dVersion a))])"

definition summary :: "'e api_deps \<Rightarrow> response option" where
  "summary a =
     (let snap = snapshotJSON a;
          live = (''active_streams'', JInt (activeCount a)) #
            (case dRegistry a of
               None \<Rightarrow> []
             | Some r \<Rightarrow> [(''session_started'', JInt (started r)), (''session_finished'', JInt (finished r))]);
          body = putAll [(''core'', JObj (case snap of None \<Rightarrow> [] | Some s \<Rightarrow> s)), (''core_available'', JBool (snap \<noteq> None)),
                         (''live'', JObj live)] (envelope a);
          widget = (\<lambda>seconds. FindWidgetStats (dRows a) seconds (dGoodMosThreshold a) 0 (dClock a))
      in case widget 3600 of
           None \<Rightarrow> None
         | Some (Inl e) \<Rightarrow> Some (unavailable a (QueryFailed e))
         | Some (Inr oneH) \<Rightarrow>
             (case widget 86400 of
                None \<Rightarrow> None
              | Some (Inl e) \<Rightarrow> Some (unavailable a (QueryFailed e))
              | Some (Inr dayH) \<Rightarrow>
                  Some (writeJSON 200 (JObj (putAll
                    [(''historical'', JObj [(''good_mos_threshold'', JFloat (dGoodMosThreshold a)),
                       (''1h'', JObj (WidgetStatsToJSON oneH)), (''24h'', JObj (WidgetStatsToJSON dayH))])] body)))))"

section \<open>SIP\<close>

definition callsBody :: "'e api_deps \<Rightarrow> int \<Rightarrow> json_object list \<Rightarrow> (string \<times> json) list \<Rightarrow> response" where
  "callsBody a n calls extra = writeJSON 200 (JObj (putAll
     ([(''total_calls_count'', JInt n), (''calls'', JList (map JObj calls))] @ extra) (envelope a)))"

definition sipCalls :: "'e api_deps \<Rightarrow> request \<Rightarrow> response" where
  "sipCalls a r =
     (let limit = pageLimit a r; offset = pageStart r; callID = query r ''call_id'';
          start = queryIntOpt r ''start_timestamp''; fin = queryIntOpt r ''end_timestamp''; expr = query r ''filter''
      in case GetSipCallCount (dScalar a) start fin callID expr of
           Inl (BadExpression e) \<Rightarrow> callsBody a 0 [] [(''error'', JStr (dErrText a (BadExpression e)))]
         | Inl e \<Rightarrow> unavailable a e
         | Inr n \<Rightarrow>
             (case GetSipCallList (dRows a) start fin limit offset callID expr of
                Inl e \<Rightarrow> unavailable a e
              | Inr rows \<Rightarrow>
                  (case GetCallHealth (dRows a) (map (\<lambda>s. getStr s ''call_id'') rows) of
                     Inl e \<Rightarrow> unavailable a (QueryFailed e)
                   | Inr health \<Rightarrow>
                       callsBody a n (map (\<lambda>s. putAll [(''health'', CallHealthToJSON (health (getStr s ''call_id'')))]
                                              (SipCallSummaryToJSON s)) rows) [])))"

definition sipCall :: "'e api_deps \<Rightarrow> request \<Rightarrow> response" where
  "sipCall a r =
     (let callID = query r ''call_id''
      in if callID = [] then httpError 422 ''call_id is required''
         else case GetSipCallEvents (dRows a) callID of
                Inl e \<Rightarrow> unavailable a (QueryFailed e)
              | Inr events \<Rightarrow>
                  (case GetCallHealth (dRows a) [callID] of
                     Inl e \<Rightarrow> unavailable a (QueryFailed e)
                   | Inr health \<Rightarrow>
                       writeJSON 200 (JObj (putAll
                         [(''call_id'', JStr callID), (''events'', JList (map (JObj \<circ> SipEventRowToJSON) events)),
                          (''event_count'', JInt (int (length events))), (''health'', CallHealthToJSON (health callID))]
                         (envelope a)))))"

definition sipEvents :: "'e api_deps \<Rightarrow> request \<Rightarrow> response" where
  "sipEvents a r =
     (let limit = pageLimit a r; offset = pageStart r; eventType = queryIntOpt r ''type'';
          start = queryIntOpt r ''start_timestamp''; fin = queryIntOpt r ''end_timestamp''
      in case dScalar a (sipEventCountStmt eventType start fin) of
           Inl e \<Rightarrow> unavailable a (QueryFailed e)
         | Inr n \<Rightarrow>
             (case GetSipEvents (dRows a) eventType start fin limit offset of
                Inl e \<Rightarrow> unavailable a (QueryFailed e)
              | Inr rows \<Rightarrow>
                  writeJSON 200 (JObj (putAll
                    [(''total_events_count'', JInt n), (''events'', JList (map (JObj \<circ> SipEventRowToJSON) rows))] (envelope a)))))"

section \<open>One stream\<close>

definition audio :: "'e api_deps \<Rightarrow> request \<Rightarrow> response" where
  "audio a r =
     (let linkID = query r ''link_id''
      in if linkID = [] then httpError 422 ''link_id is required''
         else case GetStreamAudioChunks (dRows a) linkID of
                Inl e \<Rightarrow> unavailable a (QueryFailed e)
              | Inr chunks \<Rightarrow>
                  (let wav = ConcatWav chunks
                   in if length wav = 0 then httpError 404 ''No audio stored for this stream.''
                      else \<lparr>status = 200, payload = FileBody ''audio/wav'' (linkID @ ''.wav'') wav\<rparr>))"

definition streamHistory :: "'e api_deps \<Rightarrow> request \<Rightarrow> response option" where
  "streamHistory a r =
     (let sid = firstNonEmptyQ r [''stream_id'', ''id'']
      in if sid = [] then Some (httpError 503 ''Param stream_id is required.'')
         else case GetStreamHistory (dRows a) sid of
                Inl e \<Rightarrow> Some (unavailable a (QueryFailed e))
              | Inr rows \<Rightarrow>
                  (case GetStreamFinal (dRows a) sid of
                     Inl e \<Rightarrow> Some (unavailable a (QueryFailed e))
                   | Inr final \<Rightarrow>
                       if rows = [] \<and> final = None then Some (httpError 404 ''Stream not found.'')
                       else map_option (writeJSON 200 \<circ> JObj)
                              (StreamHistoryToJSON (dThresholds a) rows (dAgentID a) (dAgentName a) final (dSilenceRatioThreshold a))))"

definition report :: "'e api_deps \<Rightarrow> request \<Rightarrow> response option" where
  "report a r =
     (let sid = firstNonEmptyQ r [''stream_id'', ''id''];
          ts = (case queryFloatOpt r ''timestamp'' of None \<Rightarrow> queryFloatOpt r ''time'' | t \<Rightarrow> t)
      in case ts of
           None \<Rightarrow> Some (httpError 503 ''Params stream_id and timestamp are required.'')
         | Some t \<Rightarrow>
             if sid = [] then Some (httpError 503 ''Params stream_id and timestamp are required.'')
             else case GetReport (dRows a) sid (f64_to_int64 t) of
                    Inl e \<Rightarrow> Some (unavailable a (QueryFailed e))
                  | Inr None \<Rightarrow> Some (httpError 404 ''Report not found.'')
                  | Inr (Some row) \<Rightarrow> map_option (writeJSON 200 \<circ> JObj) (ReportRowToJSON (dThresholds a) row))"

section \<open>Stream lists\<close>

definition farFutureSeconds :: int where
  "farFutureSeconds = 2 ^ 40"

definition statsFilter :: "'e api_deps \<Rightarrow> string \<Rightarrow> int option \<Rightarrow> int option \<Rightarrow> string \<Rightarrow> search_filter" where
  "statsFilter a img start fin sipCallID =
     (let f = (if img \<noteq> [] then ParseSearchFilter img else NewSearchFilter);
          f = (if MaxCount f \<le> 0 then f\<lparr>MaxCount := dMaxStreams a\<rparr> else f);
          f = (if start \<noteq> None \<or> fin \<noteq> None
               then f\<lparr>DateInterval := Some \<lparr>StartSeconds = optOr start 0, EndSeconds = optOr fin farFutureSeconds\<rparr>\<rparr> else f)
      in if sipCallID \<noteq> [] then f\<lparr>SIPCallID := sipCallID\<rparr> else f)"

definition writeCSV :: "string \<Rightarrow> string \<Rightarrow> response" where
  "writeCSV content filename = \<lparr>status = 200, payload = FileBody ''text/csv'' filename content\<rparr>"

definition activeRecords :: "'e api_deps \<Rightarrow> valmap list" where
  "activeRecords a = (case dRegistry a of None \<Rightarrow> [] | Some r \<Rightarrow> SnapshotRecords r)"

definition downloadFinished :: "'e api_deps \<Rightarrow> request \<Rightarrow> response option" where
  "downloadFinished a r =
     (let img = query r ''db_filter''; dbf = (if img \<noteq> [] then ParseSearchFilter img else NewSearchFilter)
      in map_option (\<lambda>res. case res of Inl e \<Rightarrow> unavailable a e | Inr csv \<Rightarrow> writeCSV csv ''vq-db-finished.csv'')
           (FinishedCSV (dThresholds a) (GetFinishedStreams (dRows a))
              (\<lambda>link. map_sum QueryFailed id (GetStreamHistory (dRows a) link)) dbf (queryBool (dUnicode a) r ''show_detectors'')))"

definition streamObjects :: "(valmap \<Rightarrow> json_object option) \<Rightarrow> valmap list \<Rightarrow> (string \<times> json) option" where
  "streamObjects f rows = map_option (\<lambda>objs. (''streams'', JList (map JObj objs))) (those (map f rows))"

definition activePart :: "'e api_deps \<Rightarrow> request \<Rightarrow> json_object \<Rightarrow> json_object option" where
  "activePart a r body =
     (let show = queryBool (dUnicode a) r ''show_active''
      in if show \<or> queryBool (dUnicode a) r ''mem_show_count'' then
           let mem = statsFilter a (query r ''mem_filter'') (queryIntOpt r ''mem_start_timestamp'')
                       (queryIntOpt r ''mem_end_timestamp'') (query r ''sip_callid'')
           in case PaginateActive (dUnicode a) (activeRecords a) mem of
                None \<Rightarrow> None
              | Some (page, n) \<Rightarrow>
                  (let body = putAll [(''available_active_streams_count'', JInt (int n))] body
                   in if show then
                        map_option (\<lambda>ss. putAll [(''total_active_streams_count'', JInt (activeCount a)), (''active_streams'', JObj [ss])] body)
                          (streamObjects (\<lambda>rec. ActiveRecordToJSON (dThresholds a) (dZone a) rec (dSilenceRatioThreshold a)) page)
                      else Some body)
         else Some body)"

definition noFinished :: "(string \<times> json)" where
  "noFinished = (''finished_streams'', JObj [(''streams'', JList [])])"

definition finishedPart :: "'e api_deps \<Rightarrow> request \<Rightarrow> json_object \<Rightarrow> json_object option" where
  "finishedPart a r body =
     (let show = queryBool (dUnicode a) r ''show_finished''
      in if show \<or> queryBool (dUnicode a) r ''db_show_count'' then
           let dbf = statsFilter a (query r ''db_filter'') (queryIntOpt r ''db_start_timestamp'')
                       (queryIntOpt r ''db_end_timestamp'') (query r ''sip_callid'')
           in case GetFinishedStreamCount (dScalar a) dbf of
                Inl e \<Rightarrow> Some (putAll ([(''available_finished_streams_count'', JInt 0)] @ (if show then [noFinished] else [])
                              @ [(''error'', JStr (dErrText a e))]) body)
              | Inr n \<Rightarrow>
                  (let body = putAll [(''available_finished_streams_count'', JInt n)] body
                   in if show then
                        let tot = (case GetFinishedStreamCount (dScalar a) NewSearchFilter of Inl _ \<Rightarrow> 0 | Inr t \<Rightarrow> t);
                            body = putAll [(''total_finished_streams_count'', JInt tot)] body
                        in case GetFinishedStreams (dRows a) dbf of
                             Inl e \<Rightarrow> Some (putAll [noFinished, (''error'', JStr (dErrText a e))] body)
                           | Inr rows \<Rightarrow> map_option (\<lambda>ss. putAll [(''finished_streams'', JObj [ss])] body)
                               (streamObjects (\<lambda>row. FinishedStreamRowToJSON (dThresholds a) (dZone a) row (dSilenceRatioThreshold a)) rows)
                      else Some body)
         else Some body)"

definition stats :: "'e api_deps \<Rightarrow> request \<Rightarrow> response option" where
  "stats a r =
     (if queryBool (dUnicode a) r ''download_db'' then downloadFinished a r
      else if queryBool (dUnicode a) r ''download_active''
      then map_option (\<lambda>csv. writeCSV csv ''vq-db-active.csv'') (ActiveCSV (dThresholds a) (activeRecords a) True)
      else map_option (writeJSON 200 \<circ> JObj) (Option.bind (activePart a r (envelope a)) (finishedPart a r)))"

section \<open>The track list\<close>

text \<open>\<open>send\<close> is the control client (\<^verbatim>\<open>None\<close>: not configured), \<open>save\<close> the track store; both thread their own
  state. A failed save is only logged.\<close>

definition queryPatterns :: "request \<Rightarrow> string list" where
  "queryPatterns r = filter (\<lambda>p. p \<noteq> []) (case map_of (ParseQuery (rawQuery r)) ''pattern'' of None \<Rightarrow> [] | Some vs \<Rightarrow> vs)"

definition ackJSON :: "track_ack \<Rightarrow> json_object" where
  "ackJSON ack = [(''ok'', JBool (AckOK ack)), (''affected_streams'', JInt (uint (AffectedStreams ack))),
     (''current'', JList (map JStr (Current ack)))] @ (if AckError ack \<noteq> [] then [(''error'', JStr (AckError ack))] else [])"

definition track ::
    "(track_op \<Rightarrow> string list \<Rightarrow> 'c \<Rightarrow> track_ack \<times> 'c) option \<Rightarrow> (string list \<Rightarrow> ('w, unit) action) option
     \<Rightarrow> request \<Rightarrow> track_op \<Rightarrow> bool \<Rightarrow> 'c \<times> 'w \<Rightarrow> response \<times> 'c \<times> 'w" where
  "track send save r op require cw =
     (case send of
        None \<Rightarrow> (httpError 503 ''track-list control is not configured'', cw)
      | Some f \<Rightarrow>
          (let patterns = queryPatterns r; c = fst cw; w = snd cw
           in if require \<and> length patterns = 0 then (httpError 400 ''at least one 'pattern' parameter is required'', cw)
              else let (ack, c') = f op patterns c
                   in if \<not> TransportOK ack
                      then (httpError 503 (if AckError ack = [] then ''vq-core control socket unreachable'' else AckError ack), c', w)
                      else (writeJSON 200 (JObj (ackJSON ack)), c',
                            if op \<noteq> TrackQuery \<and> AckOK ack then (case save of None \<Rightarrow> w | Some g \<Rightarrow> snd (g (Current ack) w)) else w)))"

section \<open>Alarms and the redirect\<close>

definition alarms :: "'e api_deps \<Rightarrow> request \<Rightarrow> response" where
  "alarms a r =
     (let n = optOr (queryIntOpt r ''limit'') 50; limit = (if n \<le> 0 \<or> 1000 < n then 50 else n);
          view = (case dAlarms a of
                    None \<Rightarrow> \<lparr>Configured = False, AlarmRules = [], AlarmEvents = [], AlarmError = []\<rparr>
                  | Some f \<Rightarrow> f limit)
      in writeJSON 200 (JObj (putAll ([(''configured'', JBool (Configured view)), (''rules'', JList (map JObj (AlarmRules view))),
           (''events'', JList (map JObj (AlarmEvents view)))]
           @ (if AlarmError view \<noteq> [] then [(''error'', JStr (AlarmError view))] else [])) (envelope a))))"

definition strings_TrimRight :: "string \<Rightarrow> char \<Rightarrow> string" where
  "strings_TrimRight s c = rev (dropWhile (\<lambda>x. x = c) (rev s))"

definition prefixChar :: "char \<Rightarrow> bool" where
  "prefixChar c \<longleftrightarrow> (let n = of_char c :: nat in
     (65 \<le> n \<and> n \<le> 90) \<or> (97 \<le> n \<and> n \<le> 122) \<or> (48 \<le> n \<and> n \<le> 57) \<or> c \<in> set ''._~/-'')"

definition safePrefixRe :: "string \<Rightarrow> bool" where
  "safePrefixRe s \<longleftrightarrow> (case s of [] \<Rightarrow> False | c # t \<Rightarrow> c = CHR ''/'' \<and> list_all prefixChar t)"

definition uiPrefix :: "request \<Rightarrow> string" where
  "uiPrefix r =
     (let p = strings_TrimRight (forwardedPrefix r) (CHR ''/'') in if p \<noteq> [] \<and> \<not> safePrefixRe p then [] else p)"

definition redirectToUI :: "request \<Rightarrow> response" where
  "redirectToUI r = \<lparr>status = 302, payload = RedirectTo (uiPrefix r @ ''/ui/summary'')\<rparr>"

section \<open>What the API reports when something fails\<close>

lemma putAll_has: "distinct (map fst fs) \<Longrightarrow> (k, v) \<in> set fs \<Longrightarrow> map_of (putAll fs obj) k = Some v"
  by (simp add: map_of_putAll)

text \<open>The endpoints that read the database.\<close>

datatype db_endpoint = DbInstances | DbSummary | DbCalls | DbCall | DbEvents | DbAudio | DbHistory | DbReport

fun answerOf :: "'e api_deps \<Rightarrow> request \<Rightarrow> db_endpoint \<Rightarrow> response option" where
  "answerOf a r DbInstances = Some (instanceList a)"
| "answerOf a r DbSummary = summary a"
| "answerOf a r DbCalls = Some (sipCalls a r)"
| "answerOf a r DbCall = Some (sipCall a r)"
| "answerOf a r DbEvents = Some (sipEvents a r)"
| "answerOf a r DbAudio = Some (audio a r)"
| "answerOf a r DbHistory = streamHistory a r"
| "answerOf a r DbReport = report a r"

text \<open>The parameters an endpoint insists on.\<close>

definition reportTime :: "request \<Rightarrow> f64 option" where
  "reportTime r = (case queryFloatOpt r ''timestamp'' of None \<Rightarrow> queryFloatOpt r ''time'' | t \<Rightarrow> t)"

abbreviation streamIdOf :: "request \<Rightarrow> string" where
  "streamIdOf r \<equiv> firstNonEmptyQ r [''stream_id'', ''id'']"

fun missingParam :: "request \<Rightarrow> db_endpoint \<Rightarrow> (int \<times> string) option" where
  "missingParam r DbCall = (if query r ''call_id'' = [] then Some (422, ''call_id is required'') else None)"
| "missingParam r DbAudio = (if query r ''link_id'' = [] then Some (422, ''link_id is required'') else None)"
| "missingParam r DbHistory = (if streamIdOf r = [] then Some (503, ''Param stream_id is required.'') else None)"
| "missingParam r DbReport =
     (if streamIdOf r = [] \<or> reportTime r = None then Some (503, ''Params stream_id and timestamp are required.'') else None)"
| "missingParam r _ = None"

text \<open>The statements that must be answered, in their order, and the first that is not. The list of calls asks for the
  verdicts of the calls it found.\<close>

datatype db_call = AskRows statement | AskCount statement

fun failureOf :: "'e api_deps \<Rightarrow> db_call \<Rightarrow> 'e option" where
  "failureOf a (AskRows st) = (case dRows a st of Inl e \<Rightarrow> Some e | Inr _ \<Rightarrow> None)"
| "failureOf a (AskCount st) = (case dScalar a st of Inl e \<Rightarrow> Some e | Inr _ \<Rightarrow> None)"

fun firstFailure :: "'e api_deps \<Rightarrow> db_call list \<Rightarrow> 'e option" where
  "firstFailure a [] = None"
| "firstFailure a (q # qs) = (case failureOf a q of Some e \<Rightarrow> Some e | None \<Rightarrow> firstFailure a qs)"

definition callCountStmt :: "request \<Rightarrow> expr_error + statement" where
  "callCountStmt r = sipCallCountStmt (queryIntOpt r ''start_timestamp'') (queryIntOpt r ''end_timestamp'') (query r ''call_id'') (query r ''filter'')"

definition callListStmt :: "'e api_deps \<Rightarrow> request \<Rightarrow> expr_error + statement" where
  "callListStmt a r = sipCallListStmt (queryIntOpt r ''start_timestamp'') (queryIntOpt r ''end_timestamp'') (pageLimit a r) (pageStart r)
     (query r ''call_id'') (query r ''filter'')"

definition widgetAsk :: "'e api_deps \<Rightarrow> int \<Rightarrow> statement" where
  "widgetAsk a seconds = widgetStatsStmt seconds (dGoodMosThreshold a) 0 (dClock a)"

fun needs :: "'e api_deps \<Rightarrow> request \<Rightarrow> db_endpoint \<Rightarrow> db_call list" where
  "needs a r DbInstances = [AskRows agentListStmt]"
| "needs a r DbSummary = AskRows (widgetAsk a 3600) #
     (if dRows a (widgetAsk a 3600) = Inr [] then [] else [AskRows (widgetAsk a 86400)])"
| "needs a r DbCalls =
     (case (callCountStmt r, callListStmt a r) of
        (Inr cq, Inr lq) \<Rightarrow> AskCount cq # AskRows lq #
          (case dRows a lq of
             Inl _ \<Rightarrow> []
           | Inr rows \<Rightarrow> if rows = [] then [] else [AskRows (callHealthStmt (map (\<lambda>s. getStr s ''call_id'') rows))])
      | _ \<Rightarrow> [])"
| "needs a r DbCall = [AskRows (sipCallEventsStmt (query r ''call_id'')), AskRows (callHealthStmt [query r ''call_id''])]"
| "needs a r DbEvents =
     [AskCount (sipEventCountStmt (queryIntOpt r ''type'') (queryIntOpt r ''start_timestamp'') (queryIntOpt r ''end_timestamp'')),
      AskRows (sipEventsStmt (queryIntOpt r ''type'') (queryIntOpt r ''start_timestamp'') (queryIntOpt r ''end_timestamp'')
        (pageLimit a r) (pageStart r))]"
| "needs a r DbAudio = [AskRows (audioChunksStmt (query r ''link_id''))]"
| "needs a r DbHistory = [AskRows (streamHistoryStmt (streamIdOf r)), AskRows (streamFinalStmt (streamIdOf r))]"
| "needs a r DbReport =
     (case reportTime r of None \<Rightarrow> [] | Some t \<Rightarrow> [AskRows (reportStmt (streamIdOf r) (f64_to_int64 t))])"

text \<open>The answers that hold nothing to show.\<close>

fun nothingFound :: "'e api_deps \<Rightarrow> request \<Rightarrow> db_endpoint \<Rightarrow> string option" where
  "nothingFound a r DbAudio =
     (case GetStreamAudioChunks (dRows a) (query r ''link_id'') of
        Inr chunks \<Rightarrow> if ConcatWav chunks = [] then Some ''No audio stored for this stream.'' else None
      | Inl _ \<Rightarrow> None)"
| "nothingFound a r DbHistory =
     (if dRows a (streamHistoryStmt (streamIdOf r)) = Inr [] \<and> dRows a (streamFinalStmt (streamIdOf r)) = Inr []
      then Some ''Stream not found.'' else None)"
| "nothingFound a r DbReport =
     (case reportTime r of
        None \<Rightarrow> None
      | Some t \<Rightarrow> if dRows a (reportStmt (streamIdOf r) (f64_to_int64 t)) = Inr [] then Some ''Report not found.'' else None)"
| "nothingFound a r _ = None"

text \<open>A bad filter expression in the list of calls.\<close>

definition badCallFilter :: "request \<Rightarrow> db_endpoint \<Rightarrow> bool" where
  "badCallFilter r ep \<longleftrightarrow> ep = DbCalls \<and> (\<exists>e. sipCallFilter (query r ''filter'') = Inl e)"

definition outcomeOf :: "'e api_deps \<Rightarrow> request \<Rightarrow> db_endpoint \<Rightarrow> response option" where
  "outcomeOf a r ep =
     (case missingParam r ep of
        Some (st, detail) \<Rightarrow> Some (httpError st detail)
      | None \<Rightarrow> (case firstFailure a (needs a r ep) of
            Some e \<Rightarrow> Some (httpError 503 (dErrText a (QueryFailed e)))
          | None \<Rightarrow> map_option (httpError 404) (nothingFound a r ep)))"

definition reportsFailures :: "'e api_deps \<Rightarrow> request \<Rightarrow> db_endpoint \<Rightarrow> bool" where
  "reportsFailures a r ep \<longleftrightarrow>
     (case outcomeOf a r ep of
        Some resp \<Rightarrow> answerOf a r ep = Some resp
      | None \<Rightarrow> \<forall>resp. answerOf a r ep = Some resp \<longrightarrow> status resp = 200)"

lemmas failure_defs = reportsFailures_def outcomeOf_def case_sum_map_sum comp_def

lemma failures_list: "reportsFailures a r DbInstances" "reportsFailures a r DbEvents"
  by (simp_all add: failure_defs instanceList_def GetAgentList_def sipEvents_def GetSipEvents_def unavailable_def Let_def
      split: sum.split option.split)

lemma failures_call: "reportsFailures a r DbCall"
  by (simp add: failure_defs sipCall_def GetSipCallEvents_def GetCallHealth_def unavailable_def Let_def split: sum.split option.split)

lemma failures_audio: "reportsFailures a r DbAudio"
  by (simp add: failure_defs audio_def GetStreamAudioChunks_def unavailable_def Let_def split: sum.split option.split)

lemma failures_summary: "reportsFailures a r DbSummary"
  by (auto simp: failure_defs summary_def widgetAsk_def FindWidgetStats_def unavailable_def Let_def
      split: sum.split option.split list.split)

lemma failures_history: "reportsFailures a r DbHistory"
  by (auto simp: failure_defs streamHistory_def GetStreamHistory_def GetStreamFinal_def firstRow_def unavailable_def Let_def
      split: sum.split option.split list.split)

lemma failures_report: "reportsFailures a r DbReport"
  by (auto simp: failure_defs report_def reportTime_def GetReport_def firstRow_def unavailable_def Let_def
      split: sum.split option.split list.split)

lemma callRow_id: "getStr (trimmedColumns [''caller'', ''callee'']
    (int64Columns [''start_timestamp'', ''end_timestamp'', ''duration'', ''setup_code'', ''response_code'', ''reason'', ''reinvite_count''] row)) ''call_id''
  = getStr row ''call_id''"
  by (simp add: trimmedColumns_def int64Columns_def getStr_def rowGet_def)

lemma failures_calls:
  assumes "\<not> badCallFilter r DbCalls"
  shows "reportsFailures a r DbCalls"
proof -
  obtain cond condArgs where "sipCallFilter (query r ''filter'') = Inr (cond, condArgs)"
    using assms by (cases "sipCallFilter (query r ''filter'')") (auto simp: badCallFilter_def)
  then have "\<exists>cq. callCountStmt r = Inr cq" "\<exists>lq. callListStmt a r = Inr lq"
    by (simp_all add: callCountStmt_def callListStmt_def sipCallCountStmt_def sipCallListStmt_def split_beta del: append.simps)
  then obtain cq lq where st: "callCountStmt r = Inr cq" "callListStmt a r = Inr lq" by blast
  then show ?thesis
    by (auto simp: failure_defs sipCalls_def GetSipCallCount_def GetSipCallList_def runCount_def runRows_def GetCallHealth_def
        callCountStmt_def callListStmt_def unavailable_def callsBody_def comp_def callRow_id Let_def
        simp del: append.simps split: sum.split option.split)
qed

lemma failures_reported: "\<not> badCallFilter r ep \<Longrightarrow> reportsFailures a r ep"
  by (cases ep) (use failures_calls in \<open>simp_all add: failures_list failures_call failures_audio failures_summary failures_history
    failures_report\<close>)

lemma sipCalls_bad_filter:
  assumes "sipCallFilter (query r ''filter'') = Inl e"
  shows "sipCalls a r = callsBody a 0 [] [(''error'', JStr (dErrText a (BadExpression e)))]"
  using assms by (simp add: sipCalls_def Let_def GetSipCallCount_def sipCallCountStmt_def runCount_def split_beta)

text \<open>The list of finished streams: what is wrong with the filter or the database, if anything.\<close>

definition dbFilter :: "'e api_deps \<Rightarrow> request \<Rightarrow> search_filter" where
  "dbFilter a r = statsFilter a (query r ''db_filter'') (queryIntOpt r ''db_start_timestamp'') (queryIntOpt r ''db_end_timestamp'')
     (query r ''sip_callid'')"

definition finishedFailure :: "'e api_deps \<Rightarrow> request \<Rightarrow> 'e query_error option" where
  "finishedFailure a r =
     (case GetFinishedStreamCount (dScalar a) (dbFilter a r) of
        Inl e \<Rightarrow> Some e
      | Inr _ \<Rightarrow> (case GetFinishedStreams (dRows a) (dbFilter a r) of Inl e \<Rightarrow> Some e | Inr _ \<Rightarrow> None))"

definition csvFilter :: "request \<Rightarrow> search_filter" where
  "csvFilter r = (if query r ''db_filter'' \<noteq> [] then ParseSearchFilter (query r ''db_filter'') else NewSearchFilter)
     \<lparr>PageOffset := 0, MaxCount := ExportLimit\<rparr>"

lemma activePart_no_error: "activePart a r (envelope a) = Some body \<Longrightarrow> map_of body ''error'' = None"
  by (auto simp: activePart_def envelope_def AgentEnvelope_def map_of_putAll Let_def streamObjects_def split: if_splits option.splits)

lemma stats_reports_failure:
  assumes "\<not> queryBool (dUnicode a) r ''download_db''" "\<not> queryBool (dUnicode a) r ''download_active''"
    and "queryBool (dUnicode a) r ''show_finished''" "stats a r = Some resp"
  shows "\<exists>obj. resp = writeJSON 200 (JObj obj)
    \<and> map_of obj ''error'' = map_option (\<lambda>e. JStr (dErrText a e)) (finishedFailure a r)
    \<and> (finishedFailure a r \<noteq> None \<longrightarrow> map_of obj ''finished_streams'' = Some (JObj [(''streams'', JList [])]))"
proof -
  obtain body obj where b: "activePart a r (envelope a) = Some body" "finishedPart a r body = Some obj" "resp = writeJSON 200 (JObj obj)"
    using assms by (auto simp: stats_def bind_eq_Some_conv)
  have "map_of obj ''error'' = map_option (\<lambda>e. JStr (dErrText a e)) (finishedFailure a r)
      \<and> (finishedFailure a r \<noteq> None \<longrightarrow> map_of obj ''finished_streams'' = Some (JObj [(''streams'', JList [])]))"
    using b(2) assms(3) activePart_no_error [OF b(1)]
    by (auto simp: finishedPart_def dbFilter_def [symmetric] finishedFailure_def noFinished_def map_of_putAll Let_def split: sum.splits)
  with b(3) show ?thesis by blast
qed

lemma finishedRows_failure:
  assumes "finishedRows th history detailed rows = Some res"
  shows "case res of Inl e \<Rightarrow> detailed \<and> (\<exists>row \<in> set rows. history (getStr row ''link_id'') = Inl e)
    | Inr _ \<Rightarrow> detailed \<longrightarrow> (\<forall>row \<in> set rows. \<forall>e. history (getStr row ''link_id'') \<noteq> Inl e)"
  using assms
proof (induction rows arbitrary: res)
  case (Cons row rows)
  show ?case
  proof (cases "if detailed then history (getStr row ''link_id'') else Inr []")
    case (Inl e)
    then show ?thesis using Cons.prems by (auto split: if_splits)
  next
    case (Inr hs)
    then obtain x rest where rest: "finishedRows th history detailed rows = Some rest" "res = map_sum id (Cons x) rest"
      using Cons.prems by (auto split: option.splits)
    from Cons.IH [OF rest(1)] Inr rest(2) show ?thesis by (cases rest) (auto split: if_splits)
  qed
qed auto

lemma csv_reports_failure:
  assumes "queryBool (dUnicode a) r ''download_db''"
  shows "case GetFinishedStreams (dRows a) (csvFilter r) of
      Inl e \<Rightarrow> stats a r = Some (httpError 503 (dErrText a e))
    | Inr rows \<Rightarrow> \<forall>resp. stats a r = Some resp \<longrightarrow>
        (if queryBool (dUnicode a) r ''show_detectors''
            \<and> (\<exists>row \<in> set rows. \<exists>e. dRows a (streamHistoryStmt (getStr row ''link_id'')) = Inl e)
         then \<exists>row \<in> set rows. \<exists>e. dRows a (streamHistoryStmt (getStr row ''link_id'')) = Inl e
            \<and> resp = httpError 503 (dErrText a (QueryFailed e))
         else status resp = 200)"
proof (cases "GetFinishedStreams (dRows a) (csvFilter r)")
  case (Inl e)
  then show ?thesis using assms by (simp add: stats_def downloadFinished_def FinishedCSV_def csvFilter_def unavailable_def Let_def)
next
  case (Inr rows)
  let ?h = "\<lambda>link. map_sum QueryFailed id (dRows a (streamHistoryStmt link))" and ?d = "queryBool (dUnicode a) r ''show_detectors''"
  have stats: "stats a r = map_option (\<lambda>res. case res of Inl e \<Rightarrow> unavailable a e | Inr out \<Rightarrow> writeCSV (renderCSV out ?d) ''vq-db-finished.csv'')
      (finishedRows (dThresholds a) ?h ?d rows)"
    using assms Inr by (cases "finishedRows (dThresholds a) ?h ?d rows")
      (auto simp: stats_def downloadFinished_def FinishedCSV_def csvFilter_def GetStreamHistory_def Let_def split: sum.split)
  have failed: "?h link = Inl e \<longleftrightarrow> (\<exists>e'. dRows a (streamHistoryStmt link) = Inl e' \<and> e = QueryFailed e')" for link e
    by (cases "dRows a (streamHistoryStmt link)") auto
  have "if ?d \<and> (\<exists>row \<in> set rows. \<exists>e. dRows a (streamHistoryStmt (getStr row ''link_id'')) = Inl e)
         then \<exists>row \<in> set rows. \<exists>e. dRows a (streamHistoryStmt (getStr row ''link_id'')) = Inl e
            \<and> resp = httpError 503 (dErrText a (QueryFailed e))
         else status resp = 200" if out: "stats a r = Some resp" for resp
  proof -
    obtain res where res: "finishedRows (dThresholds a) ?h ?d rows = Some res"
      "resp = (case res of Inl e \<Rightarrow> unavailable a e | Inr out \<Rightarrow> writeCSV (renderCSV out ?d) ''vq-db-finished.csv'')"
      using out unfolding stats by blast
    show ?thesis using finishedRows_failure [OF res(1)] res(2)
      by (cases res) (auto simp: failed unavailable_def writeCSV_def)
  qed
  then show ?thesis by (simp add: Inr)
qed



definition demoDeps :: "unit api_deps" where
  "demoDeps = \<lparr>dRows = \<lambda>_. Inl (), dScalar = \<lambda>_. Inl (), dErrText = \<lambda>_. ''bad'', dAgentID = ''i'', dAgentName = ''n'',
     dGoodMosThreshold = Fin False 4, dSilenceRatioThreshold = Fin False 1, dMaxStreams = 100, dVersion = ''1'',
     dRegistry = None, dSnapshot = None, dAlarms = None, dThresholds = \<lambda>_. None, dZone = \<lambda>_. 0, dUnicode = id, dClock = 0\<rparr>"


section \<open>The list of active streams\<close>

text \<open>The filter \<^verbatim>\<open>/stats\<close> applies to the active streams.\<close>

definition memFilter :: "'e api_deps \<Rightarrow> request \<Rightarrow> search_filter" where
  "memFilter a r = statsFilter a (query r ''mem_filter'') (queryIntOpt r ''mem_start_timestamp'') (queryIntOpt r ''mem_end_timestamp'')
     (query r ''sip_callid'')"

lemma statsFilter_bounded: "0 < dMaxStreams a \<Longrightarrow> 0 < MaxCount (statsFilter a img start fin cid)"
  by (simp add: statsFilter_def Let_def)

lemma those_map_Some: "list_all (\<lambda>x. f x \<noteq> None) xs \<Longrightarrow> those (map f xs) = Some (map (the \<circ> f) xs)"
  by (induction xs) auto

text \<open>What the page of active streams is meant to be, the objects it is printed as (\<^verbatim>\<open>None\<close>: a record whose report
  makes the serializer panic), the answer around them, and the one page whose end does not fit Go's int.\<close>

definition activePage :: "'e api_deps \<Rightarrow> request \<Rightarrow> registry \<Rightarrow> valmap list" where
  "activePage a r reg =
     (let flt = memFilter a r
      in take (nat (MaxCount flt)) (drop (nat (max0 (PageOffset flt)))
           (sortRecords (filter (selected (dUnicode a) flt) (SnapshotRecords reg)) (SortField flt) (Descending flt))))"

definition activeObjects :: "'e api_deps \<Rightarrow> request \<Rightarrow> registry \<Rightarrow> json_object list option" where
  "activeObjects a r reg =
     those (map (\<lambda>rec. ActiveRecordToJSON (dThresholds a) (dZone a) rec (dSilenceRatioThreshold a)) (activePage a r reg))"

definition activeMatches :: "'e api_deps \<Rightarrow> request \<Rightarrow> registry \<Rightarrow> int" where
  "activeMatches a r reg = int (length (filter (selected (dUnicode a) (memFilter a r)) (SnapshotRecords reg)))"

definition activeAnswer :: "'e api_deps \<Rightarrow> request \<Rightarrow> registry \<Rightarrow> json_object list \<Rightarrow> json" where
  "activeAnswer a r reg objs = JObj
     [(''instance'', JObj [(''id'', JStr (dAgentID a)), (''name'', JStr (dAgentName a))]),
      (''available_active_streams_count'', JInt (activeMatches a r reg)),
      (''total_active_streams_count'', JInt (int (ActiveCount reg))),
      (''active_streams'', JObj [(''streams'', JList (map JObj objs))])]"

definition pageOverflows :: "'e api_deps \<Rightarrow> request \<Rightarrow> registry \<Rightarrow> bool" where
  "pageOverflows a r reg \<longleftrightarrow>
     (let off = max0 (PageOffset (memFilter a r))
      in off < activeMatches a r reg \<and> maxInt64 < off + MaxCount (memFilter a r))"

lemma safeInt_max: "d \<le> maxInt64 \<Longrightarrow> safeInt t d \<le> maxInt64"
  by (auto simp: safeInt_def strconv_ParseInt_def Let_def split: option.split if_splits)

lemma ParseSearchFilter_max: "PageOffset (ParseSearchFilter img) \<le> maxInt64" "MaxCount (ParseSearchFilter img) \<le> maxInt64"
proof -
  have "0 \<le> maxInt64" "50 \<le> maxInt64" by (simp_all add: maxInt64_def)
  then show "PageOffset (ParseSearchFilter img) \<le> maxInt64" "MaxCount (ParseSearchFilter img) \<le> maxInt64"
    by (simp_all add: ParseSearchFilter_def SearchFilter_Parse_def Let_def NewSearchFilter_def safeInt_max)
qed

lemma memFilter_max:
  assumes "dMaxStreams a \<le> maxInt64"
  shows "PageOffset (memFilter a r) \<le> maxInt64" "MaxCount (memFilter a r) \<le> maxInt64"
proof -
  have new: "0 \<le> maxInt64" "50 \<le> maxInt64" by (simp_all add: maxInt64_def)
  show "PageOffset (memFilter a r) \<le> maxInt64" "MaxCount (memFilter a r) \<le> maxInt64"
    unfolding memFilter_def statsFilter_def Let_def
    using assms new ParseSearchFilter_max [of "query r ''mem_filter''"] by (simp_all add: NewSearchFilter_def)
qed

lemma pageSlice_active:
  assumes "0 < dMaxStreams a" "dMaxStreams a \<le> maxInt64" "int (length xs) = activeMatches a r reg"
  shows "pageSlice xs (PageOffset (memFilter a r)) (MaxCount (memFilter a r)) =
    (if pageOverflows a r reg then None
     else Some (take (nat (MaxCount (memFilter a r))) (drop (nat (max0 (PageOffset (memFilter a r)))) xs)))"
proof -
  let ?off = "PageOffset (memFilter a r)" and ?cnt = "MaxCount (memFilter a r)"
  have pos: "0 < ?cnt" using statsFilter_bounded [OF assms(1)] by (simp add: memFilter_def)
  note le = memFilter_max [OF assms(2), of r]
  consider "max0 ?off + ?cnt \<le> maxInt64" | "maxInt64 < max0 ?off + ?cnt" "activeMatches a r reg \<le> max0 ?off"
    | "maxInt64 < max0 ?off + ?cnt" "max0 ?off < activeMatches a r reg" by linarith
  then show ?thesis
  proof cases
    case 1
    then show ?thesis using pageSlice_ok [OF 1, of xs] pos by (simp add: pageOverflows_def Let_def)
  next
    case 2
    then show ?thesis using pos assms(3) by (simp add: pageOverflows_def pageSlice_def max0_def Let_def split: if_splits)
  next
    case 3
    then have "0 \<le> ?off" using le by (auto simp: max0_def split: if_splits)
    with 3 le pos assms(3) show ?thesis
      using pageSlice_overflow [of ?off xs ?cnt] by (simp add: pageOverflows_def max0_def Let_def)
  qed
qed

text \<open>C27: What \<^verbatim>\<open>GET /stats?show_active=true\<close> answers about the streams of the registry, when nothing else is asked
  for. The page is the requested slice of the stable sort of exactly the streams the filter selects, each printed
  as a stream, beside the number of selected streams and the number of all active ones, and it is bounded even when the
  request asks for no limit. The client gets that list exactly when every number in it is finite; one NaN or infinity
  leaves it an empty body with status 200. The request panics exactly when the end of a page that starts inside the
  list does not fit Go's int, or when a record of the page makes the serializer panic.
  (Assumed: \<^verbatim>\<open>dashboard.max-streams\<close> is a positive int, and no sort key is NaN, since \<^verbatim>\<open>sort.SliceStable\<close>
  promises no order then.)\<close>

theorem stats_active_page:
  assumes "dRegistry a = Some reg" "0 < dMaxStreams a" "dMaxStreams a \<le> maxInt64"
    and "queryBool (dUnicode a) r ''show_active''"
    and "\<not> (\<exists>k \<in> {''download_db'', ''download_active'', ''show_finished'', ''db_show_count''}. queryBool (dUnicode a) r k)"
    and "sortable (SortField (memFilter a r)) (SnapshotRecords reg)"
  shows "(stats a r =
     (if pageOverflows a r reg then None
      else case activeObjects a r reg of
             None \<Rightarrow> None
           | Some objs \<Rightarrow> Some \<lparr>status = 200,
               payload = (if \<forall>obj \<in> set objs. encodable (JObj obj) then JsonBody (activeAnswer a r reg objs) else EmptyBody)\<rparr>))
     \<and> int (length (activePage a r reg)) \<le> MaxCount (memFilter a r)"
  (is "?stats \<and> ?bounded")
proof
  have pos: "0 < MaxCount (memFilter a r)" using statsFilter_bounded [OF assms(2)] by (simp add: memFilter_def)
  then show ?bounded by (simp add: activePage_def Let_def)
  have len: "int (length (sortRecords (filter (selected (dUnicode a) (memFilter a r)) (SnapshotRecords reg)) sf d)) = activeMatches a r reg" for sf d
    by (simp add: sortRecords_def decorate_def activeMatches_def)
  have "PaginateActive (dUnicode a) (activeRecords a) (memFilter a r) =
      (if pageOverflows a r reg then None else Some (activePage a r reg, nat (activeMatches a r reg)))"
    using PaginateActive_run [OF assms(6)] pageSlice_active [OF assms(2,3) len] assms(1)
    by (simp add: activeRecords_def activePage_def activeMatches_def Let_def)
  then show ?stats
    using assms(1,4,5)
    by (auto simp: stats_def activePart_def finishedPart_def memFilter_def [symmetric] streamObjects_def Let_def activeCount_def
        activeObjects_def activeAnswer_def activeMatches_def writeJSON_def envelope_def AgentEnvelope_def putAll_def list_all_iff
        split: option.split)
qed

lemma list_all_subset: "list_all P xs \<Longrightarrow> set ys \<subseteq> set xs \<Longrightarrow> list_all P ys"
  by (auto simp: list_all_iff)

lemma set_activePage: "set (activePage a r reg) \<subseteq> set (SnapshotRecords reg)"
proof -
  have "set (sortRecords xs sf d) = set xs" for xs sf d
    by (simp add: sortRecords_def decorate_def image_image)
  then show ?thesis unfolding activePage_def Let_def by (metis (no_types, lifting) filter_is_subset order_trans set_drop_subset set_take_subset)
qed

definition demoActive :: "unit api_deps" where
  "demoActive = demoDeps\<lparr>dRegistry := Some (OnReport rep0 10 (NewActiveStreamRegistry ''i'' ''n''))\<rparr>"

definition demoRequest :: request where
  "demoRequest = \<lparr>rawQuery = ''show_active=1'', forwardedPrefix = []\<rparr>"

lemma demoRequest_query:
  "query demoRequest k = (if k = ''show_active'' then ''1'' else [])"
  by (simp add: query_def demoRequest_def ParseQuery_def parsePair_def cutChar_def Values_Get_def Values_Add_def) 

lemma demoActive_records:
  fixes reg :: registry
  defines "reg \<equiv> OnReport rep0 10 (NewActiveStreamRegistry ''i'' ''n'')"
  shows "sortable ''start_time'' (SnapshotRecords reg)"
    and "list_all (\<lambda>rec. ActiveRecordToJSON (\<lambda>_. None) (\<lambda>_. 0) rec (Fin False 1) \<noteq> None) (SnapshotRecords reg)"
proof -
  obtain e where e: "SnapshotRecords reg = [recordLocked reg e]" "e_reports e = [rep0]"
    by (simp add: SnapshotRecords_def reg_def OnReport_def NewActiveStreamRegistry_def orderedEntries_def Let_def)
  have "recordLocked reg e ''start_time'' = Some (VInt 1)" "recordLocked reg e ''detector_reports'' = Some (VStrs [[]])"
    by (simp_all add: recordLocked_def Let_def e(2) rep0_def goDiv_def)
  moreover have "ParseIntervalReport [] \<noteq> None" by code_simp
  ultimately show "sortable ''start_time'' (SnapshotRecords reg)"
    "list_all (\<lambda>rec. ActiveRecordToJSON (\<lambda>_. None) (\<lambda>_. 0) rec (Fin False 1) \<noteq> None) (SnapshotRecords reg)"
    by (auto simp: e(1) sortable_def pairOk_def keyOk_def decorate_def getv_def sortKeyName_def sortKeys_def f64_of_int_exact
        ActiveRecordToJSON_def SilenceFields_def Let_def detectorReports_def rowGet_def SilentStream_def SilentShare_def split: option.split)
qed

theorem stats_active_page_witness:
  "\<exists>objs. activeObjects demoActive demoRequest (OnReport rep0 10 (NewActiveStreamRegistry ''i'' ''n'')) = Some objs
     \<and> stats demoActive demoRequest = Some \<lparr>status = 200,
         payload = (if \<forall>obj \<in> set objs. encodable (JObj obj)
           then JsonBody (activeAnswer demoActive demoRequest (OnReport rep0 10 (NewActiveStreamRegistry ''i'' ''n'')) objs) else EmptyBody)\<rparr>"
proof -
  let ?reg = "OnReport rep0 10 (NewActiveStreamRegistry ''i'' ''n'')"
  have dep: "dRegistry demoActive = Some ?reg" "dMaxStreams demoActive = 100" "dUnicode demoActive = id"
    "dThresholds demoActive = (\<lambda>_. None)" "dZone demoActive = (\<lambda>_. 0)" "dSilenceRatioThreshold demoActive = Fin False 1"
    by (simp_all add: demoActive_def demoDeps_def)
  have flt: "memFilter demoActive demoRequest = NewSearchFilter"
    by (simp add: memFilter_def statsFilter_def demoRequest_query queryIntOpt_def NewSearchFilter_def)
  have flag: "queryBool id demoRequest k \<longleftrightarrow> k = ''show_active''" for k
    by (simp add: queryBool_def demoRequest_query strings_ToLower_def lowerByte_def isAscii_def)
  have "activeObjects demoActive demoRequest ?reg \<noteq> None"
    using those_map_Some [OF list_all_subset [OF demoActive_records(2) set_activePage [of demoActive demoRequest]]]
    by (simp add: activeObjects_def dep)
  then obtain objs where objs: "activeObjects demoActive demoRequest ?reg = Some objs" by blast
  have over: "\<not> pageOverflows demoActive demoRequest ?reg"
    by (simp add: pageOverflows_def flt NewSearchFilter_def max0_def maxInt64_def Let_def)
  have "stats demoActive demoRequest = Some \<lparr>status = 200,
      payload = (if \<forall>obj \<in> set objs. encodable (JObj obj) then JsonBody (activeAnswer demoActive demoRequest ?reg objs) else EmptyBody)\<rparr>"
    using stats_active_page [THEN conjunct1, of demoActive ?reg demoRequest] demoActive_records(1) dep flt flag objs over
    by (simp add: NewSearchFilter_def maxInt64_def del: append.simps encodable.simps)
  with objs show ?thesis by blast
qed

section \<open>Track patterns\<close>

text \<open>C30: what the daemon will load at its next start is what the core acknowledged. \<^verbatim>\<open>/track/...\<close> leaves the
  stored patterns untouched unless the core carried out a change; when it did, loading the patterns
  again gives exactly the list the core reported, without empty entries. (Assumed: the database answers every statement
  of the save and of the load, the empty script; a failed save is only logged.)\<close>

theorem track_persists_acknowledged:
  assumes "script w = []" "track (Some (Send enc dec)) (Some (Save SetProperty)) r op require (c, w) = (resp, c', w')"
    and "fst (Send enc dec op (queryPatterns r) c) = ack" "\<forall>p \<in> set (Current ack). utf8_Valid p"
  shows "if op = TrackQuery \<or> require \<and> queryPatterns r = [] \<or> \<not> TransportOK ack \<or> \<not> AckOK ack then w' = w
         else status resp = 200 \<and> Load GetProperty w' = (Inr (nonEmpty (Current ack)), w')"
proof -
  obtain w1 where w1: "Save SetProperty (Current ack) w = (Inr (), w1)" "Load GetProperty w1 = (Inr (nonEmpty (Current ack)), w1)"
    using Save_then_Load [OF assms(1,4)] by blast
  show ?thesis
    using assms(2,3) w1 by (auto simp: track_def Let_def split_beta writeJSON_def split: if_splits)
qed

definition demoClient :: control_client where
  "demoClient = \<lparr>socket = Some Ready, dials = [], sends = [None], replies = [Some ''r'']\<rparr>"

definition demoAck :: "string \<Rightarrow> command_ack option" where
  "demoAck s = Some \<lparr>pbOk = True, pbError = [], pbCurrent = [''alice'', []], pbAffected = 1\<rparr>"

theorem track_persists_acknowledged_witness:
  "\<exists>w'. Load GetProperty w' = (Inr [''alice''], w') \<and> snd (snd (track (Some (Send (\<lambda>_. Inr ''x'') demoAck)) (Some (Save SetProperty))
     \<lparr>rawQuery = ''pattern=alice'', forwardedPrefix = []\<rparr> TrackAdd True (demoClient, demoConn))) = w'"
proof -
  let ?r = "\<lparr>rawQuery = ''pattern=alice'', forwardedPrefix = []\<rparr>"
  let ?t = "track (Some (Send (\<lambda>_. Inr ''x'') demoAck)) (Some (Save SetProperty)) ?r TrackAdd True (demoClient, demoConn)"
  have "queryPatterns ?r = [''alice'']" by code_simp
  moreover have ack: "fst (Send (\<lambda>_. Inr ''x'') demoAck TrackAdd ps demoClient) =
      \<lparr>TransportOK = True, AckOK = True, AckError = [], Current = [''alice'', []], AffectedStreams = 1\<rparr>" for ps
    by (simp add: Send_def exchange_def demoClient_def demoAck_def socket_defs nextOf_def ackOf_def emptyAck_def)
  moreover have "utf8_Valid ''alice''" "utf8_Valid []" by (code_simp, code_simp)
  moreover have "script demoConn = []" by (simp add: demoConn_def NewWriter_def)
  ultimately show ?thesis
    using track_persists_acknowledged [of demoConn "\<lambda>_. Inr ''x''" demoAck ?r TrackAdd True demoClient "fst ?t" "fst (snd ?t)" "snd (snd ?t)", OF _ _ refl]
    by (simp add: nonEmpty_def)
qed

section \<open>The prefix of a reverse proxy\<close>

lemma uiPrefix_chars: "uiPrefix r = [] \<or> hd (uiPrefix r) = CHR ''/'' \<and> list_all prefixChar (uiPrefix r) \<and> last (uiPrefix r) \<noteq> CHR ''/''"
proof (cases "uiPrefix r = []")
  case False
  let ?p = "strings_TrimRight (forwardedPrefix r) (CHR ''/'')"
  have p: "uiPrefix r = ?p" "safePrefixRe ?p" using False by (auto simp: uiPrefix_def Let_def split: if_splits)
  have "dropWhile (\<lambda>x. x = CHR ''/'') (rev (forwardedPrefix r)) \<noteq> []" using False p(1) by (simp add: strings_TrimRight_def)
  from hd_dropWhile [OF this] have "last ?p \<noteq> CHR ''/''" by (simp add: strings_TrimRight_def last_rev)
  moreover have "prefixChar (CHR ''/'')" by (simp add: prefixChar_def)
  ultimately show ?thesis using p(2) unfolding p(1) by (cases ?p) (auto simp: safePrefixRe_def)
qed simp

text \<open>A prefix of two slashes is accepted, and a browser reads such a target as another host.\<close>

lemma redirect_leaves_the_host:
  "redirectToUI \<lparr>rawQuery = [], forwardedPrefix = ''//evil.example''\<rparr> = \<lparr>status = 302, payload = RedirectTo ''//evil.example/ui/summary''\<rparr>"
  by code_simp

section \<open>Values that have no JSON form\<close>

text \<open>The jitter of a stream is printed as it is, so a NaN makes the object of the stream unencodable.\<close>

lemma nan_jitter_unencodable:
  assumes "r ''jitter'' = Some (VFloat NaN)" "ActiveRecordToJSON th zone r t = Some obj"
  shows "\<not> encodable (JObj obj)"
proof -
  obtain sil where obj: "obj = putAll (activeFields zone r) sil" using assms(2) by (auto simp: ActiveRecordToJSON_def)
  have "round3 (getF64 r ''jitter'') = NaN" using assms(1) by (simp add: round3_def getF64_def rowGet_def f64_of_int_exact)
  then have "map_of obj ''jitter'' = Some (JFloat NaN)"
    unfolding obj by (intro putAll_has) (simp_all add: activeFields_def)
  then have "(''jitter'', JFloat NaN) \<in> set obj" by (rule map_of_SomeD)
  then show ?thesis by (force simp: list_all_iff)
qed

text \<open>One active stream with a jitter of NaN on the page empties the whole answer.\<close>

lemma nan_jitter_empties_stats:
  assumes "streamObjects f page = Some ss" "rec \<in> set page" "rec ''jitter'' = Some (VFloat NaN)"
    and "f = (\<lambda>rec. ActiveRecordToJSON th zone rec t)"
  shows "\<not> encodable (JObj [(''active_streams'', JObj [ss])])"
proof -
  obtain objs where objs: "those (map f page) = Some objs" "ss = (''streams'', JList (map JObj objs))"
    using assms(1) by (auto simp: streamObjects_def)
  have "those (map f xs) = Some os \<Longrightarrow> x \<in> set xs \<Longrightarrow> \<exists>obj \<in> set os. f x = Some obj" for xs os x
    by (induction xs arbitrary: os) (auto split: option.splits)
  then obtain obj where "obj \<in> set objs" "f rec = Some obj" using objs(1) assms(2) by blast
  moreover from this(2) have "\<not> encodable (JObj obj)" using nan_jitter_unencodable assms(3,4) by blast
  ultimately show ?thesis using objs(2) by (auto simp: list_all_iff)
qed

end
