(* ===== verification/Web_Markdown.thy ===== *)
theory Web_Markdown
  imports Web_Format Api_App
begin

text \<open>
  The copy buttons of the dashboard (\<^verbatim>\<open>web/markdown.go\<close>) and the detector table of the chunk page
  (\<^verbatim>\<open>web/views.go\<close>): pretty-printed JSON, a Markdown rendering of an API object, and a detector
  report as a table. Every list of the objects that reach the renderer is a list of objects. The
  lemmas show that the table a user copies holds the cells of the report shown on the page.
\<close>

section \<open>Pretty-printed JSON\<close>

definition tidyExp :: "string \<Rightarrow> string" where
  "tidyExp s =
     (let n = length s
      in if 4 \<le> n \<and> take 3 (drop (n - 4) s) = ''e-0'' then take (n - 2) s @ drop (n - 1) s else s)"

definition jsonFloat :: "f64 \<Rightarrow> string" where
  "jsonFloat f =
     (case f of
        Fin s r \<Rightarrow>
          (if r \<noteq> 0 \<and> (r < 1 / 10 ^ 6 \<or> 10 ^ 21 \<le> r) then
             let (digits, ex) = shortestDigits r
             in tidyExp ((if s then ''-'' else []) @ take 1 digits @ (if 1 < length digits then ''.'' @ drop 1 digits else []) @ fmtExp ex)
           else fmtShortest f)
      | _ \<Rightarrow> [])"

definition newline :: string where "newline = [CHR 0x0A]"

definition indentText :: "nat \<Rightarrow> string" where
  "indentText n = concat (replicate n ''  '')"

definition bracketed :: "char \<Rightarrow> char \<Rightarrow> nat \<Rightarrow> string list \<Rightarrow> string" where
  "bracketed opening closing n items =
     (if items = [] then [opening, closing]
      else [opening] @ newline @ strings_Join (map (\<lambda>t. indentText (Suc n) @ t) items) ('','' @ newline) @ newline @ indentText n @ [closing])"

fun MarshalIndent :: "nat \<Rightarrow> json \<Rightarrow> string" where
  "MarshalIndent n JNull = ''null''"
| "MarshalIndent n (JBool b) = (if b then ''true'' else ''false'')"
| "MarshalIndent n (JInt i) = strconv_Itoa i"
| "MarshalIndent n (JFloat f) = jsonFloat f"
| "MarshalIndent n (JStr s) = jsonString s"
| "MarshalIndent n (JList js) = bracketed (CHR ''['') (CHR '']'') n (map (MarshalIndent (Suc n)) js)"
| "MarshalIndent n (JObj kvs) = bracketed (CHR ''{'') (CHR ''}'') n
     (map (\<lambda>(k, t). jsonString k @ '': '' @ t)
       (sortStable (\<lambda>x y. str_lt (fst x) (fst y)) (map (\<lambda>kv. (fst kv, MarshalIndent (Suc n) (snd kv))) kvs)))"

definition copyJSON :: "json_object \<Rightarrow> string" where
  "copyJSON obj =
     (case map_of obj ''json_report'' of
        Some (JStr s) \<Rightarrow> if s \<noteq> [] then s else if encodable (JObj obj) then MarshalIndent 0 (JObj obj) else []
      | _ \<Rightarrow> if encodable (JObj obj) then MarshalIndent 0 (JObj obj) else [])"

section \<open>Tables\<close>

definition nonBlankLines :: "string \<Rightarrow> string list" where
  "nonBlankLines s = filter (\<lambda>l. strings_TrimSpace l \<noteq> []) (strings_SplitChar (CHR 0x0A) s)"

definition reportCells :: "string \<Rightarrow> string list" where
  "reportCells l = map strings_TrimSpace (strings_SplitChar (CHR '';'') l)"

fun escapePipes :: "string \<Rightarrow> string" where
  "escapePipes [] = []"
| "escapePipes (c # s) = (if c = CHR ''|'' then [CHR 0x5C, CHR ''|''] else [c]) @ escapePipes s"

definition tableRow :: "string list \<Rightarrow> string" where
  "tableRow cells = ''| '' @ strings_Join cells '' | '' @ '' |'' @ newline"

definition semicolonTable :: "string \<Rightarrow> string option" where
  "semicolonTable s =
     (let ls = nonBlankLines s
      in if length ls < 2 \<or> \<not> list_all (\<lambda>l. CHR '';'' \<in> set l) ls then None
         else let rows = map (\<lambda>l. map escapePipes (reportCells l)) ls
              in Some (tableRow (hd rows) @ tableRow (map (\<lambda>_. ''---'') (hd rows)) @ concat (map tableRow (tl rows))))"

record detector_table =
  Header :: "string list"
  Body :: "string list list"

definition padCells :: "nat \<Rightarrow> string list \<Rightarrow> string list" where
  "padCells n cells = take n (cells @ replicate (n - length cells) [])"

definition parseDetectorReport :: "string \<Rightarrow> detector_table" where
  "parseDetectorReport s =
     (case map reportCells (nonBlankLines s) of
        [] \<Rightarrow> \<lparr>Header = [], Body = []\<rparr>
      | h # rows \<Rightarrow> \<lparr>Header = h, Body = map (padCells (length h)) rows\<rparr>)"

section \<open>Markdown\<close>

fun isNested :: "json \<Rightarrow> bool" where
  "isNested (JObj _) = True"
| "isNested (JList _) = True"
| "isNested _ = False"

fun numOK :: "json \<Rightarrow> f64 option" where
  "numOK (JFloat f) = Some f"
| "numOK (JInt n) = Some (f64_of_int n)"
| "numOK _ = None"

definition bullet :: "string \<Rightarrow> string" where
  "bullet key = ''- **'' @ key @ ''**: ''"

definition fence :: string where "fence = newline @ ''```'' @ newline"

definition writeScalar :: "string \<Rightarrow> json \<Rightarrow> string" where
  "writeScalar key v =
     (case v of
        JStr t \<Rightarrow>
          (case semicolonTable t of
             Some tbl \<Rightarrow> newline @ ''**'' @ key @ ''**'' @ newline @ newline @ tbl @ newline
           | None \<Rightarrow> if CHR 0x0A \<in> set t then ''- **'' @ key @ ''**:'' @ newline @ fence @ t @ fence
                     else bullet key @ t @ newline)
      | _ \<Rightarrow> bullet key @ sprintJson v @ newline)"

definition heading :: "nat \<Rightarrow> string \<Rightarrow> string" where
  "heading level title = replicate (min level 6) (CHR ''#'') @ '' '' @ title @ newline @ newline"

fun itemTitle :: "nat \<times> json \<Rightarrow> string" where
  "itemTitle (i, JObj m) =
     (case (numOK (field m ''start_time''), numOK (field m ''end_time'')) of
        (Some a, Some b) \<Rightarrow> formatFixed 3 a @ '' - '' @ formatFixed 3 b
      | _ \<Rightarrow> ''Item '' @ strconv_Itoa (int i + 1))"
| "itemTitle (i, _) = ''Item '' @ strconv_Itoa (int i + 1)"

text \<open>\<open>writeMap level v\<close> is \<^verbatim>\<open>writeMap\<close> on an object and \<^verbatim>\<open>writeMapList\<close> on a list. Every member is rendered with its
  key; scalars come first, then the subsections, both in the order of the keys.\<close>

fun writeMap :: "nat \<Rightarrow> json \<Rightarrow> string" where
  "writeMap level (JObj kvs) =
     (let ms = sortStable (\<lambda>x y. str_lt (fst x) (fst y))
            (filter (\<lambda>m. fst m \<noteq> ''json_report'')
              (map (\<lambda>kv. (fst kv, isNested (snd kv),
                 if isNested (snd kv) then newline @ heading level (fst kv) @ writeMap (Suc level) (snd kv)
                 else writeScalar (fst kv) (snd kv))) kvs))
      in concat (map (\<lambda>m. snd (snd m)) (filter (\<lambda>m. \<not> fst (snd m)) ms)) @ concat (map (\<lambda>m. snd (snd m)) (filter (\<lambda>m. fst (snd m)) ms)))"
| "writeMap level (JList js) =
     concat (map2 (\<lambda>title body. heading level title @ body @ newline)
       (map itemTitle (enumerate 0 js)) (map (writeMap (Suc level)) js))"
| "writeMap level _ = []"

definition mapToMarkdown :: "json_object \<Rightarrow> string \<Rightarrow> string" where
  "mapToMarkdown obj title =
     strings_TrimRight ((if title \<noteq> [] then ''# '' @ title @ newline @ newline else []) @ writeMap 2 (JObj obj)) (CHR 0x0A) @ newline"

section \<open>Reading a Markdown table\<close>

text \<open>A row is split at the pipes that are not escaped; its first and last piece are empty, and a space stands on
  either side of every cell. The second line of a table only separates the header.\<close>

fun splitCells :: "string \<Rightarrow> string list" where
  "splitCells [] = [[]]"
| "splitCells (c # s) =
     (if c = CHR 0x5C \<and> s \<noteq> [] \<and> hd s = CHR ''|''
      then (case splitCells (tl s) of [] \<Rightarrow> [] | p # ps \<Rightarrow> (CHR ''|'' # p) # ps)
      else if c = CHR ''|'' then [] # splitCells s
      else (case splitCells s of [] \<Rightarrow> [] | p # ps \<Rightarrow> (c # p) # ps))"

definition readRow :: "string \<Rightarrow> string list" where
  "readRow r = map (\<lambda>c. butlast (tl c)) (butlast (tl (splitCells r)))"

definition readTable :: "string \<Rightarrow> string list list" where
  "readTable t = (let ls = butlast (strings_SplitChar (CHR 0x0A) t) in readRow (hd ls) # map readRow (drop 2 ls))"

lemma splitCells_ne: "splitCells s \<noteq> []"
  by (induction s rule: splitCells.induct) (auto split: list.splits)

lemma splitCells_pipe: "CHR ''|'' \<notin> set p \<Longrightarrow> CHR 0x5C \<notin> set p \<Longrightarrow> splitCells (p @ CHR ''|'' # s) = p # splitCells s"
  by (induction p) (auto split: list.splits)

lemma splitCells_escaped:
  "CHR 0x5C \<notin> set c \<Longrightarrow> splitCells (escapePipes c @ s) = (case splitCells s of [] \<Rightarrow> [] | p # ps \<Rightarrow> (c @ p) # ps)"
proof (induction c)
  case Nil
  then show ?case by (cases "splitCells s") simp_all
next
  case (Cons x c)
  then show ?case by (cases "splitCells s") (auto simp: splitCells_ne)
qed

lemma splitCells_space: "splitCells (CHR '' '' # s) = (case splitCells s of [] \<Rightarrow> [] | p # ps \<Rightarrow> (CHR '' '' # p) # ps)"
  by simp

lemma splitCells_cell:
  assumes "CHR 0x5C \<notin> set c"
  shows "splitCells (CHR '' '' # escapePipes c @ CHR '' '' # CHR ''|'' # s) = (CHR '' '' # c @ '' '') # splitCells s"
proof -
  have "splitCells (CHR '' '' # CHR ''|'' # s) = '' '' # splitCells s" by simp
  then have "splitCells (escapePipes c @ CHR '' '' # CHR ''|'' # s) = (c @ '' '') # splitCells s" by (simp only: splitCells_escaped [OF assms] list.case)
  then show ?thesis by (simp only: splitCells_space list.case)
qed

lemma splitCells_cells:
  assumes "cs \<noteq> []" "\<forall>c \<in> set cs. CHR 0x5C \<notin> set c"
  shows "splitCells (CHR '' '' # strings_Join (map escapePipes cs) '' | '' @ '' |'') = map (\<lambda>c. CHR '' '' # c @ '' '') cs @ [[]]"
  using assms
proof (induction cs rule: induct_list012)
  case (2 c)
  then show ?case using splitCells_cell [of c "[]"] by (simp del: splitCells.simps(2))
next
  case (3 c d cs)
  then show ?case using splitCells_cell [of c] by (simp del: splitCells.simps(2))
qed simp

lemma readRow_tableRow:
  assumes "cs \<noteq> []" "\<forall>c \<in> set cs. CHR 0x5C \<notin> set c"
  shows "readRow (''| '' @ strings_Join (map escapePipes cs) '' | '' @ '' |'') = cs"
proof -
  have "splitCells (CHR ''|'' # s) = [] # splitCells s" for s by simp
  then show ?thesis using splitCells_cells [OF assms] by (simp add: readRow_def o_def del: splitCells.simps(2))
qed

section \<open>The table of a report\<close>

lemma TrimSpace_subset: "set (strings_TrimSpace s) \<subseteq> set s"
proof -
  have "set (trimLeft ws t) \<subseteq> set t" for ws t
    by (induction ws t rule: trimLeft.induct) (subst trimLeft.simps, auto simp: Let_def split: if_splits dest!: subsetD dest: in_set_dropD)
  then show ?thesis unfolding strings_TrimSpace_def by (metis order_trans set_rev)
qed

lemma Split_subset: "p \<in> set (strings_SplitChar d s) \<Longrightarrow> set p \<subseteq> set s"
  by (induction s arbitrary: p) (fastforce split: list.splits if_splits)+

lemma reportCells_chars: "c \<in> set (reportCells l) \<Longrightarrow> set c \<subseteq> set l"
  using TrimSpace_subset Split_subset by (fastforce simp: reportCells_def)

lemma Split_ne: "strings_SplitChar d s \<noteq> []"
  by (induction s) (auto split: list.splits)

lemma reportCells_ne: "reportCells l \<noteq> []"
  by (simp add: reportCells_def Split_ne)

lemma nonBlankLines_chars:
  assumes "l \<in> set (nonBlankLines s)"
  shows "set l \<subseteq> set s" "CHR 0x0A \<notin> set l"
proof -
  have l: "l \<in> set (strings_SplitChar (CHR 0x0A) s)" using assms by (simp add: nonBlankLines_def)
  then show "set l \<subseteq> set s" by (rule Split_subset)
  have "\<forall>p \<in> set (strings_SplitChar d t). d \<notin> set p" for d t
    by (induction t) (auto split: list.splits)
  then show "CHR 0x0A \<notin> set l" using l by blast
qed

lemma escapePipes_chars: "set (escapePipes c) \<subseteq> set c \<union> {CHR 0x5C}"
  by (induction c) auto

lemma tableRow_line:
  assumes "\<forall>c \<in> set cs. CHR 0x0A \<notin> set c"
  shows "strings_SplitChar (CHR 0x0A) (tableRow cs @ s) = (''| '' @ strings_Join cs '' | '' @ '' |'') # strings_SplitChar (CHR 0x0A) s"
proof -
  have "CHR 0x0A \<notin> set (''| '' @ strings_Join cs '' | '' @ '' |'')"
    using assms set_Join [of cs "'' | ''"] by fastforce
  from SplitChar_append [OF this, of s] show ?thesis by (simp add: tableRow_def newline_def)
qed

lemma table_lines:
  assumes "\<forall>cs \<in> set rows. \<forall>c \<in> set cs. CHR 0x0A \<notin> set c"
  shows "strings_SplitChar (CHR 0x0A) (concat (map tableRow rows)) = map (\<lambda>cs. ''| '' @ strings_Join cs '' | '' @ '' |'') rows @ [[]]"
  using assms by (induction rows) (simp_all add: tableRow_line)

text \<open>The table a user copies is the table on the page. When a detector report renders as a Markdown table,
  reading the table gives, line by line, the trimmed cells of the report, also when a cell contains a pipe; its
  first row is the header the page shows, and the other rows are the page's rows before they are cut
  or padded to the header.\<close>

lemma markdown_table_shows_report:
  assumes "semicolonTable s = Some t" "CHR 0x5C \<notin> set s"
  shows "readTable t = map reportCells (nonBlankLines s)
    \<and> Header (parseDetectorReport s) = hd (readTable t)
    \<and> Body (parseDetectorReport s) = map (padCells (length (hd (readTable t)))) (tl (readTable t))
    \<and> list_all (\<lambda>r. length r = length (Header (parseDetectorReport s))) (Body (parseDetectorReport s))"
proof -
  let ?ls = "nonBlankLines s"
  let ?line = "\<lambda>cs. ''| '' @ strings_Join cs '' | '' @ '' |''"
  obtain l ls where ls: "?ls = l # ls" using assms(1) by (cases ?ls) (auto simp: semicolonTable_def)
  let ?row = "\<lambda>l. map escapePipes (reportCells l)"
  let ?rows = "?row l # map (\<lambda>_. ''---'') (?row l) # map ?row ls"
  have t: "t = concat (map tableRow ?rows)" using assms(1) ls by (auto simp: semicolonTable_def Let_def split: if_splits)
  have chars: "set c \<subseteq> set s" "CHR 0x0A \<notin> set c" if "x \<in> set ?ls" "c \<in> set (reportCells x)" for x c
    using that nonBlankLines_chars reportCells_chars by blast+
  have "\<forall>cs \<in> set ?rows. \<forall>c \<in> set cs. CHR 0x0A \<notin> set c"
    using chars(2) escapePipes_chars ls by fastforce
  from table_lines [OF this] have "butlast (strings_SplitChar (CHR 0x0A) t) = map ?line ?rows" unfolding t by simp
  moreover have read: "readRow (?line (?row x)) = reportCells x" if "x \<in> set ?ls" for x
    using that chars(1) assms(2) by (intro readRow_tableRow) (auto simp: reportCells_ne)
  ultimately have rt: "readTable t = map reportCells ?ls" by (simp add: readTable_def ls)
  then show ?thesis
    by (auto simp: parseDetectorReport_def ls padCells_def list_all_iff)
qed

end
