(* ===== verification/Alarm_Delivery.thy ===== *)
theory Alarm_Delivery
  imports Alarm_Notify Web_Markdown
begin

text \<open>
  The workers behind the alarm queues: the loop that runs the commands (\<^verbatim>\<open>alarm/command.go\<close>) and the one that
  posts to the webhooks, with the JSON body and the second attempt (\<^verbatim>\<open>alarm/webhook.go\<close>). How the shell and the
  HTTP server answer is a list of outcomes, consumed one per attempt; an empty list stands for success. The
  lemmas show that every queued event is delivered in order, by one command or at most two equal posts.
\<close>

section \<open>Commands\<close>

definition commandTimeout :: "duration \<Rightarrow> duration" where
  "commandTimeout t = (if t \<le> 0 then minute else t)"

text \<open>The line and the environment of every run; the error of a run is only logged.\<close>

definition commandLoop :: "string \<Rightarrow> event list \<Rightarrow> (string \<times> string list) list" where
  "commandLoop home = map (\<lambda>ev. (CommandLine home ev, Env ev))"

section \<open>The body of a webhook call\<close>

definition kpisJSON :: "snapshot \<Rightarrow> json_object" where
  "kpisJSON s =
     [(''streams'', JInt (snStreams s)), (''sevana_streams'', JInt (snSevanaStreams s)), (''r_factor'', JFloat (snRFactor s)),
      (''sevana_mos'', JFloat (snSevanaMOS s)), (''network_mos'', JFloat (snNetworkMOS s)), (''packet_loss'', JFloat (snPacketLoss s)),
      (''jitter'', JFloat (snJitter s)), (''duration'', JFloat (snDuration s))]
     @ (if f64_le f64_zero (snFreeDisk s) then [(''free_disk_space'', JFloat (snFreeDisk s))] else [])"

definition Payload :: "event \<Rightarrow> json_object" where
  "Payload ev = (let r = evRule ev in
     [(''alarm'', JStr (Name r)), (''state'', JStr (kind_string (evKind ev))), (''counter'', JStr (Counter r)),
      (''op'', JStr (op_String (RuleOp r))), (''limit'', JFloat (Limit r)), (''unit'', JStr (Unit r)), (''value'', JFloat (evValue ev)),
      (''samples'', JInt (evSamples ev)), (''window_s'', JInt (wholeSeconds (Window r))), (''filter'', JStr (RuleFilter r)),
      (''code'', JStr (Code r)), (''time'', JStr (RFC3339 (evAt ev))), (''timestamp_ms'', JInt (UnixMilli (evAt ev))),
      (''instance'', JObj [(''id'', JStr (instID (evInstance ev))), (''name'', JStr (instName (evInstance ev)))]),
      (''kpis'', JObj (kpisJSON (evSnapshot ev)))])"

text \<open>\<^verbatim>\<open>json.Marshal\<close>: the keys of a map are sorted; a float that is no number is an error, which leaves no body.\<close>

fun Marshal :: "json \<Rightarrow> string" where
  "Marshal (JObj kvs) = jsonObject (sortStable (\<lambda>x y. str_lt (fst x) (fst y)) (map (\<lambda>kv. (fst kv, Marshal (snd kv))) kvs))"
| "Marshal (JList js) = jsonArray (map Marshal js)"
| "Marshal (JFloat f) = jsonFloat f"
| "Marshal (JStr s) = jsonString s"
| "Marshal (JInt i) = strconv_Itoa i"
| "Marshal (JBool b) = (if b then ''true'' else ''false'')"
| "Marshal JNull = ''null''"

definition webhookBody :: "event \<Rightarrow> string" where
  "webhookBody ev = (if encodable (JObj (Payload ev)) then Marshal (JObj (Payload ev)) else [])"

section \<open>Delivery\<close>

datatype post_outcome = PostError string | HttpStatus nat

fun post_error :: "post_outcome \<Rightarrow> string option" where
  "post_error (PostError err) = Some err"
| "post_error (HttpStatus n) = (if n div 100 \<noteq> 2 then Some (''HTTP '' @ decimalNat n) else None)"

type_synonym request_post = "string \<times> string"

definition post :: "string \<Rightarrow> string \<Rightarrow> post_outcome list \<Rightarrow> string option \<times> request_post \<times> post_outcome list" where
  "post url body os = (case os of [] \<Rightarrow> None | r # _ \<Rightarrow> post_error r, (url, body), tl os)"

text \<open>The posts of one event and the error that is logged.\<close>

definition deliver :: "event \<Rightarrow> post_outcome list \<Rightarrow> (request_post list \<times> string option) \<times> post_outcome list" where
  "deliver ev os =
     (let url = Webhook (evRule ev); body = webhookBody ev; (err, req, os1) = post url body os
      in case err of
           None \<Rightarrow> (([req], None), os1)
         | Some _ \<Rightarrow> (let (err2, req2, os2) = post url body os1 in (([req, req2], err2), os2)))"

fun webhookLoop :: "event list \<Rightarrow> post_outcome list \<Rightarrow> (request_post list \<times> string option) list" where
  "webhookLoop [] os = []"
| "webhookLoop (ev # evs) os = (let (d, os1) = deliver ev os in d # webhookLoop evs os1)"

section \<open>Every event once\<close>

definition webhookWanted :: "event \<Rightarrow> bool" where
  "webhookWanted ev \<longleftrightarrow> Webhook (evRule ev) \<noteq> []"

lemma queued_webhooks: "length (filter webhookWanted evs) \<le> queueSize \<Longrightarrow> fold WebhookNotify evs [] = filter webhookWanted evs"
  using WebhookNotify_keeps [of evs] by (simp add: webhookWanted_def [abs_def])

lemma deliver_posts:
  "\<exists>n. fst (fst (deliver ev os)) = replicate n (Webhook (evRule ev), webhookBody ev) \<and> (n = 1 \<or> n = 2)
     \<and> (n = 1 \<longleftrightarrow> (os = [] \<or> post_error (hd os) = None))
     \<and> (snd (fst (deliver ev os)) \<noteq> None \<longrightarrow> n = 2)"
proof (cases "os = [] \<or> post_error (hd os) = None")
  case True
  then show ?thesis by (intro exI [of _ 1]) (auto simp: deliver_def post_def split: list.splits)
next
  case False
  then show ?thesis
    by (intro exI [of _ 2]) (auto simp: deliver_def post_def Let_def numeral_2_eq_2 split: list.splits option.splits prod.splits)
qed

text \<open>The webhooks of a burst the queue can hold: the worker handles the wanted events in order, each by one
  post or two equal ones, and logs an error only after the second.\<close>

lemma webhook_delivery:
  assumes "length (filter webhookWanted evs) \<le> queueSize"
  shows "list_all2 (\<lambda>ev (reqs, err). set reqs = {(Webhook (evRule ev), webhookBody ev)} \<and> length reqs \<le> 2 \<and> (err \<noteq> None \<longrightarrow> length reqs = 2))
    (filter webhookWanted evs) (webhookLoop (fold WebhookNotify evs []) os)"
proof -
  have "list_all2 (\<lambda>ev (reqs, err). set reqs = {(Webhook (evRule ev), webhookBody ev)} \<and> length reqs \<le> 2 \<and> (err \<noteq> None \<longrightarrow> length reqs = 2))
    q (webhookLoop q os)" for q os
  proof (induction q arbitrary: os)
    case (Cons ev q)
    obtain reqs err os1 where d: "deliver ev os = ((reqs, err), os1)" by (metis prod.collapse)
    obtain n where "reqs = replicate n (Webhook (evRule ev), webhookBody ev)" "n = 1 \<or> n = 2" "err \<noteq> None \<longrightarrow> n = 2"
      using deliver_posts [of ev os] d by auto
    then show ?case using Cons.IH by (auto simp: d)
  qed simp
  then show ?thesis by (simp add: queued_webhooks [OF assms])
qed

text \<open>The command of a cleared alarm waits for the rule's consent, its webhook does not.\<close>

lemma cleared_goes_to_webhook:
  "evKind ev = Cleared \<Longrightarrow> \<not> OnClear (evRule ev) \<Longrightarrow> Webhook (evRule ev) \<noteq> [] \<Longrightarrow>
   \<not> commandWanted ev \<and> webhookWanted ev"
  by (simp add: commandWanted_def webhookWanted_def)

end
