(* ===== verification/Schema.thy ===== *)
theory Schema
  imports Store
begin

text \<open>
  The schema of \<^verbatim>\<open>db/schema.go\<close> and how the daemon brings a database file to it: the statements of
  \<^verbatim>\<open>Bootstrap\<close> and \<^verbatim>\<open>migrate\<close> over the catalog of a SQLite file, with the outcomes of the statements as a
  script. The theorem shows that an interrupted migration loses nothing and that the next one completes it.
\<close>

section \<open>Statements and the catalog\<close>

datatype ddl =
    CreateTable string "(string \<times> string) list"
  | CreateIndex string string "string list"
  | AddColumn string string string

definition reportColumns :: "(string \<times> string) list" where
  "reportColumns =
     [(''stream_id'', ''INTEGER''), (''start_timestamp'', ''INTEGER NOT NULL''), (''end_timestamp'', ''INTEGER NOT NULL''),
      (''rtp_packet_counter'', ''INTEGER NOT NULL''), (''illegal_packet_counter'', ''INTEGER NOT NULL''),
      (''lost_packet_counter'', ''INTEGER NOT NULL''), (''sevana_mos'', ''FLOAT''), (''sevana_rfactor'', ''INTEGER''),
      (''network_mos'', ''FLOAT''), (''jitter'', ''FLOAT''), (''codec'', ''VARCHAR(32)''), (''detector_report'', ''TEXT''),
      (''rtt_delay'', ''FLOAT''), (''flags'', ''INTEGER NOT NULL''), (''tags'', ''VARCHAR(1024)''),
      (''amr_wb_switch_counter'', ''INTEGER''), (''amr_nb_switch_counter'', ''INTEGER''),
      (''link_id'', ''VARCHAR(64) NOT NULL''), (''duration_audio'', ''INTEGER''), (''user_report'', ''TEXT''),
      (''dtx_sid'', ''INTEGER''), (''dtx_count'', ''INTEGER''), (''dtx_total'', ''INTEGER'')]"

definition createTableStmts :: "ddl list" where
  "createTableStmts =
     [CreateTable ''rtpmon_streams''
        [(''stream_id'', ''INTEGER PRIMARY KEY''), (''link_id'', ''VARCHAR(64) NOT NULL''),
         (''src_ip'', ''VARCHAR(32) NOT NULL''), (''src_port'', ''INTEGER NOT NULL''), (''dst_ip'', ''VARCHAR(32) NOT NULL''),
         (''dst_port'', ''INTEGER NOT NULL''), (''ssrc'', ''INTEGER NOT NULL''), (''sip_source'', ''VARCHAR(1024)''),
         (''sip_destination'', ''VARCHAR(1024)''), (''sip_callid'', ''VARCHAR(1024)''), (''agent_id'', ''INTEGER''),
         (''created_ts'', ''INTEGER'')],
      CreateTable ''rtpmon_intervals'' reportColumns,
      CreateTable ''rtpmon_statistics'' reportColumns,
      CreateTable ''rtpmon_instances''
        [(''id'', ''INTEGER PRIMARY KEY''), (''agent_id'', ''TEXT NOT NULL''), (''agent_name'', ''TEXT'')],
      CreateTable ''rtpmon_property''
        [(''name'', ''TEXT PRIMARY KEY''), (''value'', ''TEXT'')],
      CreateTable ''rtpmon_sip_events''
        [(''id'', ''INTEGER PRIMARY KEY''), (''event_type'', ''INTEGER NOT NULL''), (''call_id'', ''VARCHAR(1024) NOT NULL''),
         (''event_timestamp'', ''INTEGER NOT NULL''), (''invite_timestamp'', ''INTEGER''), (''caller'', ''VARCHAR(1024)''),
         (''callee'', ''VARCHAR(1024)''), (''caller_ua'', ''VARCHAR(1024)''), (''callee_ua'', ''VARCHAR(1024)''),
         (''caller_codecs'', ''VARCHAR(1024)''), (''callee_codecs'', ''VARCHAR(1024)''), (''setup_code'', ''INTEGER''),
         (''bye_direction'', ''INTEGER''), (''duration'', ''INTEGER''), (''response_codes'', ''VARCHAR(256)''),
         (''reason'', ''INTEGER''), (''response_code'', ''INTEGER''), (''reason_phrase'', ''VARCHAR(256)''),
         (''direction'', ''INTEGER''), (''is_request'', ''INTEGER'')],
      CreateTable ''rtpmon_call_health''
        [(''id'', ''INTEGER PRIMARY KEY''), (''call_id'', ''VARCHAR(1024) NOT NULL''),
         (''event_timestamp'', ''INTEGER NOT NULL''), (''stream_count'', ''INTEGER''), (''warnings'', ''TEXT'')],
      CreateTable ''rtpmon_alarm_events''
        [(''id'', ''INTEGER PRIMARY KEY''), (''name'', ''VARCHAR(256) NOT NULL''), (''kind'', ''VARCHAR(16) NOT NULL''),
         (''counter'', ''VARCHAR(64) NOT NULL''), (''op'', ''VARCHAR(8) NOT NULL''), (''value'', ''FLOAT''),
         (''limit_value'', ''FLOAT''), (''samples'', ''INTEGER''), (''event_timestamp'', ''INTEGER NOT NULL'')],
      CreateTable ''rtpmon_audio''
        [(''id'', ''INTEGER PRIMARY KEY''), (''stream_id'', ''INTEGER NOT NULL''), (''start_timestamp'', ''INTEGER NOT NULL''),
         (''end_timestamp'', ''INTEGER NOT NULL''), (''audio_wav'', ''TEXT NOT NULL'')]]"

definition createIndexStmts :: "ddl list" where
  "createIndexStmts =
     [CreateIndex ''idx_streams_link_id'' ''rtpmon_streams'' [''link_id''],
      CreateIndex ''idx_streams_agent_id'' ''rtpmon_streams'' [''agent_id''],
      CreateIndex ''idx_streams_sip_callid'' ''rtpmon_streams'' [''sip_callid''],
      CreateIndex ''idx_intervals_link_id'' ''rtpmon_intervals'' [''link_id''],
      CreateIndex ''idx_intervals_stream_id'' ''rtpmon_intervals'' [''stream_id''],
      CreateIndex ''idx_statistics_stream_id'' ''rtpmon_statistics'' [''stream_id''],
      CreateIndex ''idx_intervals_end_timestamp'' ''rtpmon_intervals'' [''end_timestamp''],
      CreateIndex ''idx_statistics_link_id'' ''rtpmon_statistics'' [''link_id''],
      CreateIndex ''idx_statistics_end_timestamp'' ''rtpmon_statistics'' [''end_timestamp''],
      CreateIndex ''idx_statistics_summary'' ''rtpmon_statistics'' [''end_timestamp'', ''sevana_mos'', ''sevana_rfactor'', ''network_mos'', ''duration_audio'', ''stream_id''],
      CreateIndex ''idx_statistics_start_timestamp'' ''rtpmon_statistics'' [''start_timestamp''],
      CreateIndex ''idx_sip_events_call_id'' ''rtpmon_sip_events'' [''call_id''],
      CreateIndex ''idx_sip_events_event_timestamp'' ''rtpmon_sip_events'' [''event_timestamp''],
      CreateIndex ''idx_sip_events_event_type'' ''rtpmon_sip_events'' [''event_type''],
      CreateIndex ''idx_call_health_call_id'' ''rtpmon_call_health'' [''call_id''],
      CreateIndex ''idx_call_health_event_timestamp'' ''rtpmon_call_health'' [''event_timestamp''],
      CreateIndex ''idx_alarm_events_event_timestamp'' ''rtpmon_alarm_events'' [''event_timestamp''],
      CreateIndex ''idx_audio_stream_id'' ''rtpmon_audio'' [''stream_id''],
      CreateIndex ''idx_audio_start_timestamp'' ''rtpmon_audio'' [''start_timestamp'']]"

record catalog =
  catTables :: "(string \<times> (string \<times> string) list) list"
  catIndexes :: "(string \<times> string \<times> string list) list"

definition columnsOf :: "catalog \<Rightarrow> string \<Rightarrow> string set option" where
  "columnsOf c t = map_option (\<lambda>cols. fst ` set cols) (map_of (catTables c) t)"

text \<open>What SQLite does: both \<^verbatim>\<open>CREATE\<close>s have \<^verbatim>\<open>IF NOT EXISTS\<close>; a missing table or column, or a column that is
  already there, is an error.\<close>

fun applyDdl :: "ddl \<Rightarrow> catalog \<Rightarrow> catalog option" where
  "applyDdl (CreateTable t cols) c =
     (if columnsOf c t \<noteq> None then Some c else Some (c\<lparr>catTables := catTables c @ [(t, cols)]\<rparr>))"
| "applyDdl (CreateIndex i t cols) c =
     (if i \<in> fst ` set (catIndexes c) then Some c
      else case columnsOf c t of
             None \<Rightarrow> None
           | Some cs \<Rightarrow> if set cols \<subseteq> cs then Some (c\<lparr>catIndexes := catIndexes c @ [(i, t, cols)]\<rparr>) else None)"
| "applyDdl (AddColumn t col ty) c =
     (case map_of (catTables c) t of
        None \<Rightarrow> None
      | Some cols \<Rightarrow> if col \<in> fst ` set cols then None
                     else Some (c\<lparr>catTables := AList.update t (cols @ [(col, ty)]) (catTables c)\<rparr>))"

record schema_conn =
  catalog :: catalog
  outcomes :: "outcome list"

definition SQLITE_ERROR :: int where "SQLITE_ERROR = 1"

definition execDdl :: "ddl \<Rightarrow> (schema_conn, unit) action" where
  "execDdl st s =
     (case outcomes s of
        Failed e # rest \<Rightarrow> (Inl e, s\<lparr>outcomes := rest\<rparr>)
      | _ \<Rightarrow> (case applyDdl st (catalog s) of
               None \<Rightarrow> (Inl (SqliteError SQLITE_ERROR), s\<lparr>outcomes := tl (outcomes s)\<rparr>)
             | Some c \<Rightarrow> (Inr (), s\<lparr>catalog := c, outcomes := tl (outcomes s)\<rparr>)))"

text \<open>\<^verbatim>\<open>PRAGMA table_info\<close> answers no rows for an unknown table.\<close>

definition tableColumns :: "string \<Rightarrow> (schema_conn, string list) action" where
  "tableColumns t s =
     (case outcomes s of
        Failed e # rest \<Rightarrow> (Inl e, s\<lparr>outcomes := rest\<rparr>)
      | _ \<Rightarrow> (Inr (case map_of (catTables (catalog s)) t of None \<Rightarrow> [] | Some cols \<Rightarrow> map fst cols),
             s\<lparr>outcomes := tl (outcomes s)\<rparr>))"

section \<open>Bootstrap\<close>

fun execAll :: "ddl list \<Rightarrow> (schema_conn, unit) action" where
  "execAll [] = ret ()"
| "execAll (st # sts) = andThen (execDdl st) (\<lambda>_. execAll sts)"

fun addMissing :: "string \<Rightarrow> string list \<Rightarrow> (string \<times> string) list \<Rightarrow> (schema_conn, unit) action" where
  "addMissing t existing [] = ret ()"
| "addMissing t existing ((col, ty) # cols) =
     (if col \<in> set existing then addMissing t existing cols
      else andThen (execDdl (AddColumn t col ty)) (\<lambda>_. addMissing t existing cols))"

definition addedColumns :: "(string \<times> string) list" where
  "addedColumns = [(''dtx_sid'', ''INTEGER''), (''dtx_count'', ''INTEGER''), (''dtx_total'', ''INTEGER'')]"

definition migrateTable :: "string \<times> (string \<times> string) list \<Rightarrow> (schema_conn, unit) action" where
  "migrateTable p = andThen (tableColumns (fst p)) (\<lambda>existing. addMissing (fst p) existing (snd p))"

fun migrateAll :: "(string \<times> (string \<times> string) list) list \<Rightarrow> (schema_conn, unit) action" where
  "migrateAll [] = ret ()"
| "migrateAll (p # ps) = andThen (migrateTable p) (\<lambda>_. migrateAll ps)"

definition migrations :: "(string \<times> (string \<times> string) list) list" where
  "migrations = [(''rtpmon_intervals'', addedColumns), (''rtpmon_statistics'', addedColumns),
     (''rtpmon_streams'', [(''created_ts'', ''INTEGER'')])]"

definition migrate :: "(schema_conn, unit) action" where
  "migrate = migrateAll migrations"

text \<open>The error with its \<^verbatim>\<open>fmt.Errorf\<close> prefix.\<close>

definition Bootstrap :: "schema_conn \<Rightarrow> (string \<times> db_error) option \<times> schema_conn" where
  "Bootstrap s =
     (case execAll createTableStmts s of
        (Inl e, s) \<Rightarrow> (Some (''create table: '', e), s)
      | (Inr _, s) \<Rightarrow>
          (case execAll createIndexStmts s of
             (Inl e, s) \<Rightarrow> (Some (''create index: '', e), s)
           | (Inr _, s) \<Rightarrow>
               (case migrate s of
                  (Inl e, s) \<Rightarrow> (Some ([], e), s)
                | (Inr _, s) \<Rightarrow> (None, s))))"

lemmas bootstrap_defs = Bootstrap_def migrate_def migrateTable_def andThen_def ret_def

section \<open>Nothing is lost\<close>

definition extends :: "catalog \<Rightarrow> catalog \<Rightarrow> bool" where
  "extends c c' \<longleftrightarrow>
     (\<forall>t cs. columnsOf c t = Some cs \<longrightarrow> (\<exists>cs'. columnsOf c' t = Some cs' \<and> cs \<subseteq> cs'))
     \<and> set (catIndexes c) \<subseteq> set (catIndexes c')"

lemma extends_refl [simp]: "extends c c"
  by (auto simp: extends_def)

lemma extendsD: "extends c c' \<Longrightarrow> columnsOf c t = Some cs \<Longrightarrow> \<exists>cs'. columnsOf c' t = Some cs' \<and> cs \<subseteq> cs'"
  by (simp add: extends_def)

lemma extends_there: "extends c c' \<Longrightarrow> columnsOf c t \<noteq> None \<Longrightarrow> columnsOf c' t \<noteq> None"
  using extendsD by fastforce

lemma extends_trans: "extends a b \<Longrightarrow> extends b c \<Longrightarrow> extends a c"
  unfolding extends_def by (meson order_trans)

lemma columnsOf_simps [simp]:
  "columnsOf (c\<lparr>catIndexes := x\<rparr>) t = columnsOf c t"
  "columnsOf (c\<lparr>catTables := catTables c @ [(t', cols)]\<rparr>) t =
     (case columnsOf c t of Some cs \<Rightarrow> Some cs | None \<Rightarrow> if t = t' then Some (fst ` set cols) else None)"
  "columnsOf (c\<lparr>catTables := AList.update t' cols (catTables c)\<rparr>) t =
     (if t = t' then Some (fst ` set cols) else columnsOf c t)"
  by (auto simp: columnsOf_def map_add_def update_conv' split: option.split)

lemma applyDdl_extends: "applyDdl st c = Some c' \<Longrightarrow> extends c c'"
proof (cases st)
  case (AddColumn t col ty)
  then show "applyDdl st c = Some c' \<Longrightarrow> extends c c'"
    by (auto simp: extends_def split: option.splits if_splits) (auto simp: columnsOf_def)
qed (auto simp: extends_def split: option.splits if_splits)

definition grows :: "(schema_conn, 'a) action \<Rightarrow> bool" where
  "grows m \<longleftrightarrow> (\<forall>s. extends (catalog s) (catalog (snd (m s))))"

lemma grows_ret [intro]: "grows (ret x)"
  by (simp add: grows_def ret_def)

lemma grows_andThen [intro]: "grows m \<Longrightarrow> (\<And>x. grows (f x)) \<Longrightarrow> grows (andThen m f)"
  unfolding grows_def andThen_def by (auto split: prod.split sum.split intro: extends_trans)

lemma grows_execDdl [intro]: "grows (execDdl st)"
  by (auto simp: grows_def execDdl_def applyDdl_extends split: list.split outcome.split option.split)

lemma grows_tableColumns [intro]: "grows (tableColumns t)"
  by (auto simp: grows_def tableColumns_def split: list.split outcome.split)

lemma grows_execAll [intro]: "grows (execAll sts)"
  by (induction sts) auto

lemma grows_addMissing [intro]: "grows (addMissing t existing cols)"
  by (induction t existing cols rule: addMissing.induct) auto

lemma grows_migrateAll [intro]: "grows (migrateAll ps)"
  by (induction ps) (auto simp: migrateTable_def)

lemma Bootstrap_extends: "extends (catalog s) (catalog (snd (Bootstrap s)))"
  using grows_execAll [of createTableStmts] grows_execAll [of createIndexStmts] grows_migrateAll [of migrations]
  unfolding grows_def Bootstrap_def migrate_def
  by (auto split: prod.split sum.split) (metis extends_trans snd_conv)+

section \<open>What a file of an older version has\<close>

fun schemaTable :: "ddl \<Rightarrow> (string \<times> string set) list" where
  "schemaTable (CreateTable t cols) = [(t, fst ` set cols)]"
| "schemaTable _ = []"

definition schemaTables :: "(string \<times> string set) list" where
  "schemaTables = concat (map schemaTable createTableStmts)"

text \<open>The columns that were not in the first version of a table.\<close>

definition addedTo :: "string \<Rightarrow> string set" where
  "addedTo t =
     (if t = ''rtpmon_intervals'' \<or> t = ''rtpmon_statistics'' then {''dtx_sid'', ''dtx_count'', ''dtx_total''}
      else if t = ''rtpmon_streams'' then {''created_ts''} else {})"

text \<open>A file any version of the program can have written: a table is missing, or lacks at most the columns
  that were added later.\<close>

definition upgradable :: "catalog \<Rightarrow> bool" where
  "upgradable c \<longleftrightarrow> (\<forall>(t, cols) \<in> set schemaTables. \<forall>cs. columnsOf c t = Some cs \<longrightarrow> cols - addedTo t \<subseteq> cs)"

lemma upgradableD:
  "upgradable c \<Longrightarrow> (t, cols) \<in> set schemaTables \<Longrightarrow> columnsOf c t = Some cs \<Longrightarrow> cols - addedTo t \<subseteq> cs"
  unfolding upgradable_def by (drule (1) bspec) simp

definition complete :: "catalog \<Rightarrow> bool" where
  "complete c \<longleftrightarrow> (\<forall>(t, cols) \<in> set schemaTables. \<exists>cs. columnsOf c t = Some cs \<and> cols \<subseteq> cs)
     \<and> (\<forall>i t cols. CreateIndex i t cols \<in> set createIndexStmts \<longrightarrow> i \<in> fst ` set (catIndexes c))"

lemma schemaTables_eq: "set schemaTables = {(t, fst ` set cols) | t cols. CreateTable t cols \<in> set createTableStmts}"
proof -
  have "set (concat (map schemaTable sts)) = {(t, fst ` set cols) | t cols. CreateTable t cols \<in> set sts}" for sts
  proof (induction sts)
    case (Cons st sts)
    then show ?case by (cases st) auto
  qed simp
  then show ?thesis by (simp add: schemaTables_def)
qed

lemma schemaTables_distinct: "distinct (map fst schemaTables)"
  by code_simp

lemma schemaTables_unique: "(t, a) \<in> set schemaTables \<Longrightarrow> (t, b) \<in> set schemaTables \<Longrightarrow> a = b"
  using schemaTables_distinct by (meson eq_key_imp_eq_value)

definition schemaStmt :: "ddl \<Rightarrow> bool" where
  "schemaStmt st \<longleftrightarrow> (case st of CreateTable t cols \<Rightarrow> (t, fst ` set cols) \<in> set schemaTables | _ \<Rightarrow> True)"

lemma applyDdl_upgradable:
  assumes "schemaStmt st" "applyDdl st c = Some c'" "upgradable c"
  shows "upgradable c'"
  unfolding upgradable_def
proof (intro ballI allI impI, clarify)
  fix t cols cs x
  assume tab: "(t, cols) \<in> set schemaTables" and cs: "columnsOf c' t = Some cs" and x: "x \<in> cols" "x \<notin> addedTo t" 
  show "x \<in> cs"
  proof (cases "columnsOf c t")
    case None
    with assms(2) cs obtain cols' where "st = CreateTable t cols'" "cs = fst ` set cols'"
      by (cases st) (auto simp: columnsOf_def update_conv' split: option.splits if_splits)
    with assms(1) have "(t, cs) \<in> set schemaTables" by (simp add: schemaStmt_def)
    with tab x show ?thesis using schemaTables_unique by blast
  next
    case (Some cs0)
    then have "cols - addedTo t \<subseteq> cs0" by (rule upgradableD [OF assms(3) tab])
    moreover have "cs0 \<subseteq> cs" using extendsD [OF applyDdl_extends [OF assms(2)] Some] cs by simp
    ultimately show ?thesis using x by blast
  qed
qed

definition preserves :: "(schema_conn, 'a) action \<Rightarrow> bool" where
  "preserves m \<longleftrightarrow> (\<forall>s. upgradable (catalog s) \<longrightarrow> upgradable (catalog (snd (m s))))"

lemma preserves_andThen [intro]: "preserves m \<Longrightarrow> (\<And>x. preserves (f x)) \<Longrightarrow> preserves (andThen m f)"
  unfolding preserves_def andThen_def by (auto split: prod.split sum.split)

lemma preserves_execDdl [intro]: "schemaStmt st \<Longrightarrow> preserves (execDdl st)"
  by (auto simp: preserves_def execDdl_def dest: applyDdl_upgradable split: list.split outcome.split option.split)

lemma preserves_simps [simp, intro]: "preserves (ret x)" "preserves (tableColumns t)"
  by (auto simp: preserves_def ret_def tableColumns_def split: list.split outcome.split)

lemma preserves_execAll [intro]: "\<forall>st \<in> set sts. schemaStmt st \<Longrightarrow> preserves (execAll sts)"
  by (induction sts) auto

lemma preserves_addMissing [intro]: "preserves (addMissing t existing cols)"
  by (induction t existing cols rule: addMissing.induct)
    (auto intro!: preserves_andThen preserves_execDdl simp: schemaStmt_def)

lemma preserves_migrateAll [intro]: "preserves (migrateAll ps)"
  by (induction ps) (auto simp: migrateTable_def)

lemma schema_stmts: "\<forall>st \<in> set createTableStmts. schemaStmt st" "\<forall>st \<in> set createIndexStmts. schemaStmt st"
proof -
  show "\<forall>st \<in> set createTableStmts. schemaStmt st"
    by (auto simp: schemaStmt_def schemaTables_eq split: ddl.split)
  show "\<forall>st \<in> set createIndexStmts. schemaStmt st" by (simp add: schemaStmt_def createIndexStmts_def)
qed

lemma Bootstrap_upgradable: "upgradable (catalog s) \<Longrightarrow> upgradable (catalog (snd (Bootstrap s)))"
  using preserves_execAll [OF schema_stmts(1)] preserves_execAll [OF schema_stmts(2)] preserves_migrateAll [of migrations]
  unfolding preserves_def Bootstrap_def migrate_def
  by (auto split: prod.split sum.split) (metis snd_conv)+

section \<open>What a successful run has done\<close>

lemma andThen_Inr: "andThen m f s = (Inr y, s') \<longleftrightarrow> (\<exists>x s1. m s = (Inr x, s1) \<and> f x s1 = (Inr y, s'))"
  by (auto simp: andThen_def split: prod.split sum.split)

lemma execDdl_Inr: "execDdl st s = (Inr u, s') \<Longrightarrow> applyDdl st (catalog s) = Some (catalog s')"
  by (auto simp: execDdl_def split: list.splits outcome.splits option.splits)

text \<open>The effect of a statement, which later statements keep.\<close>

fun effect :: "ddl \<Rightarrow> catalog \<Rightarrow> bool" where
  "effect (CreateTable t cols) c \<longleftrightarrow> columnsOf c t \<noteq> None"
| "effect (CreateIndex i t cols) c \<longleftrightarrow> i \<in> fst ` set (catIndexes c)"
| "effect (AddColumn t col ty) c \<longleftrightarrow> (\<exists>cs. columnsOf c t = Some cs \<and> col \<in> cs)"

lemma effect_extends: "effect st c \<Longrightarrow> extends c c' \<Longrightarrow> effect st c'"
  by (cases st) (force simp: extends_def)+

lemma applyDdl_effect: "applyDdl st c = Some c' \<Longrightarrow> effect st c'"
  by (cases st) (auto split: option.splits if_splits)

lemma grows_step: "grows m \<Longrightarrow> m s = (r, s') \<Longrightarrow> extends (catalog s) (catalog s')"
  unfolding grows_def by (metis snd_conv)

lemma execAll_effects: "execAll sts s = (Inr u, s') \<Longrightarrow> st \<in> set sts \<Longrightarrow> effect st (catalog s')"
proof (induction sts arbitrary: s)
  case (Cons x sts)
  then obtain s1 where s1: "execDdl x s = (Inr (), s1)" "execAll sts s1 = (Inr u, s')" by (auto simp: andThen_Inr)
  have "effect x (catalog s')"
    using applyDdl_effect [OF execDdl_Inr [OF s1(1)]] grows_step [OF grows_execAll s1(2)] by (rule effect_extends)
  with Cons s1(2) show ?case by auto
qed simp

lemma addMissing_effects:
  "addMissing t existing cols s = (Inr u, s') \<Longrightarrow> columnsOf (catalog s) t = Some cs \<Longrightarrow> set existing \<subseteq> cs \<Longrightarrow>
   \<exists>cs'. columnsOf (catalog s') t = Some cs' \<and> cs \<union> fst ` set cols \<subseteq> cs'"
proof (induction t existing cols arbitrary: s cs rule: addMissing.induct)
  case (2 t existing col ty cols)
  show ?case
  proof (cases "col \<in> set existing")
    case True
    then show ?thesis using 2(1) [OF True _ 2(4,5)] 2(3,5) by auto
  next
    case False
    with 2(3) obtain s1 where s1: "execDdl (AddColumn t col ty) s = (Inr (), s1)" "addMissing t existing cols s1 = (Inr u, s')"
      by (auto simp: andThen_Inr)
    obtain cs1 where cs1: "columnsOf (catalog s1) t = Some cs1" "col \<in> cs1"
      using applyDdl_effect [OF execDdl_Inr [OF s1(1)]] by auto
    then have "cs \<subseteq> cs1" using extendsD [OF grows_step [OF grows_execDdl s1(1)] 2(4)] by simp
    have "\<exists>cs'. columnsOf (catalog s') t = Some cs' \<and> cs1 \<union> fst ` set cols \<subseteq> cs'"
      using \<open>cs \<subseteq> cs1\<close> 2(5) by (intro 2(2) [OF False s1(2) cs1(1)]) blast
    with \<open>cs \<subseteq> cs1\<close> cs1(2) show ?thesis by (fastforce simp: subset_iff)
  qed
qed (auto simp: ret_def)

lemma migrateTable_effects:
  assumes "migrateTable (t, cols) s = (Inr u, s')" "columnsOf (catalog s) t \<noteq> None"
  shows "\<exists>cs. columnsOf (catalog s') t = Some cs \<and> fst ` set cols \<subseteq> cs"
proof -
  obtain existing s1 where e: "tableColumns t s = (Inr existing, s1)" "addMissing t existing cols s1 = (Inr u, s')"
    using assms(1) by (auto simp: migrateTable_def andThen_Inr)
  obtain cs where cs: "columnsOf (catalog s1) t = Some cs" "set existing \<subseteq> cs"
    using e(1) assms(2) by (auto simp: tableColumns_def columnsOf_def split: list.splits outcome.splits)
  from addMissing_effects [OF e(2) cs] show ?thesis by auto
qed

lemma migrateAll_effects:
  "migrateAll ps s = (Inr u, s') \<Longrightarrow> \<forall>p \<in> set ps. columnsOf (catalog s) (fst p) \<noteq> None \<Longrightarrow> (t, cols) \<in> set ps \<Longrightarrow>
   \<exists>cs. columnsOf (catalog s') t = Some cs \<and> fst ` set cols \<subseteq> cs"
proof (induction ps arbitrary: s)
  case (Cons p ps)
  then obtain s1 where s1: "migrateTable p s = (Inr (), s1)" "migrateAll ps s1 = (Inr u, s')" by (auto simp: andThen_Inr)
  have "grows (migrateTable p)" by (auto simp: migrateTable_def)
  then have ext: "extends (catalog s) (catalog s1)" using s1(1) by (rule grows_step)
  have there: "\<forall>p \<in> set ps. columnsOf (catalog s1) (fst p) \<noteq> None" 
  proof (rule ballI)
    fix q
    assume "q \<in> set ps"
    then have "columnsOf (catalog s) (fst q) \<noteq> None" using Cons.prems(2) by simp
    then show "columnsOf (catalog s1) (fst q) \<noteq> None" by (rule extends_there [OF ext])
  qed
  show ?case
  proof (cases "p = (t, cols)")
    case True
    have "columnsOf (catalog s) t \<noteq> None" using Cons.prems(2) True by auto
    then obtain cs where "columnsOf (catalog s1) t = Some cs" "fst ` set cols \<subseteq> cs"
      using migrateTable_effects [OF s1(1) [unfolded True]] by blast
    then show ?thesis using extendsD [OF grows_step [OF grows_migrateAll s1(2)]] by (meson order_trans)
  qed (use Cons.IH [OF s1(2) there] Cons.prems(3) in auto)
qed simp

lemma migrations_there: "(t, cols) \<in> set migrations \<Longrightarrow> \<exists>tab. (t, tab) \<in> set schemaTables"
proof -
  have "fst ` set migrations \<subseteq> fst ` set schemaTables" by code_simp
  then show "(t, cols) \<in> set migrations \<Longrightarrow> \<exists>tab. (t, tab) \<in> set schemaTables" by force
qed

lemma added_migrated: "addedTo t = {} \<or> (\<exists>cols. (t, cols) \<in> set migrations \<and> addedTo t \<subseteq> fst ` set cols)"
  by (auto simp: addedTo_def migrations_def addedColumns_def)

lemma complete_after:
  assumes "execAll createTableStmts s = (Inr u, s1)" "execAll createIndexStmts s1 = (Inr v, s2)"
    and "migrate s2 = (Inr w, s3)" "upgradable (catalog s)"
  shows "complete (catalog s3)"
proof -
  have there: "columnsOf (catalog s1) t \<noteq> None" if "(t, tab) \<in> set schemaTables" for t tab
    using execAll_effects [OF assms(1)] that by (fastforce simp: schemaTables_eq)
  have e12: "extends (catalog s1) (catalog s2)" by (rule grows_step [OF grows_execAll assms(2)])
  have mig: "migrateAll migrations s2 = (Inr w, s3)" using assms(3) by (simp add: migrate_def)
  have e23: "extends (catalog s2) (catalog s3)" by (rule grows_step [OF grows_migrateAll mig])
  have ind: "i \<in> fst ` set (catIndexes (catalog s3))" if "CreateIndex i t cols \<in> set createIndexStmts" for i t cols
    using effect_extends [OF execAll_effects [OF assms(2) that] e23] by simp
  have up: "upgradable (catalog s3)"
    using preserves_execAll [OF schema_stmts(1)] preserves_execAll [OF schema_stmts(2)] preserves_migrateAll [of migrations] assms(4)
    by (metis (no_types) assms(1,2) mig preserves_def snd_conv)
  have "\<exists>cs. columnsOf (catalog s3) t = Some cs \<and> tab \<subseteq> cs" if tab: "(t, tab) \<in> set schemaTables" for t tab
  proof -
    obtain cs where cs: "columnsOf (catalog s3) t = Some cs"
      using extends_there [OF e23 extends_there [OF e12 there [OF tab]]] by blast
    then have base: "tab - addedTo t \<subseteq> cs" by (rule upgradableD [OF up tab])
    moreover have "addedTo t \<subseteq> cs"
    proof (cases "addedTo t = {}")
      case False
      then obtain cols where m: "(t, cols) \<in> set migrations" "addedTo t \<subseteq> fst ` set cols" using added_migrated by blast
      have "\<forall>p \<in> set migrations. columnsOf (catalog s2) (fst p) \<noteq> None"
        using migrations_there there extends_there [OF e12] by fastforce
      with migrateAll_effects [OF mig _ m(1)] cs m(2) show ?thesis by auto
    qed simp
    ultimately show ?thesis using cs by blast
  qed
  with ind show ?thesis by (auto simp: complete_def)
qed

lemma Bootstrap_complete: "upgradable (catalog s) \<Longrightarrow> Bootstrap s = (None, s') \<Longrightarrow> complete (catalog s')"
  by (auto simp: Bootstrap_def split: prod.splits sum.splits intro: complete_after)

section \<open>Without errors of the database\<close>

definition runs :: "(schema_conn, unit) action \<Rightarrow> schema_conn \<Rightarrow> bool" where
  "runs m s \<longleftrightarrow> (\<exists>c. m s = (Inr (), s\<lparr>catalog := c\<rparr>))"

lemma execDdl_calm: "outcomes s = [] \<Longrightarrow> applyDdl st (catalog s) = Some c \<Longrightarrow> execDdl st s = (Inr (), s\<lparr>catalog := c\<rparr>)"
  by (simp add: execDdl_def)

lemma runs_andThen:
  assumes "m s = (Inr x, s1)" "s1 = s\<lparr>catalog := c1\<rparr>" "runs (f x) s1"
  shows "runs (andThen m f) s"
  using assms by (auto simp: runs_def andThen_def)

lemma execAll_runs:
  assumes "outcomes s = []" "\<And>st c. st \<in> set sts \<Longrightarrow> extends (catalog s) c \<Longrightarrow> upgradable c \<Longrightarrow> applyDdl st c \<noteq> None"
    "upgradable (catalog s)" "\<forall>st \<in> set sts. schemaStmt st"
  shows "runs (execAll sts) s"
  using assms
proof (induction sts arbitrary: s)
  case Nil
  show ?case by (simp add: runs_def ret_def) (metis schema_conn.surjective schema_conn.update_convs(1))
next
  case (Cons st sts)
  obtain c where c: "applyDdl st (catalog s) = Some c" using Cons.prems(2) [of st "catalog s"] Cons.prems(3) by auto
  have ext: "extends (catalog s) c" and up: "upgradable c"
    using applyDdl_extends [OF c] applyDdl_upgradable [OF _ c Cons.prems(3)] Cons.prems(4) by auto
  have "runs (execAll sts) (s\<lparr>catalog := c\<rparr>)"
    using Cons.prems up extends_trans [OF ext] by (intro Cons.IH) auto
  then show ?case using execDdl_calm [OF Cons.prems(1) c] by (auto intro: runs_andThen)
qed

lemma addMissing_runs:
  "outcomes s = [] \<Longrightarrow> columnsOf (catalog s) t = Some cs \<Longrightarrow> distinct (map fst cols) \<Longrightarrow>
   \<forall>col \<in> fst ` set cols. col \<in> cs \<longrightarrow> col \<in> set existing \<Longrightarrow> runs (addMissing t existing cols) s"
proof (induction t existing cols arbitrary: s cs rule: addMissing.induct)
  case (1 t existing)
  show ?case by (simp add: runs_def ret_def) (metis schema_conn.surjective schema_conn.update_convs(1))
next
  case (2 t existing col ty cols)
  show ?case
  proof (cases "col \<in> set existing")
    case False
    then have "col \<notin> cs" using 2(6) by auto
    then obtain old where old: "map_of (catTables (catalog s)) t = Some old" "cs = fst ` set old"
      using 2(4) by (auto simp: columnsOf_def)
    let ?c = "catalog s\<lparr>catTables := AList.update t (old @ [(col, ty)]) (catTables (catalog s))\<rparr>"
    have c: "applyDdl (AddColumn t col ty) (catalog s) = Some ?c" using old \<open>col \<notin> cs\<close> by simp
    have "runs (addMissing t existing cols) (s\<lparr>catalog := ?c\<rparr>)"
      using 2(3,5,6) old by (intro 2(2) [OF False, of _ "insert col cs"]) auto
    then show ?thesis using False execDdl_calm [OF 2(3) c] by (auto intro: runs_andThen)
  qed (use 2 in auto)
qed

lemma tableColumns_calm:
  "outcomes s = [] \<Longrightarrow> columnsOf (catalog s) t = Some cs \<Longrightarrow> \<exists>existing. tableColumns t s = (Inr existing, s) \<and> set existing = cs"
  by (auto simp: tableColumns_def columnsOf_def)

lemma migrateAll_runs:
  "outcomes s = [] \<Longrightarrow> \<forall>p \<in> set ps. columnsOf (catalog s) (fst p) \<noteq> None \<and> distinct (map fst (snd p)) \<Longrightarrow> runs (migrateAll ps) s"
proof (induction ps arbitrary: s)
  case Nil
  show ?case by (simp add: runs_def ret_def) (metis schema_conn.surjective schema_conn.update_convs(1))
next
  case (Cons p ps)
  obtain cs where cs: "columnsOf (catalog s) (fst p) = Some cs" using Cons.prems(2) by auto
  obtain existing where e: "tableColumns (fst p) s = (Inr existing, s)" "set existing = cs"
    using tableColumns_calm [OF Cons.prems(1) cs] by auto
  have "runs (addMissing (fst p) existing (snd p)) s"
    using Cons.prems e(2) by (intro addMissing_runs [OF _ cs]) auto
  then obtain c where c: "migrateTable p s = (Inr (), s\<lparr>catalog := c\<rparr>)"
    using e(1) by (auto simp: runs_def migrateTable_def andThen_def)
  have "grows (migrateTable p)" by (auto simp: migrateTable_def)
  then have ext: "extends (catalog s) c" using grows_step [where m = "migrateTable p", OF _ c] by simp
  have "runs (migrateAll ps) (s\<lparr>catalog := c\<rparr>)"
    using Cons.prems extends_there [OF ext] by (intro Cons.IH) auto
  then show ?case using c by (auto intro: runs_andThen)
qed

lemma indexes_on_schema:
  "CreateIndex i t cols \<in> set createIndexStmts \<Longrightarrow> \<exists>tab. (t, tab) \<in> set schemaTables \<and> set cols \<subseteq> tab - addedTo t"
proof -
  have "list_all (\<lambda>st. case st of CreateIndex i t cols \<Rightarrow>
      list_ex (\<lambda>(t', tab). t' = t \<and> set cols \<subseteq> tab - addedTo t) schemaTables | _ \<Rightarrow> True) createIndexStmts"
    by code_simp
  then show "CreateIndex i t cols \<in> set createIndexStmts \<Longrightarrow> \<exists>tab. (t, tab) \<in> set schemaTables \<and> set cols \<subseteq> tab - addedTo t"
    by (fastforce simp: list_all_iff list_ex_iff)
qed

lemma only_tables: "st \<in> set createTableStmts \<Longrightarrow> applyDdl st c \<noteq> None"
  by (auto simp: createTableStmts_def)

lemma only_indexes: "st \<in> set createIndexStmts \<Longrightarrow> \<exists>i t cols. st = CreateIndex i t cols"
  by (auto simp: createIndexStmts_def)

lemma migrations_distinct: "\<forall>p \<in> set migrations. distinct (map fst (snd p))"
  by code_simp

lemma Bootstrap_calm:
  assumes "outcomes s = []" "upgradable (catalog s)"
  shows "\<exists>c. Bootstrap s = (None, s\<lparr>catalog := c\<rparr>)"
proof -
  have "runs (execAll createTableStmts) s"
    using assms only_tables schema_stmts(1) by (intro execAll_runs) auto
  then obtain c1 where c1: "execAll createTableStmts s = (Inr (), s\<lparr>catalog := c1\<rparr>)" by (auto simp: runs_def)
  have there: "columnsOf c1 t \<noteq> None" if "(t, tab) \<in> set schemaTables" for t tab
    using execAll_effects [OF c1] that by (fastforce simp: schemaTables_eq)
  have up1: "upgradable c1"
    using preserves_execAll [OF schema_stmts(1)] assms(2) c1 unfolding preserves_def by (metis schema_conn.select_convs(1) schema_conn.update_convs(1) schema_conn.surjective snd_conv)
  have "applyDdl st c \<noteq> None" if st: "st \<in> set createIndexStmts" and c: "extends c1 c" "upgradable c" for st c
  proof -
    obtain i t cols where i: "st = CreateIndex i t cols" using only_indexes [OF st] by auto
    obtain tab where tab: "(t, tab) \<in> set schemaTables" "set cols \<subseteq> tab - addedTo t" using indexes_on_schema st i by blast
    obtain cs where cs: "columnsOf c t = Some cs" using extends_there [OF c(1) there [OF tab(1)]] by auto
    have "set cols \<subseteq> cs" using tab(2) upgradableD [OF c(2) tab(1) cs] by blast
    with i cs show ?thesis by simp
  qed
  then have "runs (execAll createIndexStmts) (s\<lparr>catalog := c1\<rparr>)"
    using assms(1) up1 schema_stmts(2) by (intro execAll_runs) auto
  then obtain c2 where c2: "execAll createIndexStmts (s\<lparr>catalog := c1\<rparr>) = (Inr (), s\<lparr>catalog := c2\<rparr>)" by (auto simp: runs_def)
  have ext: "extends c1 c2" using grows_step [OF grows_execAll c2] by simp
  have "columnsOf c2 (fst p) \<noteq> None" if "p \<in> set migrations" for p
  proof -
    obtain tab where "(fst p, tab) \<in> set schemaTables" using migrations_there [of "fst p" "snd p"] \<open>p \<in> set migrations\<close> by auto
    then show ?thesis by (rule extends_there [OF ext there])
  qed
  then have "runs (migrateAll migrations) (s\<lparr>catalog := c2\<rparr>)"
    using assms(1) migrations_distinct by (intro migrateAll_runs) auto
  then obtain c3 where c3: "migrate (s\<lparr>catalog := c2\<rparr>) = (Inr (), s\<lparr>catalog := c3\<rparr>)" by (auto simp: runs_def migrate_def)
  have "Bootstrap s = (None, s\<lparr>catalog := c3\<rparr>)" using c1 c2 c3 by (simp add: Bootstrap_def)
  then show ?thesis by blast
qed

section \<open>A complete file stays as it is\<close>

lemma execAll_noop:
  "outcomes s = [] \<Longrightarrow> \<forall>st \<in> set sts. applyDdl st (catalog s) = Some (catalog s) \<Longrightarrow> execAll sts s = (Inr (), s)"
  by (induction sts) (simp_all add: ret_def andThen_def execDdl_calm)

lemma addMissing_noop: "fst ` set cols \<subseteq> set existing \<Longrightarrow> addMissing t existing cols s = (Inr (), s)"
  by (induction t existing cols rule: addMissing.induct) (auto simp: ret_def)

lemma migrateAll_noop:
  "outcomes s = [] \<Longrightarrow> \<forall>p \<in> set ps. \<exists>cs. columnsOf (catalog s) (fst p) = Some cs \<and> fst ` set (snd p) \<subseteq> cs \<Longrightarrow>
   migrateAll ps s = (Inr (), s)"
proof (induction ps)
  case (Cons p ps)
  then obtain cs where cs: "columnsOf (catalog s) (fst p) = Some cs" "fst ` set (snd p) \<subseteq> cs" by auto
  obtain existing where "tableColumns (fst p) s = (Inr existing, s)" "set existing = cs"
    using tableColumns_calm [OF Cons.prems(1) cs(1)] by auto
  then have "migrateTable p s = (Inr (), s)" using cs(2) by (simp add: migrateTable_def andThen_def addMissing_noop)
  with Cons show ?case by (simp add: andThen_def)
qed (simp add: ret_def)

lemma migrations_in_schema: "p \<in> set migrations \<Longrightarrow> \<exists>tab. (fst p, tab) \<in> set schemaTables \<and> fst ` set (snd p) \<subseteq> tab"
proof -
  have "list_all (\<lambda>p. list_ex (\<lambda>(t, tab). t = fst p \<and> fst ` set (snd p) \<subseteq> tab) schemaTables) migrations" by code_simp
  then show "p \<in> set migrations \<Longrightarrow> \<exists>tab. (fst p, tab) \<in> set schemaTables \<and> fst ` set (snd p) \<subseteq> tab"
    by (fastforce simp: list_all_iff list_ex_iff)
qed

lemma completeD: "complete c \<Longrightarrow> (t, tab) \<in> set schemaTables \<Longrightarrow> \<exists>cs. columnsOf c t = Some cs \<and> tab \<subseteq> cs"
  unfolding complete_def by (drule conjunct1, drule (1) bspec) simp

lemma Bootstrap_noop:
  assumes "outcomes s = []" "complete (catalog s)"
  shows "Bootstrap s = (None, s)"
proof -
  have "applyDdl st (catalog s) = Some (catalog s)" if "st \<in> set createTableStmts" for st
  proof (cases st)
    case (CreateTable t cols)
    then have "(t, fst ` set cols) \<in> set schemaTables" using that by (auto simp: schemaTables_eq)
    from completeD [OF assms(2) this] show ?thesis by (auto simp: CreateTable)
  qed (use that in \<open>auto simp: createTableStmts_def\<close>)
  then have t: "execAll createTableStmts s = (Inr (), s)" using assms(1) by (simp add: execAll_noop)
  have "applyDdl st (catalog s) = Some (catalog s)" if st: "st \<in> set createIndexStmts" for st
  proof -
    obtain i t cols where i: "st = CreateIndex i t cols" using only_indexes [OF st] by blast
    then have "i \<in> fst ` set (catIndexes (catalog s))" using st assms(2) unfolding complete_def by blast
    then show ?thesis by (simp add: i)
  qed
  then have i: "execAll createIndexStmts s = (Inr (), s)" using assms(1) by (simp add: execAll_noop)
  have "migrate s = (Inr (), s)"
    unfolding migrate_def using completeD [OF assms(2)] migrations_in_schema
    by (intro migrateAll_noop [OF assms(1)] ballI) (meson order_trans)
  with t i show ?thesis by (simp add: Bootstrap_def)
qed

section \<open>Property\<close>

text \<open>C37: Opening a database upgrades it, and a failed upgrade can simply be repeated. Start from any file
  some version of the program can have written, with any failures of the database in between: no table,
  column or index is ever lost and the file stays upgradable; when \<^verbatim>\<open>Bootstrap\<close> reports success, every table
  has every column of the schema and every index exists; and once the database answers, the next
  \<^verbatim>\<open>Bootstrap\<close> succeeds, and the one after it changes nothing.\<close>

theorem bootstrap_recovers:
  assumes "upgradable (catalog s)" "Bootstrap s = (err, s1)"
  shows "extends (catalog s) (catalog s1) \<and> upgradable (catalog s1) \<and> (err = None \<longrightarrow> complete (catalog s1))
    \<and> (let (err2, s2) = Bootstrap (s1\<lparr>outcomes := []\<rparr>)
       in err2 = None \<and> extends (catalog s1) (catalog s2) \<and> complete (catalog s2) \<and> Bootstrap s2 = (None, s2))"
proof -
  have ext: "extends (catalog s) (catalog s1)" and up: "upgradable (catalog s1)"
    using Bootstrap_extends [of s] Bootstrap_upgradable [OF assms(1)] assms(2) by simp_all
  let ?s1 = "s1\<lparr>outcomes := []\<rparr>"
  obtain c where c: "Bootstrap ?s1 = (None, ?s1\<lparr>catalog := c\<rparr>)" using Bootstrap_calm [of ?s1] up by auto
  have "complete c" using Bootstrap_complete [OF _ c] up by simp
  moreover have "extends (catalog s1) c" using Bootstrap_extends [of ?s1] c by simp
  moreover have "Bootstrap (?s1\<lparr>catalog := c\<rparr>) = (None, ?s1\<lparr>catalog := c\<rparr>)"
    using \<open>complete c\<close> by (intro Bootstrap_noop) simp_all
  ultimately show ?thesis using ext up c Bootstrap_complete [of s s1] assms by auto
qed

text \<open>A file of the first version, and a disk that fails at the seventh statement.\<close>

definition oldFile :: schema_conn where
  "oldFile = \<lparr>catalog = \<lparr>catTables = [(''rtpmon_streams'', [(''stream_id'', ''INTEGER PRIMARY KEY''), (''link_id'', ''VARCHAR(64) NOT NULL''),
      (''src_ip'', ''VARCHAR(32) NOT NULL''), (''src_port'', ''INTEGER NOT NULL''), (''dst_ip'', ''VARCHAR(32) NOT NULL''),
      (''dst_port'', ''INTEGER NOT NULL''), (''ssrc'', ''INTEGER NOT NULL''), (''sip_source'', ''VARCHAR(1024)''),
      (''sip_destination'', ''VARCHAR(1024)''), (''sip_callid'', ''VARCHAR(1024)''), (''agent_id'', ''INTEGER'')])], catIndexes = []\<rparr>,
     outcomes = replicate 6 Done @ [Failed (SqliteError 10)]\<rparr>"

theorem bootstrap_recovers_witness:
  "complete (catalog (snd (Bootstrap ((snd (Bootstrap oldFile))\<lparr>outcomes := []\<rparr>))))"
proof -
  have "upgradable (catalog oldFile)"
  proof -
    have "list_all (\<lambda>(t, tab). case columnsOf (catalog oldFile) t of None \<Rightarrow> True | Some cs \<Rightarrow> tab - addedTo t \<subseteq> cs) schemaTables"
      by code_simp
    then show ?thesis by (fastforce simp: upgradable_def list_all_iff)
  qed
  from bootstrap_recovers [OF this, of "fst (Bootstrap oldFile)" "snd (Bootstrap oldFile)"] show ?thesis
    by (auto simp: Let_def split: prod.splits)
qed

end
