(* ===== verification/Retention.thy ===== *)
theory Retention
  imports Writer
begin

text \<open>
  Retention: the trim to the last N calls (\<^verbatim>\<open>writer.go\<close>) and the removal of old records and
  audio (\<^verbatim>\<open>cleanup.go\<close>). The wall-clock fields of \<^verbatim>\<open>CleanupStats\<close> are left out. The lemmas
  show which calls a trim keeps and that the optimised query for expired streams selects
  exactly the streams the documented rule expires.
\<close>

section \<open>cleanup.go\<close>

record cleanup_stats =
  StatStreams :: int
  StatChunks :: int
  StatSipEvents :: int

definition deleteChunkStreams :: nat where "deleteChunkStreams = 100"

text \<open>\<^verbatim>\<open>expiredStreamsQuery\<close>: the candidates of the common table expression, then the three
  \<^verbatim>\<open>NOT EXISTS\<close> checks and the \<^verbatim>\<open>EXISTS\<close> check.\<close>

definition candidates :: "int \<Rightarrow> db \<Rightarrow> int list" where
  "candidates cutoff d = remdups (
     map s_stream_id (filter (\<lambda>s. case s_created_ts s of None \<Rightarrow> True | Some t \<Rightarrow> t < cutoff) (rtpmon_streams d))
     @ map r_stream_id (filter (\<lambda>r. r_end_timestamp r < cutoff) (rtpmon_intervals d))
     @ map r_stream_id (filter (\<lambda>r. r_end_timestamp r < cutoff) (rtpmon_statistics d))
     @ map a_stream_id (filter (\<lambda>a. a_start_timestamp a < cutoff) (rtpmon_audio d)))"

definition expiredStreams :: "int \<Rightarrow> db \<Rightarrow> int list" where
  "expiredStreams cutoff d = filter (\<lambda>i.
       list_ex (\<lambda>s. s_stream_id s = i) (rtpmon_streams d)
     \<and> \<not> list_ex (\<lambda>r. r_stream_id r = i \<and> cutoff \<le> r_end_timestamp r) (rtpmon_intervals d)
     \<and> \<not> list_ex (\<lambda>r. r_stream_id r = i \<and> cutoff \<le> r_end_timestamp r) (rtpmon_statistics d)
     \<and> \<not> list_ex (\<lambda>a. a_stream_id a = i \<and> cutoff \<le> a_start_timestamp a) (rtpmon_audio d))
     (candidates cutoff d)"

fun deleteChunks :: "int list list \<Rightarrow> cleanup_stats \<Rightarrow> 'z conn_scheme \<Rightarrow> (cleanup_stats \<times> db_error option) \<times> 'z conn_scheme" where
  "deleteChunks [] st s = ((st, None), s)"
| "deleteChunks (c # cs) st s =
     (case deleteStreamsTx c s of
        (Inl e, s') \<Rightarrow> ((st, Some e), s')
      | (Inr _, s') \<Rightarrow> deleteChunks cs (st\<lparr>StatChunks := StatChunks st + 1, StatStreams := StatStreams st + int (length c)\<rparr>) s')"

definition sipTimestamp :: "sip_row \<Rightarrow> int option" where
  "sipTimestamp r = (case map_of (sip_columns r) ''event_timestamp'' of Some (SqlInt t) \<Rightarrow> Some t | _ \<Rightarrow> None)"

definition oldSip :: "int \<Rightarrow> sip_row \<Rightarrow> bool" where
  "oldSip cutoff r \<longleftrightarrow> (case sipTimestamp r of Some t \<Rightarrow> t < cutoff | None \<Rightarrow> False)"

definition deleteSip :: "int \<Rightarrow> db \<Rightarrow> db \<times> int" where
  "deleteSip cutoff d =
     (d\<lparr>rtpmon_sip_events := filter (\<lambda>r. \<not> oldSip cutoff r) (rtpmon_sip_events d)\<rparr>,
      int (length (filter (oldSip cutoff) (rtpmon_sip_events d))))"

definition deleteHealth :: "int \<Rightarrow> db \<Rightarrow> db \<times> unit" where
  "deleteHealth cutoff d =
     (d\<lparr>rtpmon_call_health := filter (\<lambda>r. \<not> h_event_timestamp r < cutoff) (rtpmon_call_health d)\<rparr>, ())"

definition deleteAlarms :: "int \<Rightarrow> db \<Rightarrow> db \<times> unit" where
  "deleteAlarms cutoff d =
     (d\<lparr>rtpmon_alarm_events := filter (\<lambda>r. \<not> al_event_timestamp r < cutoff) (rtpmon_alarm_events d)\<rparr>, ())"

definition RemoveOldRecords :: "int \<Rightarrow> 'z conn_scheme \<Rightarrow> (cleanup_stats \<times> db_error option) \<times> 'z conn_scheme" where
  "RemoveOldRecords cutoff s =
     (let st0 = \<lparr>StatStreams = 0, StatChunks = 0, StatSipEvents = 0\<rparr>
      in case queryDb (expiredStreams cutoff) s of
           (Inl e, s1) \<Rightarrow> ((st0, Some e), s1)
         | (Inr oldIDs, s1) \<Rightarrow>
             (case deleteChunks (chunksOf deleteChunkStreams oldIDs) st0 s1 of
                ((st, Some e), s2) \<Rightarrow> ((st, Some e), s2)
              | ((st, None), s2) \<Rightarrow>
                  (case exec (deleteSip cutoff) s2 of
                     (Inl e, s3) \<Rightarrow> ((st, Some e), s3)
                   | (Inr n, s3) \<Rightarrow>
                       let st' = st\<lparr>StatSipEvents := n\<rparr>
                       in case exec (deleteHealth cutoff) s3 of
                            (Inl e, s4) \<Rightarrow> ((st', Some e), s4)
                          | (Inr _, s4) \<Rightarrow>
                              (case exec (deleteAlarms cutoff) s4 of
                                 (Inl e, s5) \<Rightarrow> ((st', Some e), s5)
                               | (Inr _, s5) \<Rightarrow> ((st', None), s5)))))"

definition deleteAudio :: "int \<Rightarrow> db \<Rightarrow> db \<times> int" where
  "deleteAudio cutoff d =
     (d\<lparr>rtpmon_audio := filter (\<lambda>a. \<not> a_start_timestamp a < cutoff) (rtpmon_audio d)\<rparr>,
      int (length (filter (\<lambda>a. a_start_timestamp a < cutoff) (rtpmon_audio d))))"

definition RemoveOldAudio :: "int \<Rightarrow> ('z conn_scheme, int) action" where
  "RemoveOldAudio cutoff = exec (deleteAudio cutoff)"

section \<open>Trimming keeps the most recent calls\<close>

lemma callBefore_negtrans: "\<not> callBefore x y \<Longrightarrow> \<not> callBefore y z \<Longrightarrow> \<not> callBefore x z"
  using str_lt_negtrans [of "fst z" "fst y" "fst x"] by (auto simp: callBefore_def)

interpretation recency: weak_order callBefore "\<lambda>_. True"
proof unfold_locales
  show "callBefore x y \<Longrightarrow> \<not> callBefore y x" for x y
    by (auto simp: callBefore_def dest: str_lt_asym)
qed (rule callBefore_negtrans)

lemma distinct_callsByRecency: "distinct (callsByRecency d)"
proof -
  have "mset (callsByRecency d) = mset (map fst (map (\<lambda>k. (k, lastActive (finishedCalls d) k)) (remdups (map fst (finishedCalls d)))))"
    unfolding callsByRecency_def Let_def by (simp only: mset_map mset_sortStable)
  also have "\<dots> = mset (remdups (map fst (finishedCalls d)))" by (simp add: o_def)
  finally show ?thesis using mset_eq_imp_distinct_iff distinct_remdups by blast
qed

lemma finishedCalls_delete:
  assumes "distinct (map s_stream_id (rtpmon_streams d))"
    and "set ids = {s_stream_id s |s. s \<in> set (rtpmon_streams d) \<and> callKey s \<in> E}"
  shows "finishedCalls (deleteAll ids d) = filter (\<lambda>c. fst c \<notin> E) (finishedCalls d)"
proof -
  have key: "s_stream_id s \<in> set ids \<longleftrightarrow> callKey s \<in> E" if "s \<in> set (rtpmon_streams d)" for s
    using assms that by (auto simp: distinct_map dest: inj_onD)
  have "map (\<lambda>s. (callKey s, r_end_timestamp t)) (filter (\<lambda>s. s_stream_id s = r_stream_id t) (filter (\<lambda>s. s_stream_id s \<notin> set ids) (rtpmon_streams d)))
      = filter (\<lambda>c. fst c \<notin> E) (map (\<lambda>s. (callKey s, r_end_timestamp t)) (filter (\<lambda>s. s_stream_id s = r_stream_id t) (rtpmon_streams d)))" for t
    unfolding filter_map filter_filter o_def
    by (rule arg_cong [where f = "map _"], rule filter_cong) (auto simp: key)
  note row = this
  have "concat (map (\<lambda>t. map (\<lambda>s. (callKey s, r_end_timestamp t)) (filter (\<lambda>s. s_stream_id s = r_stream_id t) (filter (\<lambda>s. s_stream_id s \<notin> set ids) (rtpmon_streams d))))
        (filter (\<lambda>t. r_stream_id t \<notin> set ids) ts))
      = concat (map (\<lambda>t. map (\<lambda>s. (callKey s, r_end_timestamp t)) (filter (\<lambda>s. s_stream_id s = r_stream_id t) (filter (\<lambda>s. s_stream_id s \<notin> set ids) (rtpmon_streams d)))) ts)" for ts
    by (rule concat_map_filter) (auto simp: filter_empty_conv)
  then show ?thesis
    by (simp add: finishedCalls_def deleteAll_def row filter_concat o_def del: filter_filter)
qed

lemma callsByRecency_delete:
  assumes "finishedCalls d' = filter (\<lambda>c. fst c \<notin> E) (finishedCalls d)"
  shows "callsByRecency d' = filter (\<lambda>k. k \<notin> E) (callsByRecency d)"
proof -
  let ?calls = "finishedCalls d" and ?calls' = "finishedCalls d'"
  have last: "lastActive ?calls' k = lastActive ?calls k" if "k \<notin> E" for k
  proof -
    have "filter (\<lambda>c. fst c = k) ?calls' = filter (\<lambda>c. fst c = k) ?calls"
      unfolding assms filter_filter using that by (intro filter_cong) auto
    then show ?thesis by (simp add: lastActive_def)
  qed
  have names: "remdups (map fst ?calls') = filter (\<lambda>k. k \<notin> E) (remdups (map fst ?calls))"
  proof -
    have "map fst (filter (\<lambda>c. fst c \<notin> E) ?calls) = filter (\<lambda>k. k \<notin> E) (map fst ?calls)"
      by (simp add: filter_map o_def)
    then show ?thesis by (simp add: assms remdups_filter)
  qed
  have "map (\<lambda>k. (k, lastActive ?calls' k)) (remdups (map fst ?calls'))
      = filter (\<lambda>c. fst c \<notin> E) (map (\<lambda>k. (k, lastActive ?calls k)) (remdups (map fst ?calls)))"
    unfolding names filter_map o_def by (intro map_cong) (auto simp: last)
  then have "callsByRecency d' = map fst (filter (\<lambda>c. fst c \<notin> E) (sortStable callBefore (map (\<lambda>k. (k, lastActive ?calls k)) (remdups (map fst ?calls)))))"
    by (simp add: callsByRecency_def Let_def recency.filter_sortStable list_all_iff)
  then show ?thesis by (simp add: callsByRecency_def Let_def filter_map o_def)
qed

lemma evicted_set:
  "set (evicted n d) = {s_stream_id s |s. s \<in> set (rtpmon_streams d) \<and> callKey s \<in> set (drop (nat n) (callsByRecency d))}"
proof -
  have "set (concat (map (\<lambda>c. selectStreamsOf c d) cs)) = {s_stream_id s |s. s \<in> set (rtpmon_streams d) \<and> callKey s \<in> set (concat cs)}" for cs
    by (auto simp: selectStreamsOf_def)
  from this [of "chunksOf 500 (drop (nat n) (callsByRecency d))"] show ?thesis
    by (simp only: evicted_def concat_chunksOf)
qed

lemma filter_not_drop: "distinct xs \<Longrightarrow> filter (\<lambda>x. x \<notin> set (drop n xs)) xs = take n xs"
proof -
  assume d: "distinct xs"
  have "filter (\<lambda>x. x \<notin> set (drop n xs)) (take n xs @ drop n xs) = take n xs"
    using d by (subst filter_append) (auto simp: filter_empty_conv filter_id_conv dest: set_take_disj_set_drop_if_distinct [of xs n n])
  then show ?thesis by simp
qed

lemma recency_ranked:
  assumes "k \<in> set (take n (callsByRecency d))" "k' \<in> set (drop n (callsByRecency d))"
  shows "lastActive (finishedCalls d) k' \<le> lastActive (finishedCalls d) k"
proof -
  let ?l = "lastActive (finishedCalls d)"
  let ?xs = "sortStable callBefore (map (\<lambda>k. (k, ?l k)) (remdups (map fst (finishedCalls d))))"
  have keys: "callsByRecency d = map fst ?xs" by (simp add: callsByRecency_def Let_def)
  have "sortedBy callBefore (take n ?xs @ drop n ?xs)"
    using recency.sorted_sortStable by (simp add: list_all_iff)
  then have before: "\<not> callBefore y x" if "x \<in> set (take n ?xs)" "y \<in> set (drop n ?xs)" for x y
    using that unfolding sortedBy_def sorted_wrt_append by blast
  have val: "snd x = ?l (fst x)" if "x \<in> set ?xs" for x using that by auto
  obtain x y where xy: "x \<in> set (take n ?xs)" "fst x = k" "y \<in> set (drop n ?xs)" "fst y = k'"
    using assms by (auto simp only: keys take_map drop_map set_map)
  then have "snd x = ?l k" "snd y = ?l k'"
    using val [OF in_set_takeD [OF xy(1)]] val [OF in_set_dropD [OF xy(3)]] by simp_all
  moreover have "\<not> callBefore y x" using before xy by blast
  ultimately show ?thesis by (simp add: callBefore_def)
qed

lemma forgetDBIDs_tables [simp]: "tables (forgetDBIDs ids w) = tables w"
  by (simp add: forgetDBIDs_def)

section \<open>What expires\<close>

text \<open>The documented rule: no report or audio at or after the cutoff, and some report, or
  created before the cutoff, or created at an unknown time.\<close>

definition reportTimes :: "db \<Rightarrow> int \<Rightarrow> int set" where
  "reportTimes d i = r_end_timestamp ` {r \<in> set (rtpmon_intervals d). r_stream_id r = i}
     \<union> r_end_timestamp ` {r \<in> set (rtpmon_statistics d). r_stream_id r = i}
     \<union> a_start_timestamp ` {a \<in> set (rtpmon_audio d). a_stream_id a = i}"

definition expired :: "int \<Rightarrow> db \<Rightarrow> stream_row \<Rightarrow> bool" where
  "expired cutoff d s \<longleftrightarrow> (\<forall>t \<in> reportTimes d (s_stream_id s). t < cutoff)
     \<and> (reportTimes d (s_stream_id s) \<noteq> {} \<or> (case s_created_ts s of None \<Rightarrow> True | Some t \<Rightarrow> t < cutoff))"

lemma candidates_set:
  "i \<in> set (candidates cutoff d) \<longleftrightarrow>
     (\<exists>s \<in> set (rtpmon_streams d). s_stream_id s = i \<and> (case s_created_ts s of None \<Rightarrow> True | Some t \<Rightarrow> t < cutoff))
     \<or> (\<exists>t \<in> reportTimes d i. t < cutoff)"
  by (force simp: candidates_def reportTimes_def)

lemma expiredStreams_checks:
  "i \<in> set (expiredStreams cutoff d) \<longleftrightarrow> i \<in> set (candidates cutoff d) \<and> i \<in> streamIds d
     \<and> (\<forall>t \<in> reportTimes d i. t < cutoff)"
  by (force simp: expiredStreams_def streamIds_def reportTimes_def list_ex_iff not_le)

lemma expiredStreams_rule:
  assumes "distinct (map s_stream_id (rtpmon_streams d))" "s \<in> set (rtpmon_streams d)"
  shows "s_stream_id s \<in> set (expiredStreams cutoff d) \<longleftrightarrow> expired cutoff d s"
proof -
  have "s' = s" if "s' \<in> set (rtpmon_streams d)" "s_stream_id s' = s_stream_id s" for s'
    using that assms by (auto simp: distinct_map dest: inj_onD)
  moreover have "s_stream_id s \<in> streamIds d" using assms(2) by (simp add: streamIds_def)
  ultimately show ?thesis
    using assms(2) by (auto simp: expiredStreams_checks candidates_set expired_def)
qed

lemma expiredStreams_set:
  assumes "distinct (map s_stream_id (rtpmon_streams d))"
  shows "set (expiredStreams cutoff d) = s_stream_id ` {s \<in> set (rtpmon_streams d). expired cutoff d s}"
proof -
  have "i \<in> s_stream_id ` set (rtpmon_streams d)" if "i \<in> set (expiredStreams cutoff d)" for i
    using that by (simp add: expiredStreams_checks streamIds_def)
  then show ?thesis using expiredStreams_rule [OF assms] by blast
qed

lemma late_row_kept: "t \<in> reportTimes d i \<Longrightarrow> c \<le> t \<Longrightarrow> i \<notin> set (expiredStreams c d)"
  by (force simp: expiredStreams_checks)

lemma reportTimes_rows:
  "r \<in> set (rtpmon_intervals d) \<Longrightarrow> r_end_timestamp r \<in> reportTimes d (r_stream_id r)"
  "r \<in> set (rtpmon_statistics d) \<Longrightarrow> r_end_timestamp r \<in> reportTimes d (r_stream_id r)"
  "a \<in> set (rtpmon_audio d) \<Longrightarrow> a_start_timestamp a \<in> reportTimes d (a_stream_id a)"
  by (auto simp: reportTimes_def)

lemma distinct_expiredStreams: "distinct (expiredStreams cutoff d)"
  by (simp add: expiredStreams_def candidates_def)

text \<open>The chunked deletes: all of them, or the chunks before the first failure.\<close>

lemma deleteChunks_cases:
  "\<exists>k os. k \<le> length cs
     \<and> snd (deleteChunks cs st s) = s\<lparr>tables := deleteAll (concat (take k cs)) (tables s), script := os\<rparr>
     \<and> StatStreams (fst (fst (deleteChunks cs st s))) = StatStreams st + int (length (concat (take k cs)))
     \<and> StatSipEvents (fst (fst (deleteChunks cs st s))) = StatSipEvents st
     \<and> (snd (fst (deleteChunks cs st s)) = None \<longleftrightarrow> k = length cs)"
proof (induction cs arbitrary: st s)
  case Nil
  show ?case by (rule exI [of _ 0], rule exI [of _ "script s"]) simp
next
  case (Cons c cs)
  show ?case
  proof (cases rule: atomicE [OF atomic_deleteStreamsTx, of c s])
    case (2 e os)
    then show ?thesis by (intro exI [of _ 0] exI [of _ os]) (simp add: deleteStreamsTx_def)
  next
    case (1 os)
    from Cons [of "st\<lparr>StatChunks := StatChunks st + 1, StatStreams := StatStreams st + int (length c)\<rparr>"
        "s\<lparr>tables := deleteAll c (tables s), script := os\<rparr>"] obtain k os'
      where "k \<le> length cs"
        "snd (deleteChunks (c # cs) st s) = s\<lparr>tables := deleteAll (concat (take k cs)) (deleteAll c (tables s)), script := os'\<rparr>"
        "StatStreams (fst (fst (deleteChunks (c # cs) st s))) = StatStreams st + int (length c) + int (length (concat (take k cs)))"
        "StatSipEvents (fst (fst (deleteChunks (c # cs) st s))) = StatSipEvents st"
        "snd (fst (deleteChunks (c # cs) st s)) = None \<longleftrightarrow> k = length cs"
      using 1 by (auto simp: deleteStreamsTx_def)
    then show ?thesis by (intro exI [of _ "Suc k"] exI [of _ os']) (simp add: deleteAll_append)
  qed
qed

lemma noOrphans_deleteAll: "noOrphans d \<Longrightarrow> noOrphans (deleteAll ids d)"
  by (force simp: noOrphans_def streamIds_def deleteAll_def)

lemma noOrphans_other: "sameStreams d d' \<Longrightarrow> noOrphans d' = noOrphans d"
  by (simp add: sameStreams_def noOrphans_def streamIds_def)

definition purged :: "int \<Rightarrow> db \<Rightarrow> db" where
  "purged cutoff d = fst (deleteAlarms cutoff (fst (deleteHealth cutoff (fst (deleteSip cutoff (deleteAll (expiredStreams cutoff d) d))))))"

lemma purged_fields:
  "rtpmon_streams (purged c d) = filter (\<lambda>x. s_stream_id x \<notin> set (expiredStreams c d)) (rtpmon_streams d)"
  "rtpmon_intervals (purged c d) = filter (\<lambda>x. r_stream_id x \<notin> set (expiredStreams c d)) (rtpmon_intervals d)"
  "rtpmon_statistics (purged c d) = filter (\<lambda>x. r_stream_id x \<notin> set (expiredStreams c d)) (rtpmon_statistics d)"
  "rtpmon_audio (purged c d) = filter (\<lambda>x. a_stream_id x \<notin> set (expiredStreams c d)) (rtpmon_audio d)"
  by (simp_all add: purged_def deleteAll_def deleteSip_def deleteHealth_def deleteAlarms_def)

lemma length_expiredStreams:
  assumes "distinct (map s_stream_id (rtpmon_streams d))"
  shows "length (expiredStreams c d) = length (filter (expired c d) (rtpmon_streams d))"
proof -
  have "set (expiredStreams c d) = set (map s_stream_id (filter (expired c d) (rtpmon_streams d)))"
    using expiredStreams_set [OF assms] by auto
  moreover have "distinct (map s_stream_id (filter (expired c d) (rtpmon_streams d)))"
    using assms by (rule distinct_map_filter)
  ultimately show ?thesis by (metis distinct_card distinct_expiredStreams length_map)
qed

lemma tail_deletes:
  "sameStreams d (fst (deleteSip c d))" "sameStreams d (fst (deleteHealth c d))" "sameStreams d (fst (deleteAlarms c d))"
  by (simp_all add: sameStreams_def deleteSip_def deleteHealth_def deleteAlarms_def)

lemma noOrphans_tail [simp]:
  "noOrphans (fst (deleteSip c d)) = noOrphans d" "noOrphans (fst (deleteHealth c d)) = noOrphans d"
  "noOrphans (fst (deleteAlarms c d)) = noOrphans d"
  by (simp_all add: noOrphans_other [OF tail_deletes(1)] noOrphans_other [OF tail_deletes(2)] noOrphans_other [OF tail_deletes(3)])

text \<open>Either everything that expired is gone, or an error is returned; in both cases only the
  tables have changed and no row has lost its stream.\<close>

definition removal :: "int \<Rightarrow> 'z conn_scheme \<Rightarrow> (cleanup_stats \<times> db_error option) \<times> 'z conn_scheme \<Rightarrow> bool" where
  "removal cutoff s r \<longleftrightarrow> (\<exists>st err d os. r = ((st, err), s\<lparr>tables := d, script := os\<rparr>)
     \<and> (err = None \<longrightarrow> d = purged cutoff (tables s) \<and> StatStreams st = int (length (expiredStreams cutoff (tables s))))
     \<and> (noOrphans (tables s) \<longrightarrow> noOrphans d))"

lemma removalI:
  assumes "r = ((st, err), s\<lparr>tables := d, script := os\<rparr>)"
    "err = None \<Longrightarrow> d = purged cutoff (tables s) \<and> StatStreams st = int (length (expiredStreams cutoff (tables s)))"
    "noOrphans (tables s) \<Longrightarrow> noOrphans d"
  shows "removal cutoff s r"
  using assms unfolding removal_def by blast

lemma RemoveOldRecords_removal: "removal cutoff s (RemoveOldRecords cutoff s)"
proof (cases rule: atomicE [OF atomic_queryDb, of "expiredStreams cutoff" s])
  case (2 e os)
  then show ?thesis
    by (intro removalI [where d = "tables s" and err = "Some e" and os = os]) (simp_all add: RemoveOldRecords_def Let_def)
next
  case q: (1 os)
  let ?ids = "expiredStreams cutoff (tables s)" and ?st0 = "\<lparr>StatStreams = 0, StatChunks = 0, StatSipEvents = 0\<rparr>"
  let ?cs = "chunksOf deleteChunkStreams ?ids"
  obtain st err s2 where r: "deleteChunks ?cs ?st0 (s\<lparr>script := os\<rparr>) = ((st, err), s2)" by (metis surj_pair)
  from deleteChunks_cases [of ?cs ?st0 "s\<lparr>script := os\<rparr>"] r obtain k os1 where
    k: "s2 = s\<lparr>tables := deleteAll (concat (take k ?cs)) (tables s), script := os1\<rparr>"
      "StatStreams st = int (length (concat (take k ?cs)))" "err = None \<longleftrightarrow> k = length ?cs" by auto
  note orph = noOrphans_deleteAll [of "tables s" "concat (take k ?cs)"]
  show ?thesis
  proof (cases err)
    case (Some e)
    with q r k(1) orph show ?thesis by (intro removalI) (auto simp: RemoveOldRecords_def Let_def)
  next
    case None
    then have "concat (take k ?cs) = ?ids" using k(3) by (simp add: concat_chunksOf deleteChunkStreams_def)
    with k have s2: "s2 = s\<lparr>tables := deleteAll ?ids (tables s), script := os1\<rparr>" "StatStreams st = int (length ?ids)" by simp_all
    have start: "RemoveOldRecords cutoff s = (case exec (deleteSip cutoff) s2 of
         (Inl e, s3) \<Rightarrow> ((st, Some e), s3)
       | (Inr n, s3) \<Rightarrow> let st' = st\<lparr>StatSipEvents := n\<rparr>
           in case exec (deleteHealth cutoff) s3 of
                (Inl e, s4) \<Rightarrow> ((st', Some e), s4)
              | (Inr _, s4) \<Rightarrow> (case exec (deleteAlarms cutoff) s4 of
                   (Inl e, s5) \<Rightarrow> ((st', Some e), s5) | (Inr _, s5) \<Rightarrow> ((st', None), s5)))"
      using q r None by (simp add: RemoveOldRecords_def Let_def)
    note orph' = noOrphans_deleteAll [of "tables s" ?ids]
    let ?d3 = "fst (deleteSip cutoff (deleteAll ?ids (tables s)))"
    let ?d4 = "fst (deleteHealth cutoff ?d3)" and ?st = "st\<lparr>StatSipEvents := snd (deleteSip cutoff (deleteAll ?ids (tables s)))\<rparr>"
    show ?thesis
    proof (cases rule: atomicE [OF atomic_exec, of "deleteSip cutoff" s2])
      case (2 e os2)
      with start s2 have "RemoveOldRecords cutoff s = ((st, Some e), s\<lparr>tables := deleteAll ?ids (tables s), script := os2\<rparr>)" by simp
      then show ?thesis by (rule removalI) (use orph' in simp_all)
    next
      case sip: (1 os2)
      show ?thesis
      proof (cases rule: atomicE [OF atomic_exec, of "deleteHealth cutoff" "s\<lparr>tables := ?d3, script := os2\<rparr>"])
        case (2 e os3)
        with start sip s2 have "RemoveOldRecords cutoff s = ((?st, Some e), s\<lparr>tables := ?d3, script := os3\<rparr>)" by simp
        then show ?thesis by (rule removalI) (use orph' in simp_all)
      next
        case health: (1 os3)
        show ?thesis
        proof (cases rule: atomicE [OF atomic_exec, of "deleteAlarms cutoff" "s\<lparr>tables := ?d4, script := os3\<rparr>"])
          case (2 e os4)
          with start sip health s2 have "RemoveOldRecords cutoff s = ((?st, Some e), s\<lparr>tables := ?d4, script := os4\<rparr>)" by simp
          then show ?thesis by (rule removalI) (use orph' in simp_all)
        next
          case (1 os4)
          with start sip health s2
          have "RemoveOldRecords cutoff s = ((?st, None), s\<lparr>tables := fst (deleteAlarms cutoff ?d4), script := os4\<rparr>)" by simp
          then show ?thesis by (rule removalI) (use orph' s2(2) in \<open>simp_all add: purged_def\<close>)
        qed
      qed
    qed
  qed
qed

section \<open>Properties\<close>

text \<open>C4: Trimming to the last N calls is exact and atomic. When it succeeds, the calls left are
  the N most recently active ones, in the order the query ranks them (an evicted call is
  never more recent than a kept one), and when it fails the tables are untouched.\<close>

theorem TrimToLastNCalls_exact:
  assumes "distinct (map s_stream_id (rtpmon_streams (tables w)))" "0 < n"
    and "TrimToLastNCalls n w = (res, w')"
  shows "(res = Inr () \<longrightarrow> callsByRecency (tables w') = take (nat n) (callsByRecency (tables w)))
    \<and> (\<forall>e. res = Inl e \<longrightarrow> tables w' = tables w)
    \<and> (\<forall>k \<in> set (take (nat n) (callsByRecency (tables w))). \<forall>k' \<in> set (drop (nat n) (callsByRecency (tables w))).
         lastActive (finishedCalls (tables w)) k' \<le> lastActive (finishedCalls (tables w)) k)"
proof -
  let ?d = "tables w"
  let ?E = "set (drop (nat n) (callsByRecency ?d))"
  have "finishedCalls (deleteAll (evicted n ?d) ?d) = filter (\<lambda>c. fst c \<notin> ?E) (finishedCalls ?d)"
    using assms(1) by (rule finishedCalls_delete) (rule evicted_set)
  then have "callsByRecency (deleteAll (evicted n ?d) ?d) = filter (\<lambda>k. k \<notin> ?E) (callsByRecency ?d)"
    by (rule callsByRecency_delete)
  also have "\<dots> = take (nat n) (callsByRecency ?d)" by (rule filter_not_drop [OF distinct_callsByRecency])
  finally have gone: "callsByRecency (deleteAll (evicted n ?d) ?d) = take (nat n) (callsByRecency ?d)" .
  have fits: "callsByRecency ?d = take (nat n) (callsByRecency ?d)" if "int (length (callsByRecency ?d)) \<le> n"
    using that assms(2) by simp
  show ?thesis
    using TrimToLastNCalls_cases [of n w] assms(2,3) gone fits recency_ranked [where d = ?d and n = "nat n"] by auto
qed

definition rowFresh :: "int list \<Rightarrow> int" where
  "rowFresh ids = foldr max ids 0 + 1"

lemma rowFresh_ok: "freshOk rowFresh"
proof -
  have "i \<le> foldr max ids 0" if "i \<in> set ids" for i :: int and ids
    using that by (induction ids) auto
  then show ?thesis by (force simp: freshOk_def rowFresh_def)
qed

definition demoWriter :: writer where
  "demoWriter = snd (AddFinal rowFresh id 0 (rep0\<lparr>StreamID := sid0\<lparr>SSRC := 8\<rparr>, EndMs := 9000, SipCallID := ''b''\<rparr>)
     (snd (AddFinal rowFresh id 0 rep0 (NewWriter emptyDb [] ''i'' ''n''))))"

theorem TrimToLastNCalls_exact_witness:
  "callsByRecency (tables (snd (TrimToLastNCalls 1 demoWriter))) = [''C:b'']"
proof -
  have "distinct (map s_stream_id (rtpmon_streams (tables demoWriter)))"
    "fst (TrimToLastNCalls 1 demoWriter) = Inr ()"
    "take (nat 1) (callsByRecency (tables demoWriter)) = [''C:b'']"
    by code_simp+
  with TrimToLastNCalls_exact [of demoWriter 1, OF _ _ prod.collapse [symmetric]] show ?thesis by simp
qed

text \<open>The query for expired streams, which gathers candidates through the timestamp
  indexes first, selects exactly the streams the documented rule expires, each once.\<close>

lemma expiredStreams_correct:
  assumes "distinct (map s_stream_id (rtpmon_streams d))"
  shows "set (expiredStreams cutoff d) = s_stream_id ` {s \<in> set (rtpmon_streams d). expired cutoff d s}
    \<and> distinct (expiredStreams cutoff d)"
  using expiredStreams_set [OF assms] distinct_expiredStreams by blast

text \<open>C5: Removing old records. A pass without an error leaves exactly the streams that are not
  expired, counts the others, and drops no report or audio row at or after the cutoff; with
  or without an error, every row left still has its stream.\<close>

theorem RemoveOldRecords_exact:
  assumes "distinct (map s_stream_id (rtpmon_streams (tables s)))" "noOrphans (tables s)"
    and "RemoveOldRecords cutoff s = ((st, err), s')"
  shows "noOrphans (tables s')
    \<and> (err = None \<longrightarrow>
         rtpmon_streams (tables s') = filter (\<lambda>x. \<not> expired cutoff (tables s) x) (rtpmon_streams (tables s))
       \<and> StatStreams st = int (length (filter (expired cutoff (tables s)) (rtpmon_streams (tables s))))
       \<and> (\<forall>r \<in> set (rtpmon_intervals (tables s)). cutoff \<le> r_end_timestamp r \<longrightarrow> r \<in> set (rtpmon_intervals (tables s')))
       \<and> (\<forall>r \<in> set (rtpmon_statistics (tables s)). cutoff \<le> r_end_timestamp r \<longrightarrow> r \<in> set (rtpmon_statistics (tables s')))
       \<and> (\<forall>a \<in> set (rtpmon_audio (tables s)). cutoff \<le> a_start_timestamp a \<longrightarrow> a \<in> set (rtpmon_audio (tables s'))))"
proof -
  let ?d = "tables s"
  from RemoveOldRecords_removal [of cutoff s] assms(2,3)
  have r: "noOrphans (tables s')" "err = None \<Longrightarrow> tables s' = purged cutoff ?d"
    "err = None \<Longrightarrow> StatStreams st = int (length (expiredStreams cutoff ?d))"
    by (auto simp: removal_def)
  have "rtpmon_streams (purged cutoff ?d) = filter (\<lambda>x. \<not> expired cutoff ?d x) (rtpmon_streams ?d)"
    using expiredStreams_rule [OF assms(1), of _ cutoff] by (auto simp: purged_fields intro: filter_cong)
  moreover have "length (expiredStreams cutoff ?d) = length (filter (expired cutoff ?d) (rtpmon_streams ?d))"
    by (rule length_expiredStreams [OF assms(1)])
  ultimately show ?thesis
    using r late_row_kept [OF reportTimes_rows(1), of _ ?d cutoff] late_row_kept [OF reportTimes_rows(2), of _ ?d cutoff]
      late_row_kept [OF reportTimes_rows(3), of _ ?d cutoff]
    by (simp add: purged_fields(2-4))
qed

theorem RemoveOldRecords_exact_witness:
  "noOrphans (tables (snd (RemoveOldRecords 7000 demoWriter)))"
proof -
  have "distinct (map s_stream_id (rtpmon_streams (tables demoWriter)))" "noOrphans (tables demoWriter)" by code_simp+
  with RemoveOldRecords_exact [of demoWriter 7000 "fst (fst (RemoveOldRecords 7000 demoWriter))"
      "snd (fst (RemoveOldRecords 7000 demoWriter))" "snd (RemoveOldRecords 7000 demoWriter)"]
  show ?thesis by simp
qed

text \<open>The writer's maps outlive the records. A stream removed by retention stays in the
  writer's stream map, and its next report is stored under the removed id: a row whose
  stream does not exist, which no later pass removes.\<close>

lemma retention_then_report_orphans:
  "noOrphans (tables (snd (RemoveOldRecords 10000 demoWriter)))
   \<and> \<not> noOrphans (tables (snd (AddInterval rowFresh id 0 (rep0\<lparr>StartMs := 20000, EndMs := 25000\<rparr>)
          (snd (RemoveOldRecords 10000 demoWriter)))))
   \<and> expiredStreams 99999 (tables (snd (AddInterval rowFresh id 0 (rep0\<lparr>StartMs := 20000, EndMs := 25000\<rparr>)
          (snd (RemoveOldRecords 10000 demoWriter))))) = []"
  by code_simp

end
