(* ===== verification/Ingest.thy ===== *)
theory Ingest
  imports Registry Retention
begin

text \<open>
  Package \<^verbatim>\<open>ingest\<close> (\<^verbatim>\<open>pipeline.go\<close>) and the ghost sweeper of package \<^verbatim>\<open>worker\<close>, the two
  clients that drive the registry and the writer on the bus goroutine. What they need of
  the two is stated as the interfaces \<open>finalizer\<close> (Go's \<^verbatim>\<open>worker.Finalizer\<close>) and
  \<open>ghost_registry\<close> (Go's \<^verbatim>\<open>worker.GhostRegistry\<close>). The instance-statistics callback is a
  parameter acting on a state of its own; the errors the code logs are collected in a list.
  One clock reading is taken per dispatched event.
\<close>

type_synonym error_log = "(string \<times> db_error) list"

definition logged :: "string \<Rightarrow> db_error + 'a \<Rightarrow> error_log \<Rightarrow> error_log" where
  "logged what res lg = (case res of Inl e \<Rightarrow> lg @ [(what, e)] | Inr _ \<Rightarrow> lg)"

text \<open>The loop that writes finals, logging what fails.\<close>

fun writeFinals :: "string \<Rightarrow> (stream_report \<Rightarrow> 'w \<Rightarrow> (db_error + unit) \<times> 'w) \<Rightarrow> stream_report list
    \<Rightarrow> 'w \<times> error_log \<Rightarrow> 'w \<times> error_log" where
  "writeFinals what add [] (w, lg) = (w, lg)"
| "writeFinals what add (r # rs) (w, lg) =
     (let (res, w') = add r w in writeFinals what add rs (w', logged what res lg))"

record 'c pipeline =
  pl_writer :: writer
  pl_registry :: "registry option"
  pl_stats :: 'c
  pl_log :: error_log

definition runWriter :: "string \<Rightarrow> (writer, 'a) action \<Rightarrow> 'c pipeline \<Rightarrow> 'c pipeline" where
  "runWriter what m p = (let (res, w) = m (pl_writer p) in p\<lparr>pl_writer := w, pl_log := logged what res (pl_log p)\<rparr>)"

definition onRegistry :: "(registry \<Rightarrow> registry) \<Rightarrow> 'c pipeline \<Rightarrow> 'c pipeline" where
  "onRegistry f p = p\<lparr>pl_registry := map_option f (pl_registry p)\<rparr>"

definition restartCheck :: "(int list \<Rightarrow> int) \<Rightarrow> (string \<Rightarrow> string) \<Rightarrow> i64 \<Rightarrow> u64 \<Rightarrow> 'c pipeline \<Rightarrow> 'c pipeline" where
  "restartCheck fresh uc now uptime p =
     (case pl_registry p of
        None \<Rightarrow> p
      | Some r \<Rightarrow>
          let (r1, restarted) = NoteUptime uptime r
          in if restarted
             then let (r2, finals) = DrainAll r1;
                      (w, lg) = writeFinals ''add_final (ghost) failed'' (AddFinal fresh uc now) finals (pl_writer p, pl_log p)
                  in p\<lparr>pl_registry := Some r2, pl_writer := w, pl_log := lg\<rparr>
             else p\<lparr>pl_registry := Some r1\<rparr>)"

fun Dispatch :: "(int list \<Rightarrow> int) \<Rightarrow> (string \<Rightarrow> string) \<Rightarrow> (instance_statistics \<Rightarrow> 'c \<Rightarrow> 'c) option \<Rightarrow> i64
    \<Rightarrow> domain_event \<Rightarrow> 'c pipeline \<Rightarrow> 'c pipeline" where
  "Dispatch fresh uc cb now (EvStreamStart sid) p =
     onRegistry (OnStreamDetected sid now) (runWriter ''open_stream failed'' (OpenStreamAt fresh sid now) p)"
| "Dispatch fresh uc cb now (EvStreamReport r) p =
     (if FullReport r
      then onRegistry (OnFinished r) (runWriter ''add_final failed'' (AddFinal fresh uc now r) p)
      else onRegistry (OnReport r now) (runWriter ''add_interval failed'' (AddInterval fresh uc now r) p))"
| "Dispatch fresh uc cb now (EvStreamAudio a) p = runWriter ''add_audio failed'' (AddAudio fresh a) p"
| "Dispatch fresh uc cb now (EvSipCallStart e) p = runWriter ''add_sip_call_start failed'' (AddSipCallStart fresh e) p"
| "Dispatch fresh uc cb now (EvSipCallEnd e) p = runWriter ''add_sip_call_end failed'' (AddSipCallEnd fresh e) p"
| "Dispatch fresh uc cb now (EvSipReinvite e) p = runWriter ''add_sip_reinvite failed'' (AddSipReinvite fresh e) p"
| "Dispatch fresh uc cb now (EvSipCallFailed e) p = runWriter ''add_sip_call_failed failed'' (AddSipCallFailed fresh e) p"
| "Dispatch fresh uc cb now (EvCallHealth e) p = runWriter ''add_call_health failed'' (AddCallHealth fresh e) p"
| "Dispatch fresh uc cb now (EvInstanceStatistics s) p =
     restartCheck fresh uc now (UptimeSeconds s)
       (case cb of None \<Rightarrow> p | Some f \<Rightarrow> p\<lparr>pl_stats := f s (pl_stats p)\<rparr>)"
| "Dispatch fresh uc cb now (EvEspSa e) p = p"

section \<open>The ghost sweeper\<close>

record ghost_sweeper =
  gs_idleMs :: i64
  gs_interval :: int
  gs_nextAt :: "int option"

definition NewGhostSweeper :: "i64 \<Rightarrow> int \<Rightarrow> ghost_sweeper" where
  "NewGhostSweeper idleS interval =
     \<lparr>gs_idleMs = idleS * 1000, gs_interval = (if interval \<le> 0 then 30 * 10 ^ 9 else interval), gs_nextAt = None\<rparr>"

text \<open>\<^verbatim>\<open>Tick\<close> with the sweeper's clock in nanoseconds; the registry and the writer are the
  operations it was built over.\<close>

definition Tick :: "(i64 \<Rightarrow> 'r \<Rightarrow> 'r \<times> stream_report list) \<Rightarrow> (stream_report \<Rightarrow> 'w \<Rightarrow> (db_error + unit) \<times> 'w) \<Rightarrow> int
    \<Rightarrow> ghost_sweeper \<Rightarrow> 'r \<Rightarrow> 'w \<times> error_log \<Rightarrow> ghost_sweeper \<times> 'r \<times> ('w \<times> error_log)" where
  "Tick sweep add now g r wl =
     (if (case gs_nextAt g of Some t \<Rightarrow> now < t | None \<Rightarrow> False) then (g, r, wl)
      else let (r', finals) = sweep (gs_idleMs g) r
           in (g\<lparr>gs_nextAt := Some (now + gs_interval g)\<rparr>, r', writeFinals ''ghost AddFinal failed'' add finals wl))"

section \<open>What the clients rely on\<close>

locale finalizer =
  fixes addFinal :: "stream_report \<Rightarrow> 'w \<Rightarrow> (db_error + unit) \<times> 'w" and okW :: "'w \<Rightarrow> bool"
  assumes addFinal_keeps: "okW w \<Longrightarrow> okW (snd (addFinal r w))"
begin

lemma writeFinals_keeps: "okW (fst wl) \<Longrightarrow> okW (fst (writeFinals what addFinal rs wl))"
proof (induction rs arbitrary: wl)
  case Nil
  then show ?case by (cases wl) simp
next
  case (Cons r rs)
  show ?case
    using Cons.IH [of "(snd (addFinal r (fst wl)), logged what (fst (addFinal r (fst wl))) (snd wl))"]
      addFinal_keeps [OF Cons.prems, of r]
    by (cases wl) (simp add: split_beta)
qed

lemma writeFinals_logs: "\<exists>zs. snd (writeFinals what addFinal rs wl) = snd wl @ zs \<and> length zs \<le> length rs"
proof (induction rs arbitrary: wl)
  case Nil
  then show ?case by (cases wl) simp
next
  case (Cons r rs)
  obtain w lg where wl: "wl = (w, lg)" by (cases wl)
  from Cons.IH [of "(snd (addFinal r w), logged what (fst (addFinal r w)) lg)"] show ?case
    by (auto simp: wl split_beta logged_def split: sum.splits)
qed

end

locale ghost_registry =
  fixes sweep :: "i64 \<Rightarrow> 'r \<Rightarrow> 'r \<times> stream_report list" and okR :: "'r \<Rightarrow> bool"
  assumes sweep_keeps: "okR r \<Longrightarrow> okR (fst (sweep idle r))"
    and sweep_full: "okR r \<Longrightarrow> list_all FullReport (snd (sweep idle r))"

locale ghost_client = finalizer addFinal okW + ghost_registry sweep okR
  for addFinal :: "stream_report \<Rightarrow> 'w \<Rightarrow> (db_error + unit) \<times> 'w" and okW :: "'w \<Rightarrow> bool"
    and sweep :: "i64 \<Rightarrow> 'r \<Rightarrow> 'r \<times> stream_report list" and okR :: "'r \<Rightarrow> bool"
begin

lemma Tick_keeps:
  assumes "okR r" "okW (fst wl)" "Tick sweep addFinal now g r wl = (g', r', wl')"
  shows "okR r' \<and> okW (fst wl')"
  using assms sweep_keeps [OF assms(1), of "gs_idleMs g"] writeFinals_keeps [OF assms(2)]
  by (auto simp: Tick_def split_beta split: if_splits)

lemma Tick_throttled:
  assumes "Tick sweep addFinal now g r wl = (g', r', wl')" "gs_nextAt g' \<noteq> gs_nextAt g" "0 < gs_interval g"
    and "now \<le> t" "t < now + gs_interval g"
  shows "Tick sweep addFinal t g' r' wl' = (g', r', wl')"
  using assms by (auto simp: Tick_def split_beta split: if_splits option.splits)

end

interpretation writer_final: finalizer "AddFinal fresh uc now" "\<lambda>w. freshOk fresh \<and> writerInv R w" for fresh uc now R
  by unfold_locales (auto intro: AddFinal_keeps)

interpretation registry_sweep: ghost_registry "\<lambda>idle. SweepGhostsAt idle now" regInv for now
proof unfold_locales
  show "regInv r \<Longrightarrow> regInv (fst (SweepGhostsAt idle now r))" for r idle
    by (rule SweepGhostsAt_refines)
  show "regInv r \<Longrightarrow> list_all FullReport (snd (SweepGhostsAt idle now r))" for r idle
    using SweepGhostsAt_refines(2) [of r idle now]
    by (auto simp: spec_evict_def list_all_iff prod_eq_iff)
qed

interpretation sweeper: ghost_client "AddFinal fresh uc wnow" "\<lambda>w. freshOk fresh \<and> writerInv R w"
    "\<lambda>idle. SweepGhostsAt idle rnow" regInv for fresh uc wnow R rnow
  by unfold_locales

section \<open>The pipeline keeps both invariants\<close>

definition pipeInv :: "int set \<Rightarrow> 'c pipeline \<Rightarrow> bool" where
  "pipeInv R p \<longleftrightarrow> writerInv R (pl_writer p) \<and> (\<forall>r \<in> set_option (pl_registry p). regInv r)"

definition stamps :: "'c pipeline \<Rightarrow> int" where
  "stamps p = (case pl_registry p of Some r \<Rightarrow> order_ctr r | None \<Rightarrow> 0)"

lemma runWriter_keeps:
  assumes "writerInv R (pl_writer p) \<Longrightarrow> writerInv R (snd (m (pl_writer p)))" "pipeInv R p"
  shows "pipeInv R (runWriter what m p)"
  using assms by (auto simp: pipeInv_def runWriter_def split_beta)

lemma stamps_runWriter [simp]: "stamps (runWriter what m p) = stamps p"
  by (simp add: stamps_def runWriter_def split_beta)

lemma onRegistry_keeps:
  assumes "pipeInv R p" "stamps p < maxInt64"
    and "\<And>r. regInv r \<Longrightarrow> order_ctr r < maxInt64 \<Longrightarrow> regInv (f r) \<and> order_ctr (f r) \<le> order_ctr r + 1"
  shows "pipeInv R (onRegistry f p) \<and> stamps (onRegistry f p) \<le> stamps p + 1"
  using assms by (cases "pl_registry p") (auto simp: pipeInv_def stamps_def onRegistry_def)

lemma registry_ops_keep:
  assumes "regInv r" "order_ctr r < maxInt64"
  shows "regInv (OnStreamDetected sid now r) \<and> order_ctr (OnStreamDetected sid now r) \<le> order_ctr r + 1"
    "regInv (OnReport rp now r) \<and> order_ctr (OnReport rp now r) \<le> order_ctr r + 1"
    "regInv (OnFinished rp r) \<and> order_ctr (OnFinished rp r) \<le> order_ctr r + 1"
  using step_refines(1) [OF assms, of "Detected sid now"] order_step [OF assms, of "Detected sid now"]
    step_refines(1) [OF assms, of "Reported rp now"] order_step [OF assms, of "Reported rp now"]
    step_refines(1) [OF assms, of "Finalised rp"] order_step [OF assms, of "Finalised rp"]
  by simp_all

lemma restartCheck_keeps:
  assumes "pipeInv R p" "freshOk fresh"
  shows "pipeInv R (restartCheck fresh uc now u p) \<and> stamps (restartCheck fresh uc now u p) = stamps p"
proof (cases "pl_registry p")
  case None
  then show ?thesis using assms by (simp add: restartCheck_def)
next
  case (Some r)
  let ?r1 = "r\<lparr>lastUptime := Some u\<rparr>"
  have r1: "regInv ?r1" using assms Some by (simp add: pipeInv_def)
  have drain: "regInv (fst (DrainAll ?r1))" "order_ctr (fst (DrainAll ?r1)) = order_ctr r"
    using DrainAll_refines(1) [OF r1] by (simp_all add: DrainAll_def evict_keeps)
  have "writerInv R (fst (writeFinals what (AddFinal fresh uc now) fs (pl_writer p, pl_log p)))" for what fs
    using writer_final.writeFinals_keeps [of fresh R "(pl_writer p, pl_log p)" what uc now fs] assms
    by (simp add: pipeInv_def)
  with drain r1 Some assms show ?thesis
    by (auto simp: restartCheck_def NoteUptime_def pipeInv_def stamps_def split_beta Let_def)
qed

lemma sip_events_keep: "writerInv R w \<Longrightarrow> writerInv R (snd (AddSipCallStart fresh a w))"
  "writerInv R w \<Longrightarrow> writerInv R (snd (AddSipCallEnd fresh b w))"
  "writerInv R w \<Longrightarrow> writerInv R (snd (AddSipReinvite fresh c w))"
  "writerInv R w \<Longrightarrow> writerInv R (snd (AddSipCallFailed fresh d w))"
  by (simp_all add: AddSipCallStart_def AddSipCallEnd_def AddSipReinvite_def AddSipCallFailed_def insertSip_keeps)

lemma Dispatch_keeps:
  assumes "pipeInv R p" "freshOk fresh" "stamps p < maxInt64"
  shows "pipeInv R (Dispatch fresh uc cb now ev p) \<and> stamps (Dispatch fresh uc cb now ev p) \<le> stamps p + 1"
proof (cases ev)
  case (EvStreamStart sid)
  have "pipeInv R (runWriter ''open_stream failed'' (OpenStreamAt fresh sid now) p)"
    using assms OpenStreamAt_keeps by (intro runWriter_keeps) auto
  then show ?thesis using EvStreamStart assms(3) registry_ops_keep(1)
    by (simp del: One_nat_def) (rule onRegistry_keeps [where p = "runWriter _ _ p", simplified], auto)
next
  case (EvStreamReport r)
  have "pipeInv R (runWriter ''add_final failed'' (AddFinal fresh uc now r) p)"
    "pipeInv R (runWriter ''add_interval failed'' (AddInterval fresh uc now r) p)"
    using assms by (auto intro!: runWriter_keeps AddFinal_keeps AddInterval_keeps)
  then show ?thesis
    using EvStreamReport assms(3) onRegistry_keeps [of R "runWriter ''add_final failed'' (AddFinal fresh uc now r) p" "OnFinished r"]
      onRegistry_keeps [of R "runWriter ''add_interval failed'' (AddInterval fresh uc now r) p" "OnReport r now"]
      registry_ops_keep(2,3) by simp
next
  case (EvInstanceStatistics s)
  have "pipeInv R (case cb of None \<Rightarrow> p | Some f \<Rightarrow> p\<lparr>pl_stats := f s (pl_stats p)\<rparr>)"
    "stamps (case cb of None \<Rightarrow> p | Some f \<Rightarrow> p\<lparr>pl_stats := f s (pl_stats p)\<rparr>) = stamps p"
    using assms by (auto simp: pipeInv_def stamps_def split: option.splits)
  with restartCheck_keeps [OF this(1) assms(2)] EvInstanceStatistics show ?thesis by simp
qed (use assms in \<open>auto intro!: runWriter_keeps AddAudio_keeps sip_events_keep AddCallHealth_keeps\<close>)

fun ingestRun :: "(int list \<Rightarrow> int) \<Rightarrow> (string \<Rightarrow> string) \<Rightarrow> (instance_statistics \<Rightarrow> 'c \<Rightarrow> 'c) option
    \<Rightarrow> (i64 \<times> domain_event) list \<Rightarrow> 'c pipeline \<Rightarrow> 'c pipeline" where
  "ingestRun fresh uc cb [] p = p"
| "ingestRun fresh uc cb ((now, ev) # evs) p = ingestRun fresh uc cb evs (Dispatch fresh uc cb now ev p)"

lemma ingestRun_keeps:
  assumes "pipeInv R p" "freshOk fresh" "stamps p + int (length evs) \<le> maxInt64"
  shows "pipeInv R (ingestRun fresh uc cb evs p)"
  using assms
proof (induction evs arbitrary: p)
  case (Cons x evs)
  obtain now ev where x: "x = (now, ev)" by (cases x)
  have "stamps p < maxInt64" using Cons.prems(3) by simp
  from Dispatch_keeps [OF Cons.prems(1,2) this, of uc cb now ev] Cons.prems show ?case
    by (simp add: x Cons.IH)
qed simp

definition newPipeline :: "outcome list \<Rightarrow> string \<Rightarrow> string \<Rightarrow> 'c \<Rightarrow> 'c pipeline" where
  "newPipeline os aid name c =
     \<lparr>pl_writer = NewWriter emptyDb os aid name, pl_registry = Some (NewActiveStreamRegistry aid name), pl_stats = c, pl_log = []\<rparr>"

section \<open>A database that answers\<close>

lemma exec_idle: "script s = [] \<Longrightarrow> exec stmt s = (Inr (snd (stmt (tables s))), s\<lparr>tables := fst (stmt (tables s))\<rparr>)"
  by (simp add: exec_def busyRetryDelays_def attempt_def split_beta)

lemma queryDb_idle: "script s = [] \<Longrightarrow> queryDb q s = (Inr (q (tables s)), s)"
  by (simp add: queryDb_def attempt_def)

definition calm :: "writer \<Rightarrow> bool" where
  "calm w \<longleftrightarrow> script w = [] \<and> storeSipFilter w = [] \<and> recordsLimit w = 0"

lemma FindOrAddAgent_idle:
  assumes "calm w"
  shows "\<exists>i w'. FindOrAddAgent fresh a n w = (Inr i, w') \<and> calm w' \<and> streamMap w' = streamMap w
    \<and> rtpmon_statistics (tables w') = rtpmon_statistics (tables w)"
  using assms
  by (cases "map_of (agentCache w) a"; cases "selectAgent a (tables w)")
    (simp_all add: FindOrAddAgent_def andThen_def queryDb_idle exec_idle ret_def calm_def insertAgent_def Let_def)

lemma OpenStreamAt_idle:
  assumes "calm w"
  shows "\<exists>i w'. OpenStreamAt fresh sid now w = (Inr i, w') \<and> calm w' \<and> set (streamMap w) \<subseteq> set (streamMap w')
    \<and> (sid, i) \<in> set (streamMap w') \<and> rtpmon_statistics (tables w') = rtpmon_statistics (tables w)"
proof (cases "map_of (streamMap w) sid")
  case (Some i)
  then show ?thesis using assms by (auto simp: OpenStreamAt_def dest: map_of_SomeD)
next
  case None
  obtain ag w1 where w1: "FindOrAddAgent fresh (defaultAgentID w) (defaultAgentName w) w = (Inr ag, w1)" "calm w1"
    "streamMap w1 = streamMap w" "rtpmon_statistics (tables w1) = rtpmon_statistics (tables w)"
    using FindOrAddAgent_idle [OF assms] by blast
  have "set (AList.update sid i (streamMap w)) = insert (sid, i) (set (streamMap w))" for i
    using None by (intro update_new) auto
  with w1 None show ?thesis
    by (auto simp: OpenStreamAt_def andThen_def exec_idle calm_def insertStream_def Let_def)
qed

lemma maybeUpdateSip_idle:
  assumes "calm w"
  shows "\<exists>w'. maybeUpdateSip r w = (Inr (), w') \<and> calm w' \<and> streamMap w' = streamMap w
    \<and> rtpmon_statistics (tables w') = rtpmon_statistics (tables w)"
  using assms by (cases "SipCallID r = []"; cases "map_of (streamMap w) (StreamID r)")
    (simp_all add: maybeUpdateSip_def exec_idle calm_def updateSip_def)

lemma AddFinal_idle:
  assumes "calm w"
  shows "\<exists>i w'. AddFinal fresh uc now r w = (Inr (), w') \<and> calm w' \<and> set (streamMap w) \<subseteq> set (streamMap w')
    \<and> (StreamID r, i) \<in> set (streamMap w')
    \<and> rtpmon_statistics (tables w') = rtpmon_statistics (tables w) @ [reportRow i r]"
proof -
  obtain i w1 where w1: "OpenStreamAt fresh (StreamID r) now w = (Inr i, w1)" "calm w1"
    "set (streamMap w) \<subseteq> set (streamMap w1)" "(StreamID r, i) \<in> set (streamMap w1)"
    "rtpmon_statistics (tables w1) = rtpmon_statistics (tables w)"
    using OpenStreamAt_idle [OF assms] by blast
  let ?w2 = "w1\<lparr>tables := fst (insertReport Table_statistics (reportRow i r) (tables w1))\<rparr>"
  have two: "addReport fresh now r Table_statistics w = (Inr (), ?w2)" "calm ?w2"
    using w1 by (simp_all add: addReport_def andThen_def exec_idle calm_def)
  obtain w3 where three: "maybeUpdateSip r ?w2 = (Inr (), w3)" "calm w3" "streamMap w3 = streamMap w1"
    "rtpmon_statistics (tables w3) = rtpmon_statistics (tables ?w2)"
    using maybeUpdateSip_idle [OF two(2), of r] by auto
  from assms two three have "AddFinal fresh uc now r w = (Inr (), w3)"
    by (simp add: AddFinal_def sipFilterActive_def andThen_def calm_def)
  with w1 three show ?thesis by auto
qed

lemma writeFinals_idle:
  assumes "calm w"
  shows "\<exists>is w'. writeFinals what (AddFinal fresh uc now) rs (w, lg) = (w', lg) \<and> calm w'
    \<and> set (streamMap w) \<subseteq> set (streamMap w') \<and> list_all2 (\<lambda>i r. (StreamID r, i) \<in> set (streamMap w')) is rs
    \<and> rtpmon_statistics (tables w') = rtpmon_statistics (tables w) @ map2 reportRow is rs"
  using assms
proof (induction rs arbitrary: w)
  case Nil
  then show ?case by (intro exI [of _ "[]"]) simp
next
  case (Cons r rs)
  obtain i w1 where w1: "AddFinal fresh uc now r w = (Inr (), w1)" "calm w1" "set (streamMap w) \<subseteq> set (streamMap w1)"
    "(StreamID r, i) \<in> set (streamMap w1)" "rtpmon_statistics (tables w1) = rtpmon_statistics (tables w) @ [reportRow i r]"
    using AddFinal_idle [OF Cons.prems] by blast
  from Cons.IH [OF w1(2)] obtain js w' where "writeFinals what (AddFinal fresh uc now) rs (w1, lg) = (w', lg)" "calm w'"
    "set (streamMap w1) \<subseteq> set (streamMap w')" "list_all2 (\<lambda>i r. (StreamID r, i) \<in> set (streamMap w')) js rs"
    "rtpmon_statistics (tables w') = rtpmon_statistics (tables w1) @ map2 reportRow js rs" by blast
  with w1 show ?case by (intro exI [of _ "i # js"] exI [of _ w']) (auto simp: logged_def)
qed

section \<open>Properties\<close>

text \<open>C3: A restart of vq-core finalises what it orphaned. When the reported uptime drops, the
  registry ends empty and, if the database answers and neither the SIP filter nor a records
  limit is set, each active stream that had reported gets one final row in the statistics,
  in order of appearance, under the id of its stream, and nothing is logged.\<close>

theorem restart_finalises:
  assumes "pl_registry p = Some r" "regInv r" "lastUptime r = Some u" "UptimeSeconds s < u" "calm (pl_writer p)"
    and "p' = Dispatch fresh uc cb now (EvInstanceStatistics s) p"
    and "active = filter (\<lambda>(k, rs, seen). rs \<noteq> []) (regDict r)"
  shows "map_option regDict (pl_registry p') = Some [] \<and> pl_log p' = pl_log p
    \<and> (\<exists>is. list_all2 (\<lambda>i k. (k, i) \<in> set (streamMap (pl_writer p'))) is (map fst active)
         \<and> rtpmon_statistics (tables (pl_writer p')) = rtpmon_statistics (tables (pl_writer p)) @ map2 reportRow is (map finalOf active))"
proof -
  let ?r1 = "r\<lparr>lastUptime := Some (UptimeSeconds s)\<rparr>"
  have r1: "regInv ?r1" using assms(2) by simp
  have drain: "regDict (fst (DrainAll ?r1)) = []" "snd (DrainAll ?r1) = map finalOf active"
    using DrainAll_refines(2) [OF r1] assms(7) by (auto simp: spec_evict_def prod_eq_iff)
  obtain "is" w' where wf: "writeFinals ''add_final (ghost) failed'' (AddFinal fresh uc now) (map finalOf active) (pl_writer p, pl_log p) = (w', pl_log p)"
    "list_all2 (\<lambda>i r. (StreamID r, i) \<in> set (streamMap w')) is (map finalOf active)"
    "rtpmon_statistics (tables w') = rtpmon_statistics (tables (pl_writer p)) @ map2 reportRow is (map finalOf active)"
    using writeFinals_idle [OF assms(5)] by blast
  have "Dispatch fresh uc cb now (EvInstanceStatistics s) p
      = (case cb of None \<Rightarrow> p | Some f \<Rightarrow> p\<lparr>pl_stats := f s (pl_stats p)\<rparr>)\<lparr>pl_registry := Some (fst (DrainAll ?r1)), pl_writer := w', pl_log := pl_log p\<rparr>"
    using assms(1,3,4) wf(1) drain(2)
    by (cases cb) (simp_all add: restartCheck_def NoteUptime_def split_beta Let_def)
  with drain(1) wf(2,3) assms(6) show ?thesis
    by (cases cb) (auto simp: list.rel_map)
qed

theorem restart_finalises_witness:
  "let s = \<lparr>InstanceID = [], InstanceName = [], ServerTime = [], InstanceVersion = [], UptimeSeconds = 3,
      PvqaInstanceCounter = 0, PvqaProcessedSeconds = 0, ActiveDecoderCounter = 0, ActiveAudioDecoderCounter = 0,
      TotalDecoderCounter = 0, Capturers = [], SipCallCounter = 0, ResipMessageCounter = 0, ResipSipMessageCounter = 0,
      MemAllocatedBytes = 0, MemHeapSize = 0, MemPageheapFreeBytes = 0, MemAllocCount = 0, MemFreeCount = 0,
      MemAllocsPerSec = Fin False 0, MemFreesPerSec = Fin False 0, CpuUserSeconds = Fin False 0,
      CpuSystemSeconds = Fin False 0, CpuUsagePercent = Fin False 0\<rparr>;
     r = (OnReport rep0 10 (NewActiveStreamRegistry [] []))\<lparr>lastUptime := Some 50\<rparr>
   in map_option regDict (pl_registry (Dispatch rowFresh id None 60 (EvInstanceStatistics s)
        \<lparr>pl_writer = NewWriter emptyDb [] [] [], pl_registry = Some r, pl_stats = (), pl_log = []\<rparr>)) = Some []"
proof -
  have inv: "regInv (OnReport rep0 10 (NewActiveStreamRegistry [] []))"
    by (rule OnReport_refines(1) [OF regInv_new]) (simp add: NewActiveStreamRegistry_def maxInt64_def)
  show ?thesis
    unfolding Let_def
    by (rule restart_finalises [where u = 50 and r = "(OnReport rep0 10 (NewActiveStreamRegistry [] []))\<lparr>lastUptime := Some 50\<rparr>",
          OF _ _ _ _ _ refl refl, THEN conjunct1])
      (simp_all add: inv calm_def NewWriter_def)
qed

text \<open>The ghost sweeper is throttled and safe: a tick keeps the registry and writer
  invariants whatever the database answers, and after a tick that swept, every tick before
  the interval has passed changes nothing.\<close>

lemma ghost_tick_safe:
  assumes "regInv r" "freshOk fresh" "writerInv R w"
    and "Tick (\<lambda>idle. SweepGhostsAt idle rnow) (AddFinal fresh uc wnow) now g r (w, lg) = (g', r', w', lg')"
  shows "regInv r' \<and> writerInv R w'
    \<and> (gs_nextAt g' \<noteq> gs_nextAt g \<and> 0 < gs_interval g \<longrightarrow>
        (\<forall>t rs. now \<le> t \<and> t < now + gs_interval g \<longrightarrow>
          Tick (\<lambda>idle. SweepGhostsAt idle rnow) (AddFinal fresh uc wnow) t g' r' (w', lg') = (g', r', w', lg')))"
  using sweeper.Tick_keeps [OF assms(1), of fresh R "(w, lg)", OF _ assms(4)] assms(2,3)
    sweeper.Tick_throttled [OF assms(4)] by auto

end
