(* ===== verification/Translate.thy ===== *)
theory Translate
  imports Model_Types
begin

text \<open>
  Decoding bus messages (\<^verbatim>\<open>translate/translate.go\<close>). The protobuf messages of the generated package
  are records with the fields the translation reads; a sub-message pointer is an \<open>option\<close>, and the
  generated getters answer the zero value on a missing message. A \<^verbatim>\<open>float32\<close> is given by the
  \<^verbatim>\<open>float64\<close> of the same value. \<^verbatim>\<open>net.IP.String\<close> is modelled for the two lengths that occur.
  The lemmas show which events are dropped and that distinct IPv4 addresses get distinct texts.
\<close>

section \<open>Messages\<close>

record pb_ip =
  pbIPv6 :: bool
  pbIp :: string
  pbPort :: u32

record pb_stream_id =
  pbSrc :: "pb_ip option"
  pbDst :: "pb_ip option"
  pbSsrc :: u32
  pbUuid :: string

record pb_sip_info =
  pbCallId :: string
  pbPeer1 :: string
  pbPeer2 :: string

record pb_dtx =
  pbSid :: u64
  pbDtx :: u64
  pbTotal :: u64

record pb_stream =
  pbStreamId :: "pb_stream_id option"
  pbRtp :: u64
  pbIllegal :: u64
  pbLost :: u64
  pbCodec :: string
  pbStart :: u64
  pbFinish :: u64
  pbStartStream :: u64
  pbDurationAudio :: f64
  pbRfactor :: f64
  pbIntervalReport :: string
  pbSip :: "pb_sip_info option"
  pbDtxInfo :: "pb_dtx option"
  pbJitter :: "f64 option"
  pbRtt :: "f64 option"
  pbMosNetwork :: "f64 option"
  pbMosSevana :: "f64 option"

text \<open>A \<^verbatim>\<open>MetricStats\<close> sub-message is given by its \<^verbatim>\<open>current\<close> value, the only field that is read.\<close>

record pb_audio =
  pbAudioStream :: "pb_stream_id option"
  pbWav :: string
  pbAudioStart :: u64
  pbAudioFinish :: u64

record pb_peer =
  pbAor :: string
  pbUserAgent :: string
  pbCodecs :: string
  pbPeerSsrc :: u32

record pb_call_start =
  pbCsCallId :: string
  pbCsTimestamp :: u64
  pbCsInvite :: u64
  pbCsSetup :: u32
  pbCsCaller :: "pb_peer option"
  pbCsCallee :: "pb_peer option"

record pb_call_end =
  pbCeCallId :: string
  pbCeTimestamp :: u64
  pbCeDuration :: u64
  pbCeBye :: int
  pbCeCodes :: "u32 list"
  pbCeHasBye :: bool

record pb_reinvite =
  pbRiCallId :: string
  pbRiTimestamp :: u64
  pbRiRequest :: bool
  pbRiDirection :: int
  pbRiPeer :: "pb_peer option"
  pbRiRaw :: string

record pb_call_failed =
  pbCfCallId :: string
  pbCfTimestamp :: u64
  pbCfInvite :: u64
  pbCfReason :: int
  pbCfCode :: u32
  pbCfPhrase :: string
  pbCfCaller :: "pb_peer option"
  pbCfCallee :: "pb_peer option"

text \<open>A warning's code is the name of its enum value (\<^verbatim>\<open>w.GetCode().String()\<close>).\<close>

record pb_warning =
  pbWCode :: string
  pbWTag :: string
  pbWExplanation :: string
  pbWStreams :: "string list"

record pb_health =
  pbHCallId :: string
  pbHTimestamp :: u64
  pbHStreams :: u32
  pbHWarnings :: "pb_warning list"

record pb_esp =
  pbSpis :: "u32 list"
  pbEspDst :: "pb_ip option"
  pbEncAlg :: string
  pbAuthAlg :: string
  pbEspSource :: u32
  pbEncKey :: string

record pb_capture =
  pbDevice :: string
  pbTotalPackets :: u64
  pbRtpPackets :: u64
  pbSipPackets :: u64
  pbTruncated :: u64
  pbSrcRange :: string
  pbDstRange :: string
  pbDroppedHw :: u64
  pbErroneous :: u64
  pbMbufFailed :: u64

record pb_instance =
  pbId :: string
  pbName :: string
  pbServerTime :: string
  pbVersion :: string
  pbUptime :: u64
  pbPvqaInstances :: u64
  pbPvqaSeconds :: u64
  pbActiveDecoders :: u64
  pbActiveAudioDecoders :: u64
  pbTotalDecoders :: u64
  pbCapturers :: "pb_capture list"
  pbSipCalls :: u64
  pbResipMessages :: u64
  pbResipSipMessages :: u64
  pbMemAllocated :: u64
  pbMemHeap :: u64
  pbMemPageheapFree :: u64
  pbMemAllocs :: u64
  pbMemFrees :: u64
  pbMemAllocsRate :: f64
  pbMemFreesRate :: f64
  pbCpuUser :: f64
  pbCpuSystem :: f64
  pbCpuUsage :: f64

text \<open>
  The sub-messages of an \<^verbatim>\<open>Event\<close>; the payloads the program ignores (\<^verbatim>\<open>capture_stats\<close>,
  \<^verbatim>\<open>stream_ghost\<close>) are \<open>evOther\<close>.
\<close>

record pb_event =
  evStreamStart :: "pb_stream_id option option"
  evStreamReport :: "pb_stream option"
  evStreamFinish :: "pb_stream option option"
  evStreamAudio :: "pb_audio option"
  evInstanceStats :: "pb_instance option"
  evSipCallStart :: "pb_call_start option"
  evSipCallEnd :: "pb_call_end option"
  evSipReinvite :: "pb_reinvite option"
  evSipCallFailed :: "pb_call_failed option"
  evCallHealth :: "pb_health option"
  evEspSa :: "pb_esp option"
  evOther :: bool

section \<open>Addresses\<close>

definition byteOf :: "char \<Rightarrow> nat" where "byteOf c = of_char c"

text \<open>\<^verbatim>\<open>copy(buf, raw)\<close> into a zeroed buffer of \<open>n\<close> bytes.\<close>

definition padTo :: "nat \<Rightarrow> string \<Rightarrow> string" where
  "padTo n raw = take n raw @ replicate (n - length raw) (CHR 0x00)"

definition dotted :: "string \<Rightarrow> string" where
  "dotted bs = strings_Join (map (\<lambda>b. decimalNat (byteOf b)) bs) ''.''"

fun groups :: "string \<Rightarrow> nat list" where
  "groups (a # b # r) = (byteOf a * 256 + byteOf b) # groups r"
| "groups _ = []"

fun hexNat :: "nat \<Rightarrow> string" where
  "hexNat n = (if n < 16 then [''0123456789abcdef'' ! n] else hexNat (n div 16) @ [''0123456789abcdef'' ! (n mod 16)])"

declare hexNat.simps [simp del]

text \<open>The first longest run of at least two zero groups, as its start and end.\<close>

definition zeroRun :: "nat list \<Rightarrow> (nat \<times> nat) option" where
  "zeroRun gs =
     fold (\<lambda>i best.
         let l = length (takeWhile (\<lambda>g. g = 0) (drop i gs));
             bestLen = (case best of None \<Rightarrow> 0 | Some (a, b) \<Rightarrow> b - a)
         in if 2 \<le> l \<and> bestLen < l then Some (i, i + l) else best)
       [0..<length gs] None"

definition ipv6Text :: "nat list \<Rightarrow> string" where
  "ipv6Text gs =
     (case zeroRun gs of
        None \<Rightarrow> strings_Join (map hexNat gs) '':''
      | Some (a, b) \<Rightarrow> strings_Join (map hexNat (take a gs)) '':'' @ ''::'' @ strings_Join (map hexNat (drop b gs)) '':'')"

text \<open>\<^verbatim>\<open>net.IP.String\<close> of a buffer of 4 or 16 bytes; an IPv4-mapped address prints as IPv4.\<close>

definition ipText :: "string \<Rightarrow> string" where
  "ipText buf =
     (if length buf = 4 then dotted buf
      else if take 10 buf = replicate 10 (CHR 0x00) \<and> take 2 (drop 10 buf) = [CHR 0xFF, CHR 0xFF]
           then dotted (drop 12 buf)
      else ipv6Text (groups buf))"

definition ipString :: "pb_ip option \<Rightarrow> string" where
  "ipString msg =
     (case msg of
        None \<Rightarrow> ipText (padTo 4 [])
      | Some m \<Rightarrow> ipText (padTo (if pbIPv6 m then 16 else 4) (pbIp m)))"

lemma ipString_examples:
  "ipString (Some \<lparr>pbIPv6 = False, pbIp = [CHR 0x0A, CHR 0x00, CHR 0x00, CHR 0x01], pbPort = 0\<rparr>) = ''10.0.0.1''"
  "ipString (Some \<lparr>pbIPv6 = True, pbIp = [CHR 0x00, CHR 0x02, CHR 0x00, CHR 0x1F], pbPort = 0\<rparr>) = ''2:1f::''"
  "ipString (Some \<lparr>pbIPv6 = True, pbIp = replicate 15 (CHR 0x00) @ [CHR 0x01], pbPort = 0\<rparr>) = ''::1''"
  "ipString None = ''0.0.0.0''"
  by code_simp+

section \<open>Translation\<close>

definition i64_of :: "u64 \<Rightarrow> i64" where "i64_of u = u"

definition portOf :: "pb_ip option \<Rightarrow> u32" where
  "portOf m = (case m of None \<Rightarrow> 0 | Some p \<Rightarrow> pbPort p)"

definition streamID :: "pb_stream_id option \<Rightarrow> media_stream_id" where
  "streamID msg =
     (let src = (case msg of None \<Rightarrow> None | Some m \<Rightarrow> pbSrc m);
          dst = (case msg of None \<Rightarrow> None | Some m \<Rightarrow> pbDst m)
      in \<lparr>SrcIP = ipString src, SrcPort = portOf src, DstIP = ipString dst, DstPort = portOf dst,
          SSRC = (case msg of None \<Rightarrow> 0 | Some m \<Rightarrow> pbSsrc m),
          LinkID = (case msg of None \<Rightarrow> [] | Some m \<Rightarrow> pbUuid m)\<rparr>)"

definition peer :: "pb_peer option \<Rightarrow> sip_peer" where
  "peer msg =
     (case msg of
        None \<Rightarrow> \<lparr>Aor = [], UserAgent = [], Codecs = [], PeerSSRC = 0\<rparr>
      | Some p \<Rightarrow> \<lparr>Aor = pbAor p, UserAgent = pbUserAgent p, Codecs = pbCodecs p, PeerSSRC = pbPeerSsrc p\<rparr>)"

definition current :: "f64 option \<Rightarrow> f64" where
  "current m = (case m of None \<Rightarrow> Fin False 0 | Some v \<Rightarrow> v)"

definition emptyStream :: pb_stream where
  "emptyStream = \<lparr>pbStreamId = None, pbRtp = 0, pbIllegal = 0, pbLost = 0, pbCodec = [], pbStart = 0, pbFinish = 0,
     pbStartStream = 0, pbDurationAudio = Fin False 0, pbRfactor = Fin False 0, pbIntervalReport = [], pbSip = None,
     pbDtxInfo = None, pbJitter = None, pbRtt = None, pbMosNetwork = None, pbMosSevana = None\<rparr>"

definition streamReport :: "pb_stream option \<Rightarrow> bool \<Rightarrow> stream_report" where
  "streamReport msg full =
     (let m = (case msg of None \<Rightarrow> emptyStream | Some m \<Rightarrow> m);
          sip = (case pbSip m of None \<Rightarrow> \<lparr>pbCallId = [], pbPeer1 = [], pbPeer2 = []\<rparr> | Some s \<Rightarrow> s);
          dtx = (case pbDtxInfo m of None \<Rightarrow> \<lparr>pbSid = 0, pbDtx = 0, pbTotal = 0\<rparr> | Some d \<Rightarrow> d)
      in \<lparr>StreamID = streamID (pbStreamId m), StartMs = i64_of (pbStart m), EndMs = i64_of (pbFinish m),
          StartStreamMs = i64_of (pbStartStream m), RTPPacketCounter = pbRtp m, IllegalPacketCounter = pbIllegal m,
          LostPacketCounter = pbLost m, SevanaMOS = Some (current (pbMosSevana m)),
          NetworkMOS = Some (current (pbMosNetwork m)),
          SevanaRfactor = word_of_int (f64_to_int64 (pbRfactor m)), Jitter = current (pbJitter m),
          Codec = pbCodec m, RTTDelay = current (pbRtt m), DetectorReport = pbIntervalReport m,
          DurationAudio = word_of_int (f64_to_int64 (pbDurationAudio m)), AmrNbSwitchCounter = 0,
          AmrWbSwitchCounter = 0, DtxSid = pbSid dtx, DtxCount = pbDtx dtx, DtxTotal = pbTotal dtx,
          FullReport = full, UserReport = [], SipCallID = pbCallId sip, SipPeerA = pbPeer1 sip, SipPeerB = pbPeer2 sip\<rparr>)"

definition streamAudio :: "pb_audio \<Rightarrow> stream_audio" where
  "streamAudio a = \<lparr>AudioStreamID = streamID (pbAudioStream a), Wav = pbWav a,
     AudioStartMs = i64_of (pbAudioStart a), AudioFinishMs = i64_of (pbAudioFinish a)\<rparr>"

definition captureStats :: "pb_capture \<Rightarrow> capture_stats" where
  "captureStats c = \<lparr>Device = pbDevice c, TotalPackets = pbTotalPackets c, RTPPackets = pbRtpPackets c,
     SipPackets = pbSipPackets c, TruncatedPackets = pbTruncated c, SrcPortRange = pbSrcRange c,
     DstPortRange = pbDstRange c, DroppedHwPackets = pbDroppedHw c, ErroneousPackets = pbErroneous c,
     MbufAllocFailed = pbMbufFailed c\<rparr>"

definition instanceStats :: "pb_instance \<Rightarrow> instance_statistics" where
  "instanceStats s = \<lparr>InstanceID = pbId s, InstanceName = pbName s, ServerTime = pbServerTime s,
     InstanceVersion = pbVersion s, UptimeSeconds = pbUptime s, PvqaInstanceCounter = pbPvqaInstances s,
     PvqaProcessedSeconds = pbPvqaSeconds s, ActiveDecoderCounter = pbActiveDecoders s,
     ActiveAudioDecoderCounter = pbActiveAudioDecoders s, TotalDecoderCounter = pbTotalDecoders s,
     Capturers = map captureStats (pbCapturers s), SipCallCounter = pbSipCalls s,
     ResipMessageCounter = pbResipMessages s, ResipSipMessageCounter = pbResipSipMessages s,
     MemAllocatedBytes = pbMemAllocated s, MemHeapSize = pbMemHeap s, MemPageheapFreeBytes = pbMemPageheapFree s,
     MemAllocCount = pbMemAllocs s, MemFreeCount = pbMemFrees s, MemAllocsPerSec = pbMemAllocsRate s,
     MemFreesPerSec = pbMemFreesRate s, CpuUserSeconds = pbCpuUser s, CpuSystemSeconds = pbCpuSystem s,
     CpuUsagePercent = pbCpuUsage s\<rparr>"

definition callStart :: "pb_call_start \<Rightarrow> sip_call_start" where
  "callStart s = \<lparr>StartCallID = pbCsCallId s, StartTimestamp = i64_of (pbCsTimestamp s),
     StartInviteTimestamp = i64_of (pbCsInvite s), SetupCode = pbCsSetup s,
     StartCaller = peer (pbCsCaller s), StartCallee = peer (pbCsCallee s)\<rparr>"

definition callEnd :: "pb_call_end \<Rightarrow> sip_call_end" where
  "callEnd s = \<lparr>EndCallID = pbCeCallId s, EndTimestamp = i64_of (pbCeTimestamp s),
     CallDuration = i64_of (pbCeDuration s), ByeDirection = word_of_int (pbCeBye s),
     ResponseCodes = pbCeCodes s, HasBye = pbCeHasBye s\<rparr>"

definition reinvite :: "pb_reinvite \<Rightarrow> sip_reinvite" where
  "reinvite s = \<lparr>ReCallID = pbRiCallId s, ReTimestamp = i64_of (pbRiTimestamp s), IsRequest = pbRiRequest s,
     ReDirection = word_of_int (pbRiDirection s), UpdatedPeer = peer (pbRiPeer s), RawMessage = pbRiRaw s\<rparr>"

definition callFailed :: "pb_call_failed \<Rightarrow> sip_call_failed" where
  "callFailed s = \<lparr>FailCallID = pbCfCallId s, FailTimestamp = i64_of (pbCfTimestamp s),
     FailInviteTimestamp = i64_of (pbCfInvite s), FailReason = word_of_int (pbCfReason s),
     ResponseCode = pbCfCode s, ReasonPhrase = pbCfPhrase s,
     FailCaller = peer (pbCfCaller s), FailCallee = peer (pbCfCallee s)\<rparr>"

text \<open>The enum names are ASCII, so lower-casing needs no case table.\<close>

definition warningCode :: "string \<Rightarrow> string" where
  "warningCode s = map lowerByte (if strings_HasPrefix s ''CODE_'' then drop 5 s else s)"

definition callHealth :: "pb_health \<Rightarrow> call_health" where
  "callHealth h = \<lparr>HealthCallID = pbHCallId h, HealthTimestamp = i64_of (pbHTimestamp h),
     StreamCount = ucast (pbHStreams h),
     Warnings = map (\<lambda>w. \<lparr>WarnCode = warningCode (pbWCode w), WarnTag = pbWTag w, Explanation = pbWExplanation w,
                          StreamIDs = pbWStreams w\<rparr>) (pbHWarnings h)\<rparr>"

definition espEvent :: "pb_esp \<Rightarrow> esp_sa_event" where
  "espEvent e = \<lparr>Spis = pbSpis e, Dst = ipString (pbEspDst e), EncAlg = pbEncAlg e, AuthAlg = pbAuthAlg e,
     EspSource = ucast (pbEspSource e), HasKeys = (pbEncKey e \<noteq> [])\<rparr>"

text \<open>The sub-messages are tested in this order; \<^verbatim>\<open>None\<close> is an ignored event.\<close>

definition DecodeEvent :: "pb_event \<Rightarrow> domain_event option" where
  "DecodeEvent ev =
     (case evStreamStart ev of Some s \<Rightarrow> Some (EvStreamStart (streamID s)) | None \<Rightarrow>
     (case evStreamReport ev of Some r \<Rightarrow> Some (EvStreamReport (streamReport (Some r) False)) | None \<Rightarrow>
     (case evStreamFinish ev of Some r \<Rightarrow> Some (EvStreamReport (streamReport r True)) | None \<Rightarrow>
     (case evStreamAudio ev of Some a \<Rightarrow> Some (EvStreamAudio (streamAudio a)) | None \<Rightarrow>
     (case evInstanceStats ev of Some s \<Rightarrow> Some (EvInstanceStatistics (instanceStats s)) | None \<Rightarrow>
     (case evSipCallStart ev of Some s \<Rightarrow> Some (EvSipCallStart (callStart s)) | None \<Rightarrow>
     (case evSipCallEnd ev of Some s \<Rightarrow> Some (EvSipCallEnd (callEnd s)) | None \<Rightarrow>
     (case evSipReinvite ev of Some s \<Rightarrow> Some (EvSipReinvite (reinvite s)) | None \<Rightarrow>
     (case evSipCallFailed ev of Some s \<Rightarrow> Some (EvSipCallFailed (callFailed s)) | None \<Rightarrow>
     (case evCallHealth ev of Some h \<Rightarrow> Some (EvCallHealth (callHealth h)) | None \<Rightarrow>
     map_option (\<lambda>e. EvEspSa (espEvent e)) (evEspSa ev)))))))))))"

text \<open>\<open>unmarshal\<close> is the protobuf decoder of the generated package.\<close>

definition DecodeBytes :: "(string \<Rightarrow> pb_event option) \<Rightarrow> string \<Rightarrow> domain_event option option" where
  "DecodeBytes unmarshal data = map_option DecodeEvent (unmarshal data)"

section \<open>Distinct addresses, distinct texts\<close>

lemma Join_digits_inj:
  assumes "strings_Join xs [d] = strings_Join ys [d]" "length xs = length ys"
    "\<forall>x \<in> set xs \<union> set ys. d \<notin> set x"
  shows "xs = ys"
proof (cases "xs = []")
  case False
  then obtain n where n: "length xs = Suc n" by (cases xs) auto
  have split: "strings_SplitNChar d (Suc n) (strings_Join zs [d]) = zs"
    if "zs = xs \<or> zs = ys" for zs
    using that assms(2,3) n False
    by (intro SplitN_Join) (auto simp: list_all_iff dest: in_set_butlastD)
  have "strings_SplitNChar d (Suc n) (strings_Join xs [d]) = ys"
    unfolding assms(1) by (rule split) simp
  moreover have "strings_SplitNChar d (Suc n) (strings_Join xs [d]) = xs" by (rule split) simp
  ultimately show ?thesis by (metis (no_types))
qed (use assms in simp)

lemma decimalNat_inj: "decimalNat m = decimalNat n \<Longrightarrow> m = n"
  by (metis parseDigits_decimalNat)

lemma dotted_inj:
  assumes "dotted a = dotted b" "length a = length b"
  shows "a = b"
proof -
  have "CHR ''.'' \<notin> set (decimalNat n)" for n
    using decimalNat_digits [of n] by (auto simp: list_all_iff isDigit_def)
  then have "map (\<lambda>b. decimalNat (byteOf b)) a = map (\<lambda>b. decimalNat (byteOf b)) b"
    using assms by (intro Join_digits_inj [of _ "CHR ''.''"]) (auto simp: dotted_def)
  then show ?thesis
    by (rule map_injective) (auto intro!: injI dest: decimalNat_inj simp: byteOf_def)
qed

lemma ipString_inj:
  assumes "ipString (Some a) = ipString (Some b)" "\<not> pbIPv6 a" "\<not> pbIPv6 b"
    "length (pbIp a) = 4" "length (pbIp b) = 4"
  shows "pbIp a = pbIp b"
  using assms by (auto simp: ipString_def ipText_def padTo_def intro: dotted_inj)

lemma DecodeEvent_ignored:
  "DecodeEvent ev = None \<longleftrightarrow>
     evStreamStart ev = None \<and> evStreamReport ev = None \<and> evStreamFinish ev = None \<and> evStreamAudio ev = None \<and>
     evInstanceStats ev = None \<and> evSipCallStart ev = None \<and> evSipCallEnd ev = None \<and> evSipReinvite ev = None \<and>
     evSipCallFailed ev = None \<and> evCallHealth ev = None \<and> evEspSa ev = None"
  by (simp add: DecodeEvent_def split: option.split)

end
