(* ===== verification/Track_Sync.thy ===== *)
theory Track_Sync
  imports Track_Store Control_Client Go_Time
begin

text \<open>
  The track-pattern workers (\<^verbatim>\<open>worker/worker.go\<close>): restoring the persisted patterns to vq-core on
  start, and keeping the two lists in sync afterwards. The loader of the patterns and the control
  channel are parameters with a state each; the clock readings and the stop signal of the retry
  loop are functions of the attempt. What the workers need of the channel is the interface
  \<open>control_channel\<close>, which the client of \<^verbatim>\<open>bus/control.go\<close> provides.
\<close>

definition restartRetryEvery :: duration where "restartRetryEvery = 2 * second"
definition restartRetryFor :: duration where "restartRetryFor = 30 * second"

type_synonym 'k sender = "track_op \<Rightarrow> string list \<Rightarrow> 'k \<Rightarrow> track_ack \<times> 'k"

definition setEqual :: "string list \<Rightarrow> string list \<Rightarrow> bool" where
  "setEqual a b \<longleftrightarrow> length a = length b \<and> list_all (\<lambda>s. s \<in> set a) b"

definition RestoreTrackPatterns :: "('w, string list) action \<Rightarrow> 'k sender \<Rightarrow> 'w \<times> 'k \<Rightarrow> 'w \<times> 'k" where
  "RestoreTrackPatterns load send st =
     (case load (fst st) of
        (Inl _, w) \<Rightarrow> (w, snd st)
      | (Inr patterns, w) \<Rightarrow>
          if patterns = [] then (w, snd st) else (w, snd (send TrackReplace patterns (snd st))))"

text \<open>\<^verbatim>\<open>SyncOnce\<close> answers false only when vq-core could not be reached.\<close>

definition SyncOnce :: "('w, string list) action \<Rightarrow> 'k sender \<Rightarrow> 'w \<times> 'k \<Rightarrow> bool \<times> ('w \<times> 'k)" where
  "SyncOnce load send st =
     (case load (fst st) of
        (Inl _, w) \<Rightarrow> (True, (w, snd st))
      | (Inr desired, w) \<Rightarrow>
          if desired = [] then (True, (w, snd st))
          else case send TrackQuery [] (snd st) of
                 (query, k1) \<Rightarrow>
                   if \<not> TransportOK query then (False, (w, k1))
                   else if setEqual (Current query) desired then (True, (w, k1))
                   else case send TrackReplace desired k1 of
                          (rep, k2) \<Rightarrow> (TransportOK rep, (w, k2)))"

section \<open>The worker\<close>

record sync_worker =
  swKick :: bool
  swLastUptime :: "u64 option"
  swRestarted :: bool

definition NewTrackSyncWorker :: sync_worker where
  "NewTrackSyncWorker = \<lparr>swKick = False, swLastUptime = None, swRestarted = False\<rparr>"

text \<open>A send on a channel of capacity one that drops when it is full: kicks coalesce.\<close>

definition Kick :: "sync_worker \<Rightarrow> sync_worker" where
  "Kick t = t\<lparr>swKick := True\<rparr>"

definition TrackNoteUptime :: "u64 \<Rightarrow> sync_worker \<Rightarrow> sync_worker" where
  "TrackNoteUptime uptime t =
     (let restarted = (case swLastUptime t of None \<Rightarrow> False | Some prev \<Rightarrow> uptime < prev);
          t1 = t\<lparr>swLastUptime := Some uptime\<rparr>
      in if restarted then Kick (t1\<lparr>swRestarted := True\<rparr>) else t1)"

datatype loop_end = Synced | GaveUp | WorkerStopped

text \<open>
  The retry loop of \<^verbatim>\<open>syncAfterKick\<close>: attempt \<open>k\<close> redials and syncs; \<open>clock k\<close> is the time read
  after it and \<open>stopped k\<close> tells whether the worker is stopped in the pause that follows. The
  result is how the loop ended, the number of attempts and the state; \<^verbatim>\<open>None\<close> means the fuel was
  used up.
\<close>

fun retryLoop :: "nat \<Rightarrow> ('s \<Rightarrow> 's) \<Rightarrow> ('s \<Rightarrow> bool \<times> 's) \<Rightarrow> (nat \<Rightarrow> time) \<Rightarrow> (nat \<Rightarrow> bool) \<Rightarrow> time \<Rightarrow> nat \<Rightarrow> 's
    \<Rightarrow> (loop_end \<times> nat \<times> 's) option" where
  "retryLoop 0 redial once clock stopped deadline k st = None"
| "retryLoop (Suc fuel) redial once clock stopped deadline k st =
     (case once (redial st) of
        (True, st') \<Rightarrow> Some (Synced, Suc k, st')
      | (False, st') \<Rightarrow>
          if deadline < clock k then Some (GaveUp, Suc k, st')
          else if stopped k then Some (WorkerStopped, Suc k, st')
          else retryLoop fuel redial once clock stopped deadline (Suc k) st')"

definition syncAfterKick :: "nat \<Rightarrow> ('s \<Rightarrow> 's) \<Rightarrow> ('s \<Rightarrow> bool \<times> 's) \<Rightarrow> (nat \<Rightarrow> time) \<Rightarrow> (nat \<Rightarrow> bool) \<Rightarrow> time
    \<Rightarrow> sync_worker \<Rightarrow> 's \<Rightarrow> sync_worker \<times> (loop_end \<times> nat \<times> 's) option" where
  "syncAfterKick fuel redial once clock stopped start t st =
     (let t1 = t\<lparr>swKick := False, swRestarted := False\<rparr>
      in if swRestarted t
         then (t1, retryLoop fuel redial once clock stopped (time_Add start restartRetryFor) 0 st)
         else (t1, Some (case once st of (_, st') \<Rightarrow> (Synced, 1, st'))))"

section \<open>The control channel\<close>

locale control_channel =
  fixes send :: "'k sender" and redial :: "'k \<Rightarrow> 'k" and okK :: "'k \<Rightarrow> bool"
  assumes send_ok: "okK k \<Longrightarrow> okK (snd (send op ps k))"
    and redial_ok: "okK k \<Longrightarrow> okK (redial k)"
begin

lemma SyncOnce_ok: "okK k \<Longrightarrow> okK (snd (snd (SyncOnce load send (w, k))))"
  by (auto simp: SyncOnce_def split: prod.splits sum.splits)
    (metis send_ok snd_conv)+

lemma retryLoop_ok:
  assumes "okK (snd st)" "retryLoop fuel (apsnd redial) (SyncOnce load send) clock stopped d k st = Some (e, n, st')"
  shows "okK (snd st')"
  using assms
proof (induction fuel arbitrary: k st)
  case (Suc fuel)
  obtain ok st1 where once: "SyncOnce load send (apsnd redial st) = (ok, st1)"
    by (cases "SyncOnce load send (apsnd redial st)")
  have "okK (snd st1)"
    using SyncOnce_ok [of "redial (snd st)" load "fst st"] redial_ok [OF Suc.prems(1)] once
    by (cases st) simp
  with Suc once show ?case by (auto split: bool.splits if_splits)
qed simp

end

interpretation control_client: control_channel "Send enc dec" "\<lambda>c. snd (Reconnect c)" ready for enc dec
  by unfold_locales (simp_all add: Send_ready Reconnect_ready)

text \<open>Retrying after a restart leaves the client of \<^verbatim>\<open>bus/control.go\<close> able to send.\<close>

lemma syncAfterKick_client_ready:
  assumes "ready (snd st)"
    and "syncAfterKick fuel (apsnd (\<lambda>c. snd (Reconnect c))) (SyncOnce load (Send enc dec)) clock stopped start t st = (t', Some (e, n, st'))"
  shows "ready (snd st')"
  using assms control_client.retryLoop_ok [of st fuel load enc dec clock stopped "time_Add start restartRetryFor" 0]
    control_client.SyncOnce_ok [of "snd st" load enc dec "fst st"]
  by (auto simp: syncAfterKick_def Let_def split: if_splits prod.splits)

section \<open>Termination of the retries\<close>

lemma retryLoop_returns:
  assumes "\<And>j. k \<le> j \<Longrightarrow> j \<ge> k + fuel - 1 \<Longrightarrow> deadline < clock j" "0 < fuel"
  shows "\<exists>e n st'. retryLoop fuel redial once clock stopped deadline k st = Some (e, n, st') \<and> n \<le> k + fuel"
  using assms
proof (induction fuel arbitrary: k st)
  case (Suc fuel)
  show ?case
  proof (cases "fuel = 0")
    case True
    with Suc.prems(1) [of k] show ?thesis by (auto split: prod.splits bool.splits)
  next
    case False
    have "\<exists>e n st'. retryLoop fuel redial once clock stopped deadline (Suc k) s = Some (e, n, st') \<and> n \<le> Suc k + fuel" for s
      using Suc.prems False by (intro Suc.IH) auto
    then show ?thesis by (auto split: prod.splits bool.splits)
  qed
qed simp

lemma retryLoop_more:
  "retryLoop n redial once clock stopped d k s = Some x \<Longrightarrow> n \<le> m \<Longrightarrow>
     retryLoop m redial once clock stopped d k s = Some x"
proof (induction n arbitrary: m k s)
  case (Suc n)
  then obtain m' where "m = Suc m'" "n \<le> m'" by (cases m) auto
  with Suc show ?case by (auto split: prod.splits bool.splits if_splits)
qed simp

text \<open>The handling of a vq-core restart terminates: whatever vq-core answers, if each pause between
  two attempts lasts at least the two seconds of \<^verbatim>\<open>retryEvery\<close> and the clock does not stand still, the
  loop ends after at most 17 attempts, with a sync, a logged failure, or the stop of the worker; the
  restart flag and the kick are consumed exactly once.\<close>

lemma restart_sync_terminates:
  assumes "\<forall>k. start + int k * restartRetryEvery \<le> clock k" "17 \<le> fuel"
  shows "\<exists>e n st'. syncAfterKick fuel redial once clock stopped start t st =
      (t\<lparr>swKick := False, swRestarted := False\<rparr>, Some (e, n, st')) \<and> n \<le> 17"
proof -
  have late: "time_Add start restartRetryFor < clock j" if "16 \<le> j" for j
  proof -
    have "start + 16 * restartRetryEvery \<le> start + int j * restartRetryEvery"
      using that by (intro add_left_mono mult_right_mono) (auto simp: restartRetryEvery_def second_def)
    with assms(1) [rule_format, of j] show ?thesis
      by (simp add: time_Add_def restartRetryFor_def restartRetryEvery_def second_def)
  qed
  obtain e n st' where "retryLoop 17 redial once clock stopped (time_Add start restartRetryFor) 0 st = Some (e, n, st')" "n \<le> 17"
    using retryLoop_returns [of 0 17 "time_Add start restartRetryFor" clock redial once stopped st] late by auto
  with retryLoop_more [OF this(1) assms(2)] show ?thesis
    by (auto simp: syncAfterKick_def Let_def split: prod.splits)
qed

section \<open>The lists agree after a sync\<close>

text \<open>
  The client of \<^verbatim>\<open>bus/control.go\<close> with vq-core at the other end. \<open>core\<close> answers a command with the bytes of
  its reply and its next state; the network may lose the command, or the reply (which then misses the
  client's timeout). The client reads a reply exactly when its command went out.
\<close>

datatype fate = Answered | ReplyLost | CommandLost

record 'v link =
  lkClient :: control_client
  lkCore :: 'v
  lkNet :: "fate list"

type_synonym 'v core = "command \<Rightarrow> 'v \<Rightarrow> string \<times> 'v"

definition nextFate :: "'v link \<Rightarrow> fate" where
  "nextFate k = (case lkNet k of [] \<Rightarrow> Answered | f # _ \<Rightarrow> f)"

definition linkSend :: "(command \<Rightarrow> string + string) \<Rightarrow> (string \<Rightarrow> command_ack option) \<Rightarrow> 'v core \<Rightarrow> 'v link sender" where
  "linkSend enc dec core op ps k =
     (let (reply, v) = core \<lparr>cmdOp = protoOp op, cmdEntries = ps\<rparr> (lkCore k);
          arriving = (if nextFate k = Answered then Some reply else None);
          (ack, c) = Send enc dec op ps ((lkClient k)\<lparr>replies := [arriving]\<rparr>);
          sent = (replies c = [])
      in (ack, k\<lparr>lkClient := c, lkCore := (if sent \<and> nextFate k \<noteq> CommandLost then v else lkCore k),
                 lkNet := (if sent then tl (lkNet k) else lkNet k)\<rparr>))"

text \<open>
  What the control protocol documents of vq-core, whose list of patterns is \<open>tracked v\<close>: a query answers the
  list and changes nothing; a replace sets the whole list, unless it is rejected.
\<close>

definition coreFollows :: "(string \<Rightarrow> command_ack option) \<Rightarrow> 'v core \<Rightarrow> ('v \<Rightarrow> string list) \<Rightarrow> bool" where
  "coreFollows dec core tracked \<longleftrightarrow>
     (\<forall>v. case core \<lparr>cmdOp = TRACK_QUERY, cmdEntries = []\<rparr> v of (reply, v') \<Rightarrow>
        tracked v' = tracked v \<and> (\<exists>a. dec reply = Some a \<and> pbCurrent a = tracked v)) \<and>
     (\<forall>v ps. case core \<lparr>cmdOp = TRACK_REPLACE, cmdEntries = ps\<rparr> v of (reply, v') \<Rightarrow>
        \<exists>a. dec reply = Some a \<and> tracked v' = (if pbOk a then ps else tracked v))"

lemma Send_reads:
  assumes "Send enc dec op ps c = (ack, c')" "TransportOK ack"
  shows "\<exists>reply. nextOf (replies c) = Some reply \<and> ack = ackOf (dec reply) \<and> replies c' = tl (replies c)"
  using assms
  by (auto simp: Send_def exchange_def socket_defs emptyAck_def ackOf_def split: sum.splits if_splits option.splits)

lemma linkSend_core:
  "lkCore (snd (linkSend enc dec core op ps k)) \<in> {lkCore k, snd (core \<lparr>cmdOp = protoOp op, cmdEntries = ps\<rparr> (lkCore k))}"
  by (simp add: linkSend_def Let_def split_beta)

lemma linkSend_answer:
  assumes "linkSend enc dec core op ps k = (ack, k')" "TransportOK ack"
  shows "ack = ackOf (dec (fst (core \<lparr>cmdOp = protoOp op, cmdEntries = ps\<rparr> (lkCore k))))
    \<and> lkCore k' = snd (core \<lparr>cmdOp = protoOp op, cmdEntries = ps\<rparr> (lkCore k))"
proof -
  let ?r = "if nextFate k = Answered then Some (fst (core \<lparr>cmdOp = protoOp op, cmdEntries = ps\<rparr> (lkCore k))) else None"
  obtain c where c: "Send enc dec op ps ((lkClient k)\<lparr>replies := [?r]\<rparr>) = (ack, c)"
    using assms(1) by (auto simp: linkSend_def Let_def split_beta prod_eq_iff)
  from Send_reads [OF this assms(2)] have "nextFate k = Answered" "replies c = []"
    "ack = ackOf (dec (fst (core \<lparr>cmdOp = protoOp op, cmdEntries = ps\<rparr> (lkCore k))))"
    by (auto simp: nextOf_def split: if_splits)
  then show ?thesis using assms(1) c by (auto simp: linkSend_def Let_def split_beta)
qed

text \<open>Nothing goes wrong: every command can be encoded, every dial and send succeeds, nothing is lost.\<close>

definition faultless :: "(command \<Rightarrow> string + string) \<Rightarrow> 'v link \<Rightarrow> bool" where
  "faultless enc k \<longleftrightarrow> (\<forall>c. \<not> isl (enc c)) \<and> dials (lkClient k) = [] \<and> sends (lkClient k) = [] \<and> lkNet k = []"

lemma linkSend_faultless:
  assumes "faultless enc k" "dec (fst (core \<lparr>cmdOp = protoOp op, cmdEntries = ps\<rparr> (lkCore k))) = Some a"
  shows "TransportOK (fst (linkSend enc dec core op ps k))" "AckOK (fst (linkSend enc dec core op ps k)) = pbOk a"
    "faultless enc (snd (linkSend enc dec core op ps k))"
proof -
  obtain b where "enc \<lparr>cmdOp = protoOp op, cmdEntries = ps\<rparr> = Inr b"
    using assms(1) by (cases "enc \<lparr>cmdOp = protoOp op, cmdEntries = ps\<rparr>") (auto simp: faultless_def dest: spec [of _ "\<lparr>cmdOp = protoOp op, cmdEntries = ps\<rparr>"])
  then show "TransportOK (fst (linkSend enc dec core op ps k))" "AckOK (fst (linkSend enc dec core op ps k)) = pbOk a"
    "faultless enc (snd (linkSend enc dec core op ps k))"
    using assms
    by (auto simp: linkSend_def Let_def split_beta faultless_def nextFate_def Send_def exchange_def socket_defs nextOf_def ackOf_def emptyAck_def)
qed

lemma setEqual_set: "distinct b \<Longrightarrow> setEqual a b \<Longrightarrow> set a = set b"
proof -
  assume d: "distinct b" and e: "setEqual a b"
  then have "set b \<subseteq> set a" by (auto simp: setEqual_def list_all_iff)
  moreover have "card (set a) \<le> card (set b)"
    using d e card_length [of a] by (simp add: setEqual_def distinct_card)
  ultimately show ?thesis by (metis List.finite_set card_seteq)
qed

text \<open>A list with a duplicate counts as equal to a different set of the same length.\<close>

lemma setEqual_duplicates: "setEqual [''a'', ''b''] [''a'', ''a''] \<and> set [''a'', ''b''] \<noteq> set [''a'', ''a'']"
  by (auto simp: setEqual_def)

text \<open>C19: A reconcile pass with vq-core at the other end of the client's socket. When nothing is persisted the pass
  sends nothing. Otherwise: the pass reports failure exactly when an answer it needed did not arrive; whatever
  happens, vq-core ends with its old list or the persisted one, never a mixture; lists that agree are left alone;
  a pass that reports success leaves vq-core tracking exactly the persisted set, or vq-core has rejected the
  replacement and kept its list; and if nothing fails on the way and vq-core accepts the list, the pass does
  report success. (The persisted patterns are distinct here; see \<open>setEqual_duplicates\<close>.)\<close>

theorem SyncOnce_correct:
  assumes "coreFollows dec core tracked" "load w = (Inr desired, w')" "distinct desired"
    and "SyncOnce load (linkSend enc dec core) (w, k) = (ok, (w'', k'))"
  shows "let old = tracked (lkCore k); new = tracked (lkCore k');
             (q, k1) = linkSend enc dec core TrackQuery [] k; (r, k2) = linkSend enc dec core TrackReplace desired k1
    in w'' = w' \<and> (desired = [] \<longrightarrow> ok \<and> k' = k) \<and> (desired \<noteq> [] \<longrightarrow>
         (ok \<longleftrightarrow> TransportOK q \<and> (setEqual old desired \<or> TransportOK r))
       \<and> new \<in> {old, desired} \<and> (setEqual old desired \<longrightarrow> new = old)
       \<and> (ok \<longrightarrow> set new = set desired \<or> TransportOK r \<and> \<not> AckOK r \<and> new = old)
       \<and> (faultless enc k \<and> (\<forall>v a. dec (fst (core \<lparr>cmdOp = TRACK_REPLACE, cmdEntries = desired\<rparr> v)) = Some a \<longrightarrow> pbOk a)
            \<longrightarrow> ok \<and> set new = set desired))"
proof -
  obtain q k1 where q: "linkSend enc dec core TrackQuery [] k = (q, k1)" by fastforce
  obtain r k2 where r: "linkSend enc dec core TrackReplace desired k1 = (r, k2)" by fastforce
  let ?t = "\<lambda>k. tracked (lkCore k)"
  let ?Q = "core \<lparr>cmdOp = TRACK_QUERY, cmdEntries = []\<rparr> (lkCore k)" and ?R = "core \<lparr>cmdOp = TRACK_REPLACE, cmdEntries = desired\<rparr> (lkCore k1)"
  obtain a where a: "dec (fst ?Q) = Some a" "pbCurrent a = ?t k" "tracked (snd ?Q) = ?t k"
    using assms(1) by (fastforce simp: coreFollows_def split_beta)
  obtain b where b: "dec (fst ?R) = Some b" "tracked (snd ?R) = (if pbOk b then desired else ?t k1)"
    using assms(1) by (fastforce simp: coreFollows_def split_beta)
  have q1: "?t k1 = ?t k" using linkSend_core [of enc dec core TrackQuery "[]" k] q a(3) by auto
  have q2: "TransportOK q \<Longrightarrow> Current q = ?t k" using linkSend_answer [OF q] a by (simp add: ackOf_def)
  have r1: "?t k2 \<in> {?t k, desired}" using linkSend_core [of enc dec core TrackReplace desired k1] r b(2) q1 by (auto split: if_splits)
  have r2: "TransportOK r \<Longrightarrow> ?t k2 = (if AckOK r then desired else ?t k)" using linkSend_answer [OF r] b q1 by (simp add: ackOf_def)
  have ideal: "TransportOK q \<and> TransportOK r \<and> AckOK r" if "faultless enc k" "pbOk b"
    using linkSend_faultless [of enc k dec core TrackQuery "[]" a] linkSend_faultless [of enc k1 dec core TrackReplace desired b]
      that a(1) b(1) q r by simp
  have accepted: "pbOk b" if "\<forall>v a. dec (fst (core \<lparr>cmdOp = TRACK_REPLACE, cmdEntries = desired\<rparr> v)) = Some a \<longrightarrow> pbOk a"
    using that b(1) by blast
  have run: "desired = [] \<Longrightarrow> ok \<and> k' = k" "w'' = w'"
    "desired \<noteq> [] \<Longrightarrow> (ok, k') = (if \<not> TransportOK q then (False, k1) else if setEqual (Current q) desired then (True, k1) else (TransportOK r, k2))"
    using assms(2,4) q r by (auto simp: SyncOnce_def split: if_splits)
  show ?thesis
  proof (cases "desired = []")
    case True
    with run(1,2) q r show ?thesis by (simp add: Let_def)
  next
    case False
    note run = run(2) run(3) [OF False]
    show ?thesis
    proof (cases "TransportOK q")
      case True
      then show ?thesis
        using run q r q1 q2 r1 r2 ideal accepted False setEqual_set [OF assms(3), of "?t k"] by (auto simp: Let_def split: if_splits)
    next
      case nq: False
      then show ?thesis using run q r q1 ideal accepted False by (auto simp: Let_def)
    qed
  qed
qed

text \<open>A vq-core that knows two lists: it tracks \<open>c\<close>, or after a replacement \<open>a\<close> and \<open>b\<close>, and rejects any other list.\<close>

definition demoCore :: "bool core" where
  "demoCore cmd v =
     (case cmdOp cmd of
        TRACK_QUERY \<Rightarrow> (if v then ''1'' else ''0'', v)
      | TRACK_REPLACE \<Rightarrow> if cmdEntries cmd = [''a'', ''b''] then (''1'', True) else (''x'', v)
      | _ \<Rightarrow> (''x'', v))"

definition demoTracked :: "bool \<Rightarrow> string list" where
  "demoTracked v = (if v then [''a'', ''b''] else [''c''])"

definition demoReply :: "string \<Rightarrow> command_ack option" where
  "demoReply s = Some \<lparr>pbOk = (s \<noteq> ''x''), pbError = [], pbCurrent = demoTracked (s = ''1''), pbAffected = 0\<rparr>"

theorem SyncOnce_correct_witness:
  "let k = \<lparr>lkClient = snd (NewControlClient [] [] []), lkCore = False, lkNet = []\<rparr>;
       (ok, (w, k')) = SyncOnce (\<lambda>w. (Inr [''a'', ''b''], w)) (linkSend (\<lambda>_. Inr []) demoReply demoCore) ((), k)
   in ok \<and> set (demoTracked (lkCore k')) = {''a'', ''b''}"
proof -
  let ?k = "\<lparr>lkClient = snd (NewControlClient [] [] []), lkCore = False, lkNet = []\<rparr>"
  let ?enc = "\<lambda>_ :: command. Inr [] :: string + string"
  obtain ok w k' where run: "SyncOnce (\<lambda>w. (Inr [''a'', ''b''], w)) (linkSend ?enc demoReply demoCore) ((), ?k) = (ok, (w, k'))"
    by (metis prod.collapse)
  have follows: "coreFollows demoReply demoCore demoTracked"
    by (auto simp: coreFollows_def demoCore_def demoReply_def demoTracked_def)
  have good: "faultless ?enc ?k" by (simp add: faultless_def NewControlClient_def socket_defs)
  have accepts: "\<forall>v a. demoReply (fst (demoCore \<lparr>cmdOp = TRACK_REPLACE, cmdEntries = [''a'', ''b'']\<rparr> v)) = Some a \<longrightarrow> pbOk a"
    by (auto simp: demoReply_def demoCore_def)
  have "distinct [''a'', ''b'']" "[''a'', ''b''] \<noteq> []" by simp_all
  with SyncOnce_correct [OF follows refl _ run, unfolded Let_def split_beta] good accepts
  have "ok \<and> set (demoTracked (lkCore k')) = set [''a'', ''b'']" by blast
  with run show ?thesis by (simp add: Let_def)
qed

end
