(* ===== verification/Alarm_Drops.thy ===== *)
theory Alarm_Drops
  imports Model_Types Go_Time
begin

text \<open>
  The capture drop history of the alarm package (\<^verbatim>\<open>alarm/drops.go\<close>): vq-core sends cumulative
  drop counters about every second; the history keeps few enough of them for the longest alarm
  window and answers how many packets were dropped in a window. The clock reading of
  \<^verbatim>\<open>h.now()\<close> is an argument. The theorem shows that thinning and pruning of the samples
  lose nothing: the answer is the exact number of drops reported since one particular report,
  which lies before the window unless nothing older was ever reported, and not long before it.
\<close>

record drop_sample =
  sampleAt :: time
  raw :: u64
  total_drops :: u64

record drop_history =
  samples :: "drop_sample list"
  keep :: duration

definition dropSpacing :: duration where "dropSpacing = 5 * second"

definition NewDropHistory :: "duration \<Rightarrow> drop_history" where
  "NewDropHistory k = \<lparr>samples = [], keep = k\<rparr>"

definition drops :: "instance_statistics \<Rightarrow> u64" where
  "drops s = foldl (\<lambda>n c. n + (DroppedHwPackets c + MbufAllocFailed c)) 0 (Capturers s)"

text \<open>The loop that skips every sample whose successor is already older than the cutoff.\<close>

fun prune :: "time \<Rightarrow> drop_sample list \<Rightarrow> drop_sample list" where
  "prune cutoff (a # b # ss) = (if sampleAt b < cutoff then prune cutoff (b # ss) else a # b # ss)"
| "prune cutoff ss = ss"

definition newSample :: "time \<Rightarrow> u64 \<Rightarrow> drop_sample list \<Rightarrow> drop_sample" where
  "newSample now cur ss =
     \<lparr>sampleAt = now, raw = cur,
      total_drops = (if ss = [] then 0
                     else let s = last ss
                          in if raw s \<le> cur then total_drops s + (cur - raw s)
                             else total_drops s + cur)\<rparr>"

definition putSample :: "time \<Rightarrow> drop_sample \<Rightarrow> drop_sample list \<Rightarrow> drop_sample list" where
  "putSample now s ss =
     (let n = length ss
      in if 1 < n \<and> time_Sub now (sampleAt (ss ! (n - 2))) < dropSpacing then ss[n - 1 := s] else ss @ [s])"

definition Note :: "time \<Rightarrow> instance_statistics \<Rightarrow> drop_history \<Rightarrow> drop_history" where
  "Note now s h =
     (let sample = newSample now (drops s) (samples h)
      in h\<lparr>samples := prune (time_Add now (- keep h)) (putSample now sample (samples h))\<rparr>)"

text \<open>The base of the window: the last sample not after \<open>from\<close>, the first one if there is none.\<close>

fun baseSample :: "time \<Rightarrow> drop_sample \<Rightarrow> drop_sample list \<Rightarrow> drop_sample" where
  "baseSample from base [] = base"
| "baseSample from base (s # ss) = (if from < sampleAt s then base else baseSample from s ss)"

text \<open>\<^verbatim>\<open>None\<close> is \<^verbatim>\<open>ok = false\<close>: no statistics have arrived.\<close>

definition Within :: "time \<Rightarrow> duration \<Rightarrow> drop_history \<Rightarrow> u64 option" where
  "Within now window h =
     (if samples h = [] then None
      else Some (total_drops (last (samples h))
                 - total_drops (baseSample (time_Add now (- window)) (hd (samples h)) (samples h))))"

lemmas drop_defs = newSample_def putSample_def Note_def Within_def

section \<open>What the reports say\<close>

text \<open>
  A run is the list of reports with their arrival times. Between two consecutive reports the
  counter grew by their difference, or by the new reading after a restart of vq-core.
\<close>

type_synonym report_log = "(time \<times> instance_statistics) list"

definition increment :: "u64 \<Rightarrow> u64 \<Rightarrow> u64" where
  "increment prev cur = (if prev \<le> cur then cur - prev else cur)"

definition growth :: "report_log \<Rightarrow> nat \<Rightarrow> u64" where
  "growth rs i = increment (drops (snd (rs ! (i - 1)))) (drops (snd (rs ! i)))"

text \<open>The packets dropped after report \<open>k\<close>, up to the last report.\<close>

definition droppedSince :: "report_log \<Rightarrow> nat \<Rightarrow> u64" where
  "droppedSince rs k = (\<Sum>i\<leftarrow>[Suc k..<length rs]. growth rs i)"

definition noteAll :: "duration \<Rightarrow> report_log \<Rightarrow> drop_history" where
  "noteAll k rs = foldl (\<lambda>h (t, s). Note t s h) (NewDropHistory k) rs"

section \<open>The invariant\<close>

text \<open>The sample that records report \<open>i\<close>.\<close>

definition sampleOf :: "report_log \<Rightarrow> nat \<Rightarrow> drop_sample" where
  "sampleOf rs i = \<lparr>sampleAt = fst (rs ! i), raw = drops (snd (rs ! i)),
                    total_drops = (\<Sum>j\<leftarrow>[1..<Suc i]. growth rs j)\<rparr>"

definition close :: "report_log \<Rightarrow> nat \<Rightarrow> nat \<Rightarrow> bool" where
  "close rs i j \<longleftrightarrow> i < j \<and> (j = Suc i \<or> fst (rs ! j) - fst (rs ! i) < dropSpacing)"

text \<open>
  The samples record the reports with the indices \<open>ks\<close>: the newest report is one of them,
  neighbours are consecutive reports or closer than the spacing, and if the first report is gone
  then the oldest kept one is older than the cutoff.
\<close>

definition records :: "duration \<Rightarrow> report_log \<Rightarrow> nat list \<Rightarrow> drop_sample list \<Rightarrow> bool" where
  "records k rs ks ss \<longleftrightarrow>
     ss = map (sampleOf rs) ks \<and> ks \<noteq> [] \<and> Suc (last ks) = length rs \<and>
     successively (close rs) ks \<and> (hd ks = 0 \<or> fst (rs ! hd ks) < fst (last rs) - k)"

lemma successively_close_less: "successively (close rs) ks \<Longrightarrow> sorted_wrt (<) ks"
proof (induction ks rule: induct_list012)
  case (3 x y zs)
  then have "x < y" "\<forall>z \<in> set zs. y < z" by (auto simp: close_def)
  then have "\<forall>z \<in> set (y # zs). x < z" by auto
  with 3 show ?case by auto
qed auto

lemma records_bound: "records k rs ks ss \<Longrightarrow> i \<in> set ks \<Longrightarrow> i < length rs"
proof -
  assume r: "records k rs ks ss" and i: "i \<in> set ks"
  then obtain j where j: "j < length ks" "ks ! j = i" by (auto simp: in_set_conv_nth)
  have "ks ! j \<le> ks ! (length ks - 1)"
    using r j sorted_wrt_nth_less [OF successively_close_less, of rs ks j "length ks - 1"]
    by (cases "j = length ks - 1") (auto simp: records_def less_imp_le)
  then show ?thesis using r j by (auto simp: records_def last_conv_nth)
qed

lemma growth_append: "0 < i \<Longrightarrow> i < length rs \<Longrightarrow> growth (rs @ ys) i = growth rs i"
  by (auto simp: growth_def nth_append)

lemma sampleOf_append: "i < length rs \<Longrightarrow> sampleOf (rs @ ys) i = sampleOf rs i"
  unfolding sampleOf_def
  by (auto simp: nth_append growth_append intro!: arg_cong [where f = sum_list] map_cong)

lemma close_append: "j < length rs \<Longrightarrow> close (rs @ ys) i j \<longleftrightarrow> close rs i j"
  by (auto simp: close_def nth_append)

lemma newSample_is_sampleOf:
  assumes "records k rs ks ss"
  shows "newSample t (drops s) ss = sampleOf (rs @ [(t, s)]) (length rs)"
proof -
  have l: "last ss = sampleOf rs (last ks)" "ss \<noteq> []" "length rs = Suc (last ks)"
    using assms by (auto simp: records_def last_map)
  have "growth (rs @ [(t, s)]) (length rs) = increment (raw (last ss)) (drops s)"
    using l by (simp add: growth_def nth_append sampleOf_def)
  moreover have "(\<Sum>j\<leftarrow>[1..<Suc (last ks)]. growth (rs @ [(t, s)]) j) = total_drops (last ss)"
    using l by (auto simp: sampleOf_def growth_append intro!: arg_cong [where f = sum_list] map_cong)
  ultimately show ?thesis
    using l by (auto simp: newSample_def sampleOf_def increment_def Let_def nth_append)
qed

lemma putSample_records:
  fixes s :: instance_statistics
  assumes r: "records k rs ks ss" and t: "fst (last rs) \<le> t"
  defines "rs' \<equiv> rs @ [(t, s)]"
  shows "\<exists>ks'. records k rs' ks' (putSample t (newSample t (drops s) ss) ss)"
proof -
  let ?n = "length rs" and ?l = "length ks"
  have ss: "ss = map (sampleOf rs') ks"
    using r records_bound [OF r] by (auto simp: records_def rs'_def sampleOf_append)
  have c: "successively (close rs') ks"
    using r records_bound [OF r]
    by (auto simp: records_def rs'_def successively_conv_nth close_append)
  have h: "hd ks = 0 \<or> fst (rs' ! hd ks) < fst (last rs') - k" and ne: "ks \<noteq> []"
    using r t records_bound [OF r, of "hd ks"] by (auto simp: records_def rs'_def nth_append)
  have lk: "last ks < ?n" "Suc (last ks) = ?n" using r by (auto simp: records_def)
  have ns: "newSample t (drops s) ss = sampleOf rs' ?n"
    using newSample_is_sampleOf [OF r] by (simp add: rs'_def)
  show ?thesis
  proof (cases "1 < ?l \<and> time_Sub t (sampleAt (ss ! (?l - 2))) < dropSpacing")
    case True
    then obtain qs p q where ks: "ks = qs @ [p, q]"
      using ne by (metis append_butlast_last_id append.assoc append_Cons append_Nil butlast.simps(2)
          length_butlast less_numeral_extra(4) list.size(3) nat_less_le zero_less_diff)
    have "p < ?n" using records_bound [OF r, of p] ks by simp
    moreover have "sampleAt (ss ! (?l - 2)) = fst (rs' ! p)"
      using ss ks by (simp add: sampleOf_def nth_append)
    moreover have "time_Sub t (fst (rs' ! p)) < dropSpacing \<longleftrightarrow> t - fst (rs' ! p) < dropSpacing"
      by (rule time_Sub_lt) (simp_all add: dropSpacing_def second_def maxInt64_def)
    ultimately have "close rs' p ?n"
      using True by (simp add: close_def rs'_def)
    then have "successively (close rs') (qs @ [p, ?n])"
      using c ks by (auto simp: successively_append_iff)
    moreover have "putSample t (newSample t (drops s) ss) ss = map (sampleOf rs') (qs @ [p, ?n])"
      using True ks ns ss by (simp add: putSample_def list_update_append)
    moreover have "hd (qs @ [p, ?n]) = hd ks" using ks by (cases qs) auto
    ultimately show ?thesis
      using h by (intro exI [of _ "qs @ [p, ?n]"]) (auto simp: records_def rs'_def)
  next
    case False
    have "close rs' (last ks) ?n" using lk by (simp add: close_def)
    then have "successively (close rs') (ks @ [?n])"
      using c ne by (auto simp: successively_append_iff)
    moreover have "putSample t (newSample t (drops s) ss) ss = map (sampleOf rs') (ks @ [?n])"
      using False ns ss by (auto simp: putSample_def Let_def)
    ultimately show ?thesis
      using h ne by (intro exI [of _ "ks @ [?n]"]) (auto simp: records_def rs'_def)
  qed
qed

lemma prune_records:
  "records k rs ks ss \<Longrightarrow> \<exists>ks'. records k rs ks' (prune (fst (last rs) - k) ss)"
proof (induction "fst (last rs) - k" ss arbitrary: ks rule: prune.induct)
  case (1 a b ss)
  show ?case
  proof (cases "sampleAt b < fst (last rs) - k")
    case True
    from 1(2) obtain i j is' where ks: "ks = i # j # is'"
      by (auto simp: records_def map_eq_Cons_conv)
    have "records k rs (j # is') (b # ss)"
      using 1(2) True ks by (auto simp: records_def sampleOf_def)
    with True 1(1) [of "j # is'"] show ?thesis by auto
  next
    case False
    with 1(2) show ?thesis by auto
  qed
qed auto

lemma noteAll_records:
  assumes "rs \<noteq> []" "sorted (map fst rs)"
  shows "keep (noteAll k rs) = k \<and> (\<exists>ks. records k rs ks (samples (noteAll k rs)))"
  using assms
proof (induction rs rule: rev_induct)
  case (snoc r rs)
  obtain t s where r: "r = (t, s)" by (cases r)
  show ?case
  proof (cases "rs = []")
    case True
    then show ?thesis
      by (auto simp: r noteAll_def NewDropHistory_def drop_defs records_def sampleOf_def
          intro!: exI [of _ "[0]"])
  next
    case False
    let ?h = "noteAll k rs"
    have t: "fst (last rs) \<le> t" using snoc(3) False r by (auto simp: sorted_append)
    from snoc False obtain ks where ks: "records k rs ks (samples ?h)" "keep ?h = k"
      by (auto simp: sorted_append)
    obtain ks' where "records k (rs @ [r]) ks' (putSample t (newSample t (drops s) (samples ?h)) (samples ?h))"
      using putSample_records [OF ks(1) t] r by blast
    from prune_records [OF this] show ?thesis
      using ks(2) by (auto simp: noteAll_def r Note_def Let_def time_Add_def)
  qed
qed simp

section \<open>The answer for a window\<close>

lemma baseSample_spec:
  assumes "xs \<noteq> []"
  shows "\<exists>j < length xs. baseSample from (hd xs) xs = xs ! j \<and> (j = 0 \<or> sampleAt (xs ! j) \<le> from) \<and>
           (Suc j < length xs \<and> sampleAt (xs ! j) \<le> from \<longrightarrow> from < sampleAt (xs ! Suc j))"
proof -
  have "\<exists>j \<le> length xs. baseSample from b xs = (b # xs) ! j \<and> (j = 0 \<or> sampleAt ((b # xs) ! j) \<le> from) \<and>
          (j < length xs \<longrightarrow> from < sampleAt (xs ! j))" for b and xs :: "drop_sample list"
  proof (induction xs arbitrary: b)
    case (Cons x xs)
    show ?case
    proof (cases "from < sampleAt x")
      case False
      from Cons [of x] obtain j where "j \<le> length xs" "baseSample from x xs = (x # xs) ! j"
        "j = 0 \<or> sampleAt ((x # xs) ! j) \<le> from" "j < length xs \<longrightarrow> from < sampleAt (xs ! j)" by blast
      with False show ?thesis by (intro exI [of _ "Suc j"]) auto
    qed (intro exI [of _ 0], auto)
  qed simp
  then obtain j where j: "j \<le> length xs" "baseSample from (hd xs) xs = (hd xs # xs) ! j"
      "j = 0 \<or> sampleAt ((hd xs # xs) ! j) \<le> from" "j < length xs \<longrightarrow> from < sampleAt (xs ! j)" by blast
  show ?thesis
  proof (cases j)
    case 0
    with j assms show ?thesis
      by (intro exI [of _ 0]) (auto simp: hd_conv_nth)
  next
    case (Suc i)
    with j assms show ?thesis by (intro exI [of _ i]) auto
  qed
qed

lemma total_split:
  "k < length rs \<Longrightarrow>
     total_drops (sampleOf rs (length rs - 1)) - total_drops (sampleOf rs k) = droppedSince rs k"
proof -
  assume k: "k < length rs"
  then have "Suc (length rs - 1) = length rs" by simp
  moreover have "[1..<length rs] = [1..<Suc k] @ [Suc k..<length rs]"
    using upt_add_eq_append [of 1 "Suc k" "length rs - Suc k"] k le_add_diff_inverse [of "Suc k" "length rs"]
    by (simp only: Suc_le_eq One_nat_def zero_less_Suc if_True)
  ultimately show ?thesis by (simp add: sampleOf_def droppedSince_def del: upt_Suc)
qed

lemma close_step:
  assumes "close rs i j" "j < length rs" "dropSpacing \<le> d"
    and "\<forall>i. Suc i < length rs \<longrightarrow> fst (rs ! Suc i) - fst (rs ! i) \<le> d"
  shows "fst (rs ! j) - fst (rs ! i) \<le> d"
  using assms by (auto simp: close_def)

text \<open>C16: Take any run of instance-statistics reports with a clock that does not go back, and ask
  the history for a window no longer than the one it keeps, at or after the last report. Before any
  report the answer is "unknown". Otherwise there is a report k such that the answer is exactly the
  sum of the counter increments reported after k (drops before a restart of vq-core included, in
  64-bit arithmetic). Report k is not younger than the start of the window, unless it is the very
  first one; and it is the last report, or (with reports at most d apart, d at least the sample
  spacing) it is less than d older than the start of the window. Thinning the samples to one per
  five seconds and pruning old ones never loses or doubles a drop.\<close>

theorem Within_exact:
  assumes "sorted (map fst rs)" "window \<le> k" "rs \<noteq> [] \<longrightarrow> fst (last rs) \<le> now"
  shows "(rs = [] \<longrightarrow> Within now window (noteAll k rs) = None) \<and>
    (rs \<noteq> [] \<longrightarrow>
      (\<exists>i < length rs. Within now window (noteAll k rs) = Some (droppedSince rs i) \<and>
         (i = 0 \<or> fst (rs ! i) \<le> now - window) \<and>
         (\<forall>d. dropSpacing \<le> d \<and> (\<forall>j. Suc j < length rs \<longrightarrow> fst (rs ! Suc j) - fst (rs ! j) \<le> d) \<and>
              Suc i < length rs \<and> fst (rs ! i) \<le> now - window
            \<longrightarrow> now - window - d < fst (rs ! i))))"
proof (cases "rs = []")
  case True
  then show ?thesis by (simp add: noteAll_def NewDropHistory_def Within_def)
next
  case False
  let ?ss = "samples (noteAll k rs)" and ?from = "now - window"
  obtain ks where r: "records k rs ks ?ss"
    using noteAll_records [OF False assms(1)] by blast
  then have ss: "?ss = map (sampleOf rs) ks" "?ss \<noteq> []" "length rs - 1 = last ks" "ks \<noteq> []"
    by (auto simp: records_def)
  obtain j where j: "j < length ?ss" "baseSample ?from (hd ?ss) ?ss = ?ss ! j"
      "j = 0 \<or> sampleAt (?ss ! j) \<le> ?from" "Suc j < length ?ss \<and> sampleAt (?ss ! j) \<le> ?from \<longrightarrow> ?from < sampleAt (?ss ! Suc j)"
    using baseSample_spec [OF ss(2)] by blast
  let ?i = "ks ! j"
  have jl: "j < length ks" using j(1) ss(1) by simp
  have i: "?i < length rs" using records_bound [OF r, of ?i] jl by simp
  have "Within now window (noteAll k rs) = Some (droppedSince rs ?i)"
    using ss j jl total_split [OF i] by (simp add: Within_def time_Add_def last_map)
  moreover have "?i = 0 \<or> fst (rs ! ?i) \<le> ?from"
  proof (cases "j = 0")
    case True
    then have "?i = hd ks" using ss(4) by (simp add: hd_conv_nth)
    moreover have "hd ks = 0 \<or> fst (rs ! hd ks) < fst (last rs) - k" using r by (simp add: records_def)
    ultimately show ?thesis using assms(2,3) False by auto
  qed (use j jl ss(1) in \<open>auto simp: sampleOf_def\<close>)
  moreover have "?from - d < fst (rs ! ?i)"
    if d: "dropSpacing \<le> d" "\<forall>j. Suc j < length rs \<longrightarrow> fst (rs ! Suc j) - fst (rs ! j) \<le> d"
      and n: "Suc ?i < length rs" "fst (rs ! ?i) \<le> ?from" for d
  proof -
    have "Suc j < length ks"
      using n(1) jl ss(3,4) by (cases "Suc j = length ks") (auto simp: last_conv_nth dest: sym)
    moreover from this have "close rs ?i (ks ! Suc j)" "ks ! Suc j < length rs"
      using r records_bound [OF r, of "ks ! Suc j"] by (auto simp: records_def successively_conv_nth)
    then have "fst (rs ! (ks ! Suc j)) - fst (rs ! ?i) \<le> d" using d close_step by blast
    ultimately show ?thesis using j(4) jl n(2) ss(1) by (simp add: sampleOf_def)
  qed
  ultimately show ?thesis using False i by blast
qed

definition stat0 :: "u64 \<Rightarrow> instance_statistics" where
  "stat0 d = \<lparr>InstanceID = [], InstanceName = [], ServerTime = [], InstanceVersion = [],
     UptimeSeconds = 0, PvqaInstanceCounter = 0, PvqaProcessedSeconds = 0, ActiveDecoderCounter = 0,
     ActiveAudioDecoderCounter = 0, TotalDecoderCounter = 0,
     Capturers = [\<lparr>Device = ''eth0'', TotalPackets = 0, RTPPackets = 0, SipPackets = 0,
        TruncatedPackets = 0, SrcPortRange = [], DstPortRange = [], DroppedHwPackets = d,
        ErroneousPackets = 0, MbufAllocFailed = 1\<rparr>],
     SipCallCounter = 0, ResipMessageCounter = 0, ResipSipMessageCounter = 0, MemAllocatedBytes = 0,
     MemHeapSize = 0, MemPageheapFreeBytes = 0, MemAllocCount = 0, MemFreeCount = 0,
     MemAllocsPerSec = Fin False 0, MemFreesPerSec = Fin False 0, CpuUserSeconds = Fin False 0,
     CpuSystemSeconds = Fin False 0, CpuUsagePercent = Fin False 0\<rparr>"

text \<open>Three reports with a restart before the last: ten drops, then three new ones after the restart.\<close>

definition log0 :: report_log where
  "log0 = [(0, stat0 5), (6 * second, stat0 15), (12 * second, stat0 2)]"

theorem Within_exact_witness:
  "(\<exists>i < 3. Within (12 * second) (20 * second) (noteAll (30 * second) log0) = Some (droppedSince log0 i) \<and>
     (i = 0 \<or> fst (log0 ! i) \<le> - 8 * second)) \<and>
   Within (12 * second) (20 * second) (noteAll (30 * second) log0) = Some 13"
proof
  have l: "length log0 = 3" "fst (last log0) \<le> 12 * second" "sorted (map fst log0)" "log0 \<noteq> []"
    by (auto simp: log0_def second_def)
  show "\<exists>i < 3. Within (12 * second) (20 * second) (noteAll (30 * second) log0) = Some (droppedSince log0 i) \<and>
     (i = 0 \<or> fst (log0 ! i) \<le> - 8 * second)"
    using Within_exact [of log0 "20 * second" "30 * second" "12 * second"] l
    by (auto simp: second_def)
  show "Within (12 * second) (20 * second) (noteAll (30 * second) log0) = Some 13"
    by code_simp
qed

end
