(* ===== verification/Daemon.thy ===== *)
theory Daemon
  imports Ingest Translate Track_Sync Alarm_Engine Alarm_Drops
begin

text \<open>
  How the daemon is put together (\<^verbatim>\<open>cmd/vq-db/main.go\<close>): the message callback of the pipeline
  (\<^verbatim>\<open>ingest/pipeline.go\<close>), the poll loop of the bus goroutine (\<^verbatim>\<open>bus/subscriber.go\<close>) as a step
  relation, the callback for instance statistics, the cleanup worker (\<^verbatim>\<open>worker/cleanup.go\<close>) and the
  construction of the alarms. Clock readings are part of a step; \<open>unmarshal\<close> is the protobuf decoder.
\<close>

section \<open>Instance statistics\<close>

record stats_sinks =
  skSnapshot :: instance_snapshot
  skSync :: "sync_worker option"
  skDrops :: "drop_history option"

text \<open>The closure \<^verbatim>\<open>main.go\<close> passes to the pipeline; \<open>now\<close> is the clock of the drop history.\<close>

definition onInstanceStats :: "time \<Rightarrow> instance_statistics \<Rightarrow> stats_sinks \<Rightarrow> stats_sinks" where
  "onInstanceStats now s k =
     k\<lparr>skSnapshot := InstanceSnapshot_Set s (skSnapshot k),
       skSync := map_option (TrackNoteUptime (UptimeSeconds s)) (skSync k),
       skDrops := map_option (Note now s) (skDrops k)\<rparr>"

section \<open>The bus goroutine\<close>

record daemon =
  dPipe :: "stats_sinks pipeline"
  dSweeper :: "ghost_sweeper option"

definition OnBytes :: "(string \<Rightarrow> pb_event option) \<Rightarrow> (int list \<Rightarrow> int) \<Rightarrow> (string \<Rightarrow> string) \<Rightarrow> i64 \<Rightarrow> time \<Rightarrow> string
    \<Rightarrow> stats_sinks pipeline \<Rightarrow> stats_sinks pipeline" where
  "OnBytes unmarshal fresh uc nowMs now data p =
     (case DecodeBytes unmarshal data of
        None \<Rightarrow> p
      | Some None \<Rightarrow> p
      | Some (Some ev) \<Rightarrow> Dispatch fresh uc (Some (onInstanceStats now)) nowMs ev p)"

text \<open>The idle callback: the ghost sweeper's tick, when one is configured.\<close>

definition onIdle :: "(int list \<Rightarrow> int) \<Rightarrow> (string \<Rightarrow> string) \<Rightarrow> i64 \<Rightarrow> time \<Rightarrow> daemon \<Rightarrow> daemon" where
  "onIdle fresh uc nowMs now d =
     (case (dSweeper d, pl_registry (dPipe d)) of
        (Some g, Some r) \<Rightarrow>
          (case Ingest.Tick (\<lambda>idle. SweepGhostsAt idle nowMs) (AddFinal fresh uc nowMs) now g r
                  (pl_writer (dPipe d), pl_log (dPipe d)) of
             (g', r', (w', lg')) \<Rightarrow>
               d\<lparr>dSweeper := Some g', dPipe := (dPipe d)\<lparr>pl_registry := Some r', pl_writer := w', pl_log := lg'\<rparr>\<rparr>)
      | _ \<Rightarrow> d)"

text \<open>
  One iteration of \<^verbatim>\<open>pollLoop\<close>: a received message (its first frame is handled, an empty message
  is not) followed by the idle callback, or the idle ticker.
\<close>

inductive pollStep :: "(string \<Rightarrow> pb_event option) \<Rightarrow> (int list \<Rightarrow> int) \<Rightarrow> (string \<Rightarrow> string) \<Rightarrow> daemon \<Rightarrow> daemon \<Rightarrow> bool"
  for unmarshal fresh uc where
  message: "pollStep unmarshal fresh uc d
     (onIdle fresh uc nowMs2 now2 (d\<lparr>dPipe := OnBytes unmarshal fresh uc nowMs now frame (dPipe d)\<rparr>))"
| idle: "pollStep unmarshal fresh uc d (onIdle fresh uc nowMs now d)"

inductive reaches :: "(string \<Rightarrow> pb_event option) \<Rightarrow> (int list \<Rightarrow> int) \<Rightarrow> (string \<Rightarrow> string) \<Rightarrow> daemon \<Rightarrow> nat \<Rightarrow> daemon \<Rightarrow> bool"
  for unmarshal fresh uc d0 where
  start: "reaches unmarshal fresh uc d0 0 d0"
| step: "reaches unmarshal fresh uc d0 n d \<Longrightarrow> pollStep unmarshal fresh uc d d' \<Longrightarrow> reaches unmarshal fresh uc d0 (Suc n) d'"

definition newDaemon :: "outcome list \<Rightarrow> string \<Rightarrow> string \<Rightarrow> stats_sinks \<Rightarrow> ghost_sweeper option \<Rightarrow> daemon" where
  "newDaemon os aid name k g = \<lparr>dPipe = newPipeline os aid name k, dSweeper = g\<rparr>"

section \<open>The cleanup worker\<close>

record cleanup_worker =
  cwRecordsS :: int
  cwAudioS :: int

definition sweep :: "int \<Rightarrow> cleanup_worker \<Rightarrow> 'z conn_scheme \<Rightarrow> 'z conn_scheme" where
  "sweep nowMs c s =
     (let s1 = (if 0 < cwRecordsS c then snd (RemoveOldRecords (wrap64 (nowMs - wrap64 (cwRecordsS c * 1000))) s) else s)
      in if 0 < cwAudioS c then snd (RemoveOldAudio (wrap64 (nowMs - wrap64 (cwAudioS c * 1000))) s1) else s1)"

lemma RemoveOldAudio_noOrphans: "noOrphans (tables s) \<Longrightarrow> noOrphans (tables (snd (RemoveOldAudio cutoff s)))"
  by (cases rule: atomicE [OF atomic_exec, of "deleteAudio cutoff" s])
    (auto simp: RemoveOldAudio_def deleteAudio_def noOrphans_def streamIds_def)

lemma RemoveOldRecords_noOrphans: "noOrphans (tables s) \<Longrightarrow> noOrphans (tables (snd (RemoveOldRecords cutoff s)))"
  using RemoveOldRecords_removal [of cutoff s] by (auto simp: removal_def)

lemma sweep_noOrphans: "noOrphans (tables s) \<Longrightarrow> noOrphans (tables (sweep nowMs c s))"
  by (simp add: sweep_def Let_def RemoveOldAudio_noOrphans RemoveOldRecords_noOrphans)

lemma sweep_disabled: "cwRecordsS c \<le> 0 \<Longrightarrow> cwAudioS c \<le> 0 \<Longrightarrow> sweep nowMs c s = s"
  by (simp add: sweep_def)

section \<open>Building the alarms\<close>

definition acceptedRules :: "alarm_config list \<Rightarrow> rule list" where
  "acceptedRules cs = concat (map (\<lambda>c. case NewRule c of Inl _ \<Rightarrow> [] | Inr r \<Rightarrow> [r]) cs)"

definition longestWindow :: "rule list \<Rightarrow> duration" where
  "longestWindow rs = foldl (\<lambda>l r. max l (Window r)) 0 rs"

text \<open>\<^verbatim>\<open>None\<close> when no rule is valid; the three notifiers are the event table, the commands and the
  webhooks.\<close>

definition buildAlarms :: "alarm_config list \<Rightarrow> inst \<Rightarrow> (engine \<times> drop_history) option" where
  "buildAlarms cs i =
     (let rs = acceptedRules cs
      in if rs = [] then None
         else Some (NewEngine rs i 3, NewDropHistory (wrap64 (longestWindow rs + minute))))"

lemma longestWindow_ge: "r \<in> set rs \<Longrightarrow> Window r \<le> longestWindow rs"
proof -
  have "b \<le> foldl (\<lambda>l r. max l (Window r)) b rs" for b and rs :: "rule list"
    by (induction rs arbitrary: b) (auto intro: order_trans [OF max.cobounded1])
  moreover have "r \<in> set rs \<Longrightarrow> Window r \<le> foldl (\<lambda>l r. max l (Window r)) b rs" for b
    by (induction rs arbitrary: b) (auto intro: order_trans [OF max.cobounded2 calculation])
  ultimately show "r \<in> set rs \<Longrightarrow> Window r \<le> longestWindow rs" by (simp add: longestWindow_def)
qed

lemma acceptedRules_ok: "r \<in> set (acceptedRules cs) \<Longrightarrow> ruleOk r"
proof -
  assume "r \<in> set (acceptedRules cs)"
  then obtain c where "NewRule c = Inr r" by (auto simp: acceptedRules_def split: sum.splits)
  then show "ruleOk r" by (auto simp: NewRule_Inr actionCheck_baseRule)
qed

text \<open>The drop history keeps more than every rule's window, unless a window is within a minute of
  the longest duration.\<close>

lemma buildAlarms_windows:
  assumes "buildAlarms cs i = Some (e, h)" "(r, st) \<in> set (rules e)" "longestWindow (acceptedRules cs) \<le> maxInt64 - minute"
  shows "ruleOk r \<and> Window r < keep h"
proof -
  have r: "r \<in> set (acceptedRules cs)" "keep h = wrap64 (longestWindow (acceptedRules cs) + minute)"
    using assms(1,2) by (auto simp: buildAlarms_def Let_def NewEngine_def NewDropHistory_def split: if_splits)
  have "0 < Window r" using acceptedRules_ok [OF r(1)] by (simp add: ruleOk_def)
  with longestWindow_ge [OF r(1)] assms(3) have "keep h = longestWindow (acceptedRules cs) + minute"
    unfolding r(2) by (intro wrap64_id) (auto simp: minInt64_def minute_def second_def)
  with longestWindow_ge [OF r(1)] acceptedRules_ok [OF r(1)] show ?thesis
    by (simp add: minute_def second_def)
qed

section \<open>The invariant of the bus goroutine\<close>

lemma SweepGhostsAt_stamps: "order_ctr (fst (SweepGhostsAt idle now r)) = order_ctr r"
  by (simp add: SweepGhostsAt_def evict_keeps)

lemma onIdle_keeps:
  assumes "pipeInv R (dPipe d)" "freshOk fresh"
  shows "pipeInv R (dPipe (onIdle fresh uc nowMs now d)) \<and> stamps (dPipe (onIdle fresh uc nowMs now d)) = stamps (dPipe d)"
proof (cases "dSweeper d")
  case (Some g)
  show ?thesis
  proof (cases "pl_registry (dPipe d)")
    case reg: (Some r)
    obtain g' r' w' lg' where t: "Ingest.Tick (\<lambda>idle. SweepGhostsAt idle nowMs) (AddFinal fresh uc nowMs) now g r
        (pl_writer (dPipe d), pl_log (dPipe d)) = (g', r', (w', lg'))"
      by (metis prod.collapse)
    have inv: "regInv r" "writerInv R (pl_writer (dPipe d))" using assms(1) reg by (auto simp: pipeInv_def)
    have "regInv r' \<and> freshOk fresh \<and> writerInv R w'"
      using sweeper.Tick_keeps [OF _ _ t] inv assms(2) by auto
    moreover have "order_ctr r' = order_ctr r"
      using t by (auto simp: Ingest.Tick_def split_beta SweepGhostsAt_stamps split: if_splits)
    ultimately show ?thesis
      by (simp add: onIdle_def Some reg t pipeInv_def stamps_def)
  qed (use assms in \<open>simp add: onIdle_def Some\<close>)
qed (use assms in \<open>simp add: onIdle_def\<close>)

lemma OnBytes_keeps:
  assumes "pipeInv R p" "freshOk fresh" "stamps p < maxInt64"
  shows "pipeInv R (OnBytes unmarshal fresh uc nowMs now data p) \<and> stamps (OnBytes unmarshal fresh uc nowMs now data p) \<le> stamps p + 1"
  using assms Dispatch_keeps [OF assms] by (auto simp: OnBytes_def split: option.splits)

lemma pollStep_keeps:
  assumes "pollStep unmarshal fresh uc d d'" "pipeInv R (dPipe d)" "freshOk fresh" "stamps (dPipe d) < maxInt64"
  shows "pipeInv R (dPipe d') \<and> stamps (dPipe d') \<le> stamps (dPipe d) + 1"
  using assms(1)
proof cases
  case (message nowMs2 now2 nowMs now frame)
  let ?d = "d\<lparr>dPipe := OnBytes unmarshal fresh uc nowMs now frame (dPipe d)\<rparr>"
  from OnBytes_keeps [OF assms(2-4), of unmarshal uc nowMs now frame]
  have "pipeInv R (dPipe ?d)" "stamps (dPipe ?d) \<le> stamps (dPipe d) + 1" by auto
  with onIdle_keeps [of R ?d fresh uc nowMs2 now2] assms(3) message show ?thesis by simp
next
  case (idle nowMs now)
  with onIdle_keeps [OF assms(2,3), of uc nowMs now] show ?thesis by simp
qed

lemma reaches_inv:
  assumes "reaches unmarshal fresh uc d0 n d" "pipeInv R (dPipe d0)" "freshOk fresh" "stamps (dPipe d0) + int n \<le> maxInt64"
  shows "pipeInv R (dPipe d) \<and> stamps (dPipe d) \<le> stamps (dPipe d0) + int n"
  using assms
proof (induction rule: reaches.induct)
  case (step n d d')
  then have "pipeInv R (dPipe d)" "stamps (dPipe d) \<le> stamps (dPipe d0) + int n" by auto
  with pollStep_keeps [OF step.hyps(2), of R] step.prems show ?case by simp
qed simp

text \<open>Both restart detectors see the same restarts, and the statistics reach every sink.\<close>

lemma restart_detectors_agree:
  assumes "lastUptime r = swLastUptime t" "\<not> swRestarted t"
  shows "snd (NoteUptime u r) \<longleftrightarrow> swRestarted (TrackNoteUptime u t)"
    and "lastUptime (fst (NoteUptime u r)) = swLastUptime (TrackNoteUptime u t)"
  using assms by (auto simp: NoteUptime_def TrackNoteUptime_def Kick_def Let_def split: option.splits)

end
