(* ===== verification/Bus_Subscriber.thy ===== *)
theory Bus_Subscriber
  imports Daemon
begin

text \<open>
  The subscriber of the message bus (\<^verbatim>\<open>bus/subscriber.go\<close>): starting and stopping, the loop that dials,
  subscribes, polls and reconnects, and the callbacks it runs on its goroutine. What the network and the
  scheduler do is the nondeterminism of the step relation \<open>busStep\<close>; a callback is a relation, since it reads
  clocks and may be cut short by a panic that is recovered. The theorems show that the subscriber stops when
  it is told to, and that the store stays consistent whatever the network does.
\<close>

section \<open>The subscriber\<close>

text \<open>Where the goroutine is: not launched, at the head of the loop of \<^verbatim>\<open>run\<close>, in \<^verbatim>\<open>Dial\<close>, in \<^verbatim>\<open>SetOption\<close>, in
  \<^verbatim>\<open>pollLoop\<close>, in \<^verbatim>\<open>sleep\<close>, or gone.\<close>

datatype phase = NotLaunched | LoopHead | Dialling | Subscribing | Polling | Sleeping | Gone

record 's subscriber =
  subEndpoint :: string
  subStarted :: bool
  subCancelled :: bool
  subPhase :: phase
  subApp :: 's

definition NewSubscriber :: "string \<Rightarrow> 's \<Rightarrow> 's subscriber" where
  "NewSubscriber endpoint app =
     \<lparr>subEndpoint = endpoint, subStarted = False, subCancelled = False, subPhase = NotLaunched, subApp = app\<rparr>"

definition SubscriberForPort :: "int \<Rightarrow> 's \<Rightarrow> 's subscriber" where
  "SubscriberForPort port = NewSubscriber (''tcp://localhost:'' @ strconv_Itoa port)"

definition Subscriber_Start :: "'s subscriber \<Rightarrow> string option \<times> 's subscriber" where
  "Subscriber_Start s =
     (if subStarted s then (Some ''already started'', s)
      else (None, s\<lparr>subStarted := True, subCancelled := False, subPhase := LoopHead\<rparr>))"

text \<open>Without a context there is nothing to cancel; waiting for the goroutine is up to the caller.\<close>

definition Subscriber_Stop :: "'s subscriber \<Rightarrow> 's subscriber" where
  "Subscriber_Stop s = (if subStarted s then s\<lparr>subCancelled := True\<rparr> else s)"

section \<open>The goroutine\<close>

definition safeOnIdle :: "('s \<Rightarrow> 's \<Rightarrow> bool) option \<Rightarrow> 's \<Rightarrow> 's \<Rightarrow> bool" where
  "safeOnIdle idle a a' = (case idle of None \<Rightarrow> a' = a | Some f \<Rightarrow> f a a')"

definition safeOnMessage :: "(string \<Rightarrow> 's \<Rightarrow> 's \<Rightarrow> bool) \<Rightarrow> string list \<Rightarrow> 's \<Rightarrow> 's \<Rightarrow> bool" where
  "safeOnMessage msg frames a a' = (case frames of [] \<Rightarrow> a' = a | frame # _ \<Rightarrow> msg frame a a')"

text \<open>A label tells a step that ran callbacks from one that only moves the loop.\<close>

datatype label = Move | Work

inductive busStep ::
    "(string \<Rightarrow> 's \<Rightarrow> 's \<Rightarrow> bool) \<Rightarrow> ('s \<Rightarrow> 's \<Rightarrow> bool) option \<Rightarrow> 's subscriber \<Rightarrow> label \<Rightarrow> 's subscriber \<Rightarrow> bool"
  for msg idle where
  dial: "subPhase s = LoopHead \<Longrightarrow> \<not> subCancelled s \<Longrightarrow> busStep msg idle s Move (s\<lparr>subPhase := Dialling\<rparr>)"
| leave: "subPhase s = LoopHead \<Longrightarrow> subCancelled s \<Longrightarrow> busStep msg idle s Move (s\<lparr>subPhase := Gone\<rparr>)"
| dialled: "subPhase s = Dialling \<Longrightarrow> busStep msg idle s Move (s\<lparr>subPhase := Subscribing\<rparr>)"
| dialFailed: "subPhase s = Dialling \<Longrightarrow> busStep msg idle s Move (s\<lparr>subPhase := Sleeping\<rparr>)"
| subscribed: "subPhase s = Subscribing \<Longrightarrow> busStep msg idle s Move (s\<lparr>subPhase := Polling\<rparr>)"
| subscribeFailed: "subPhase s = Subscribing \<Longrightarrow> busStep msg idle s Move (s\<lparr>subPhase := Sleeping\<rparr>)"
| woken: "subPhase s = Sleeping \<Longrightarrow> busStep msg idle s Move (s\<lparr>subPhase := LoopHead\<rparr>)"
| cancelled: "subPhase s = Polling \<Longrightarrow> subCancelled s \<Longrightarrow> busStep msg idle s Move (s\<lparr>subPhase := LoopHead\<rparr>)"
| recvFailed: "subPhase s = Polling \<Longrightarrow> busStep msg idle s Move (s\<lparr>subPhase := Sleeping\<rparr>)"
| received: "subPhase s = Polling \<Longrightarrow> safeOnMessage msg frames (subApp s) a \<Longrightarrow> safeOnIdle idle a a' \<Longrightarrow>
    busStep msg idle s Work (s\<lparr>subApp := a'\<rparr>)"
| ticked: "subPhase s = Polling \<Longrightarrow> safeOnIdle idle (subApp s) a' \<Longrightarrow> busStep msg idle s Work (s\<lparr>subApp := a'\<rparr>)"

inductive_cases busStep_elim: "busStep msg idle s l s'"

text \<open>A run of the goroutine, during which another one may call \<^verbatim>\<open>Stop\<close>; the counts are those of the moves
  and of the work.\<close>

inductive busRun ::
    "(string \<Rightarrow> 's \<Rightarrow> 's \<Rightarrow> bool) \<Rightarrow> ('s \<Rightarrow> 's \<Rightarrow> bool) option \<Rightarrow> 's subscriber \<Rightarrow> nat \<Rightarrow> nat \<Rightarrow> 's subscriber \<Rightarrow> bool"
  for msg idle s0 where
  begin_run: "busRun msg idle s0 0 0 s0"
| move: "busRun msg idle s0 m n s \<Longrightarrow> busStep msg idle s Move s' \<Longrightarrow> busRun msg idle s0 (Suc m) n s'"
| work: "busRun msg idle s0 m n s \<Longrightarrow> busStep msg idle s Work s' \<Longrightarrow> busRun msg idle s0 m (Suc n) s'"
| stop: "busRun msg idle s0 m n s \<Longrightarrow> busRun msg idle s0 m n (Subscriber_Stop s)"

section \<open>Stopping\<close>

text \<open>How many moves a cancelled goroutine has left at most.\<close>

fun movesLeft :: "phase \<Rightarrow> nat" where
  "movesLeft NotLaunched = 0"
| "movesLeft LoopHead = 1"
| "movesLeft Sleeping = 2"
| "movesLeft Polling = 3"
| "movesLeft Subscribing = 4"
| "movesLeft Dialling = 5"
| "movesLeft Gone = 0"

lemma movesLeft_le: "movesLeft p \<le> 5"
  by (cases p) simp_all

lemma busStep_cancelled: "busStep msg idle s l s' \<Longrightarrow> subCancelled s' = subCancelled s \<and> subStarted s' = subStarted s"
  by (erule busStep_elim) auto

lemma busStep_rank:
  "busStep msg idle s Move s' \<Longrightarrow> subCancelled s \<Longrightarrow> movesLeft (subPhase s') < movesLeft (subPhase s)"
  "busStep msg idle s Work s' \<Longrightarrow> subPhase s' = subPhase s"
  by (erule busStep_elim; simp)+

lemma busStep_enabled:
  "subPhase s \<notin> {NotLaunched, Gone} \<Longrightarrow> \<exists>s'. busStep msg idle s Move s'"
  by (cases "subPhase s"; cases "subCancelled s") (blast intro: busStep.intros | simp)+

lemma Subscriber_Stop_simps [simp]:
  "subPhase (Subscriber_Stop s) = subPhase s" "subApp (Subscriber_Stop s) = subApp s"
  "subStarted (Subscriber_Stop s) = subStarted s"
  "subCancelled (Subscriber_Stop s) \<longleftrightarrow> subStarted s \<or> subCancelled s"
  by (simp_all add: Subscriber_Stop_def)

lemma busRun_bound:
  "busRun msg idle s0 m n s \<Longrightarrow> subCancelled s0 \<Longrightarrow>
   subCancelled s \<and> m + movesLeft (subPhase s) \<le> movesLeft (subPhase s0)"
proof (induction rule: busRun.induct)
  case (move m n s s')
  then show ?case using busStep_rank(1) [OF move.hyps(2)] busStep_cancelled [OF move.hyps(2)] by simp
next
  case (work m n s s')
  then show ?case using busStep_rank(2) [OF work.hyps(2)] busStep_cancelled [OF work.hyps(2)] by simp
qed simp_all

lemma busRun_alive: "busRun msg idle s0 m n s \<Longrightarrow> subPhase s0 \<noteq> NotLaunched \<Longrightarrow> subPhase s \<noteq> NotLaunched"
  by (induction rule: busRun.induct) (auto elim: busStep_elim)

lemma busStep_gone: "busStep msg idle s l s' \<Longrightarrow> subPhase s' = Gone \<Longrightarrow> subCancelled s"
  by (erule busStep_elim) auto

lemma busRun_uncancelled: "busRun msg idle s0 m n s \<Longrightarrow> subPhase s0 \<noteq> Gone \<Longrightarrow> \<not> subCancelled s \<Longrightarrow> subPhase s \<noteq> Gone"
proof (induction rule: busRun.induct)
  case (move m n s s')
  then show ?case using busStep_cancelled [OF move.hyps(2)] busStep_gone [OF move.hyps(2)] by auto
next
  case (work m n s s')
  then show ?case using busStep_cancelled [OF work.hyps(2)] busStep_gone [OF work.hyps(2)] by auto
qed auto

section \<open>The daemon on the bus\<close>

definition daemonMessage :: "(string \<Rightarrow> pb_event option) \<Rightarrow> (int list \<Rightarrow> int) \<Rightarrow> (string \<Rightarrow> string) \<Rightarrow> string \<Rightarrow> daemon \<Rightarrow> daemon \<Rightarrow> bool" where
  "daemonMessage unmarshal fresh uc frame d d' \<longleftrightarrow>
     (\<exists>nowMs now. d' = d\<lparr>dPipe := OnBytes unmarshal fresh uc nowMs now frame (dPipe d)\<rparr>)"

definition daemonIdle :: "(int list \<Rightarrow> int) \<Rightarrow> (string \<Rightarrow> string) \<Rightarrow> daemon \<Rightarrow> daemon \<Rightarrow> bool" where
  "daemonIdle fresh uc d d' \<longleftrightarrow> (\<exists>nowMs now. d' = onIdle fresh uc nowMs now d)"

lemma daemon_work:
  assumes "busStep (daemonMessage unmarshal fresh uc) (Some (daemonIdle fresh uc)) s Work s'"
  shows "pollStep unmarshal fresh uc (subApp s) (subApp s')"
  using assms
proof (rule busStep_elim)
  fix frames a a'
  assume m: "safeOnMessage (daemonMessage unmarshal fresh uc) frames (subApp s) a" "safeOnIdle (Some (daemonIdle fresh uc)) a a'"
    and s': "s' = s\<lparr>subApp := a'\<rparr>"
  obtain nowMs now where a': "a' = onIdle fresh uc nowMs now a" using m(2) by (auto simp: safeOnIdle_def daemonIdle_def)
  show ?thesis
  proof (cases frames)
    case Nil
    with m(1) have "a = subApp s" by (simp add: safeOnMessage_def)
    then show ?thesis by (simp add: s' a' pollStep.idle)
  next
    case (Cons frame rest)
    with m(1) obtain nowMs1 now1 where "a = (subApp s)\<lparr>dPipe := OnBytes unmarshal fresh uc nowMs1 now1 frame (dPipe (subApp s))\<rparr>"
      by (auto simp: safeOnMessage_def daemonMessage_def)
    then show ?thesis by (simp add: s' a' pollStep.message)
  qed
next
  fix a'
  assume "safeOnIdle (Some (daemonIdle fresh uc)) (subApp s) a'" "s' = s\<lparr>subApp := a'\<rparr>"
  then show ?thesis by (auto simp: safeOnIdle_def daemonIdle_def pollStep.idle)
qed simp_all

lemma daemon_move: "busStep msg idle s Move s' \<Longrightarrow> subApp s' = subApp s"
  by (erule busStep_elim) auto

lemma daemon_runs:
  "busRun (daemonMessage unmarshal fresh uc) (Some (daemonIdle fresh uc)) s0 m n s \<Longrightarrow>
   reaches unmarshal fresh uc (subApp s0) n (subApp s)"
proof (induction rule: busRun.induct)
  case begin_run
  show ?case by (rule reaches.start)
next
  case (move m n s s')
  then show ?case using daemon_move [OF move.hyps(2)] by simp
next
  case (work m n s s')
  then show ?case using daemon_work [OF work.hyps(2)] by (auto intro: reaches.step)
qed simp

section \<open>Properties\<close>

text \<open>C38: The subscriber stops when it is told to, and only then. Once \<^verbatim>\<open>Stop\<close> was called on a started
  subscriber, its goroutine makes at most five more moves besides handling what it has already received,
  can always make one until it is gone, and a second \<^verbatim>\<open>Start\<close> is refused; a goroutine nobody cancelled never
  ends, whatever dialling, subscribing and receiving do.\<close>

theorem subscriber_stops:
  assumes "Subscriber_Start s0 = (None, s1)" "busRun msg idle s1 m n s" "busRun msg idle (Subscriber_Stop s) m' n' s'"
  shows "m' \<le> 5 \<and> (subPhase s' = Gone \<or> (\<exists>s''. busStep msg idle s' Move s'')) \<and> subCancelled s'
    \<and> fst (Subscriber_Start s') \<noteq> None \<and> (\<not> subCancelled s \<longrightarrow> subPhase s \<noteq> Gone)"
proof -
  have s1: "subStarted s1" "subPhase s1 = LoopHead" "\<not> subCancelled s1"
    using assms(1) by (auto simp: Subscriber_Start_def split: if_splits)
  have started: "subStarted t" if "busRun msg idle t0 k l t" "subStarted t0" for t0 k l t
    using that by (induction rule: busRun.induct) (auto dest: busStep_cancelled)
  have s: "subStarted s" "subPhase s \<noteq> NotLaunched" "\<not> subCancelled s \<longrightarrow> subPhase s \<noteq> Gone"
    using started [OF assms(2)] busRun_alive [OF assms(2)] busRun_uncancelled [OF assms(2)] s1 by auto
  have b: "subCancelled s'" "m' + movesLeft (subPhase s') \<le> movesLeft (subPhase s)"
    using busRun_bound [OF assms(3)] s(1) by auto
  have "subPhase s' \<noteq> NotLaunched" "subStarted s'"
    using busRun_alive [OF assms(3)] started [OF assms(3)] s by simp_all
  then show ?thesis
    using b s(3) movesLeft_le [of "subPhase s"] busStep_enabled [of s' msg idle] by (auto simp: Subscriber_Start_def)
qed

theorem subscriber_stops_witness:
  "let s1 = snd (Subscriber_Start (SubscriberForPort 9125 ()))
   in \<exists>s'. busRun (\<lambda>_ a a'. a' = a) None (Subscriber_Stop s1) 1 0 s' \<and> subPhase s' = Gone \<and> fst (Subscriber_Start s') \<noteq> None"
proof -
  let ?s1 = "snd (Subscriber_Start (SubscriberForPort 9125 ())) :: unit subscriber"
  let ?s' = "(Subscriber_Stop ?s1)\<lparr>subPhase := Gone\<rparr>"
  have s1: "Subscriber_Start (SubscriberForPort 9125 ()) = (None, ?s1)"
    by (simp add: Subscriber_Start_def SubscriberForPort_def NewSubscriber_def)
  have "busRun (\<lambda>_ a a'. a' = a) None (Subscriber_Stop ?s1) (Suc 0) 0 ?s'"
    by (intro busRun.move [OF busRun.begin_run] busStep.leave)
      (simp_all add: Subscriber_Start_def SubscriberForPort_def NewSubscriber_def)
  with subscriber_stops [OF s1 busRun.begin_run this] show ?thesis by (auto simp: Let_def)
qed

text \<open>The store is consistent whatever the network does. Start the subscriber with the pipeline and the
  ghost sweep as its callbacks and let it run through any dial failures, reconnections, messages of any number
  of frames, idle ticks and a stop at any moment: the state of the daemon it leaves is one the poll loop
  reaches, with the invariant it started with.\<close>

lemma bus_run_consistent:
  assumes "freshOk fresh" "Subscriber_Start (SubscriberForPort port d) = (None, s1)" "pipeInv R (dPipe d)" "stamps (dPipe d) + int n \<le> maxInt64"
    and "busRun (daemonMessage unmarshal fresh uc) (Some (daemonIdle fresh uc)) s1 m n s"
  shows "reaches unmarshal fresh uc d n (subApp s) \<and> pipeInv R (dPipe (subApp s))"
proof -
  have "subApp s1 = d" using assms(2) by (auto simp: Subscriber_Start_def SubscriberForPort_def NewSubscriber_def)
  then have r: "reaches unmarshal fresh uc d n (subApp s)" using daemon_runs [OF assms(5)] by simp
  with reaches_inv [OF r assms(3,1,4)] show ?thesis by simp
qed

end
