(* ===== verification/Alarm_Source.thy ===== *)
theory Alarm_Source
  imports Alarm_Engine Alarm_Drops Api_Stored
begin

text \<open>
  The database source of the alarm engine (\<^verbatim>\<open>alarm/source.go\<close>): how a rule is measured over its window,
  the statements this issues, and the memory of parsed detector reports. The answers of the database are
  the fields of \<open>alarm_db\<close>, the file system's block counts the parameter \<open>statfs\<close>. The lemmas show how
  measuring a validated rule can fail, that the memory of reports cannot be observed, and which calls
  and streams the shares count.
\<close>

section \<open>The answers of the database\<close>

text \<open>The nullable columns of the stream KPIs, as \<^verbatim>\<open>Scan\<close> delivers them.\<close>

record kpi_row =
  kN :: "int option"
  kSev :: "int option"
  kRFactor :: "f64 option"
  kSevanaMos :: "f64 option"
  kNetworkMos :: "f64 option"
  kLost :: "f64 option"
  kRtp :: "f64 option"
  kJitter :: "f64 option"
  kDuration :: "f64 option"

text \<open>The rows of a query, each with the outcome of its \<^verbatim>\<open>Scan\<close>, and what \<^verbatim>\<open>rows.Err()\<close> answers after them.\<close>

record ('e, 'r) cursor =
  scanned :: "('e + 'r) list"
  rowsErr :: "'e option"

record 'e alarm_db =
  qKpis :: "statement \<Rightarrow> 'e + kpi_row"
  qIds :: "statement \<Rightarrow> 'e + ('e, int) cursor"
  qReport :: "statement \<Rightarrow> 'e + string option"
  qFailed :: "statement \<Rightarrow> 'e + int option \<times> int option"
  qVerdicts :: "statement \<Rightarrow> 'e + ('e, string \<times> string) cursor"

text \<open>\<open>ReportPanics\<close> is the panic of the report parser.\<close>

datatype 'e measure_error = BadFilter expr_error | DbFailed 'e | NotCallCounter string | ReportPanics

definition intOf :: "int option \<Rightarrow> int" where "intOf = case_option 0 id"
definition floatOf :: "f64 option \<Rightarrow> f64" where "floatOf = case_option f64_zero id"

definition share100 :: "f64 \<Rightarrow> f64 \<Rightarrow> f64" where
  "share100 part whole = f64_div (f64_mul (f64_of_int 100) part) whole"

section \<open>Streams\<close>

definition streamKPIs :: string where
  "streamKPIs = ''select count(*) as n,'' @
     '' sum(case when rtpmon_statistics.sevana_mos > 0.0001 then 1 else 0 end) as n_sev,'' @
     '' avg(case when rtpmon_statistics.sevana_mos > 0.0001 then rtpmon_statistics.sevana_rfactor end) as r_factor,'' @
     '' avg(case when rtpmon_statistics.sevana_mos > 0.0001 then rtpmon_statistics.sevana_mos end) as sevana_mos,'' @
     '' avg(rtpmon_statistics.network_mos) as network_mos,'' @
     '' sum(rtpmon_statistics.lost_packet_counter) as lost,'' @
     '' sum(rtpmon_statistics.rtp_packet_counter) as rtp,'' @
     '' avg(rtpmon_statistics.jitter) as jitter,'' @
     '' avg((rtpmon_statistics.end_timestamp - rtpmon_statistics.start_timestamp) / 1000.0) as duration'' @
     '' from rtpmon_statistics'' @
     '' inner join rtpmon_streams on rtpmon_streams.stream_id = rtpmon_statistics.stream_id'' @
     '' inner join rtpmon_instances on rtpmon_streams.agent_id = rtpmon_instances.id'' @
     '' where rtpmon_statistics.end_timestamp > ?''"

definition streamsFrom :: string where
  "streamsFrom = '' from rtpmon_statistics'' @
     '' inner join rtpmon_streams on rtpmon_streams.stream_id = rtpmon_statistics.stream_id'' @
     '' inner join rtpmon_instances on rtpmon_streams.agent_id = rtpmon_instances.id'' @
     '' where rtpmon_statistics.end_timestamp > ? and rtpmon_statistics.sevana_mos > 0.0001''"

definition streamFilter :: "string \<Rightarrow> expr_error + string \<times> arg list" where
  "streamFilter expr =
     (if strings_TrimSpace expr = [] then Inr ([], [])
      else case BuildWhere expr ''qmark'' of
             Inl e \<Rightarrow> Inl e
           | Inr frag \<Rightarrow> Inr ('' and ('' @ frag_text frag @ '')'', map AStr (frag_params frag)))"

definition kpiStmt :: "int \<Rightarrow> string \<times> arg list \<Rightarrow> statement" where
  "kpiStmt fromMs c = \<lparr>sql = streamKPIs @ fst c, args = AInt fromMs # snd c\<rparr>"

definition silentIdsStmt :: "int \<Rightarrow> string \<times> arg list \<Rightarrow> statement" where
  "silentIdsStmt fromMs c =
     \<lparr>sql = ''select rtpmon_statistics.stream_id'' @ streamsFrom @ fst c, args = AInt fromMs # snd c\<rparr>"

definition reportByIdStmt :: "int \<Rightarrow> statement" where
  "reportByIdStmt i = \<lparr>sql = ''select detector_report from rtpmon_statistics where stream_id = ?'', args = [AInt i]\<rparr>"

definition withKpis :: "kpi_row \<Rightarrow> snapshot \<Rightarrow> snapshot" where
  "withKpis k s =
     (let s = s\<lparr>snStreams := intOf (kN k), snSevanaStreams := intOf (kSev k), snRFactor := floatOf (kRFactor k),
                snSevanaMOS := floatOf (kSevanaMos k), snNetworkMOS := floatOf (kNetworkMos k),
                snJitter := floatOf (kJitter k), snDuration := floatOf (kDuration k)\<rparr>;
          expected = f64_add (floatOf (kRtp k)) (floatOf (kLost k))
      in if f64_lt f64_zero expected then s\<lparr>snPacketLoss := share100 (floatOf (kLost k)) expected\<rparr> else s)"

text \<open>The loop over the rows: the first row that does not scan ends it.\<close>

fun scanRows :: "('e + 'r) list \<Rightarrow> 'e + 'r list" where
  "scanRows [] = Inr []"
| "scanRows (Inl e # rows) = Inl e"
| "scanRows (Inr r # rows) = map_sum id ((#) r) (scanRows rows)"

type_synonym memory = "int \<rightharpoonup> bool"

definition judgeReport :: "'e alarm_db \<Rightarrow> thresholds \<Rightarrow> int \<Rightarrow> 'e measure_error + bool" where
  "judgeReport db th i =
     (case qReport db (reportByIdStmt i) of
        Inl e \<Rightarrow> Inl (DbFailed e)
      | Inr rep \<Rightarrow> (case SilentStream th [case_option [] id rep] of
                     None \<Rightarrow> Inl ReportPanics
                   | Some (v, _) \<Rightarrow> Inr v))"

definition judgeStream :: "'e alarm_db \<Rightarrow> thresholds \<Rightarrow> memory \<Rightarrow> int \<Rightarrow> 'e measure_error + bool" where
  "judgeStream db th old i = (case old i of Some v \<Rightarrow> Inr v | None \<Rightarrow> judgeReport db th i)"

fun judgeStreams ::
    "'e alarm_db \<Rightarrow> thresholds \<Rightarrow> memory \<Rightarrow> int list \<Rightarrow> memory \<times> int \<Rightarrow> 'e measure_error + memory \<times> int" where
  "judgeStreams db th old [] acc = Inr acc"
| "judgeStreams db th old (i # ids) (mem, silent) =
     (case judgeStream db th old i of
        Inl e \<Rightarrow> Inl e
      | Inr v \<Rightarrow> judgeStreams db th old ids (mem(i \<mapsto> v), if v then silent + 1 else silent))"

text \<open>An error leaves the memory of reports as it was; \<^verbatim>\<open>rows.Err()\<close> is not consulted.\<close>

definition measureSilent ::
    "'e alarm_db \<Rightarrow> thresholds \<Rightarrow> int \<Rightarrow> string \<Rightarrow> memory \<Rightarrow> snapshot \<Rightarrow> ('e measure_error + snapshot) \<times> memory" where
  "measureSilent db th fromMs expr old snap =
     (case streamFilter expr of
        Inl e \<Rightarrow> (Inl (BadFilter e), old)
      | Inr c \<Rightarrow>
        (case qIds db (silentIdsStmt fromMs c) of
           Inl e \<Rightarrow> (Inl (DbFailed e), old)
         | Inr cur \<Rightarrow>
           (case scanRows (scanned cur) of
              Inl e \<Rightarrow> (Inl (DbFailed e), old)
            | Inr ids \<Rightarrow>
              (case judgeStreams db th old ids (Map.empty, 0) of
                 Inl e \<Rightarrow> (Inl e, old)
               | Inr (mem, silent) \<Rightarrow>
                   let s = (if ids \<noteq> [] then snap\<lparr>snSilentStreams := share100 (f64_of_int silent) (f64_of_int (int (length ids)))\<rparr> else snap)
                   in (Inr (s\<lparr>snSevanaStreams := int (length ids)\<rparr>), mem)))))"

section \<open>Calls\<close>

definition callFilter :: "string \<Rightarrow> expr_error + string \<times> arg list" where
  "callFilter expr =
     (if strings_TrimSpace expr = [] then Inr ([], [])
      else case BuildSipCallWhere expr ''qmark'' of
             Inl e \<Rightarrow> Inl e
           | Inr frag \<Rightarrow> Inr ('' where ('' @ frag_text frag @ '')'', map AStr (frag_params frag)))"

definition strings_TrimPrefix :: "string \<Rightarrow> string \<Rightarrow> string" where
  "strings_TrimPrefix s p = (if strings_HasPrefix s p then drop (length p) s else s)"

definition failedCallsStmt :: "int \<Rightarrow> string \<times> arg list \<Rightarrow> statement" where
  "failedCallsStmt fromMs c =
     \<lparr>sql = ''select count(*), sum(case when c.failed = 1 then 1 else 0 end) from ('' @
        sipCallAggregate ('' where call_id in (select call_id from rtpmon_sip_events'' @
          '' where event_timestamp > ? and event_type in (1, 4))'') @ '') c'' @
        '' where (c.established = 1 or c.failed = 1)'' @
        (if fst c \<noteq> [] then '' and'' @ strings_TrimPrefix (fst c) '' where'' else []),
      args = AInt fromMs # snd c\<rparr>"

definition verdictsStmt :: "int \<Rightarrow> string \<times> arg list \<Rightarrow> statement" where
  "verdictsStmt fromMs c =
     (let query = ''select h.call_id, h.warnings from rtpmon_call_health h where h.event_timestamp > ?'';
          agg = sipCallAggregate '' where call_id in (select call_id from rtpmon_call_health where event_timestamp > ?)''
      in if fst c \<noteq> []
         then \<lparr>sql = query @ '' and h.call_id in (select c.call_id from ('' @ agg @ '') c'' @ fst c @ '')'' @ '' order by h.id'',
               args = AInt fromMs # AInt fromMs # snd c\<rparr>
         else \<lparr>sql = query @ '' order by h.id'', args = [AInt fromMs]\<rparr>)"

text \<open>\<^verbatim>\<open>json.Unmarshal\<close> into a slice of structs with the one field \<^verbatim>\<open>code\<close>: a value of another type leaves its
  target as it is and decoding goes on; the error is ignored.\<close>

fun decodeCode :: "jval \<Rightarrow> string" where
  "decodeCode (JvObj ms) =
     fold (\<lambda>(k, v) c. if foldKey k = ''code'' then (case v of JvStr s \<Rightarrow> s | _ \<Rightarrow> c) else c) ms []"
| "decodeCode _ = []"

definition decodeCodes :: "string \<Rightarrow> string list" where
  "decodeCodes s = (case jsonDecode s of Some (JvArr vs) \<Rightarrow> map decodeCode vs | _ \<Rightarrow> [])"

definition badVerdict :: "string \<Rightarrow> string \<Rightarrow> bool" where
  "badVerdict code warnings \<longleftrightarrow> list_ex (\<lambda>c. code = [] \<or> c = code) (decodeCodes warnings)"

text \<open>The map \<^verbatim>\<open>latest\<close> in the order its keys were first set.\<close>

definition latestVerdicts :: "string \<Rightarrow> (string \<times> string) list \<Rightarrow> (string \<times> bool) list" where
  "latestVerdicts code rows = fold (\<lambda>(i, w) m. AList.update i (badVerdict code w) m) rows []"

definition measureHealth :: "string \<Rightarrow> (string \<times> string) list \<Rightarrow> snapshot \<Rightarrow> snapshot" where
  "measureHealth code rows snap =
     (let latest = latestVerdicts code rows;
          bad = int (length (filter snd latest));
          s = snap\<lparr>snCalls := int (length latest)\<rparr>
      in if latest \<noteq> [] then s\<lparr>snCallHealth := share100 (f64_of_int bad) (f64_of_int (int (length latest)))\<rparr> else s)"

definition measureFailed :: "int option \<times> int option \<Rightarrow> snapshot \<Rightarrow> snapshot" where
  "measureFailed r snap =
     (let n = intOf (fst r); s = snap\<lparr>snCalls := n\<rparr>
      in if 0 < n then s\<lparr>snFailedCalls := share100 (f64_of_int (intOf (snd r))) (f64_of_int n)\<rparr> else s)"

definition measureCalls :: "'e alarm_db \<Rightarrow> rule \<Rightarrow> int \<Rightarrow> snapshot \<Rightarrow> 'e measure_error + snapshot" where
  "measureCalls db r fromMs snap =
     (case callFilter (RuleFilter r) of
        Inl e \<Rightarrow> Inl (BadFilter e)
      | Inr c \<Rightarrow>
          if Counter r = ''failed_calls''
          then (case qFailed db (failedCallsStmt fromMs c) of
                  Inl e \<Rightarrow> Inl (DbFailed e)
                | Inr row \<Rightarrow> Inr (measureFailed row snap))
          else if Counter r = ''call_health''
          then (case qVerdicts db (verdictsStmt fromMs c) of
                  Inl e \<Rightarrow> Inl (DbFailed e)
                | Inr cur \<Rightarrow>
                    (case scanRows (scanned cur) of
                       Inl e \<Rightarrow> Inl (DbFailed e)
                     | Inr rows \<Rightarrow> (case rowsErr cur of Some e \<Rightarrow> Inl (DbFailed e) | None \<Rightarrow> Inr (measureHealth (Code r) rows snap))))
          else Inl (NotCallCounter (Counter r)))"

section \<open>Measuring a rule\<close>

text \<open>\<^verbatim>\<open>Bavail\<close> and \<^verbatim>\<open>Blocks\<close> of \<^verbatim>\<open>statfs\<close>.\<close>

definition freeDiskShare :: "(string \<Rightarrow> (u64 \<times> u64) option) \<Rightarrow> string \<Rightarrow> f64" where
  "freeDiskShare statfs path =
     (if strings_TrimSpace path = [] then Fin True 1
      else case statfs path of
             None \<Rightarrow> Fin True 1
           | Some (bavail, blocks) \<Rightarrow>
               if blocks = 0 then Fin True 1
               else f64_div (f64_of_int (uint bavail)) (f64_of_int (uint blocks)))"

record 'e alarm_source =
  asDB :: "'e alarm_db"
  asStatfs :: "string \<Rightarrow> (u64 \<times> u64) option"
  asDiskPath :: string
  asDrops :: "drop_history option"
  asThresholds :: thresholds

definition fromMs :: "rule \<Rightarrow> int \<Rightarrow> int" where
  "fromMs r nowMs = wrap64 (nowMs - Milliseconds (Window r))"

definition measureStreams ::
    "'e alarm_source \<Rightarrow> rule \<Rightarrow> int \<Rightarrow> memory \<Rightarrow> ('e measure_error + snapshot) \<times> memory" where
  "measureStreams s r from mem =
     (case streamFilter (RuleFilter r) of
        Inl e \<Rightarrow> (Inl (BadFilter e), mem)
      | Inr c \<Rightarrow>
          (case qKpis (asDB s) (kpiStmt from c) of
             Inl e \<Rightarrow> (Inl (DbFailed e), mem)
           | Inr k \<Rightarrow>
               let snap = withKpis k emptySnapshot
               in if Counter r = ''silent_streams''
                  then measureSilent (asDB s) (asThresholds s) from (RuleFilter r) mem snap
                  else (Inr snap, mem)))"

text \<open>\<open>clock\<close> is the reading of the drop history's clock. \<^verbatim>\<open>return snap, s.measureCalls(r, fromMs, &snap)\<close> is taken
  to read the snapshot after the call, as Go's compiler does; the language leaves the order open.\<close>

definition Measure ::
    "'e alarm_source \<Rightarrow> time \<Rightarrow> rule \<Rightarrow> int \<Rightarrow> memory \<Rightarrow> ('e measure_error + snapshot) \<times> memory" where
  "Measure s clock r nowMs mem =
     (case Scope r of
        ScopeHost \<Rightarrow> (Inr (emptySnapshot\<lparr>snFreeDisk := freeDiskShare (asStatfs s) (asDiskPath s)\<rparr>), mem)
      | ScopeCapture \<Rightarrow>
          (Inr (case asDrops s of
                  None \<Rightarrow> emptySnapshot
                | Some h \<Rightarrow>
                    (case Within clock (Window r) h of
                       None \<Rightarrow> emptySnapshot\<lparr>snCaptureDrops := f64_zero, snCaptureKnown := False\<rparr>
                     | Some n \<Rightarrow> emptySnapshot\<lparr>snCaptureDrops := f64_of_int (uint n), snCaptureKnown := True\<rparr>)), mem)
      | ScopeCalls \<Rightarrow> (measureCalls (asDB s) r (fromMs r nowMs) emptySnapshot, mem)
      | ScopeStreams \<Rightarrow> measureStreams s r (fromMs r nowMs) mem)"

text \<open>A tick of the engine over an implementation of the interface \<^verbatim>\<open>Source\<close> with a memory, which goes from
  rule to rule; a panic (\<^verbatim>\<open>None\<close>) ends the process.\<close>

type_synonym ('e, 'm) measuring = "rule \<Rightarrow> int \<Rightarrow> 'm \<Rightarrow> ('e measure_error + snapshot) \<times> 'm"

fun tickMeasured ::
    "inst \<Rightarrow> ('e, 'm) measuring \<Rightarrow> ('e measure_error \<Rightarrow> string) \<Rightarrow> time \<Rightarrow> rule_state list \<Rightarrow> event list list
     \<Rightarrow> 'm \<Rightarrow> (rule_state list \<times> event list list \<times> 'm) option" where
  "tickMeasured i measured txtOf now [] ns mem = Some ([], ns, mem)"
| "tickMeasured i measured txtOf now ((r, st) # rest) ns mem =
     (case measured r (UnixMilli now) mem of
        (res, mem') \<Rightarrow>
          if res = Inl ReportPanics then None
          else (case tickRule i (\<lambda>_ _. map_sum txtOf id res) now r st of
                  (st', ev) \<Rightarrow>
                    map_option (\<lambda>(rest', ns', mem''). ((r, st') # rest', ns', mem''))
                      (tickMeasured i measured txtOf now rest (case ev of None \<Rightarrow> ns | Some e \<Rightarrow> emit e ns) mem')))"

text \<open>The database source; \<open>clock\<close> is the drop history's clock while a rule is measured.\<close>

definition sourceOf :: "'e alarm_source \<Rightarrow> (rule \<Rightarrow> time) \<Rightarrow> ('e, memory) measuring" where
  "sourceOf s clock r = Measure s (clock r) r"

section \<open>The statements\<close>

lemma streamFilter_binds: "streamFilter e = Inr c \<Longrightarrow> qmarks (fst c) = length (snd c)"
  by (auto simp: streamFilter_def BuildWhere_binds split: if_splits sum.splits)

lemma callFilter_binds: "callFilter e = Inr c \<Longrightarrow> qmarks (fst c) = length (snd c)"
  by (auto simp: callFilter_def BuildSipCallWhere_binds split: if_splits sum.splits)

lemma callFilter_prefix: "callFilter e = Inr c \<Longrightarrow> fst c = [] \<or> strings_HasPrefix (fst c) '' where''"
  by (auto simp: callFilter_def strings_HasPrefix_def split: if_splits sum.splits)

text \<open>Every statement of a measurement binds its placeholders.\<close>

lemma alarm_statements_bind:
  "streamFilter e = Inr c \<Longrightarrow> bindsAll (kpiStmt from c) \<and> bindsAll (silentIdsStmt from c)"
  "callFilter e = Inr c \<Longrightarrow> bindsAll (failedCallsStmt from c) \<and> bindsAll (verdictsStmt from c)"
  "bindsAll (reportByIdStmt i)"
proof -
  show "bindsAll (kpiStmt from c) \<and> bindsAll (silentIdsStmt from c)" if "streamFilter e = Inr c"
    using streamFilter_binds [OF that]
    by (simp add: bindsAll_def kpiStmt_def silentIdsStmt_def streamKPIs_def streamsFrom_def del: append.simps)
  show "bindsAll (failedCallsStmt from c) \<and> bindsAll (verdictsStmt from c)" if c: "callFilter e = Inr c"
  proof -
    have "qmarks (strings_TrimPrefix (fst c) '' where'') = qmarks (fst c)" if "fst c \<noteq> []"
    proof -
      have p: "take 6 (fst c) = '' where''"
        using callFilter_prefix [OF c] that by (simp add: strings_HasPrefix_def eval_nat_numeral)
      have "qmarks (fst c) = qmarks (take 6 (fst c)) + qmarks (drop 6 (fst c))"
        by (simp flip: qmarks_append)
      with p show ?thesis by (simp add: strings_TrimPrefix_def strings_HasPrefix_def eval_nat_numeral)
    qed
    then show ?thesis
      using callFilter_binds [OF c]
      by (auto simp: bindsAll_def failedCallsStmt_def verdictsStmt_def simp del: append.simps)
  qed
  show "bindsAll (reportByIdStmt i)" by (simp add: bindsAll_def reportByIdStmt_def del: append.simps)
qed

section \<open>Shares are percentages\<close>

lemma share100_exact:
  assumes "0 \<le> k" "k \<le> n" "0 < n" "100 * n \<le> 2 ^ 53"
  shows "share100 (f64_of_int k) (f64_of_int n) = Fin False (roundMag (of_int (100 * k) / of_int n))"
proof -
  have "100 * k \<le> 2 ^ 53" using assms by linarith
  then have "(of_int (100 * k) :: rat) \<le> of_int (2 ^ 53)" by (rule of_int_le_iff [THEN iffD2])
  then have m: "mkFloat False (100 * of_int k) = Fin False (of_int (100 * k))"
    using assms mkFloat_small [of "of_int (100 * k)" False] roundMag_of_int [of "100 * k"] \<open>100 * k \<le> 2 ^ 53\<close> by simp
  have "(of_int (100 * k) / of_int n :: rat) \<le> 100" using assms by (simp add: divide_le_eq)
  then have d: "(of_int (100 * k) / of_int n :: rat) \<le> 2 ^ 53" by simp
  have nz: "(of_int n :: rat) \<noteq> 0" using assms by simp
  have "f64_of_int 100 = Fin False 100" "f64_of_int k = Fin False (of_int k)" "f64_of_int n = Fin False (of_int n)"
    using assms f64_of_int_exact [of 100] f64_of_int_exact [of k] f64_of_int_exact [of n] by simp_all
  moreover have "mkFloat False (of_int (100 * k) / of_int n) = Fin False (roundMag (of_int (100 * k) / of_int n))"
    using assms d by (intro mkFloat_small) simp_all
  ultimately show ?thesis using m nz assms by (simp add: share100_def)
qed

text \<open>A share of counted things lies between 0 and 100, is 0 for none and 100 for all of them.\<close>

lemma share100_bounds:
  assumes "0 \<le> k" "k \<le> n" "0 < n" "100 * n \<le> 2 ^ 53"
  shows "\<exists>q. share100 (f64_of_int k) (f64_of_int n) = Fin False q \<and> 0 \<le> q \<and> q \<le> 100 \<and> (k = 0 \<longrightarrow> q = 0) \<and> (k = n \<longrightarrow> q = 100)"
proof (intro exI conjI)
  let ?x = "of_int (100 * k) / of_int n :: rat"
  show "share100 (f64_of_int k) (f64_of_int n) = Fin False (roundMag ?x)" by (rule share100_exact [OF assms])
  have x: "0 \<le> ?x" "?x \<le> of_int 100" using assms by (simp_all add: divide_le_eq)
  show "0 \<le> roundMag ?x" by (rule roundMag_nonneg [OF x(1)])
  show "roundMag ?x \<le> 100" using roundMag_le_int [OF x] by simp
  show "k = 0 \<longrightarrow> roundMag ?x = 0" by simp
  show "k = n \<longrightarrow> roundMag ?x = 100" using assms(3) roundMag_of_int [of 100] by simp
qed

section \<open>How measuring a validated rule can fail\<close>

lemma TrimSpace_Nil: "strings_TrimSpace [] = []"
  by code_simp

lemma streamFilter_ok: "filterOk r \<Longrightarrow> Scope r = ScopeStreams \<Longrightarrow> \<not> isl (streamFilter (RuleFilter r))"
  by (auto simp: streamFilter_def filterOk_def TrimSpace_Nil split: sum.splits)

lemma callFilter_ok: "filterOk r \<Longrightarrow> Scope r = ScopeCalls \<Longrightarrow> \<not> isl (callFilter (RuleFilter r))"
  by (auto simp: callFilter_def filterOk_def TrimSpace_Nil split: sum.splits)

lemma counters_calls: "counters c = Some spec \<Longrightarrow> specScope spec = ScopeCalls \<longleftrightarrow> c = ''failed_calls'' \<or> c = ''call_health''"
  by (auto simp: counters_def counterTable_def split: if_splits)

text \<open>The errors the database answers, to a query, a \<^verbatim>\<open>Scan\<close> or \<^verbatim>\<open>rows.Err()\<close>.\<close>

definition cursorErrors :: "('e, 'r) cursor \<Rightarrow> 'e set" where
  "cursorErrors cur = {e. Inl e \<in> set (scanned cur)} \<union> set_option (rowsErr cur)"

definition dbErrors :: "'e alarm_db \<Rightarrow> 'e set" where
  "dbErrors db = {e. \<exists>st. qKpis db st = Inl e \<or> qIds db st = Inl e \<or> qReport db st = Inl e \<or> qFailed db st = Inl e \<or> qVerdicts db st = Inl e}
     \<union> {e. \<exists>st cur. qIds db st = Inr cur \<and> e \<in> cursorErrors cur} \<union> {e. \<exists>st cur. qVerdicts db st = Inr cur \<and> e \<in> cursorErrors cur}"

definition soundResult :: "'e alarm_db \<Rightarrow> 'e measure_error + 'r \<Rightarrow> bool" where
  "soundResult db res \<longleftrightarrow> (\<forall>err. res = Inl err \<longrightarrow> err = ReportPanics \<or> (\<exists>e \<in> dbErrors db. err = DbFailed e))"

lemma soundResult_simps [simp]: "soundResult db (Inr x)" "soundResult db (Inl ReportPanics)"
  "soundResult db (Inl (DbFailed e)) \<longleftrightarrow> e \<in> dbErrors db"
  by (auto simp: soundResult_def)

lemma dbErrors_answers:
  "qKpis db st = Inl e \<Longrightarrow> e \<in> dbErrors db" "qIds db st = Inl e \<Longrightarrow> e \<in> dbErrors db" "qReport db st = Inl e \<Longrightarrow> e \<in> dbErrors db"
  "qFailed db st = Inl e \<Longrightarrow> e \<in> dbErrors db" "qVerdicts db st = Inl e \<Longrightarrow> e \<in> dbErrors db"
  by (auto simp: dbErrors_def)

lemma scanRows_error: "scanRows rows = Inl e \<Longrightarrow> Inl e \<in> set rows"
proof (induction rows rule: scanRows.induct)
  case (3 r rows)
  then show ?case by (cases "scanRows rows") auto
qed auto

lemma dbErrors_cursors:
  "qIds db st = Inr cur \<Longrightarrow> scanRows (scanned cur) = Inl e \<Longrightarrow> e \<in> dbErrors db"
  "qVerdicts db st = Inr cur' \<Longrightarrow> scanRows (scanned cur') = Inl e \<Longrightarrow> e \<in> dbErrors db"
  "qVerdicts db st = Inr cur' \<Longrightarrow> rowsErr cur' = Some e \<Longrightarrow> e \<in> dbErrors db"
  unfolding dbErrors_def cursorErrors_def using scanRows_error by fastforce+

lemma SilentStream_None: "SilentStream th [txt] = None \<longleftrightarrow> ParseIntervalReport txt = None"
  by (auto simp: SilentStream_def SilentShare_def split: option.splits)

lemma judgeReport_sound: "soundResult db (judgeReport db th i)"
  by (auto simp: judgeReport_def dbErrors_answers split: sum.split option.split)

lemma judgeReport_panics:
  "judgeReport db th i = Inl ReportPanics \<longleftrightarrow>
     (\<exists>rep. qReport db (reportByIdStmt i) = Inr rep \<and> ParseIntervalReport (case_option [] id rep) = None)"
proof (cases "qReport db (reportByIdStmt i)")
  case (Inr rep)
  then show ?thesis
    using SilentStream_None [of th "case_option [] id rep"]
    by (cases "SilentStream th [case_option [] id rep]") (auto simp: judgeReport_def)
qed (simp add: judgeReport_def)

lemma judgeStreams_sound: "soundResult db (judgeStreams db th Map.empty ids acc)"
proof (induction ids arbitrary: acc)
  case (Cons i ids)
  then show ?case
    using judgeReport_sound [of db th i] by (cases acc) (auto simp: judgeStream_def soundResult_def split: sum.splits)
qed simp

lemma judgeStreams_panics:
  "judgeStreams db th Map.empty ids acc = Inl ReportPanics \<longleftrightarrow>
     (\<exists>pre i post. ids = pre @ i # post \<and> (\<forall>j \<in> set pre. \<not> isl (judgeReport db th j)) \<and> judgeReport db th i = Inl ReportPanics)"
proof (induction ids arbitrary: acc)
  case (Cons i ids)
  obtain mem n where acc: "acc = (mem, n)" by (cases acc)
  show ?case
  proof (cases "judgeReport db th i")
    case (Inl e)
    then show ?thesis by (fastforce simp: acc judgeStream_def Cons_eq_append_conv)
  next
    case (Inr v)
    have "(\<exists>pre k post. i # ids = pre @ k # post \<and> (\<forall>j \<in> set pre. \<not> isl (judgeReport db th j)) \<and> judgeReport db th k = Inl ReportPanics)
      \<longleftrightarrow> (\<exists>pre k post. ids = pre @ k # post \<and> (\<forall>j \<in> set pre. \<not> isl (judgeReport db th j)) \<and> judgeReport db th k = Inl ReportPanics)"
      (is "?l \<longleftrightarrow> ?r")
    proof
      assume ?l
      then obtain pre k post where "i # ids = pre @ k # post" "\<forall>j \<in> set pre. \<not> isl (judgeReport db th j)" "judgeReport db th k = Inl ReportPanics"
        by blast
      with Inr show ?r by (cases pre) auto
    next
      assume ?r
      then obtain pre k post where "ids = pre @ k # post" "\<forall>j \<in> set pre. \<not> isl (judgeReport db th j)" "judgeReport db th k = Inl ReportPanics"
        by blast
      with Inr show ?l by (intro exI [of _ "i # pre"] exI [of _ k] exI [of _ post]) simp
    qed
    with Inr show ?thesis by (simp add: acc judgeStream_def Cons.IH)
  qed
qed simp

text \<open>
  The one way a measurement can crash: the rule counts silent streams, the database answers, and the report of
  one of the window's streams makes the parser panic after the reports before it could be judged. (A report
  does when it has an Average column and a line of two fields, \<open>ParseIntervalReport_panics\<close>.)
\<close>

definition parserCrash :: "'e alarm_source \<Rightarrow> rule \<Rightarrow> int \<Rightarrow> bool" where
  "parserCrash s r nowMs \<longleftrightarrow> Counter r = ''silent_streams'' \<and>
     (\<exists>c k cur pre i post rep. streamFilter (RuleFilter r) = Inr c \<and> qKpis (asDB s) (kpiStmt (fromMs r nowMs) c) = Inr k
        \<and> qIds (asDB s) (silentIdsStmt (fromMs r nowMs) c) = Inr cur \<and> scanRows (scanned cur) = Inr (pre @ i # post)
        \<and> (\<forall>j \<in> set pre. \<not> isl (judgeReport (asDB s) (asThresholds s) j))
        \<and> qReport (asDB s) (reportByIdStmt i) = Inr rep \<and> ParseIntervalReport (case_option [] id rep) = None)"

lemma measureSilent_sound:
  "\<not> isl (streamFilter expr) \<Longrightarrow> soundResult db (fst (measureSilent db th from expr Map.empty snap))"
proof -
  assume "\<not> isl (streamFilter expr)"
  then obtain c where c: "streamFilter expr = Inr c" by (cases "streamFilter expr") auto
  have "soundResult db (Inl e)" if "judgeStreams db th Map.empty ids (Map.empty, 0) = Inl e" for ids e
    using judgeStreams_sound [of db th ids "(Map.empty, 0)"] that by (simp add: soundResult_def)
  then show ?thesis
    by (auto simp: measureSilent_def c Let_def dbErrors_answers dbErrors_cursors split: sum.split prod.split)
qed

lemma measureCalls_sound:
  assumes "\<not> isl (callFilter (RuleFilter r))" "Counter r = ''failed_calls'' \<or> Counter r = ''call_health''"
  shows "soundResult (db :: 'e alarm_db) (measureCalls db r from snap) \<and> measureCalls db r from snap \<noteq> Inl ReportPanics"
  using assms
  by (cases "callFilter (RuleFilter r)")
    (auto simp: measureCalls_def dbErrors_answers dbErrors_cursors split: sum.splits option.splits)

lemma measureSilent_panics:
  "fst (measureSilent db th from expr Map.empty snap) = Inl ReportPanics \<longleftrightarrow>
     (\<exists>c cur ids. streamFilter expr = Inr c \<and> qIds db (silentIdsStmt from c) = Inr cur \<and> scanRows (scanned cur) = Inr ids
        \<and> judgeStreams db th Map.empty ids (Map.empty, 0) = Inl ReportPanics)"
  by (auto simp: measureSilent_def Let_def split: sum.split prod.split)

lemma measureStreams_panics:
  assumes "Scope r = ScopeStreams"
  shows "fst (Measure s clock r nowMs Map.empty) = Inl ReportPanics \<longleftrightarrow> parserCrash s r nowMs"
proof -
  have "fst (Measure s clock r nowMs Map.empty) = Inl ReportPanics \<longleftrightarrow> Counter r = ''silent_streams'' \<and>
      (\<exists>c k. streamFilter (RuleFilter r) = Inr c \<and> qKpis (asDB s) (kpiStmt (fromMs r nowMs) c) = Inr k
         \<and> fst (measureSilent (asDB s) (asThresholds s) (fromMs r nowMs) (RuleFilter r) Map.empty (withKpis k emptySnapshot)) = Inl ReportPanics)"
    using assms by (auto simp: Measure_def measureStreams_def Let_def split: sum.split)
  then show ?thesis unfolding parserCrash_def measureSilent_panics judgeStreams_panics judgeReport_panics by fastforce
qed

lemma Measure_sound:
  assumes "ruleOk r"
  shows "soundResult (asDB s) (fst (Measure s clock r nowMs Map.empty))"
    and "fst (Measure s clock r nowMs Map.empty) = Inl ReportPanics \<longleftrightarrow> parserCrash s r nowMs"
proof -
  obtain spec where spec: "counters (Counter r) = Some spec" "Scope r = specScope spec" and flt: "filterOk r"
    using assms(1) by (auto simp: ruleOk_def)
  have silent: "Counter r = ''silent_streams'' \<Longrightarrow> Scope r = ScopeStreams"
    using spec by (auto simp: counters_def counterTable_def)
  show "soundResult (asDB s) (fst (Measure s clock r nowMs Map.empty))"
    and "fst (Measure s clock r nowMs Map.empty) = Inl ReportPanics \<longleftrightarrow> parserCrash s r nowMs"
  proof (atomize (full), cases "Scope r")
    case ScopeStreams
    note ok = streamFilter_ok [OF flt ScopeStreams]
    have "soundResult (asDB s) (fst (Measure s clock r nowMs Map.empty))"
      using ok measureSilent_sound [OF ok] ScopeStreams
      by (auto simp: Measure_def measureStreams_def Let_def dbErrors_answers split: sum.split)
    with measureStreams_panics [OF ScopeStreams, of s clock nowMs]
    show "soundResult (asDB s) (fst (Measure s clock r nowMs Map.empty))
      \<and> (fst (Measure s clock r nowMs Map.empty) = Inl ReportPanics) = parserCrash s r nowMs" by simp
  next
    case ScopeCalls
    have "Counter r = ''failed_calls'' \<or> Counter r = ''call_health''"
      using counters_calls [OF spec(1)] spec(2) ScopeCalls by simp
    then show "soundResult (asDB s) (fst (Measure s clock r nowMs Map.empty))
      \<and> (fst (Measure s clock r nowMs Map.empty) = Inl ReportPanics) = parserCrash s r nowMs"
      using measureCalls_sound [OF callFilter_ok [OF flt ScopeCalls]] ScopeCalls silent by (auto simp: Measure_def parserCrash_def)
  qed (use silent in \<open>auto simp: Measure_def parserCrash_def\<close>)
qed

section \<open>The memory of reports cannot be observed\<close>

definition coherent :: "'e alarm_db \<Rightarrow> thresholds \<Rightarrow> memory \<Rightarrow> bool" where
  "coherent db th mem \<longleftrightarrow> (\<forall>i v. mem i = Some v \<longrightarrow> judgeReport db th i = Inr v)"

lemma coherent_empty [simp]: "coherent db th Map.empty"
  by (simp add: coherent_def)

lemma coherent_judgeStream: "coherent db th old \<Longrightarrow> judgeStream db th old i = judgeReport db th i"
  by (auto simp: coherent_def judgeStream_def split: option.splits)

lemma judgeStream_empty: "judgeStream db th Map.empty i = judgeReport db th i"
  by (simp add: judgeStream_def)

lemma judgeStreams_plain:
  "coherent db th old \<Longrightarrow> judgeStreams db th old ids acc = judgeStreams db th Map.empty ids acc"
proof (induction ids arbitrary: acc)
  case (Cons i ids)
  then show ?case by (cases acc) (simp add: coherent_judgeStream judgeStream_empty split: sum.split)
qed (simp)

lemma judgeStreams_Inr:
  "judgeStreams db th Map.empty ids (m, n) = Inr (m', n') \<Longrightarrow> coherent db th m \<Longrightarrow>
   coherent db th m' \<and> dom m' = dom m \<union> set ids \<and> n' = n + int (length (filter (\<lambda>i. judgeReport db th i = Inr True) ids))"
proof (induction ids arbitrary: m n)
  case (Cons i ids)
  then obtain v where v: "judgeReport db th i = Inr v"
    "judgeStreams db th Map.empty ids (m(i \<mapsto> v), if v then n + 1 else n) = Inr (m', n')"
    by (auto simp: judgeStream_empty split: sum.splits)
  with Cons.prems(2) have "coherent db th (m(i \<mapsto> v))" by (simp add: coherent_def)
  from Cons.IH [OF v(2) this] v(1) show ?case by (cases v) auto
qed simp

lemma measureSilent_memory:
  assumes "coherent db th mem"
  shows "fst (measureSilent db th from expr mem snap) = fst (measureSilent db th from expr Map.empty snap)
    \<and> coherent db th (snd (measureSilent db th from expr mem snap))"
  using assms judgeStreams_Inr [of db th _ Map.empty 0]
  by (auto simp: measureSilent_def judgeStreams_plain [OF assms] Let_def split: sum.split prod.split)

lemma Measure_memory:
  assumes "coherent (asDB s) (asThresholds s) mem"
  shows "fst (Measure s clock r nowMs mem) = fst (Measure s clock r nowMs Map.empty)
    \<and> coherent (asDB s) (asThresholds s) (snd (Measure s clock r nowMs mem))"
  using assms measureSilent_memory [OF assms]
  by (simp add: Measure_def measureStreams_def Let_def split: scope.split sum.split)

section \<open>The interface of a source\<close>

text \<open>
  A source whose memory cannot be observed: over the memories it can have, its answers are those of the
  initial memory. The engine over such a source is the engine of \<open>Alarm_Engine\<close> over a plain function.
\<close>

definition plainSource :: "('e, 'm) measuring \<Rightarrow> 'm \<Rightarrow> ('e measure_error \<Rightarrow> string) \<Rightarrow> source" where
  "plainSource measured m0 txtOf r ms = map_sum txtOf id (fst (measured r ms m0))"

definition panics :: "('e, 'm) measuring \<Rightarrow> 'm \<Rightarrow> time \<Rightarrow> rule_state list \<Rightarrow> bool" where
  "panics measured m0 now rs \<longleftrightarrow> (\<exists>r \<in> fst ` set rs. fst (measured r (UnixMilli now) m0) = Inl ReportPanics)"

lemma panics_simps [simp]: "\<not> panics measured m0 now []"
  "panics measured m0 now ((r, st) # rs) \<longleftrightarrow> fst (measured r (UnixMilli now) m0) = Inl ReportPanics \<or> panics measured m0 now rs"
  by (auto simp: panics_def)

lemma tickRule_answer: "src r (UnixMilli now) = src' r (UnixMilli now) \<Longrightarrow> tickRule i src now r st = tickRule i src' now r st"
  by (simp add: tickRule_def)

locale measuring_source =
  fixes measured :: "('e, 'm) measuring" and m0 :: 'm and valid :: "'m \<Rightarrow> bool"
  assumes valid_initial: "valid m0"
    and answer: "valid mem \<Longrightarrow> fst (measured r ms mem) = fst (measured r ms m0)"
    and keeps: "valid mem \<Longrightarrow> valid (snd (measured r ms mem))"
begin

lemma tick_Cons:
  assumes "valid mem"
  shows "tickMeasured i measured txtOf now ((r, st) # rest) ns mem =
     (if fst (measured r (UnixMilli now) m0) = Inl ReportPanics then None
      else case tickRule i (plainSource measured m0 txtOf) now r st of
             (st', ev) \<Rightarrow> map_option (\<lambda>(rest', ns', mem''). ((r, st') # rest', ns', mem''))
               (tickMeasured i measured txtOf now rest (case ev of None \<Rightarrow> ns | Some e \<Rightarrow> emit e ns)
                  (snd (measured r (UnixMilli now) mem))))"
proof -
  have "tickRule i (\<lambda>_ _. map_sum txtOf id (fst (measured r (UnixMilli now) m0))) now r st =
      tickRule i (plainSource measured m0 txtOf) now r st"
    by (rule tickRule_answer) (simp add: plainSource_def)
  then show ?thesis
    using answer [OF assms, of r "UnixMilli now"] by (cases "measured r (UnixMilli now) mem") auto
qed

lemma tick_None: "valid mem \<Longrightarrow> tickMeasured i measured txtOf now rs ns mem = None \<longleftrightarrow> panics measured m0 now rs"
proof (induction rs arbitrary: ns mem)
  case (Cons p rest)
  obtain r st where p: "p = (r, st)" by (cases p)
  show ?case
    using Cons.IH [OF keeps [OF Cons.prems]]
    by (auto simp: p tick_Cons [OF Cons.prems] simp del: tickMeasured.simps split: prod.split)
qed simp

lemma tick_Some:
  "valid mem \<Longrightarrow> tickMeasured i measured txtOf now rs ns mem = Some (rs', ns', mem') \<Longrightarrow>
   tickRules i (plainSource measured m0 txtOf) now rs ns = (rs', ns') \<and> valid mem'"
proof (induction rs arbitrary: ns mem rs')
  case (Cons p rest)
  obtain r st where p: "p = (r, st)" by (cases p)
  obtain st' ev where t: "tickRule i (plainSource measured m0 txtOf) now r st = (st', ev)" by fastforce
  obtain rest' where "tickMeasured i measured txtOf now rest (case ev of None \<Rightarrow> ns | Some e \<Rightarrow> emit e ns)
      (snd (measured r (UnixMilli now) mem)) = Some (rest', ns', mem')" "rs' = (r, st') # rest'"
    using Cons.prems(2) t by (auto simp: p tick_Cons [OF Cons.prems(1)] simp del: tickMeasured.simps split: if_splits)
  with Cons.IH [OF keeps [OF Cons.prems(1)] this(1)] show ?case by (simp add: p t)
qed simp

lemma tick_engine:
  assumes "valid mem"
  shows "case tickMeasured (engInstance e) measured txtOf now (rules e) (notifiers e) mem of
      None \<Rightarrow> panics measured m0 now (rules e)
    | Some (rs, ns, mem') \<Rightarrow> Alarm_Engine.Tick (plainSource measured m0 txtOf) now e = e\<lparr>rules := rs, notifiers := ns\<rparr>
        \<and> valid mem' \<and> \<not> panics measured m0 now (rules e)"
proof (cases "tickMeasured (engInstance e) measured txtOf now (rules e) (notifiers e) mem")
  case None
  with tick_None [OF assms, of "engInstance e" txtOf now "rules e" "notifiers e"] show ?thesis by simp
next
  case (Some res)
  obtain rs ns mem' where res: "res = (rs, ns, mem')" by (cases res)
  have "\<not> panics measured m0 now (rules e)"
    using tick_None [OF assms, of "engInstance e" txtOf now "rules e" "notifiers e"] Some by simp
  with tick_Some [OF assms Some [unfolded res]] show ?thesis by (simp add: Some res Alarm_Engine.Tick_def)
qed

end

text \<open>The database source keeps these laws, with the coherent memories.\<close>

interpretation dbsrc: measuring_source "sourceOf s clock" Map.empty "coherent (asDB s) (asThresholds s)" for s clock
  by unfold_locales (simp_all only: sourceOf_def coherent_empty Measure_memory [THEN conjunct2],
    rule Measure_memory [THEN conjunct1])

section \<open>Which calls the health counter counts\<close>

lemma latestVerdicts_fold:
  "map_of (fold (\<lambda>(i, w) m. AList.update i (badVerdict code w) m) rows m)
     = map_of m ++ (\<lambda>i. map_option (badVerdict code) (map_of (rev rows) i))"
  "distinct (map fst m) \<Longrightarrow> distinct (map fst (fold (\<lambda>(i, w) m. AList.update i (badVerdict code w) m) rows m))"
proof (induction rows arbitrary: m)
  case (Cons x rows)
  {
    case 1
    show ?case using Cons.IH(1)
      by (cases x) (auto simp: fun_eq_iff map_add_def update_conv' split: option.split)
  next
    case 2
    then show ?case using Cons.IH(2) by (cases x) (simp add: distinct_update)
  }
qed simp_all

lemma latestVerdicts_map:
  "map_of (latestVerdicts code rows) i = map_option (badVerdict code) (map_of (rev rows) i)"
  "distinct (map fst (latestVerdicts code rows))"
  by (simp_all add: latestVerdicts_def latestVerdicts_fold)

lemma distinct_keys_counts:
  assumes "distinct (map fst m)"
  shows "length m = card (dom (map_of m))" "length (filter snd m) = card {i. map_of m i = Some True}"
proof -
  have d: "distinct m" using assms by (simp add: distinct_map)
  show "length m = card (dom (map_of m))"
    using assms by (metis distinct_card dom_map_of_conv_image_fst length_map list.set_map)
  have inj: "inj_on fst (set (filter snd m))" using assms by (auto simp: distinct_map inj_on_def)
  have "{i. map_of m i = Some True} = fst ` set (filter snd m)"
    using assms by (force simp: map_of_eq_Some_iff)
  then show "length (filter snd m) = card {i. map_of m i = Some True}"
    using card_image [OF inj] distinct_card [OF distinct_filter [OF d, of snd]] by simp
qed

lemma dom_map_of_rev: "dom (map_of (rev rows)) = fst ` set rows"
  by (simp add: dom_map_of_conv_image_fst)

text \<open>The calls judged in the window are the ids of the rows; a call is bad when its last row is.\<close>

definition badCalls :: "string \<Rightarrow> (string \<times> string) list \<Rightarrow> string set" where
  "badCalls code rows = {i. \<exists>w. map_of (rev rows) i = Some w \<and> badVerdict code w}"

lemma badCalls_subset: "badCalls code rows \<subseteq> fst ` set rows"
  unfolding badCalls_def dom_map_of_rev [symmetric] by auto

lemma measureHealth_counts:
  "snCalls (measureHealth code rows snap) = int (card (fst ` set rows))"
  "rows \<noteq> [] \<Longrightarrow> snCallHealth (measureHealth code rows snap) =
     share100 (f64_of_int (int (card (badCalls code rows)))) (f64_of_int (int (card (fst ` set rows))))"
proof -
  note m = latestVerdicts_map [of code rows]
  have "dom (map_of (latestVerdicts code rows)) = fst ` set rows"
    unfolding dom_map_of_rev [symmetric] by (auto simp: m(1))
  then have n: "length (latestVerdicts code rows) = card (fst ` set rows)"
    using distinct_keys_counts(1) [OF m(2)] by simp
  have "{i. map_of (latestVerdicts code rows) i = Some True} = badCalls code rows"
    by (auto simp: m(1) badCalls_def)
  then have k: "length (filter snd (latestVerdicts code rows)) = card (badCalls code rows)"
    using distinct_keys_counts(2) [OF m(2)] by simp
  show "snCalls (measureHealth code rows snap) = int (card (fst ` set rows))"
    using n by (auto simp: measureHealth_def Let_def)
  show "snCallHealth (measureHealth code rows snap) =
     share100 (f64_of_int (int (card (badCalls code rows)))) (f64_of_int (int (card (fst ` set rows))))" if "rows \<noteq> []"
  proof -
    have "0 < card (fst ` set rows)" using that by (simp add: card_gt_0_iff)
    with n have "latestVerdicts code rows \<noteq> []" by (metis list.size(3) less_numeral_extra(3))
    then show ?thesis by (simp add: measureHealth_def Let_def n k)
  qed
qed

lemma decodeCode_val: "decodeCode (warningVal x) = WarnCode x"
  by (simp add: warningVal_def foldKey_keys del: foldKey.simps)

lemma decodeCodes_written: "list_all warningOk ws \<Longrightarrow> decodeCodes (jsonArray (map warningJson ws)) = map WarnCode ws"
proof -
  assume "list_all warningOk ws"
  then have "writes 0 (jsonArray (map warningJson ws)) (JvArr (map warningVal ws))"
    by (intro writes_jsonArray) (auto simp: list_all_iff maxNestingDepth_def intro!: writes_warning)
  then show ?thesis by (simp add: decodeCodes_def jsonDecode_writes o_def decodeCode_val)
qed

lemma badVerdict_written:
  "list_all warningOk ws \<Longrightarrow>
   badVerdict code (jsonArray (map warningJson ws)) \<longleftrightarrow> (\<exists>x \<in> set ws. code = [] \<or> WarnCode x = code)"
  by (auto simp: badVerdict_def decodeCodes_written list_ex_iff)

section \<open>The verdicts of the database\<close>

text \<open>The answer of SQLite to the statement over the table \<^verbatim>\<open>rtpmon_call_health\<close>, for a rule without filter.\<close>

definition windowVerdicts :: "int \<Rightarrow> db \<Rightarrow> health_row list" where
  "windowVerdicts from d = sort_key h_id (filter (\<lambda>h. from < h_event_timestamp h) (rtpmon_call_health d))"

definition verdictRows :: "int \<Rightarrow> db \<Rightarrow> (string \<times> string) list" where
  "verdictRows from d = map (\<lambda>h. (h_call_id h, h_warnings h)) (windowVerdicts from d)"

definition verdictsFrom :: "db \<Rightarrow> 'e alarm_db \<Rightarrow> bool" where
  "verdictsFrom d db \<longleftrightarrow> (\<forall>from. qVerdicts db (verdictsStmt from ([], [])) =
     Inr \<lparr>scanned = map Inr (verdictRows from d), rowsErr = None\<rparr>)"

lemma scanRows_Inr: "scanRows (map Inr rows) = Inr rows"
  by (induction rows) simp_all

lemma windowVerdicts_insert:
  assumes "ascending fresh"
  shows "windowVerdicts from (fst (insertHealth fresh e js d)) = windowVerdicts from d @
    (if from < sint (HealthTimestamp e)
     then [\<lparr>h_id = fresh (map h_id (rtpmon_call_health d)), h_call_id = HealthCallID e,
             h_event_timestamp = sint (HealthTimestamp e), h_stream_count = sint (StreamCount e), h_warnings = js\<rparr>]
     else [])"
proof -
  have "\<forall>h \<in> set (filter (\<lambda>h. from < h_event_timestamp h) (rtpmon_call_health d)). h_id h \<le> fresh (map h_id (rtpmon_call_health d))"
    using ascending_le [OF assms] by auto
  then show ?thesis by (simp add: windowVerdicts_def insertHealth_def sort_key_append_last)
qed

definition healthRule :: "rule \<Rightarrow> bool" where
  "healthRule r \<longleftrightarrow> Scope r = ScopeCalls \<and> Counter r = ''call_health'' \<and> strings_TrimSpace (RuleFilter r) = []"

lemma Measure_health:
  assumes "healthRule r" "verdictsFrom d (asDB s)"
  shows "fst (Measure s clock r nowMs mem) = Inr (measureHealth (Code r) (verdictRows (fromMs r nowMs) d) emptySnapshot)"
  using assms by (simp add: healthRule_def verdictsFrom_def Measure_def measureCalls_def callFilter_def scanRows_Inr)

definition newestWarns :: "string \<Rightarrow> int \<Rightarrow> db \<Rightarrow> string set" where
  "newestWarns code from d = badCalls code (verdictRows from d)"

definition judgedCalls :: "int \<Rightarrow> db \<Rightarrow> string set" where
  "judgedCalls from d = {h_call_id h | h. h \<in> set (rtpmon_call_health d) \<and> from < h_event_timestamp h}"

lemma judgedCalls_rows: "fst ` set (verdictRows from d) = judgedCalls from d"
  by (force simp: verdictRows_def windowVerdicts_def judgedCalls_def)

lemma newestWarns_insert:
  assumes "AddCallHealth fresh e w = (Inr (), w')" "ascending fresh" "list_all warningOk (Warnings e)"
    and "from < sint (HealthTimestamp e)"
  shows "judgedCalls from (tables w') = insert (HealthCallID e) (judgedCalls from (tables w))"
    and "newestWarns code from (tables w') =
      (if \<exists>x \<in> set (Warnings e). code = [] \<or> WarnCode x = code then insert (HealthCallID e) (newestWarns code from (tables w))
       else newestWarns code from (tables w) - {HealthCallID e})"
proof -
  let ?js = "jsonArray (map warningJson (Warnings e))"
  have rows: "verdictRows from (tables w') = verdictRows from (tables w) @ [(HealthCallID e, ?js)]"
    using assms(4) by (simp add: verdictRows_def AddCallHealth_tables [OF assms(1)] windowVerdicts_insert [OF assms(2)])
  show "judgedCalls from (tables w') = insert (HealthCallID e) (judgedCalls from (tables w))"
    by (simp add: rows flip: judgedCalls_rows)
  show "newestWarns code from (tables w') =
      (if \<exists>x \<in> set (Warnings e). code = [] \<or> WarnCode x = code then insert (HealthCallID e) (newestWarns code from (tables w))
       else newestWarns code from (tables w) - {HealthCallID e})"
    using badVerdict_written [OF assms(3), of code]
    by (auto simp: newestWarns_def badCalls_def rows split: if_splits)
qed

section \<open>An example\<close>

definition demoAlarmDb :: "db \<Rightarrow> unit alarm_db" where
  "demoAlarmDb d = \<lparr>qKpis = (\<lambda>_. Inr \<lparr>kN = Some 2, kSev = Some 1, kRFactor = None, kSevanaMos = None, kNetworkMos = None,
       kLost = None, kRtp = None, kJitter = None, kDuration = None\<rparr>),
     qIds = (\<lambda>_. Inr \<lparr>scanned = [Inr 7, Inr 8], rowsErr = None\<rparr>), qReport = (\<lambda>_. Inr None),
     qFailed = (\<lambda>_. Inr (Some 4, Some 1)),
     qVerdicts = (\<lambda>st. Inr \<lparr>scanned = map Inr (verdictRows (case hd (args st) of AInt n \<Rightarrow> n | _ \<Rightarrow> 0) d), rowsErr = None\<rparr>)\<rparr>"

definition demoSource :: "db \<Rightarrow> unit alarm_source" where
  "demoSource d = \<lparr>asDB = demoAlarmDb d, asStatfs = (\<lambda>_. None), asDiskPath = [], asDrops = None, asThresholds = Map.empty\<rparr>"

definition demoConfig :: alarm_config where
  "demoConfig = \<lparr>cfgName = ''one way'', cfgCounter = ''call_health'', cfgOp = [], cfgLimit = f64_of_int 10, cfgHasLimit = True,
     cfgIntervalS = 60, cfgMinSamples = 0, cfgFilter = [], cfgCode = ''one_way_audio'', cfgCommand = ''notify'',
     cfgWebhook = [], cfgOnClear = False\<rparr>"

definition demoHealthRule :: rule where
  "demoHealthRule = baseRule demoConfig \<lparr>specOp = Above, specScope = ScopeCalls, specUnit = ''%''\<rparr> Above"

definition silentRule :: rule where
  "silentRule = demoHealthRule\<lparr>Counter := ''silent_streams'', Scope := ScopeStreams, Code := []\<rparr>"

lemma demo_verdicts: "verdictsFrom d (asDB (demoSource d))"
  by (simp add: verdictsFrom_def demoSource_def demoAlarmDb_def verdictsStmt_def del: append.simps)

lemma demo_silence: "SilentStream Map.empty [[]] = Some (False, Fin False 0)"
  by code_simp

lemma demoRule_accepted: "NewRule demoConfig = Inr demoHealthRule"
proof -
  have "strings_TrimSpace ''one way'' = ''one way''" "strings_TrimSpace ''notify'' = ''notify''" by (code_simp, code_simp)
  then show ?thesis
    by (simp add: NewRule_def demoHealthRule_def demoConfig_def counters_def counterTable_def chooseOp_def
        actionCheck_def filterCheck_def baseRule_def TrimSpace_Nil Let_def)
qed

lemma demoHealthRule_health: "healthRule demoHealthRule"
  by code_simp

section \<open>Properties\<close>

text \<open>C36: How measuring an accepted rule can go wrong. For every configuration that passed validation, every moment and
  every coherent memory of reports: the free disk space and the capture drops are always measured; otherwise
  \<^verbatim>\<open>Measure\<close> returns a snapshot or an error the database answered (never a bad filter or an unknown call
  counter), except that it crashes exactly when the rule counts silent streams and the stored report of a
  stream of the window makes the report parser panic.\<close>

theorem accepted_rule_outcomes:
  assumes "NewRule c = Inr r" "coherent (asDB s) (asThresholds s) mem"
  shows "let res = fst (Measure s clock r nowMs mem)
    in (res = Inl ReportPanics \<longleftrightarrow> parserCrash s r nowMs)
      \<and> (\<forall>err. res = Inl err \<and> err \<noteq> ReportPanics \<longrightarrow> (\<exists>e \<in> dbErrors (asDB s). err = DbFailed e))
      \<and> (Scope r \<in> {ScopeHost, ScopeCapture} \<longrightarrow> (\<exists>snap. res = Inr snap))"
proof -
  have ok: "ruleOk r" using assms(1) by (auto simp: NewRule_Inr actionCheck_baseRule)
  have m: "fst (Measure s clock r nowMs mem) = fst (Measure s clock r nowMs Map.empty)"
    using Measure_memory [OF assms(2), of clock r nowMs] by simp
  have "Scope r \<in> {ScopeHost, ScopeCapture} \<Longrightarrow> \<exists>snap. fst (Measure s clock r nowMs Map.empty) = Inr snap"
    by (auto simp: Measure_def)
  with Measure_sound [OF ok, of s clock nowMs] show ?thesis by (auto simp: m Let_def soundResult_def)
qed

theorem accepted_rule_outcomes_witness:
  "let res = fst (Measure (demoSource emptyDb) 0 demoHealthRule 100 Map.empty)
   in (\<exists>snap. res = Inr snap) \<or> (\<exists>e \<in> dbErrors (asDB (demoSource emptyDb)). res = Inl (DbFailed e))"
proof -
  have "Counter demoHealthRule = ''call_health''" using demoHealthRule_health by (simp add: healthRule_def)
  then have "\<not> parserCrash (demoSource emptyDb) demoHealthRule 100" by (simp add: parserCrash_def)
  with accepted_rule_outcomes [OF demoRule_accepted coherent_empty, of "demoSource emptyDb" 0 100]
  show ?thesis unfolding Let_def by (metis sum.exhaust)
qed

text \<open>C34: Remembering parsed reports changes nothing the engine can see. A tick over the database source, which
  hands its memory of report verdicts from rule to rule and keeps only the streams of the rule measured last,
  ends in the states and notifications of a tick over the memoryless source, and leaves a coherent memory; it
  crashes exactly when some rule's measurement crashes without a memory.\<close>

theorem report_memory_transparent:
  assumes "coherent (asDB s) (asThresholds s) mem"
  shows "case tickMeasured (engInstance e) (sourceOf s clock) txtOf now (rules e) (notifiers e) mem of
      None \<Rightarrow> panics (sourceOf s clock) Map.empty now (rules e)
    | Some (rs, ns, mem') \<Rightarrow>
        Alarm_Engine.Tick (plainSource (sourceOf s clock) Map.empty txtOf) now e = e\<lparr>rules := rs, notifiers := ns\<rparr>
        \<and> coherent (asDB s) (asThresholds s) mem' \<and> \<not> panics (sourceOf s clock) Map.empty now (rules e)"
  by (rule dbsrc.tick_engine [OF assms])

theorem report_memory_transparent_witness:
  "let e = NewEngine [silentRule, demoHealthRule] \<lparr>instID = [], instName = []\<rparr> 1; src = sourceOf (demoSource emptyDb) (\<lambda>_. 0)
   in case tickMeasured (engInstance e) src (\<lambda>_. ''failed'') 5 (rules e) (notifiers e) [7 \<mapsto> False] of
        None \<Rightarrow> panics src Map.empty 5 (rules e)
      | Some (rs, ns, mem') \<Rightarrow>
          Alarm_Engine.Tick (plainSource src Map.empty (\<lambda>_. ''failed'')) 5 e = e\<lparr>rules := rs, notifiers := ns\<rparr>"
proof -
  have "coherent (asDB (demoSource emptyDb)) (asThresholds (demoSource emptyDb)) [7 \<mapsto> False]"
    using demo_silence by (simp add: coherent_def judgeReport_def demoSource_def demoAlarmDb_def)
  from report_memory_transparent [OF this, where e = "NewEngine [silentRule, demoHealthRule] \<lparr>instID = [], instName = []\<rparr> 1"
      and clock = "\<lambda>_. 0" and txtOf = "\<lambda>_. ''failed''" and now = 5]
  show ?thesis unfolding Let_def by (auto simp only: option.case prod.case split: option.splits prod.splits)
qed

text \<open>C35: A new verdict moves the call health alarm as its comment promises. Measured over the tables, the
  counter is the percentage of the judged calls whose newest verdict in the window has a warning (of the rule's
  code, when it has one), over as many samples as there are judged calls. When the writer then stores a verdict
  that falls into the window, its call is judged, and it counts as bad exactly when this verdict has such a
  warning, whatever its earlier verdicts were; no other call changes.\<close>

theorem health_alarm_counts_newest:
  assumes "healthRule r" "verdictsFrom (tables w') (asDB s)"
    and "AddCallHealth fresh e w = (Inr (), w')" "ascending fresh" "list_all warningOk (Warnings e)"
    and "fromMs r nowMs < sint (HealthTimestamp e)"
  shows "let from = fromMs r nowMs; judged = judgedCalls from (tables w'); bad = newestWarns (Code r) from (tables w')
    in \<exists>snap. fst (Measure s clock r nowMs mem) = Inr snap \<and> bad \<subseteq> judged
         \<and> Value r snap = (share100 (f64_of_int (int (card bad))) (f64_of_int (int (card judged))), int (card judged), True)
         \<and> judged = insert (HealthCallID e) (judgedCalls from (tables w))
         \<and> bad = (if \<exists>x \<in> set (Warnings e). Code r = [] \<or> WarnCode x = Code r
                  then insert (HealthCallID e) (newestWarns (Code r) from (tables w))
                  else newestWarns (Code r) from (tables w) - {HealthCallID e})"
proof -
  let ?from = "fromMs r nowMs" and ?rows = "verdictRows (fromMs r nowMs) (tables w')"
  note new = newestWarns_insert [OF assms(3-6)]
  have judged: "judgedCalls ?from (tables w') = fst ` set ?rows" by (simp add: judgedCalls_rows)
  then have rows: "?rows \<noteq> []" using new(1) by auto
  then have "Value r (measureHealth (Code r) ?rows emptySnapshot) =
      (share100 (f64_of_int (int (card (badCalls (Code r) ?rows)))) (f64_of_int (int (card (fst ` set ?rows)))),
       int (card (fst ` set ?rows)), True)"
    using assms(1) by (simp add: healthRule_def Value_def measureHealth_counts card_gt_0_iff)
  then show ?thesis
    unfolding Let_def
    using Measure_health [OF assms(1,2), of clock nowMs mem] badCalls_subset [of "Code r" ?rows] new
    by (simp only: judged newestWarns_def) blast
qed

theorem health_alarm_counts_newest_witness:
  "let w' = snd (AddCallHealth nextId demoHealth demoConn)
   in \<exists>snap. fst (Measure (demoSource (tables w')) 0 demoHealthRule 7 Map.empty) = Inr snap
        \<and> fst (snd (Value demoHealthRule snap)) = 1"
proof -
  let ?w = "snd (AddCallHealth nextId demoHealth demoConn)"
  have "AddCallHealth nextId demoHealth demoConn = (Inr (), ?w)"
    by (simp add: AddCallHealth_def exec_calm demoConn_def NewWriter_def insertHealth_def)
  moreover have "list_all warningOk (Warnings demoHealth)" by code_simp
  moreover have "fromMs demoHealthRule 7 < sint (HealthTimestamp demoHealth)" by code_simp
  moreover have "judgedCalls (fromMs demoHealthRule 7) (tables demoConn) = {}"
    by (simp add: judgedCalls_def demoConn_def demoStreams_def emptyDb_def NewWriter_def)
  ultimately show ?thesis
    using health_alarm_counts_newest [OF demoHealthRule_health demo_verdicts, of nextId demoHealth demoConn ?w 7 0 Map.empty]
      nextId_ascending by (auto simp: Let_def)
qed

end
