(* ===== verification/Config.thy ===== *)
theory Config
  imports Alarm_Rules Pvqa_Report Go_Fmt Stable_Sort "HOL-Library.AList"
begin

text \<open>
  Package \<^verbatim>\<open>config\<close> (\<^verbatim>\<open>config.go\<close>): the tolerant coercions from a decoded YAML document to the
  daemon's settings. Reading the file and decoding YAML (\<^verbatim>\<open>gopkg.in/yaml.v3\<close>) are parameters of \<open>Load\<close>;
  \<open>uc\<close> is the case table of \<^verbatim>\<open>strings.ToLower\<close> outside ASCII. The lemmas show that a duration is
  read exactly, in spite of the floating-point product, and that every setting is read from its own
  key: writing a configuration as a document and parsing that document is the identity.
\<close>

section \<open>Documents\<close>

text \<open>The dynamic types the YAML decoder produces; \<open>YOther\<close> is a value of any other type (a time, an
  unsigned integer, a map with other keys), given by the text \<^verbatim>\<open>%v\<close> prints for it.\<close>

datatype yaml =
    YNull
  | YBool bool
  | YInt int
  | YInt64 int
  | YFloat f64
  | YStr string
  | YList "yaml list"
  | YMap "(string \<times> yaml) list"
  | YOther string

fun fmtV :: "yaml \<Rightarrow> string" where
  "fmtV YNull = ''<nil>''"
| "fmtV (YBool b) = (if b then ''true'' else ''false'')"
| "fmtV (YInt i) = strconv_Itoa i"
| "fmtV (YInt64 i) = strconv_Itoa i"
| "fmtV (YFloat f) = fmtFloatV f"
| "fmtV (YStr s) = s"
| "fmtV (YList xs) = ''['' @ strings_Join (map fmtV xs) '' '' @ '']''"
| "fmtV (YMap m) = ''map['' @ strings_Join (map snd (sortStable (\<lambda>x y. str_lt (fst x) (fst y))
      (map (\<lambda>(k, v). (k, k @ '':'' @ fmtV v)) m))) '' '' @ '']''"
| "fmtV (YOther s) = s"

definition mapGet :: "(string \<times> yaml) list \<Rightarrow> string \<Rightarrow> yaml" where
  "mapGet m k = (case map_of m k of None \<Rightarrow> YNull | Some v \<Rightarrow> v)"

section \<open>Coercions\<close>

text \<open>The pattern \<^verbatim>\<open>^\s*(\d+)\s*(ms|s|m|h|d)?\s*$\<close>, case-insensitive. (Folding also makes U+017F match
  the letter s; the table of units has no such key, so the result is 0 either way.)\<close>

definition reSpace :: "char \<Rightarrow> bool" where
  "reSpace c \<longleftrightarrow> c \<in> {CHR '' '', CHR 0x09, CHR 0x0A, CHR 0x0C, CHR 0x0D}"

definition unitSeconds :: "(string \<times> f64) list" where
  "unitSeconds = [(''ms'', f64_of_rat (1 / 1000)), (''s'', f64_of_int 1), (''m'', f64_of_int 60),
                  (''h'', f64_of_int 3600), (''d'', f64_of_int 86400)]"

definition durationMatch :: "string \<Rightarrow> (string \<times> string) option" where
  "durationMatch s =
     (let t = dropWhile reSpace s; ds = takeWhile isDigit t; t = dropWhile reSpace (dropWhile isDigit t);
          unit = takeWhile (\<lambda>c. \<not> reSpace c) t; rest = dropWhile reSpace (dropWhile (\<lambda>c. \<not> reSpace c) t)
      in if ds \<noteq> [] \<and> rest = [] \<and> (unit = [] \<or> lowerAscii unit \<in> fst ` set unitSeconds) then Some (ds, unit) else None)"

definition durationText :: "string \<Rightarrow> int" where
  "durationText s =
     (case durationMatch s of
        None \<Rightarrow> 0
      | Some (ds, unit) \<Rightarrow>
          (case strconv_ParseInt ds of
             None \<Rightarrow> 0
           | Some qty \<Rightarrow>
               let unit = lowerAscii unit; unit = (if unit = [] then ''s'' else unit)
               in f64_to_int64 (f64_mul (f64_of_int qty) (case map_of unitSeconds unit of Some f \<Rightarrow> f | None \<Rightarrow> f64_of_int 0))))"

fun ParseDurationSeconds :: "yaml \<Rightarrow> int" where
  "ParseDurationSeconds YNull = 0"
| "ParseDurationSeconds (YInt v) = v"
| "ParseDurationSeconds (YInt64 v) = v"
| "ParseDurationSeconds (YFloat f) = f64_to_int64 f"
| "ParseDurationSeconds v = durationText (fmtV v)"

fun nestedGet :: "yaml \<Rightarrow> string list \<Rightarrow> yaml" where
  "nestedGet cur [] = cur"
| "nestedGet (YMap m) (k # ks) = (case mapGet m k of YNull \<Rightarrow> YNull | v \<Rightarrow> nestedGet v ks)"
| "nestedGet _ (k # ks) = YNull"

fun asInt :: "yaml \<Rightarrow> int \<Rightarrow> int" where
  "asInt (YInt t) def = t"
| "asInt (YInt64 t) def = t"
| "asInt (YFloat t) def = f64_to_int64 t"
| "asInt (YStr t) def = (case strconv_ParseInt (strings_TrimSpace t) of Some n \<Rightarrow> n | None \<Rightarrow> def)"
| "asInt _ def = def"

fun asFloat :: "yaml \<Rightarrow> f64 \<Rightarrow> f64" where
  "asFloat (YInt t) def = f64_of_int t"
| "asFloat (YInt64 t) def = f64_of_int t"
| "asFloat (YFloat t) def = t"
| "asFloat (YStr t) def = (case strconv_ParseFloat (strings_TrimSpace t) of Some f \<Rightarrow> f | None \<Rightarrow> def)"
| "asFloat _ def = def"

fun asString :: "yaml \<Rightarrow> string" where
  "asString YNull = []"
| "asString (YStr s) = s"
| "asString v = fmtV v"

definition sevanaMosMode :: "(string \<Rightarrow> string) \<Rightarrow> yaml \<Rightarrow> string" where
  "sevanaMosMode uc v =
     (let s = strings_ToLower uc (strings_TrimSpace (asString v))
      in if s \<in> {''true'', ''yes'', ''on'', ''show''} then ''on''
         else if s \<in> {''false'', ''no'', ''off'', ''hide''} then ''off'' else ''auto'')"

fun asBool :: "yaml \<Rightarrow> bool \<Rightarrow> bool" where
  "asBool (YBool t) def = t"
| "asBool _ def = def"

fun asStringSlice :: "yaml \<Rightarrow> string list" where
  "asStringSlice (YStr t) = (if t = [] then [] else [t])"
| "asStringSlice (YList t) = filter (\<lambda>s. s \<noteq> []) (map asString t)"
| "asStringSlice _ = []"

fun pvqaFlag :: "(string \<Rightarrow> string) \<Rightarrow> yaml \<Rightarrow> bool" where
  "pvqaFlag uc (YBool t) = t"
| "pvqaFlag uc (YStr t) \<longleftrightarrow> strings_ToLower uc (strings_TrimSpace t) \<in> {''yes'', ''true'', ''on'', ''1''}"
| "pvqaFlag uc (YInt t) \<longleftrightarrow> t \<noteq> 0"
| "pvqaFlag uc _ \<longleftrightarrow> False"

section \<open>The configuration\<close>

record config =
  ZeroMQPort :: int
  ZeroMQControlPort :: int
  TrackResyncIntervalS :: int
  GhostStreamTimeoutS :: int
  AgentID :: string
  AgentName :: string
  DashboardHost :: string
  DashboardPort :: int
  DashboardRoot :: string
  MaxStreams :: int
  GoodMosThreshold :: f64
  SilenceRatioThreshold :: f64
  SevanaMos :: string
  PvqaConfig :: string
  DBEngine :: string
  DBConnection :: string
  RecordsLifetimeS :: int
  AudioLifetimeS :: int
  CSVPath :: string
  RecordsLimit :: int
  StoreSipFilter :: "string list"
  Alarms :: "alarm_config list"
  LogLevel :: string
  LogFile :: string
  LogConsole :: bool
  Pidfile :: string

definition DefaultZeroMQPort :: int where "DefaultZeroMQPort = 9125"
definition DefaultZeroMQControlPort :: int where "DefaultZeroMQControlPort = 9127"
definition DefaultDashboardPort :: int where "DefaultDashboardPort = 9126"

definition HasDatabase :: "config \<Rightarrow> bool" where
  "HasDatabase c \<longleftrightarrow> DBEngine c \<noteq> [] \<and> DBConnection c \<noteq> []"

definition defaults :: config where
  "defaults = \<lparr>ZeroMQPort = DefaultZeroMQPort, ZeroMQControlPort = DefaultZeroMQControlPort,
     TrackResyncIntervalS = 60, GhostStreamTimeoutS = 120, AgentID = [], AgentName = [],
     DashboardHost = ''0.0.0.0'', DashboardPort = DefaultDashboardPort, DashboardRoot = [], MaxStreams = 50,
     GoodMosThreshold = f64_of_rat (36 / 10), SilenceRatioThreshold = f64_of_rat (8 / 10),
     SevanaMos = ''auto'', PvqaConfig = [], DBEngine = [], DBConnection = [], RecordsLifetimeS = 0,
     AudioLifetimeS = 0, CSVPath = [], RecordsLimit = 0, StoreSipFilter = [], Alarms = [],
     LogLevel = ''info'', LogFile = [], LogConsole = False, Pidfile = []\<rparr>"

definition alarmEntry :: "(string \<Rightarrow> string) \<Rightarrow> (string \<times> yaml) list \<Rightarrow> alarm_config" where
  "alarmEntry uc m =
     (let a = \<lparr>cfgName = asString (mapGet m ''name''),
               cfgCounter = strings_TrimSpace (asString (mapGet m ''counter'')),
               cfgOp = strings_ToLower uc (strings_TrimSpace (asString (mapGet m ''op''))),
               cfgLimit = Fin False 0, cfgHasLimit = False,
               cfgIntervalS = ParseDurationSeconds (mapGet m ''interval''),
               cfgMinSamples = asInt (mapGet m ''min-samples'') 0,
               cfgFilter = asString (mapGet m ''filter''),
               cfgCode = strings_TrimSpace (asString (mapGet m ''code'')),
               cfgCommand = asString (mapGet m ''command''),
               cfgWebhook = strings_TrimSpace (asString (mapGet m ''webhook'')),
               cfgOnClear = asBool (mapGet m ''on-clear'') False\<rparr>
      in case mapGet m ''limit'' of
           YNull \<Rightarrow> a
         | lv \<Rightarrow> a\<lparr>cfgLimit := asFloat lv (Fin False 0), cfgHasLimit := True\<rparr>)"

fun parseAlarms :: "(string \<Rightarrow> string) \<Rightarrow> yaml \<Rightarrow> alarm_config list" where
  "parseAlarms uc (YList items) = concat (map (\<lambda>item. case item of YMap m \<Rightarrow> [alarmEntry uc m] | _ \<Rightarrow> []) items)"
| "parseAlarms uc _ = []"

definition parse :: "(string \<Rightarrow> string) \<Rightarrow> yaml \<Rightarrow> config" where
  "parse uc doc =
     (let gt = (\<lambda>ks. nestedGet doc ks); cfg = defaults
      in \<lparr>ZeroMQPort = asInt (gt [''server'', ''zeromq-port'']) DefaultZeroMQPort,
          ZeroMQControlPort = asInt (gt [''server'', ''zeromq-control-port'']) DefaultZeroMQControlPort,
          TrackResyncIntervalS = asInt (gt [''server'', ''track-resync-interval'']) (TrackResyncIntervalS cfg),
          GhostStreamTimeoutS = (case gt [''server'', ''ghost-stream-timeout''] of
             YNull \<Rightarrow> GhostStreamTimeoutS cfg | v \<Rightarrow> ParseDurationSeconds v),
          AgentID = asString (gt [''server'', ''instance'', ''id'']),
          AgentName = asString (gt [''server'', ''instance'', ''name'']),
          DashboardHost = (let v = asString (gt [''dashboard'', ''host'']) in if v \<noteq> [] then v else DashboardHost cfg),
          DashboardPort = asInt (gt [''dashboard'', ''port'']) DefaultDashboardPort,
          DashboardRoot = asString (gt [''dashboard'', ''root'']),
          MaxStreams = asInt (gt [''dashboard'', ''max-streams'']) 50,
          GoodMosThreshold = asFloat (gt [''dashboard'', ''good-mos-threshold'']) (f64_of_rat (36 / 10)),
          SilenceRatioThreshold = asFloat (gt [''dashboard'', ''silence-ratio-threshold'']) (f64_of_rat (8 / 10)),
          SevanaMos = sevanaMosMode uc (gt [''dashboard'', ''sevana-mos'']),
          PvqaConfig = asString (gt [''pvqa'', ''config'']),
          DBEngine = asString (gt [''database'', ''engine'']),
          DBConnection = asString (gt [''database'', ''connection'']),
          RecordsLifetimeS = ParseDurationSeconds (gt [''database'', ''records-lifetime'']),
          AudioLifetimeS = ParseDurationSeconds (gt [''database'', ''audio-lifetime'']),
          CSVPath = asString (gt [''database'', ''csv'']),
          RecordsLimit = asInt (gt [''database'', ''records-limit'']) 0,
          StoreSipFilter = asStringSlice (gt [''database'', ''store-sip-filter'']),
          Alarms = parseAlarms uc (gt [''alarm'']),
          LogLevel = (case gt [''logging'', ''level''] of YNull \<Rightarrow> LogLevel cfg | v \<Rightarrow> asString v),
          LogFile = asString (gt [''logging'', ''db'']),
          LogConsole = asBool (gt [''logging'', ''console'']) False,
          Pidfile = asString (gt [''server'', ''pidfile-db''])\<rparr>)"

text \<open>\<open>readFile\<close> and \<open>unmarshal\<close> answer an error text or what they read.\<close>

definition Load :: "(string \<Rightarrow> string) \<Rightarrow> (string \<Rightarrow> string + string) \<Rightarrow> (string \<Rightarrow> string + yaml) \<Rightarrow> string \<Rightarrow> string + config" where
  "Load uc readFile unmarshal path =
     (case readFile path of
        Inl err \<Rightarrow> Inl err
      | Inr dat \<Rightarrow> (case unmarshal dat of Inl err \<Rightarrow> Inl err | Inr doc \<Rightarrow> Inr (parse uc doc)))"

definition putDetector ::
    "(string \<Rightarrow> string) \<Rightarrow> (string \<times> yaml) list \<Rightarrow> (string \<times> detector) list \<Rightarrow> (string \<times> detector) list" where
  "putDetector uc d out =
     (let name = asString (mapGet d ''Name'')
      in case map_of d ''IntThresh'' of
           None \<Rightarrow> out
         | Some v \<Rightarrow> if name = [] then out
                     else AList.update name \<lparr>IntThresh = asFloat v (Fin False 0), Flagged = pvqaFlag uc (mapGet d ''PVQA-Flag'')\<rparr> out)"

definition LoadDetectorThresholds ::
    "(string \<Rightarrow> string) \<Rightarrow> (string \<Rightarrow> string + string) \<Rightarrow> (string \<Rightarrow> string + (string \<times> yaml) list list) \<Rightarrow> string
     \<Rightarrow> string + thresholds" where
  "LoadDetectorThresholds uc readFile unmarshal path =
     (case readFile path of
        Inl err \<Rightarrow> Inl err
      | Inr dat \<Rightarrow>
          (case unmarshal dat of
             Inl err \<Rightarrow> Inl (path @ '': '' @ err)
           | Inr ds \<Rightarrow>
               let out = fold (putDetector uc) ds []
               in if out = [] then Inl (path @ '': no detector IntThresh values found'') else Inr (map_of out)))"

section \<open>Durations\<close>

lemma thousandth: "f64_of_rat (1 / 1000) = Fin False (1152921504606847 / 2 ^ 60)"
proof -
  have p: "pow2 (- 10) = 1 / 1024" "pow2 (- 9) = 1 / 512" "pow2 (- 62) = 1 / 4611686018427387904"
    by (simp_all add: pow2_def)
  have "(1 / 1000 :: rat) < pow2 (- 9)" "pow2 (- 10) < (1 / 1000 :: rat)" unfolding p by simp_all
  then have "pow2 (ilog2 (1 / 1000)) < pow2 (- 9)" "pow2 (- 10) < pow2 (ilog2 (1 / 1000) + 1)"
    using le_less_trans [OF ilog2_bounds(1) [of "1 / 1000"]] less_trans [OF _ ilog2_bounds(2) [of "1 / 1000"]]
    by (simp_all only: zero_less_divide_1_iff zero_less_numeral)
  then have "ilog2 (1 / 1000) < - 9" "- 10 < ilog2 (1 / 1000) + 1" by (simp_all only: pow2_less_iff)
  then have "ulpExp (1 / 1000) = - 62" by (simp add: ulpExp_def)
  then have "roundMag (1 / 1000) = 1152921504606847 / 2 ^ 60"
    using floor_unique [of 4611686018427387 "576460752303423488 / 125 :: rat"]
    by (simp add: roundMag_def p roundHalfEven_def Let_def)
  then show ?thesis using mkFloat_small [of "1 / 1000" False] by (simp add: f64_of_rat_def)
qed

lemma lowerAscii_Cons [simp]: "lowerAscii (c # s) = lowerByte c # lowerAscii s" "lowerAscii [] = []"
  by (simp_all add: lowerAscii_def)

lemma unit_letter: "lowerByte c \<in> set ''mshd'' \<Longrightarrow> \<not> isDigit c \<and> \<not> reSpace c"
proof (rule ccontr)
  assume "\<not> (\<not> isDigit c \<and> \<not> reSpace c)"
  then have "lowerByte c = c" "c \<notin> set ''mshd''" by (auto simp: lowerByte_def isDigit_def reSpace_def)
  moreover assume "lowerByte c \<in> set ''mshd''"
  ultimately show False by simp
qed

lemma digit_not_space: "isDigit c \<Longrightarrow> \<not> reSpace c"
  by (auto simp: isDigit_def reSpace_def)

lemma unit_chars: "unit = [] \<or> lowerAscii unit \<in> fst ` set unitSeconds \<Longrightarrow> c \<in> set unit \<Longrightarrow> \<not> isDigit c \<and> \<not> reSpace c"
proof -
  assume "unit = [] \<or> lowerAscii unit \<in> fst ` set unitSeconds" and c: "c \<in> set unit"
  then have "set (lowerAscii unit) \<subseteq> set ''mshd''" by (auto simp: unitSeconds_def)
  with c have "lowerByte c \<in> set ''mshd''" by (auto simp: lowerAscii_def)
  then show "\<not> isDigit c \<and> \<not> reSpace c" by (rule unit_letter)
qed

lemma takeWhile_prefix:
  "list_all P xs \<Longrightarrow> (ys = [] \<or> \<not> P (hd ys)) \<Longrightarrow> takeWhile P (xs @ ys) = xs \<and> dropWhile P (xs @ ys) = ys"
  by (induction xs) (cases ys; auto)+

lemma durationMatch_text:
  assumes "list_all reSpace s1" "list_all reSpace s2" "list_all reSpace s3"
    and "list_all isDigit ds" "ds \<noteq> []" "unit = [] \<or> lowerAscii unit \<in> fst ` set unitSeconds"
  shows "durationMatch (s1 @ ds @ s2 @ unit @ s3) = Some (ds, unit)"
proof -
  have u: "\<not> isDigit c" "\<not> reSpace c" if "c \<in> set unit" for c using unit_chars [OF assms(6) that] by auto
  have sp: "\<not> isDigit c" if "c \<in> set s2 \<union> set s3" for c
    using that assms(2,3) digit_not_space by (auto simp: list_all_iff)
  have 1: "dropWhile reSpace (s1 @ ds @ s2 @ unit @ s3) = ds @ s2 @ unit @ s3"
    using assms(1,4,5) digit_not_space [of "hd ds"]
    by (intro takeWhile_prefix [THEN conjunct2]) (simp_all add: hd_append list_all_iff)
  have 2: "takeWhile isDigit (ds @ s2 @ unit @ s3) = ds \<and> dropWhile isDigit (ds @ s2 @ unit @ s3) = s2 @ unit @ s3"
    using assms(4) u sp by (intro takeWhile_prefix) (simp, metis append_is_Nil_conv hd_in_set set_append Un_iff)
  show ?thesis
  proof (cases "unit = []")
    case True
    then have d: "dropWhile reSpace (s2 @ unit @ s3) = []" using assms(2,3) by (auto simp: list_all_iff)
    show ?thesis
      using assms(5) by (simp only: durationMatch_def Let_def 1 2 d takeWhile.simps dropWhile.simps simp_thms if_True) (simp add: True)
  next
    case False
    have 3: "dropWhile reSpace (s2 @ unit @ s3) = unit @ s3"
      using assms(2) u [of "hd unit"] False by (intro takeWhile_prefix [THEN conjunct2]) simp_all
    have 4: "takeWhile (\<lambda>c. \<not> reSpace c) (unit @ s3) = unit \<and> dropWhile (\<lambda>c. \<not> reSpace c) (unit @ s3) = s3"
    proof (rule takeWhile_prefix)
      show "list_all (\<lambda>c. \<not> reSpace c) unit" using u by (simp add: list_all_iff)
      show "s3 = [] \<or> \<not> \<not> reSpace (hd s3)" using assms(3) by (cases s3) simp_all
    qed
    have "dropWhile reSpace s3 = []" using assms(3) by (auto simp: list_all_iff)
    then show ?thesis
      using assms(5,6) by (simp only: durationMatch_def Let_def 1 2 3 4) simp
  qed
qed

text \<open>How long a unit is, in milliseconds.\<close>

definition unitMillis :: "string \<Rightarrow> nat" where
  "unitMillis unit = (if unit = ''ms'' then 1 else if unit = ''m'' then 60000
     else if unit = ''h'' then 3600000 else if unit = ''d'' then 86400000 else 1000)"

lemma f64_of_nat_exact: "n \<le> 2 ^ 53 \<Longrightarrow> f64_of_int (int n) = Fin False (of_nat n)"
  using f64_of_int_exact [of "int n"] by simp

lemma rat_le_two53: "n \<le> 2 ^ 53 \<Longrightarrow> (of_nat n :: rat) \<le> 2 ^ 53"
  by (metis of_nat_le_iff of_nat_numeral of_nat_power)

lemma mkFloat_of_nat: "m \<le> 2 ^ 53 \<Longrightarrow> mkFloat s (of_nat m) = Fin s (of_nat m)"
  using mkFloat_small [of "of_nat m" s] rat_le_two53 [of m] roundMag_of_int [of "int m"] by simp

lemma whole_product:
  assumes "n \<le> 2 ^ 53" "k \<le> 2 ^ 53" "n * k \<le> 2 ^ 53"
  shows "f64_to_int64 (f64_mul (f64_of_int (int n)) (f64_of_int (int k))) = int (n * k)"
proof -
  have "mkFloat False (of_nat (n * k)) = Fin False (of_nat (n * k))"
    using assms(3) by (rule mkFloat_of_nat)
  moreover have "int (n * k) \<le> maxInt64" "minInt64 \<le> int (n * k)"
    using assms(3) by (simp_all add: maxInt64_def minInt64_def del: of_nat_mult)
  ultimately show ?thesis
    using assms(1,2) by (simp add: f64_of_nat_exact Let_def flip: of_nat_mult)
qed

lemma thousandth_product:
  assumes "n \<le> 2 ^ 40"
  shows "f64_to_int64 (f64_mul (f64_of_int (int n)) (f64_of_rat (1 / 1000))) = int (n div 1000)"
proof -
  define q r where "q = n div 1000" and "r = n mod 1000"
  have n: "(of_nat n :: rat) = 1000 * of_nat q + of_nat r"
    using div_mult_mod_eq [of n 1000] unfolding q_def r_def
    by (metis mult.commute of_nat_add of_nat_mult of_nat_numeral)
  have q: "q \<le> 2 ^ 31" using assms by (simp add: q_def)
  then have q': "(of_nat q :: rat) \<le> 2 ^ 31" by (metis of_nat_le_iff of_nat_numeral of_nat_power)
  have r: "(of_nat r :: rat) \<le> 999" "0 \<le> (of_nat r :: rat)" by (simp_all add: r_def)
  define x :: rat where "x = of_nat n * (1152921504606847 / 2 ^ 60)"
  have low: "of_int (int q) \<le> x" and up: "x \<le> of_nat q + 1 - 1 / 1024" and x53: "x \<le> 2 ^ 53" and x0: "0 \<le> x"
    using q' r by (simp_all add: x_def n field_simps)
  have "of_int (int q) \<le> roundMag x" using q by (intro int_le_roundMag [OF low]) auto
  moreover have "roundMag x \<le> of_nat q + 1 - 1 / 1024"
  proof -
    have "roundMag (of_nat q + 1 - 1 / 1024 :: rat) = of_nat q + 1 - 1 / 1024"
      by (rule roundMag_grid [of "1024 * (int q + 1) - 1" "- 10"]) (use q in \<open>auto simp: pow2_def field_simps\<close>)
    then show ?thesis using roundMag_mono [OF x0 up] by simp
  qed
  ultimately have "\<lfloor>roundMag x\<rfloor> = int q" by (intro floor_unique) auto
  moreover have "int q \<le> maxInt64" "minInt64 \<le> int q" using q by (simp_all add: maxInt64_def minInt64_def)
  moreover have "f64_mul (f64_of_int (int n)) (f64_of_rat (1 / 1000)) = Fin False (roundMag x)"
    using assms x0 x53 by (simp add: f64_of_nat_exact thousandth mkFloat_small x_def)
  ultimately show ?thesis by (simp add: q_def Let_def)
qed

text \<open>C25: a duration is read exactly: \<open>n\<close> units, in any case and with any white space around the number
  and the unit, are the whole number of seconds they last, although the code multiplies in floating
  point (milliseconds by the rounded constant 0.001). Without a unit the number counts seconds.\<close>

theorem ParseDurationSeconds_exact:
  assumes "n * 86400 \<le> 2 ^ 53" "unit = [] \<or> lowerAscii unit \<in> fst ` set unitSeconds"
    and "list_all reSpace s1" "list_all reSpace s2" "list_all reSpace s3"
  shows "ParseDurationSeconds (YStr (s1 @ decimalNat n @ s2 @ unit @ s3)) = int (n * unitMillis (lowerAscii unit) div 1000)"
proof -
  have m: "durationMatch (s1 @ decimalNat n @ s2 @ unit @ s3) = Some (decimalNat n, unit)"
    using assms decimalNat_digits by (intro durationMatch_text) auto
  have n: "n \<le> 2 ^ 40" "n \<le> 2 ^ 53" using assms(1) by simp_all
  then have p: "strconv_ParseInt (decimalNat n) = Some (int n)"
    using ParseInt_Itoa [of "int n"] by (simp add: strconv_Itoa_def minInt64_def maxInt64_def)
  have w: "f64_to_int64 (f64_mul (f64_of_int (int n)) (f64_of_int (int k))) = int (n * k)" if "k \<in> {1, 60, 3600, 86400}" for k
    using assms(1) that by (intro whole_product) auto
  consider "lowerAscii unit = []" | "lowerAscii unit = ''ms''" | "lowerAscii unit = ''s''" | "lowerAscii unit = ''m''"
    | "lowerAscii unit = ''h''" | "lowerAscii unit = ''d''"
    using assms(2) by (auto simp: unitSeconds_def)
  then show ?thesis
    using w [of 1] w [of 60] w [of 3600] w [of 86400] thousandth_product [OF n(1)]
    by cases (simp_all add: durationText_def m p unitSeconds_def unitMillis_def)
qed

lemma lowerAscii_Ms: "lowerAscii ''Ms'' = ''ms''"
  by code_simp

theorem ParseDurationSeconds_exact_witness:
  "ParseDurationSeconds (YStr ('' '' @ decimalNat 10200 @ [] @ ''Ms'' @ [])) = 10"
  using ParseDurationSeconds_exact [of 10200 "''Ms''" "'' ''" "[]" "[]"]
  by (simp add: unitSeconds_def reSpace_def unitMillis_def lowerAscii_Ms del: lowerAscii_Cons)

section \<open>Writing a configuration as a document\<close>

definition alarmDoc :: "alarm_config \<Rightarrow> yaml" where
  "alarmDoc a = YMap ([(''name'', YStr (cfgName a)), (''counter'', YStr (cfgCounter a)), (''op'', YStr (cfgOp a)),
     (''interval'', YInt (cfgIntervalS a)), (''min-samples'', YInt (cfgMinSamples a)), (''filter'', YStr (cfgFilter a)),
     (''code'', YStr (cfgCode a)), (''command'', YStr (cfgCommand a)), (''webhook'', YStr (cfgWebhook a)),
     (''on-clear'', YBool (cfgOnClear a))] @ (if cfgHasLimit a then [(''limit'', YFloat (cfgLimit a))] else []))"

definition alarmConfigOk :: "(string \<Rightarrow> string) \<Rightarrow> alarm_config \<Rightarrow> bool" where
  "alarmConfigOk uc a \<longleftrightarrow> strings_TrimSpace (cfgCounter a) = cfgCounter a
     \<and> strings_ToLower uc (strings_TrimSpace (cfgOp a)) = cfgOp a \<and> strings_TrimSpace (cfgCode a) = cfgCode a
     \<and> strings_TrimSpace (cfgWebhook a) = cfgWebhook a \<and> (cfgHasLimit a \<or> cfgLimit a = Fin False 0)"

definition configDoc :: "config \<Rightarrow> yaml" where
  "configDoc c = YMap
     [(''server'', YMap
        [(''zeromq-port'', YInt (ZeroMQPort c)), (''zeromq-control-port'', YInt (ZeroMQControlPort c)),
         (''track-resync-interval'', YInt (TrackResyncIntervalS c)), (''ghost-stream-timeout'', YInt (GhostStreamTimeoutS c)),
         (''instance'', YMap [(''id'', YStr (AgentID c)), (''name'', YStr (AgentName c))]), (''pidfile-db'', YStr (Pidfile c))]),
      (''dashboard'', YMap
        [(''host'', YStr (DashboardHost c)), (''port'', YInt (DashboardPort c)), (''root'', YStr (DashboardRoot c)),
         (''max-streams'', YInt (MaxStreams c)), (''good-mos-threshold'', YFloat (GoodMosThreshold c)),
         (''silence-ratio-threshold'', YFloat (SilenceRatioThreshold c)), (''sevana-mos'', YStr (SevanaMos c))]),
      (''pvqa'', YMap [(''config'', YStr (PvqaConfig c))]),
      (''database'', YMap
        [(''engine'', YStr (DBEngine c)), (''connection'', YStr (DBConnection c)),
         (''records-lifetime'', YInt (RecordsLifetimeS c)), (''audio-lifetime'', YInt (AudioLifetimeS c)),
         (''csv'', YStr (CSVPath c)), (''records-limit'', YInt (RecordsLimit c)),
         (''store-sip-filter'', YList (map YStr (StoreSipFilter c)))]),
      (''alarm'', YList (map alarmDoc (Alarms c))),
      (''logging'', YMap
        [(''level'', YStr (LogLevel c)), (''db'', YStr (LogFile c)), (''console'', YBool (LogConsole c))])]"

definition configOk :: "(string \<Rightarrow> string) \<Rightarrow> config \<Rightarrow> bool" where
  "configOk uc c \<longleftrightarrow> DashboardHost c \<noteq> [] \<and> SevanaMos c \<in> {''auto'', ''on'', ''off''}
     \<and> list_all (\<lambda>s. s \<noteq> []) (StoreSipFilter c) \<and> list_all (alarmConfigOk uc) (Alarms c)"

lemma alarmEntry_alarmDoc:
  "alarmConfigOk uc a \<Longrightarrow> (case alarmDoc a of YMap m \<Rightarrow> [alarmEntry uc m] | _ \<Rightarrow> []) = [a]"
  by (cases a) (auto simp: alarmDoc_def alarmEntry_def alarmConfigOk_def mapGet_def Let_def)

lemma parseAlarms_alarmDoc: "list_all (alarmConfigOk uc) as \<Longrightarrow> parseAlarms uc (YList (map alarmDoc as)) = as"
  by (induction as) (simp_all add: alarmEntry_alarmDoc)

lemma sevanaMosMode_fixed:
  "s \<in> {''auto'', ''on'', ''off''} \<Longrightarrow> sevanaMosMode uc (YStr s) = s"
proof -
  assume "s \<in> {''auto'', ''on'', ''off''}"
  moreover have "strings_ToLower uc (strings_TrimSpace s) = s" if "s \<in> {''auto'', ''on'', ''off''}" for s
    using that by (elim insertE emptyE; hypsubst) code_simp+
  ultimately show ?thesis by (auto simp: sevanaMosMode_def Let_def)
qed

lemma filters_kept: "list_all (\<lambda>s. s \<noteq> []) ss \<Longrightarrow> asStringSlice (YList (map YStr ss)) = ss"
  by (induction ss) simp_all

lemma parse_configDoc_parts:
  "configOk uc c \<Longrightarrow> parse uc (configDoc c) = c"
  "(\<nexists>m. doc = YMap m) \<Longrightarrow> parse uc doc = defaults"
proof -
  assume ok: "configOk uc c"
  then have "parseAlarms uc (YList (map alarmDoc (Alarms c))) = Alarms c"
    "asStringSlice (YList (map YStr (StoreSipFilter c))) = StoreSipFilter c"
    "sevanaMosMode uc (YStr (SevanaMos c)) = SevanaMos c" "DashboardHost c \<noteq> []"
    unfolding configOk_def by (blast intro: parseAlarms_alarmDoc filters_kept sevanaMosMode_fixed)+
  then show "parse uc (configDoc c) = c"
    by (cases c) (simp add: parse_def configDoc_def mapGet_def del: parseAlarms.simps asStringSlice.simps)
next
  have "sevanaMosMode uc YNull = ''auto''" by (simp add: sevanaMosMode_def) code_simp
  moreover assume "\<nexists>m. doc = YMap m"
  then have "nestedGet doc (k # ks) = YNull" for k ks by (cases doc) auto
  ultimately show "parse uc doc = defaults" by (simp add: parse_def defaults_def)
qed

text \<open>C24: every setting is read from its own key and nothing else changes it: a configuration written
  as a document parses back to itself, the alarm entries included; and a missing, empty or ill-typed
  document gives the defaults.\<close>

theorem parse_configDoc:
  "(configOk uc c \<longrightarrow> parse uc (configDoc c) = c) \<and> ((\<nexists>m. doc = YMap m) \<longrightarrow> parse uc doc = defaults)"
  using parse_configDoc_parts by blast

theorem parse_configDoc_witness:
  "parse id (configDoc (defaults\<lparr>Alarms := [\<lparr>cfgName = ''loss'', cfgCounter = ''packet_loss'', cfgOp = ''above'',
       cfgLimit = Fin False 5, cfgHasLimit = True, cfgIntervalS = 300, cfgMinSamples = 10, cfgFilter = [], cfgCode = [],
       cfgCommand = ''page'', cfgWebhook = [], cfgOnClear = True\<rparr>]\<rparr>)) \<noteq> defaults
   \<and> parse id YNull = defaults"
proof -
  have "strings_TrimSpace ''packet_loss'' = ''packet_loss''" "strings_TrimSpace [] = []"
    "strings_ToLower id (strings_TrimSpace ''above'') = ''above''" by (code_simp, code_simp, code_simp)
  then show ?thesis
    by (subst parse_configDoc [THEN conjunct1, rule_format])
       (simp_all add: configOk_def alarmConfigOk_def defaults_def parse_configDoc [THEN conjunct2, rule_format, unfolded defaults_def])
qed

end
