(* ===== verification/Dsn.thy ===== *)
theory Dsn
  imports Prelude
begin

text \<open>
  Connection strings (\<^verbatim>\<open>db/dsn.go\<close>) and the SQLite parameters of \<^verbatim>\<open>db/open.go\<close>: the SOCI
  \<^verbatim>\<open>key=value\<close> syntax, the translation into a driver and its DSN, and the description that goes to
  the log. A Go map is an association list in order of assignment, read by its last entry. \<open>uc\<close> is
  the case table of \<^verbatim>\<open>strings.ToLower\<close> outside ASCII. The theorem says when the description depends on the
  password: never, except that an SQLite string that names no file is its own description.
\<close>

section \<open>Parsing\<close>

definition isQuote :: "char \<Rightarrow> bool" where
  "isQuote c \<longleftrightarrow> c = CHR 0x27 \<or> c = CHR 0x22"

text \<open>The value after the equals sign and the text that follows it.\<close>

definition sociValue :: "string \<Rightarrow> string \<times> string" where
  "sociValue s =
     (case s of
        q # body \<Rightarrow>
          if isQuote q then (takeWhile (\<lambda>c. c \<noteq> q) body, drop 1 (dropWhile (\<lambda>c. c \<noteq> q) body))
          else (takeWhile (\<lambda>c. \<not> isSpaceByte c) s, dropWhile (\<lambda>c. \<not> isSpaceByte c) s)
      | [] \<Rightarrow> ([], []))"

lemma sociValue_length: "length (snd (sociValue s)) \<le> length s"
proof (cases s)
  case (Cons q body)
  have "length (drop 1 (dropWhile (\<lambda>c. c \<noteq> q) body)) \<le> length body"
    using length_dropWhile_le [of "\<lambda>c. c \<noteq> q" body] by simp
  then show ?thesis
    using length_dropWhile_le [of "\<lambda>c. \<not> isSpaceByte c" s] by (simp add: sociValue_def Cons)
qed (simp add: sociValue_def)

function parseSOCI :: "string \<Rightarrow> (string \<times> string) list" where
  "parseSOCI connection =
     (let s = dropWhile isSpaceByte connection
      in case dropWhile (\<lambda>c. c \<noteq> CHR ''='') s of
           [] \<Rightarrow> []
         | _ # rest \<Rightarrow>
             (strings_TrimSpace (takeWhile (\<lambda>c. c \<noteq> CHR ''='') s), fst (sociValue rest))
             # parseSOCI (snd (sociValue rest)))"
  by pat_completeness auto
termination parseSOCI
proof (relation "measure length", goal_cases)
  case (2 connection s e rest)
  have "length (e # rest) \<le> length connection"
    unfolding 2(2) [symmetric] 2(1)
    by (rule order_trans [OF length_dropWhile_le length_dropWhile_le])
  with sociValue_length [of rest] show ?case by simp
qed simp

declare parseSOCI.simps [simp del]

definition param :: "(string \<times> string) list \<Rightarrow> string \<Rightarrow> string" where
  "param ps k = (case map_of (rev ps) k of None \<Rightarrow> [] | Some v \<Rightarrow> v)"

fun firstNonEmpty :: "string list \<Rightarrow> string" where
  "firstNonEmpty [] = []"
| "firstNonEmpty (v # vs) = (if v \<noteq> [] then v else firstNonEmpty vs)"

section \<open>Drivers and DSNs\<close>

definition sqliteEngines :: "string list" where "sqliteEngines = [''sqlite3'', ''sqlite'']"
definition postgresEngines :: "string list" where "postgresEngines = [''postgresql'', ''postgres'', ''pgsql'']"
definition mysqlEngines :: "string list" where "mysqlEngines = [''mysql'']"

datatype driver = DriverSQLite | DriverPostgres | DriverMySQL

definition engineName :: "(string \<Rightarrow> string) \<Rightarrow> string \<Rightarrow> string" where
  "engineName uc engine = strings_ToLower uc (strings_TrimSpace engine)"

definition sqlitePath :: "string \<Rightarrow> string" where
  "sqlitePath connection =
     (let ps = parseSOCI connection;
          path = firstNonEmpty [param ps ''db'', param ps ''dbname'', strings_TrimSpace connection]
      in if path = [] \<or> path = '':memory:'' then '':memory:'' else path)"

definition credentials :: "(string \<times> string) list \<Rightarrow> string" where
  "credentials ps =
     (let user = param ps ''user''; password = param ps ''password'';
          auth = (if password \<noteq> [] then user @ '':'' @ password else user)
      in if auth \<noteq> [] then auth @ ''@'' else [])"

definition hostPort :: "(string \<times> string) list \<Rightarrow> string" where
  "hostPort ps =
     (let host = firstNonEmpty [param ps ''host'', ''localhost''];
          port = param ps ''port''
      in if port \<noteq> [] then host @ '':'' @ port else host)"

definition dbName :: "(string \<times> string) list \<Rightarrow> string" where
  "dbName ps = firstNonEmpty [param ps ''dbname'', param ps ''db'']"

text \<open>\<^verbatim>\<open>None\<close> is the error for an unsupported engine.\<close>

definition SOCIToDSN :: "(string \<Rightarrow> string) \<Rightarrow> string \<Rightarrow> string \<Rightarrow> (driver \<times> string) option" where
  "SOCIToDSN uc engine connection =
     (let eng = engineName uc engine; ps = parseSOCI connection
      in if eng \<in> set sqliteEngines then Some (DriverSQLite, sqlitePath connection)
         else if eng \<in> set postgresEngines
              then Some (DriverPostgres, ''postgres://'' @ credentials ps @ hostPort ps @ ''/'' @ dbName ps)
         else if eng \<in> set mysqlEngines
              then Some (DriverMySQL, credentials ps @ ''tcp('' @ hostPort ps @ '')/'' @ dbName ps)
         else None)"

definition SafeConnDescription :: "(string \<Rightarrow> string) \<Rightarrow> string \<Rightarrow> string \<Rightarrow> string" where
  "SafeConnDescription uc engine connection =
     (let eng = engineName uc engine; ps = parseSOCI connection
      in if eng \<in> set sqliteEngines then sqlitePath connection
         else if eng \<in> set postgresEngines \<or> eng \<in> set mysqlEngines
              then (if param ps ''user'' \<noteq> [] then param ps ''user'' @ ''@'' @ hostPort ps @ ''/'' @ dbName ps
                    else hostPort ps @ ''/'' @ dbName ps)
         else eng)"

definition sqliteParams :: "string \<Rightarrow> string" where
  "sqliteParams dsn =
     (if strings_Contains dsn ''?'' then ''&'' else ''?'')
     @ ''_pragma=busy_timeout(5000)&_pragma=journal_mode(WAL)&_txlock=immediate''"

text \<open>The DSN \<^verbatim>\<open>Open\<close> hands to the SQLite driver; \<^verbatim>\<open>None\<close> is an unsupported engine or driver.\<close>

definition openDsn :: "(string \<Rightarrow> string) \<Rightarrow> string \<Rightarrow> string \<Rightarrow> string option" where
  "openDsn uc engine connection =
     (case SOCIToDSN uc engine connection of
        Some (DriverSQLite, dsn) \<Rightarrow>
          Some (if dsn = '':memory:'' then ''file::memory:?cache=shared'' else dsn @ sqliteParams dsn)
      | _ \<Rightarrow> None)"

section \<open>Printing and parsing parameters\<close>

text \<open>The quoted form of a parameter list.\<close>

fun renderSOCI :: "(string \<times> string) list \<Rightarrow> string" where
  "renderSOCI [] = []"
| "renderSOCI ((k, v) # ps) = k @ ''='' @ [CHR 0x27] @ v @ [CHR 0x27] @ '' '' @ renderSOCI ps"

text \<open>A key is printable if it has no equals sign and no space at its ends; a value if it has no quote.\<close>

definition printable :: "string \<times> string \<Rightarrow> bool" where
  "printable p \<longleftrightarrow> CHR ''='' \<notin> set (fst p) \<and> strings_TrimSpace (fst p) = fst p \<and>
     (fst p = [] \<or> \<not> isSpaceByte (hd (fst p))) \<and> CHR 0x27 \<notin> set (snd p)"

lemma takeWhile_neq: "c \<notin> set xs \<Longrightarrow> takeWhile (\<lambda>x. x \<noteq> c) (xs @ c # ys) = xs"
  by (induction xs) auto

lemma dropWhile_neq: "c \<notin> set xs \<Longrightarrow> dropWhile (\<lambda>x. x \<noteq> c) (xs @ c # ys) = c # ys"
  by (induction xs) auto

lemma parseSOCI_blank: "parseSOCI (CHR '' '' # s) = parseSOCI s"
  by (subst (1 2) parseSOCI.simps) (simp add: isSpaceByte_def)

lemma parseSOCI_render: "\<forall>p \<in> set ps. printable p \<Longrightarrow> parseSOCI (renderSOCI ps) = ps"
proof (induction ps rule: renderSOCI.induct)
  case 1
  then show ?case by (simp add: parseSOCI.simps)
next
  case (2 k v ps)
  then have p: "CHR ''='' \<notin> set k" "strings_TrimSpace k = k" "k = [] \<or> \<not> isSpaceByte (hd k)" "CHR 0x27 \<notin> set v"
    by (auto simp: printable_def)
  let ?rest = "CHR 0x27 # v @ CHR 0x27 # CHR '' '' # renderSOCI ps"
  have s: "dropWhile isSpaceByte (k @ CHR ''='' # ?rest) = k @ CHR ''='' # ?rest"
    using p(3) by (cases k) (simp_all, simp add: isSpaceByte_def)
  have val: "sociValue ?rest = (v, CHR '' '' # renderSOCI ps)"
    using p(4) by (simp add: sociValue_def isQuote_def takeWhile_neq dropWhile_neq)
  show ?case
    using 2 p val s
    by (subst parseSOCI.simps) (simp add: takeWhile_neq dropWhile_neq parseSOCI_blank)
qed

lemma param_password: "k \<noteq> ''password'' \<Longrightarrow> param (us @ (''password'', p) # vs) k = param (us @ vs) k"
  by (simp add: param_def map_add_def split: option.split)

lemma hostPort_password: "hostPort (us @ (''password'', p) # vs) = hostPort (us @ vs)"
  by (simp add: hostPort_def param_password)

lemma dbName_password: "dbName (us @ (''password'', p) # vs) = dbName (us @ vs)"
  by (simp add: dbName_def param_password)

lemma password_printable: "printable (''password'', p) \<longleftrightarrow> CHR 0x27 \<notin> set p"
proof -
  have "strings_TrimSpace ''password'' = ''password''" by code_simp
  then show ?thesis by (simp add: printable_def isSpaceByte_def)
qed

text \<open>Trimming never removes an equals sign.\<close>

lemma trimLeft_keeps:
  assumes "\<forall>w \<in> set ws. CHR ''='' \<notin> set w" "CHR ''='' \<in> set s"
  shows "CHR ''='' \<in> set (trimLeft ws s)"
  using assms
proof (induction ws s rule: trimLeft.induct)
  case (1 ws s)
  show ?case
  proof (cases "leadingSpace ws s = 0 \<or> s = []")
    case False
    then obtain c t where s: "s = c # t" by (cases s) auto
    have "CHR ''='' \<notin> set (take (leadingSpace ws s) s)"
    proof (cases "isSpaceByte c")
      case True
      then show ?thesis by (auto simp: s isSpaceByte_def)
    next
      case nospace: False
      then obtain w rest where "filter (strings_HasPrefix s) ws = w # rest" using False s by (auto split: list.splits)
      then have "w \<in> set ws" "strings_HasPrefix s w" "leadingSpace ws s = length w"
        using nospace s by (auto simp: filter_eq_Cons_iff)
      then show ?thesis using "1.prems"(1) by (auto simp: strings_HasPrefix_def)
    qed
    moreover have "set s = set (take (leadingSpace ws s) s) \<union> set (drop (leadingSpace ws s) s)"
      by (metis append_take_drop_id set_append)
    ultimately have "CHR ''='' \<in> set (drop (leadingSpace ws s) s)" using "1.prems"(2) by blast
    with "1.IH" False "1.prems"(1) show ?thesis by (subst trimLeft.simps) (simp add: Let_def)
  next
    case True
    then show ?thesis using "1.prems"(2) by (subst trimLeft.simps) (auto simp: Let_def)
  qed
qed

lemma TrimSpace_keeps: "CHR ''='' \<in> set s \<Longrightarrow> CHR ''='' \<in> set (strings_TrimSpace s)"
  unfolding strings_TrimSpace_def set_rev
  by (rule trimLeft_keeps; (simp add: wideSpaces_def)?) (rule trimLeft_keeps; simp add: wideSpaces_def)

text \<open>An SQLite string names its file by \<open>db\<close> or \<open>dbname\<close>; otherwise the whole string is the file.\<close>

definition namesFile :: "(string \<times> string) list \<Rightarrow> bool" where
  "namesFile ps \<longleftrightarrow> param ps ''db'' \<noteq> [] \<or> param ps ''dbname'' \<noteq> []"

lemma sqlitePath_named:
  assumes "namesFile ps" "parseSOCI c = ps"
  shows "sqlitePath c = (let path = firstNonEmpty [param ps ''db'', param ps ''dbname''] in if path = '':memory:'' then '':memory:'' else path)"
  using assms by (auto simp: sqlitePath_def namesFile_def Let_def)

lemma sqlitePath_unnamed:
  assumes "\<not> namesFile (parseSOCI c)" "CHR ''='' \<in> set c"
  shows "sqlitePath c = strings_TrimSpace c"
proof -
  have "strings_TrimSpace c \<noteq> []" "strings_TrimSpace c \<noteq> '':memory:''" using TrimSpace_keeps [OF assms(2)] by auto
  then show ?thesis using assms(1) by (simp add: sqlitePath_def namesFile_def Let_def)
qed

text \<open>C21: When the logged description of a connection depends on the password. A printed parameter list with a
  password parses back to the same parameters. For every engine, the description is that of the list without the
  password, wherever it stands and whatever it is, with one exception: for SQLite, the engine \<^verbatim>\<open>Open\<close>
  accepts, a string that names no file by \<open>db\<close> or \<open>dbname\<close> is taken as the file's path, and the
  trimmed string itself is the description. Where SQLite's file is named, what is opened does not depend on the password
  either; the DSN of the other engines carries it.\<close>

theorem description_password:
  assumes "\<forall>q \<in> set (us @ vs). printable q" "CHR 0x27 \<notin> set p" "p \<noteq> []" "''password'' \<notin> fst ` set vs"
  shows "let conn = renderSOCI (us @ (''password'', p) # vs); plain = renderSOCI (us @ vs);
             sqlite = engineName uc engine \<in> set sqliteEngines
    in parseSOCI conn = us @ (''password'', p) # vs
      \<and> SafeConnDescription uc engine conn =
          (if sqlite \<and> \<not> namesFile (us @ vs) then strings_TrimSpace conn else SafeConnDescription uc engine plain)
      \<and> (sqlite \<and> namesFile (us @ vs) \<longrightarrow> openDsn uc engine conn = openDsn uc engine plain)
      \<and> (engineName uc engine \<in> set postgresEngines \<union> set mysqlEngines \<longrightarrow>
           (\<exists>d pre post. SOCIToDSN uc engine conn = Some (d, pre @ '':'' @ p @ ''@'' @ post)))"
proof -
  let ?ps = "us @ (''password'', p) # vs" and ?e = "engineName uc engine"
  let ?conn = "renderSOCI ?ps" and ?plain = "renderSOCI (us @ vs)"
  have parse: "parseSOCI ?conn = ?ps" "parseSOCI ?plain = us @ vs"
    using assms(1,2) by (auto intro!: parseSOCI_render simp: password_printable)
  have eq: "CHR ''='' \<in> set ?conn" by (induction us) auto
  have names: "namesFile ?ps = namesFile (us @ vs)" by (simp add: namesFile_def param_password)
  have named: "sqlitePath ?conn = sqlitePath ?plain" if "namesFile (us @ vs)"
    using that names sqlitePath_named [OF _ parse(1)] sqlitePath_named [OF _ parse(2)] by (simp add: param_password)
  have unnamed: "sqlitePath ?conn = strings_TrimSpace ?conn" if "\<not> namesFile (us @ vs)"
    using that names sqlitePath_unnamed [of ?conn] parse(1) eq by simp
  have nosql: "?e \<notin> set sqliteEngines" if "?e \<in> set postgresEngines \<union> set mysqlEngines"
    using that by (auto simp: postgresEngines_def mysqlEngines_def sqliteEngines_def)
  have "map_of (rev vs) ''password'' = None" using assms(4) by (auto simp: map_of_eq_None_iff)
  then have "param ?ps ''password'' = p" by (simp add: param_def map_add_def)
  then have cred: "credentials ?ps = param ?ps ''user'' @ '':'' @ p @ ''@''"
    using assms(3) by (simp add: credentials_def Let_def)
  have carried: "\<exists>d pre post. SOCIToDSN uc engine ?conn = Some (d, pre @ '':'' @ p @ ''@'' @ post)"
    if server: "?e \<in> set postgresEngines \<union> set mysqlEngines"
  proof (cases "?e \<in> set postgresEngines")
    case True
    then show ?thesis
      using nosql [OF server] by (intro exI [of _ DriverPostgres] exI [of _ "''postgres://'' @ param ?ps ''user''"]
          exI [of _ "hostPort ?ps @ ''/'' @ dbName ?ps"]) (simp add: SOCIToDSN_def Let_def parse cred)
  next
    case False
    then show ?thesis
      using nosql [OF server] server by (intro exI [of _ DriverMySQL] exI [of _ "param ?ps ''user''"]
          exI [of _ "''tcp('' @ hostPort ?ps @ '')/'' @ dbName ?ps"]) (auto simp: SOCIToDSN_def Let_def parse cred)
  qed
  have "SafeConnDescription uc engine ?conn =
      (if ?e \<in> set sqliteEngines \<and> \<not> namesFile (us @ vs) then strings_TrimSpace ?conn else SafeConnDescription uc engine ?plain)"
    using named unnamed by (auto simp: SafeConnDescription_def Let_def parse param_password hostPort_password dbName_password)
  moreover have "openDsn uc engine ?conn = openDsn uc engine ?plain" if "?e \<in> set sqliteEngines" "namesFile (us @ vs)"
    using that named by (simp add: openDsn_def SOCIToDSN_def Let_def)
  ultimately show ?thesis using parse(1) carried unfolding Let_def by blast
qed

definition params0 :: "(string \<times> string) list" where
  "params0 = [(''dbname'', ''vq''), (''user'', ''me'')]"

theorem description_password_witness:
  "SafeConnDescription (\<lambda>s. s) ''pgsql'' (renderSOCI (params0 @ [(''password'', ''secret'')])) = ''me@localhost/vq''
   \<and> SafeConnDescription (\<lambda>s. s) ''sqlite3'' (renderSOCI (params0 @ [(''password'', ''secret'')])) = ''vq''"
proof -
  have e: "engineName (\<lambda>s. s) ''pgsql'' = ''pgsql''" "engineName (\<lambda>s. s) ''sqlite3'' = ''sqlite3''" "\<forall>q \<in> set params0. printable q"
    by code_simp+
  have "namesFile params0" by code_simp
  then have "SafeConnDescription (\<lambda>s. s) eng (renderSOCI (params0 @ [(''password'', ''secret'')])) =
      SafeConnDescription (\<lambda>s. s) eng (renderSOCI params0)" for eng
    using description_password [of params0 "[]" "''secret''" "\<lambda>s. s" eng] e(3) by (simp add: Let_def)
  moreover have "SafeConnDescription (\<lambda>s. s) ''pgsql'' (renderSOCI params0) = ''me@localhost/vq''"
    "SafeConnDescription (\<lambda>s. s) ''sqlite3'' (renderSOCI params0) = ''vq''" by code_simp+
  ultimately show ?thesis by simp
qed

end
