(* ===== verification/Api_Static.thy ===== *)
theory Api_Static
  imports Api_App
begin

text \<open>
  The routes of the REST API and its static files (\<^verbatim>\<open>api/app.go\<close>: \<^verbatim>\<open>Handler\<close>, \<^verbatim>\<open>serveStatic\<close>,
  \<^verbatim>\<open>serveIndex\<close>), with what they use of \<^verbatim>\<open>path/filepath\<close> on Unix. The file system is a parameter: \<open>isFile\<close> says
  which paths are regular files, \<open>content\<close> reads one, \<open>wd\<close> is the working directory (\<^verbatim>\<open>None\<close>: unknown). The
  lemmas show that no request path leads out of the static directory.
\<close>

section \<open>Package filepath\<close>

definition slash :: char where "slash = CHR ''/''"

text \<open>One component of a path, after the components \<open>st\<close> that were kept.\<close>

definition cleanStep :: "bool \<Rightarrow> string \<Rightarrow> string list \<Rightarrow> string list" where
  "cleanStep rooted c st =
     (if c = [] \<or> c = ''.'' then st
      else if c = ''..'' then
        (if st \<noteq> [] \<and> last st \<noteq> ''..'' then butlast st else if rooted then st else st @ [''..''])
      else st @ [c])"

definition cleanComps :: "bool \<Rightarrow> string \<Rightarrow> string list" where
  "cleanComps rooted s = fold (cleanStep rooted) (strings_SplitChar slash s) []"

definition IsAbs :: "string \<Rightarrow> bool" where
  "IsAbs s \<longleftrightarrow> s \<noteq> [] \<and> hd s = slash"

definition Clean :: "string \<Rightarrow> string" where
  "Clean s =
     (let out = (if IsAbs s then [slash] else []) @ strings_Join (cleanComps (IsAbs s) s) [slash]
      in if out = [] then ''.'' else out)"

definition Join2 :: "string \<Rightarrow> string \<Rightarrow> string" where
  "Join2 p q = (if p \<noteq> [] then Clean (p @ [slash] @ q) else if q \<noteq> [] then Clean q else [])"

definition Abs :: "string option \<Rightarrow> string \<Rightarrow> string option" where
  "Abs wd p = (if IsAbs p then Some (Clean p) else map_option (\<lambda>d. Join2 d p) wd)"

section \<open>Static files\<close>

datatype static_response =
    ServeFile string
  | ServeIndex string
  | StaticError response

text \<open>The first match of \<^verbatim>\<open><base href="[^"]*">\<close> is replaced.\<close>

definition baseOpen :: string where
  "baseOpen = ''<base href='' @ [CHR 0x22]"

definition matchBase :: "string \<Rightarrow> string option" where
  "matchBase s =
     (if strings_HasPrefix s baseOpen then
        let t = dropWhile (\<lambda>c. c \<noteq> CHR 0x22) (drop (length baseOpen) s)
        in if take 2 t = [CHR 0x22, CHR ''>''] then Some (drop 2 t) else None
      else None)"

fun replaceBase :: "string \<Rightarrow> string \<Rightarrow> string" where
  "replaceBase p [] = []"
| "replaceBase p (c # s) =
     (case matchBase (c # s) of
        Some rest \<Rightarrow> baseOpen @ p @ [slash, CHR 0x22, CHR ''>''] @ rest
      | None \<Rightarrow> c # replaceBase p s)"

definition serveIndex :: "(string \<Rightarrow> string option) \<Rightarrow> request \<Rightarrow> string \<Rightarrow> static_response" where
  "serveIndex content r index =
     (case content index of
        None \<Rightarrow> StaticError (httpError 404 ''Not found'')
      | Some html \<Rightarrow>
          (let p = strings_TrimRight (forwardedPrefix r) slash
           in ServeIndex (if p \<noteq> [] \<and> safePrefixRe p then replaceBase p html else html)))"

definition serveStatic ::
    "string option \<Rightarrow> (string \<Rightarrow> bool) \<Rightarrow> (string \<Rightarrow> string option) \<Rightarrow> string \<Rightarrow> request \<Rightarrow> string \<Rightarrow> static_response" where
  "serveStatic wd isFile content dir r urlPath =
     (let fullPath = (if strings_HasPrefix urlPath [slash] then drop 1 urlPath else urlPath);
          rootAbs = (case Abs wd dir of None \<Rightarrow> [] | Some p \<Rightarrow> p);
          index = Join2 dir ''index.html'';
          fallback = (if isFile index then serveIndex content r index else StaticError (httpError 404 ''Not found''))
      in if fullPath \<noteq> [] then
           (case Abs wd (Join2 dir fullPath) of
              Some candidate \<Rightarrow> if strings_HasPrefix candidate (rootAbs @ [slash]) \<and> isFile candidate then ServeFile candidate else fallback
            | None \<Rightarrow> fallback)
         else fallback)"

section \<open>Routes\<close>

datatype api_endpoint =
    EpInstanceList | EpServerStats | EpVersion | EpSummary | EpSipCalls | EpSipCall | EpAlarms | EpSipEvents | EpAudio
  | EpStreamHistory | EpReport | EpStats | EpTrack track_op bool | EpUI | EpRedirectToUI | EpStatic

text \<open>The patterns the mux is given, with their handlers.\<close>

definition Handler :: "bool \<Rightarrow> string \<Rightarrow> (string \<times> api_endpoint) list" where
  "Handler ui staticDir =
     [(''GET /instance_list'', EpInstanceList), (''GET /server_stats'', EpServerStats), (''GET /version'', EpVersion),
      (''GET /dashboard/summary'', EpSummary), (''GET /summary'', EpSummary), (''GET /sip_calls'', EpSipCalls),
      (''GET /sip_call'', EpSipCall), (''GET /alarms'', EpAlarms), (''GET /sip_events'', EpSipEvents), (''GET /audio'', EpAudio),
      (''GET /streamhistory'', EpStreamHistory), (''GET /report'', EpReport), (''GET /stats'', EpStats),
      (''GET /track'', EpTrack TrackQuery False), (''GET /track/add'', EpTrack TrackAdd True),
      (''GET /track/remove'', EpTrack TrackRemove True), (''GET /track/replace'', EpTrack TrackReplace False)]
     @ (if ui then [(''GET /ui/'', EpUI), (''POST /ui/'', EpUI), (''GET /{$}'', EpRedirectToUI)]
        else if staticDir \<noteq> [] then [(''GET /'', EpStatic)] else [])"

section \<open>No path leads out of the static directory\<close>

definition plainComp :: "string \<Rightarrow> bool" where
  "plainComp c \<longleftrightarrow> c \<noteq> [] \<and> c \<noteq> ''.'' \<and> c \<noteq> ''..'' \<and> slash \<notin> set c"

definition pathOf :: "string list \<Rightarrow> string" where
  "pathOf cs = concat (map (Cons slash) cs)"

lemma SplitChar_free: "c \<in> set (strings_SplitChar d s) \<Longrightarrow> d \<notin> set c"
  by (induction s arbitrary: c) (auto split: if_splits list.splits)

lemma cleanComps_free:
  assumes "c \<in> set (cleanComps rooted s)"
  shows "c \<noteq> [] \<and> slash \<notin> set c"
proof -
  have step: "\<forall>c \<in> set (cleanStep rooted x st). c \<noteq> [] \<and> slash \<notin> set c"
    if "\<forall>c \<in> set st. c \<noteq> [] \<and> slash \<notin> set c" "slash \<notin> set x" for x st
    using that by (auto simp: cleanStep_def slash_def dest: in_set_butlastD)
  have all: "\<forall>c \<in> set (fold (cleanStep rooted) cs st). c \<noteq> [] \<and> slash \<notin> set c"
    if "\<forall>c \<in> set st. c \<noteq> [] \<and> slash \<notin> set c" "\<forall>c \<in> set cs. slash \<notin> set c" for cs st
    using that
  proof (induction cs arbitrary: st)
    case (Cons x cs)
    have "\<forall>c \<in> set (cleanStep rooted x st). c \<noteq> [] \<and> slash \<notin> set c" using step Cons.prems by (metis list.set_intros(1))
    then show ?case using Cons.IH Cons.prems(2) by (metis fold_simps(2) list.set_intros(2))
  qed simp
  have "\<forall>c \<in> set (strings_SplitChar slash s). slash \<notin> set c" by (blast dest: SplitChar_free)
  from all [OF _ this, of "[]"] show ?thesis using assms unfolding cleanComps_def by simp
qed

lemma Clean_relative:
  assumes "\<not> IsAbs s"
  shows "\<not> IsAbs (Clean s)"
proof (cases "cleanComps False s")
  case Nil
  then have "Clean s = ''.''" using assms by (simp add: Clean_def)
  then show ?thesis by (simp add: IsAbs_def slash_def)
next
  case (Cons c cs)
  then obtain x y where "c = x # y" "x \<noteq> slash" using cleanComps_free [of c False s] by (cases c) auto
  moreover from this have "\<exists>z. strings_Join (c # cs) [slash] = x # z" by (cases cs) auto
  ultimately show ?thesis using assms Cons by (auto simp: Clean_def IsAbs_def)
qed

lemma cleanComps_plain: "list_all plainComp (cleanComps True s)"
proof -
  have step: "list_all plainComp (cleanStep True c st)" if "list_all plainComp st" "slash \<notin> set c" for c st
    using that by (auto simp: cleanStep_def plainComp_def list_all_iff dest: in_set_butlastD)
  have all: "list_all plainComp (fold (cleanStep True) cs st)" if "list_all plainComp st" "\<forall>c \<in> set cs. slash \<notin> set c" for cs st
    using that by (induction cs arbitrary: st) (auto intro: step)
  have "\<forall>c \<in> set (strings_SplitChar slash s). slash \<notin> set c" by (blast dest: SplitChar_free)
  from all [OF _ this, of "[]"] show ?thesis by (simp add: cleanComps_def)
qed

lemma Join_pathOf: "cs \<noteq> [] \<Longrightarrow> slash # strings_Join cs [slash] = pathOf cs"
  by (induction cs "[slash]" rule: strings_Join.induct) (simp_all add: pathOf_def)

lemma Clean_abs: "IsAbs s \<Longrightarrow> \<exists>cs. list_all plainComp cs \<and> Clean s = (if cs = [] then [slash] else pathOf cs)"
  using cleanComps_plain [of s] Join_pathOf [of "cleanComps True s"]
  by (intro exI [of _ "cleanComps True s"]) (auto simp: Clean_def Let_def)

lemma Abs_paths:
  assumes "\<forall>d. wd = Some d \<longrightarrow> IsAbs d" "Abs wd p = Some q"
  shows "\<exists>cs. list_all plainComp cs \<and> q = (if cs = [] then [slash] else pathOf cs)"
proof (cases "IsAbs p")
  case True
  then show ?thesis using assms(2) Clean_abs [of p] by (simp add: Abs_def)
next
  case False
  then obtain d where d: "wd = Some d" "q = Join2 d p" using assms(2) by (auto simp: Abs_def)
  then have "IsAbs (d @ [slash] @ p)" "d \<noteq> []" using assms(1) by (auto simp: IsAbs_def)
  then show ?thesis using Clean_abs [of "d @ [slash] @ p"] d(2) by (simp add: Join2_def)
qed

lemma pathOf_Cons: "pathOf (c # cs) = slash # c @ pathOf cs"
  by (simp add: pathOf_def)

lemma takeWhile_comp: "slash \<notin> set c \<Longrightarrow> t = [] \<or> hd t = slash \<Longrightarrow> takeWhile (\<lambda>x. x \<noteq> slash) (c @ t) = c"
  by (cases t) (auto simp: takeWhile_append)

lemma pathOf_prefix:
  assumes "pathOf cs = pathOf rs @ slash # t" "list_all plainComp cs" "list_all plainComp rs"
  shows "\<exists>more. more \<noteq> [] \<and> cs = rs @ more"
  using assms
proof (induction rs arbitrary: cs)
  case Nil
  then show ?case by (cases cs) (auto simp: pathOf_def)
next
  case (Cons c rs)
  then obtain d ds where cs: "cs = d # ds" by (cases cs) (auto simp: pathOf_def)
  have "pathOf xs @ slash # t = [] \<or> hd (pathOf xs @ slash # t) = slash" "pathOf xs = [] \<or> hd (pathOf xs) = slash" for xs
    by (cases xs; simp add: pathOf_def)+
  moreover have eq: "d @ pathOf ds = c @ pathOf rs @ slash # t" using Cons.prems(1) cs by (simp add: pathOf_Cons)
  ultimately have "d = c"
    using takeWhile_comp [of d "pathOf ds"] takeWhile_comp [of c "pathOf rs @ slash # t"] Cons.prems(2,3) cs
    by (auto simp: plainComp_def)
  then show ?case using Cons.IH [of ds] Cons.prems eq cs by auto
qed

text \<open>C31: static files stay inside their directory: whatever path a request names, a file that is served lies
  below the absolute static directory, by at least one component, and none of the components below
  it is empty, a dot or a double dot.\<close>

theorem static_files_stay_inside:
  assumes "\<forall>d. wd = Some d \<longrightarrow> IsAbs d" "dir \<noteq> []" "serveStatic wd isFile content dir r urlPath = ServeFile p"
  shows "isFile p \<and> (\<exists>rootAbs comps. Abs wd dir = Some rootAbs \<and> comps \<noteq> [] \<and> list_all plainComp comps \<and> p = rootAbs @ pathOf comps)"
proof -
  obtain full where p: "Abs wd (Join2 dir full) = Some p" "isFile p"
    and pre: "strings_HasPrefix p ((case Abs wd dir of None \<Rightarrow> [] | Some q \<Rightarrow> q) @ [slash])"
    using assms(3) by (auto simp: serveStatic_def serveIndex_def Let_def split: if_splits option.splits)
  obtain q where q: "Abs wd dir = Some q"
    using p(1) assms(2) Clean_relative [of "dir @ [slash] @ full"]
    by (cases "IsAbs dir"; cases wd) (auto simp: Abs_def Join2_def IsAbs_def split: if_splits)
  obtain t where t: "p = q @ slash # t"
    using pre q by (metis append.assoc append_Cons append_Nil append_take_drop_id option.case(2) strings_HasPrefix_def)
  obtain cs rs where cs: "list_all plainComp cs" "p = (if cs = [] then [slash] else pathOf cs)"
    and rs: "list_all plainComp rs" "q = (if rs = [] then [slash] else pathOf rs)"
    using Abs_paths [OF assms(1)] p(1) q by metis
  have ne: "rs \<noteq> []"
  proof
    assume "rs = []"
    then have "p = slash # slash # t" using rs(2) t by simp
    then show False using cs by (cases cs) (auto simp: pathOf_Cons plainComp_def append_eq_Cons_conv split: if_splits)
  qed
  then have "q = pathOf rs" "pathOf rs \<noteq> []" using rs(2) by (auto simp: pathOf_def neq_Nil_conv)
  then have "pathOf cs = pathOf rs @ slash # t" using cs(2) t by (auto split: if_splits simp: pathOf_def append_eq_Cons_conv)
  then obtain more where "more \<noteq> []" "cs = rs @ more" using pathOf_prefix cs(1) rs(1) by blast
  then show ?thesis using p(2) q cs \<open>q = pathOf rs\<close> by (auto simp: pathOf_def)
qed

theorem static_files_stay_inside_witness:
  "\<exists>comps. comps \<noteq> [] \<and> list_all plainComp comps \<and> ''/srv/ui/a.js'' = ''/srv/ui'' @ pathOf comps"
proof -
  have "serveStatic (Some ''/srv'') (\<lambda>p. p \<in> {''/srv/ui/a.js'', ''/srv/secret''}) (\<lambda>_. None) ''ui''
      \<lparr>rawQuery = [], forwardedPrefix = []\<rparr> ''/x/../a.js'' = ServeFile ''/srv/ui/a.js''"
    "Abs (Some ''/srv'') ''ui'' = Some ''/srv/ui''" "IsAbs ''/srv''"
    by (code_simp, code_simp, code_simp)
  then show ?thesis using static_files_stay_inside [of "Some ''/srv''" "''ui''"] by fastforce
qed

text \<open>A path that climbs out is answered by the fallback.\<close>

lemma climbing_path_refused:
  "serveStatic (Some ''/srv'') (\<lambda>p. p \<in> {''/srv/ui/a.js'', ''/srv/secret''}) (\<lambda>_. None) ''ui''
     \<lparr>rawQuery = [], forwardedPrefix = []\<rparr> ''/../secret'' = StaticError (httpError 404 ''Not found'')"
  by code_simp

text \<open>The routes never clash: every pattern is registered once.\<close>

lemma routes_distinct: "distinct (map fst (Handler ui staticDir))"
  by (simp add: Handler_def)

end
