(* ===== verification/Main_Run.thy ===== *)
theory Main_Run
  imports Bus_Subscriber Alarm_Source Alarm_Notify Config Dsn Api_Static
begin

text \<open>
  The entry point (\<^verbatim>\<open>cmd/vq-db/main.go\<close>): what is read from the configuration into the components, the
  order in which the parts are started and stopped on every way out of \<^verbatim>\<open>run\<close>, and the view of the alarms
  the API and the dashboard get. The outcomes of the outside world (files, database, sockets) are the fields
  of \<open>outside\<close>. Logging is not modelled, except for its level.
\<close>

section \<open>Logging and detector thresholds\<close>

datatype log_level = LevelDebug | LevelInfo | LevelWarn | LevelError

definition logLevels :: "(string \<times> log_level) list" where
  "logLevels = [(''critical'', LevelError), (''error'', LevelError), (''warning'', LevelWarn), (''info'', LevelInfo),
     (''debug'', LevelDebug), (''media'', LevelDebug)]"

definition logLevel :: "config \<Rightarrow> log_level" where
  "logLevel cfg = (case map_of logLevels (LogLevel cfg) of Some l \<Rightarrow> l | None \<Rightarrow> LevelInfo)"

text \<open>The default thresholds stay as they were when none can be loaded.\<close>

definition loadDetectorThresholds :: "(string \<Rightarrow> string + thresholds) \<Rightarrow> string \<Rightarrow> thresholds \<Rightarrow> thresholds" where
  "loadDetectorThresholds loader path old =
     (if path = [] then old else case loader path of Inl err \<Rightarrow> old | Inr th \<Rightarrow> th)"

section \<open>From the configuration to the components\<close>

definition configureWriter :: "(string \<Rightarrow> string) \<Rightarrow> config \<Rightarrow> writer \<Rightarrow> writer" where
  "configureWriter uc cfg w =
     (let w = (if 0 < RecordsLimit cfg then SetRecordsLimit (RecordsLimit cfg) w else w)
      in if StoreSipFilter cfg \<noteq> [] then SetStoreSipFilter uc (StoreSipFilter cfg) w else w)"

definition instanceOf :: "config \<Rightarrow> inst" where
  "instanceOf cfg = \<lparr>instID = AgentID cfg, instName = AgentName cfg\<rparr>"

definition alarmSet :: "config \<Rightarrow> (engine \<times> drop_history) option" where
  "alarmSet cfg = buildAlarms (Alarms cfg) (instanceOf cfg)"

text \<open>\<^verbatim>\<open>filepath.Dir\<close>.\<close>

definition filepath_Dir :: "string \<Rightarrow> string" where
  "filepath_Dir p = Clean (rev (dropWhile (\<lambda>c. c \<noteq> CHR ''/'') (rev p)))"

definition diskPath :: "(string \<Rightarrow> string) \<Rightarrow> config \<Rightarrow> string" where
  "diskPath uc cfg =
     (case SOCIToDSN uc (DBEngine cfg) (DBConnection cfg) of
        Some (DriverSQLite, dsn) \<Rightarrow> if dsn \<noteq> '':memory:'' then filepath_Dir dsn else []
      | _ \<Rightarrow> [])"

definition alarmSourceOf ::
    "(string \<Rightarrow> string) \<Rightarrow> config \<Rightarrow> 'e alarm_db \<Rightarrow> (string \<Rightarrow> (u64 \<times> u64) option) \<Rightarrow> thresholds \<Rightarrow> drop_history \<Rightarrow> 'e alarm_source" where
  "alarmSourceOf uc cfg db statfs th h =
     \<lparr>asDB = db, asStatfs = statfs, asDiskPath = diskPath uc cfg, asDrops = Some h, asThresholds = th\<rparr>"

definition sweeperOf :: "config \<Rightarrow> ghost_sweeper option" where
  "sweeperOf cfg =
     (if 0 < GhostStreamTimeoutS cfg then Some (NewGhostSweeper (word_of_int (GhostStreamTimeoutS cfg)) 0) else None)"

text \<open>The control client exists even when it could not connect, so the reconciler always does.\<close>

definition sinksOf :: "config \<Rightarrow> stats_sinks" where
  "sinksOf cfg = \<lparr>skSnapshot = NewInstanceSnapshot, skSync = Some NewTrackSyncWorker, skDrops = map_option snd (alarmSet cfg)\<rparr>"

definition daemonOf :: "(string \<Rightarrow> string) \<Rightarrow> outcome list \<Rightarrow> config \<Rightarrow> daemon" where
  "daemonOf uc os cfg =
     (let d = newDaemon os (AgentID cfg) (AgentName cfg) (sinksOf cfg) (sweeperOf cfg)
      in d\<lparr>dPipe := (dPipe d)\<lparr>pl_writer := configureWriter uc cfg (pl_writer (dPipe d))\<rparr>\<rparr>)"

definition cleanupOf :: "config \<Rightarrow> cleanup_worker option" where
  "cleanupOf cfg =
     (if 0 < RecordsLifetimeS cfg \<or> 0 < AudioLifetimeS cfg
      then Some \<lparr>cwRecordsS = RecordsLifetimeS cfg, cwAudioS = AudioLifetimeS cfg\<rparr> else None)"

section \<open>The view of the alarms\<close>

definition msOrZero :: "time \<Rightarrow> int" where
  "msOrZero t = (if t = zeroTime then 0 else UnixMilli t)"

definition alarmState :: "Alarm_Engine.status \<Rightarrow> string" where
  "alarmState st =
     (if stAlarm st then ''alarm''
      else if stLastCheck st = zeroTime then ''pending''
      else if \<not> stMeasured st then ''no data''
      else ''ok'')"

definition ruleJSON :: "rule_state \<Rightarrow> json_object" where
  "ruleJSON p = (case p of (r, st) \<Rightarrow>
     [(''name'', JStr (Name r)), (''counter'', JStr (Counter r)), (''op'', JStr (op_String (RuleOp r))), (''limit'', JFloat (Limit r)),
      (''unit'', JStr (Unit r)), (''window_s'', JInt (wholeSeconds (Window r))), (''min_samples'', JInt (MinSamples r)),
      (''filter'', JStr (RuleFilter r)), (''code'', JStr (Code r)),
      (''notify'', JObj [(''command'', JBool (Command r \<noteq> [])), (''webhook'', JBool (Webhook r \<noteq> [])), (''on_clear'', JBool (OnClear r))]),
      (''state'', JStr (alarmState st)), (''value'', JFloat (stValue st)), (''samples'', JInt (stSamples st)),
      (''measured'', JBool (stMeasured st)), (''last_check_ms'', JInt (msOrZero (stLastCheck st))),
      (''last_change_ms'', JInt (msOrZero (stLastChange st))), (''error'', JStr (stLastError st))])"

text \<open>The command line and the address of the webhook may carry tokens; only whether they are configured is shown.\<close>

lemma ruleJSON_hides_actions:
  "(Command r = [] \<longleftrightarrow> cmd = []) \<Longrightarrow> (Webhook r = [] \<longleftrightarrow> url = []) \<Longrightarrow>
   ruleJSON (r\<lparr>Command := cmd, Webhook := url\<rparr>, st) = ruleJSON (r, st)"
  by (simp add: ruleJSON_def)

definition eventJSON :: "alarm_row \<Rightarrow> json_object" where
  "eventJSON e =
     [(''name'', JStr (al_name e)), (''kind'', JStr (al_kind e)), (''counter'', JStr (al_counter e)), (''op'', JStr (al_op e)),
      (''value'', JFloat (al_value e)), (''limit'', JFloat (al_limit_value e)), (''samples'', JInt (al_samples e)),
      (''timestamp_ms'', JInt (al_event_timestamp e))]"

definition alarmView :: "(db_error \<Rightarrow> string) \<Rightarrow> engine option \<Rightarrow> int \<Rightarrow> conn \<Rightarrow> alarm_view \<times> conn" where
  "alarmView errText eng n c =
     (case RecentEvents (nat n) c of
        (res, c') \<Rightarrow>
          (\<lparr>Configured = (eng \<noteq> None),
            AlarmRules = (case eng of None \<Rightarrow> [] | Some e \<Rightarrow> map ruleJSON (Statuses e)),
            AlarmEvents = (case res of Inl _ \<Rightarrow> [] | Inr evs \<Rightarrow> map eventJSON evs),
            AlarmError = (case res of Inl err \<Rightarrow> errText err | Inr _ \<Rightarrow> [])\<rparr>, c'))"

definition version :: string where "version = ''2.3.0''"

text \<open>What the API and the dashboard are given; \<open>base\<close> holds the answers of the database, the clock and the
  time zone.\<close>

definition depsOf :: "config \<Rightarrow> 'e api_deps \<Rightarrow> registry \<Rightarrow> instance_snapshot \<Rightarrow> (int \<Rightarrow> alarm_view) \<Rightarrow> 'e api_deps" where
  "depsOf cfg base reg snap view = base\<lparr>dAgentID := AgentID cfg, dAgentName := AgentName cfg,
     dGoodMosThreshold := GoodMosThreshold cfg, dSilenceRatioThreshold := SilenceRatioThreshold cfg,
     dMaxStreams := MaxStreams cfg, dVersion := version, dRegistry := Some reg, dSnapshot := Some snap, dAlarms := Some view\<rparr>"

section \<open>Starting and stopping\<close>

text \<open>The parts with a goroutine of their own; the two notifiers are started by \<^verbatim>\<open>buildAlarms\<close>.\<close>

datatype part = PCommands | PWebhooks | PSubscriber | PCleanup | PTrackSync | PEngine | PServer

datatype effect =
    WritePidfile string | OpenDatabase | BootstrapSchema | OpenControl | RestorePatterns
  | Start part | Stop part | CloseControl | CloseDatabase

record flags =
  flConfig :: string
  flHost :: string
  flLogLevel :: string

record outside =
  loadConfig :: "string \<Rightarrow> string + config"
  openDB :: "config \<Rightarrow> bool"
  bootstrapDB :: "config \<Rightarrow> bool"

definition overridden :: "flags \<Rightarrow> config \<Rightarrow> config" where
  "overridden fl cfg =
     (let cfg = (if flHost fl \<noteq> [] then cfg\<lparr>DashboardHost := flHost fl\<rparr> else cfg)
      in if flLogLevel fl \<noteq> [] then cfg\<lparr>LogLevel := flLogLevel fl\<rparr> else cfg)"

definition startCleanup :: "config \<Rightarrow> effect list" where
  "startCleanup cfg = (if cleanupOf cfg \<noteq> None then [Start PCleanup] else [])"

definition startNotifiers :: "config \<Rightarrow> effect list" where
  "startNotifiers cfg = (if alarmSet cfg \<noteq> None then [Start PCommands, Start PWebhooks] else [])"

definition startEngine :: "config \<Rightarrow> effect list" where
  "startEngine cfg = (if alarmSet cfg \<noteq> None then [Start PEngine] else [])"

text \<open>The order of the calls after the wait for a signal or an error of the server; the deferred
  \<^verbatim>\<open>conn.Close\<close> comes last.\<close>

definition shutdown :: "config \<Rightarrow> effect list" where
  "shutdown cfg =
     [Stop PSubscriber] @ (if cleanupOf cfg \<noteq> None then [Stop PCleanup] else []) @ [Stop PTrackSync]
     @ (if alarmSet cfg \<noteq> None then [Stop PEngine, Stop PCommands, Stop PWebhooks] else [])
     @ [CloseControl, Stop PServer, CloseDatabase]"

text \<open>From the opened database on; the subscriber is a new one, so starting it is the model's \<^verbatim>\<open>Start\<close>.\<close>

definition serve :: "(string \<Rightarrow> string) \<Rightarrow> outcome list \<Rightarrow> config \<Rightarrow> int \<times> effect list" where
  "serve uc os cfg =
     (let prepared = [OpenControl] @ startNotifiers cfg
      in case fst (Subscriber_Start (SubscriberForPort (ZeroMQPort cfg) (daemonOf uc os cfg))) of
           Some err \<Rightarrow> (1, prepared @ [CloseDatabase])
         | None \<Rightarrow> (0, prepared @ [Start PSubscriber] @ startCleanup cfg @ [RestorePatterns, Start PTrackSync]
                        @ startEngine cfg @ [Start PServer] @ shutdown cfg))"

definition run :: "(string \<Rightarrow> string) \<Rightarrow> outcome list \<Rightarrow> outside \<Rightarrow> flags \<Rightarrow> int \<times> effect list" where
  "run uc os w fl =
     (if flConfig fl = [] then (2, [])
      else case loadConfig w (flConfig fl) of
             Inl err \<Rightarrow> (1, [])
           | Inr cfg0 \<Rightarrow>
               let cfg = overridden fl cfg0; pid = (if Pidfile cfg \<noteq> [] then [WritePidfile (Pidfile cfg)] else [])
               in if \<not> HasDatabase cfg then (1, pid)
                  else if \<not> openDB w cfg then (1, pid @ [OpenDatabase])
                  else if \<not> bootstrapDB w cfg then (1, pid @ [OpenDatabase, BootstrapSchema, CloseDatabase])
                  else apsnd (\<lambda>es. pid @ [OpenDatabase, BootstrapSchema] @ es) (serve uc os cfg))"

section \<open>Order of the effects\<close>

text \<open>Every part that is started is stopped later and once, and none is stopped that was not started.\<close>

definition balanced :: "effect list \<Rightarrow> bool" where
  "balanced es \<longleftrightarrow> (\<forall>p. count_list es (Start p) = count_list es (Stop p) \<and> count_list es (Start p) \<le> 1
     \<and> (\<forall>pre post. es = pre @ Stop p # post \<longrightarrow> Start p \<in> set pre))"

text \<open>\<open>before a b es\<close>: an \<open>a\<close> comes after no \<open>b\<close>.\<close>

definition before :: "effect \<Rightarrow> effect \<Rightarrow> effect list \<Rightarrow> bool" where
  "before a b es \<longleftrightarrow> (\<forall>pre post. es = pre @ b # post \<longrightarrow> a \<notin> set post)"

lemma before_Nil [simp]: "before a b []"
  by (simp add: before_def)

lemma before_Cons: "before a b (e # es) \<longleftrightarrow> (e = b \<longrightarrow> a \<notin> set es) \<and> before a b es"
  by (auto simp: before_def Cons_eq_append_conv)

lemma balanced_check:
  "balanced es \<longleftrightarrow> (\<forall>p. count_list es (Start p) = count_list es (Stop p) \<and> count_list es (Start p) \<le> 1 \<and> before (Start p) (Stop p) es)"
proof -
  have "(\<forall>pre post. es = pre @ Stop p # post \<longrightarrow> Start p \<in> set pre) \<longleftrightarrow> before (Start p) (Stop p) es"
    if c: "count_list es (Start p) = count_list es (Stop p)" "count_list es (Start p) \<le> 1" for p
  proof
    assume l: "\<forall>pre post. es = pre @ Stop p # post \<longrightarrow> Start p \<in> set pre"
    show "before (Start p) (Stop p) es"
      unfolding before_def
    proof (intro allI impI notI)
      fix pre post
      assume es: "es = pre @ Stop p # post" and "Start p \<in> set post"
      then have "0 < count_list pre (Start p)" "0 < count_list post (Start p)"
        using l by (auto simp: count_list_0_iff neq0_conv [symmetric])
      with c es show False by simp
    qed
  next
    assume b: "before (Start p) (Stop p) es"
    show "\<forall>pre post. es = pre @ Stop p # post \<longrightarrow> Start p \<in> set pre"
    proof (intro allI impI)
      fix pre post
      assume es: "es = pre @ Stop p # post"
      then have "Start p \<notin> set post" using b by (auto simp: before_def)
      moreover have "count_list es (Start p) \<noteq> 0" using c(1) es by simp
      ultimately show "Start p \<in> set pre" using es by (auto simp: count_list_0_iff)
    qed
  qed
  then show ?thesis unfolding balanced_def by blast
qed

lemma effects_cases:
  "startCleanup cfg = [] \<and> cleanupOf cfg = None \<or> startCleanup cfg = [Start PCleanup] \<and> cleanupOf cfg \<noteq> None"
  "startNotifiers cfg = [] \<and> startEngine cfg = [] \<and> alarmSet cfg = None
    \<or> startNotifiers cfg = [Start PCommands, Start PWebhooks] \<and> startEngine cfg = [Start PEngine] \<and> alarmSet cfg \<noteq> None"
  by (cases "cleanupOf cfg"; simp add: startCleanup_def)
    (cases "alarmSet cfg"; simp add: startNotifiers_def startEngine_def)

lemma serve_zero: "serve uc os cfg = (0, [OpenControl] @ startNotifiers cfg @ [Start PSubscriber] @ startCleanup cfg
    @ [RestorePatterns, Start PTrackSync] @ startEngine cfg @ [Start PServer] @ shutdown cfg)"
  by (simp add: serve_def Subscriber_Start_def SubscriberForPort_def NewSubscriber_def)

lemma run_cases:
  obtains (usage) "run uc os w fl = (2, [])" "flConfig fl = []"
  | (failed) pid es where "run uc os w fl = (1, pid @ es)" "pid = [] \<or> (\<exists>f. pid = [WritePidfile f])"
      "es \<in> {[], [OpenDatabase], [OpenDatabase, BootstrapSchema, CloseDatabase]}"
  | (served) cfg pid where "run uc os w fl = (0, pid @ [OpenDatabase, BootstrapSchema] @ snd (serve uc os cfg))"
      "pid = [] \<or> (\<exists>f. pid = [WritePidfile f])" "openDB w cfg" "bootstrapDB w cfg" "HasDatabase cfg"
proof (cases "flConfig fl = []")
  case True
  then show ?thesis by (intro usage) (simp_all add: run_def)
next
  case False
  show ?thesis
  proof (cases "loadConfig w (flConfig fl)")
    case (Inl err)
    then show ?thesis using False by (intro failed [of "[]" "[]"]) (simp_all add: run_def)
  next
    case (Inr cfg0)
    let ?cfg = "overridden fl cfg0"
    let ?pid = "if Pidfile ?cfg \<noteq> [] then [WritePidfile (Pidfile ?cfg)] else []"
    have pid: "?pid = [] \<or> (\<exists>f. ?pid = [WritePidfile f])" by simp
    consider (f) es where "run uc os w fl = (1, ?pid @ es)" "es \<in> {[], [OpenDatabase], [OpenDatabase, BootstrapSchema, CloseDatabase]}"
      | (s) "run uc os w fl = (0, ?pid @ [OpenDatabase, BootstrapSchema] @ snd (serve uc os ?cfg))"
          "openDB w ?cfg" "bootstrapDB w ?cfg" "HasDatabase ?cfg"
      using False Inr by (cases "HasDatabase ?cfg"; cases "openDB w ?cfg"; cases "bootstrapDB w ?cfg")
        (simp_all add: run_def Let_def serve_zero)
    then show ?thesis
    proof cases
      case f
      then show ?thesis using pid by (intro failed)
    next
      case s
      then show ?thesis using pid by (intro served)
    qed
  qed
qed

lemma served_order:
  assumes "pid = [] \<or> (\<exists>f. pid = [WritePidfile f])" "es = pid @ [OpenDatabase, BootstrapSchema] @ snd (serve uc os cfg)"
  shows "balanced es \<and> last es = CloseDatabase \<and> count_list es CloseDatabase = 1
    \<and> {Start PSubscriber, Start PTrackSync, Start PServer} \<subseteq> set es
    \<and> before RestorePatterns (Start PTrackSync) es \<and> before BootstrapSchema (Start PSubscriber) es
    \<and> before (Stop PEngine) (Stop PCommands) es \<and> before (Stop PEngine) (Stop PWebhooks) es
    \<and> before (Stop PTrackSync) CloseControl es"
proof -
  have "balanced es"
    unfolding balanced_check
    using assms effects_cases [of cfg]
    by (intro allI) (auto simp: serve_zero shutdown_def before_Cons split: if_splits)
  moreover have "last es = CloseDatabase" by (simp add: assms(2) serve_zero shutdown_def)
  moreover have "count_list es CloseDatabase = 1"
    using assms effects_cases [of cfg] by (auto simp: serve_zero shutdown_def)
  moreover have "before RestorePatterns (Start PTrackSync) es \<and> before BootstrapSchema (Start PSubscriber) es
    \<and> before (Stop PEngine) (Stop PCommands) es \<and> before (Stop PEngine) (Stop PWebhooks) es \<and> before (Stop PTrackSync) CloseControl es"
    using assms effects_cases [of cfg] by (auto simp: serve_zero shutdown_def before_Cons)
  ultimately show ?thesis by (simp add: assms(2) serve_zero)
qed

section \<open>Properties\<close>


definition demoOutside :: outside where
  "demoOutside = \<lparr>loadConfig = (\<lambda>_. Inr (defaults\<lparr>DBEngine := ''sqlite3'', DBConnection := ''db=/tmp/a.db'', RecordsLifetimeS := 60\<rparr>)),
     openDB = (\<lambda>_. True), bootstrapDB = (\<lambda>_. True)\<rparr>"


text \<open>The events table as the alarms page shows it.\<close>

lemma RecentEvents_calm: "script c = [] \<Longrightarrow> RecentEvents n c = (Inr (take n (rev (sort_key al_id (rtpmon_alarm_events (tables c))))), c)"
  by (simp add: RecentEvents_def queryDb_def attempt_def)

lemma StoreNotify_calm:
  assumes "script c = []" "ascending fresh"
  shows "script (StoreNotify fresh ev c) = []"
    "rev (sort_key al_id (rtpmon_alarm_events (tables (StoreNotify fresh ev c)))) =
       eventRow (fresh (map al_id (rtpmon_alarm_events (tables c)))) ev # rev (sort_key al_id (rtpmon_alarm_events (tables c)))"
proof -
  let ?rows = "rtpmon_alarm_events (tables c)"
  have "\<forall>x \<in> set ?rows. al_id x \<le> al_id (eventRow (fresh (map al_id ?rows)) ev)"
    using ascending_le [OF assms(2), of _ ?rows al_id] by (simp add: eventRow_def)
  then show "rev (sort_key al_id (rtpmon_alarm_events (tables (StoreNotify fresh ev c)))) =
      eventRow (fresh (map al_id ?rows)) ev # rev (sort_key al_id ?rows)"
    using assms(1) by (simp add: StoreNotify_def attempt_def insertEvent_def sort_key_append_last)
  show "script (StoreNotify fresh ev c) = []" using assms(1) by (simp add: StoreNotify_def attempt_def insertEvent_def)
qed

text \<open>C40: The newest notification is the first the dashboard shows. After the store notifier has written an
  event, the view of the alarms starts with it, under the rule's name, with its kind, value, limit, sample
  count and time, followed by what the view showed before, cut to the limit; the state of a rule reads
  ''alarm'' exactly while it is in alarm. (Assumed: the database answers the insert and the query, the empty script, and
  the ids it gives to new rows ascend.)\<close>

theorem alarm_event_shown:
  assumes "script c = []" "ascending fresh" "0 < n"
  shows "let old = fst (alarmView errText eng (n - 1) c); new = fst (alarmView errText eng n (StoreNotify fresh ev c))
    in AlarmEvents new = [(''name'', JStr (Name (evRule ev))), (''kind'', JStr (kind_string (evKind ev))),
         (''counter'', JStr (Counter (evRule ev))), (''op'', JStr (op_String (RuleOp (evRule ev)))), (''value'', JFloat (evValue ev)),
         (''limit'', JFloat (Limit (evRule ev))), (''samples'', JInt (evSamples ev)), (''timestamp_ms'', JInt (UnixMilli (evAt ev)))]
         # AlarmEvents old
      \<and> AlarmError new = [] \<and> AlarmRules new = AlarmRules old
      \<and> (\<forall>e. eng = Some e \<longrightarrow> map (\<lambda>r. map_of r ''state'' = Some (JStr ''alarm'')) (AlarmRules new) = map (stAlarm \<circ> snd) (Statuses e))"
proof -
  have n: "nat n = Suc (nat (n - 1))" using assms(3) by simp
  have st: "map_of (ruleJSON p) ''state'' = Some (JStr ''alarm'') \<longleftrightarrow> stAlarm (snd p)" for p
    by (cases p) (simp add: ruleJSON_def alarmState_def)
  then show ?thesis
    using StoreNotify_calm [OF assms(1,2), of ev]
    by (simp add: alarmView_def RecentEvents_calm assms(1) n eventJSON_def eventRow_def Let_def o_def)
qed

definition demoEvent :: event where
  "demoEvent = \<lparr>evRule = demoHealthRule, evKind = Raised, evValue = f64_of_int 12, evSamples = 8, evSnapshot = emptySnapshot,
     evAt = 0, evInstance = \<lparr>instID = ''1'', instName = ''a''\<rparr>\<rparr>"

theorem alarm_event_shown_witness:
  "let c = \<lparr>tables = emptyDb, script = []\<rparr>
   in length (AlarmEvents (fst (alarmView (\<lambda>_. []) None 5 (StoreNotify nextId demoEvent c)))) = 1"
proof -
  let ?c = "\<lparr>tables = emptyDb, script = []\<rparr>"
  have "AlarmEvents (fst (alarmView (\<lambda>_. []) None 4 ?c)) = []"
    by (simp add: alarmView_def RecentEvents_calm emptyDb_def)
  with alarm_event_shown [OF _ nextId_ascending, of ?c 5 "\<lambda>_. []" None demoEvent] show ?thesis by (simp add: Let_def)
qed

end
