(* ===== verification/Whole_Daemon.thy ===== *)
theory Whole_Daemon
  imports Main_Run
begin

text \<open>
  The configured daemon as a whole (\<^verbatim>\<open>cmd/vq-db/main.go\<close>, \<^verbatim>\<open>worker/cleanup.go\<close>, \<^verbatim>\<open>db/cleanup.go\<close>): the bus
  goroutine over a writer with its records limit and SIP filter, the cleanup goroutine whose statements and
  transactions fall between its poll iterations, and the writes of the track API and the alarm notifier. The
  invariant says what is left of the store's consistency when the cleanup removes streams the writer still remembers.
\<close>

section \<open>A cleanup pass, one statement at a time\<close>

datatype cleanup_job = DeleteStreams "int list" | DeleteSip int | DeleteHealth int | DeleteAlarms int | DeleteAudio int

definition ignoreResult :: "('s, 'a) action \<Rightarrow> ('s, unit) action" where
  "ignoreResult m = andThen m (\<lambda>_. ret ())"

fun runJob :: "cleanup_job \<Rightarrow> ('z conn_scheme, unit) action" where
  "runJob (DeleteStreams ids) = deleteStreamsTx ids"
| "runJob (DeleteSip cutoff) = ignoreResult (exec (deleteSip cutoff))"
| "runJob (DeleteHealth cutoff) = exec (deleteHealth cutoff)"
| "runJob (DeleteAlarms cutoff) = exec (deleteAlarms cutoff)"
| "runJob (DeleteAudio cutoff) = ignoreResult (RemoveOldAudio cutoff)"

text \<open>The statements of \<^verbatim>\<open>RemoveOldRecords\<close> and of \<^verbatim>\<open>RemoveOldAudio\<close> a pass has still to run.\<close>

record cleanup_pass =
  cpRecords :: "cleanup_job list"
  cpAudio :: "cleanup_job list"

definition noPass :: cleanup_pass where
  "noPass = \<lparr>cpRecords = [], cpAudio = []\<rparr>"

definition recordJobs :: "int \<Rightarrow> int list \<Rightarrow> cleanup_job list" where
  "recordJobs cutoff ids = map DeleteStreams (chunksOf deleteChunkStreams ids) @ [DeleteSip cutoff, DeleteHealth cutoff, DeleteAlarms cutoff]"

text \<open>The ticker fires: the ids of the expired streams are read, nothing is deleted yet.\<close>

definition beginPass :: "int \<Rightarrow> cleanup_worker \<Rightarrow> 'z conn_scheme \<Rightarrow> cleanup_pass \<times> 'z conn_scheme" where
  "beginPass nowMs c s =
     (let audio = (if 0 < cwAudioS c then [DeleteAudio (wrap64 (nowMs - wrap64 (cwAudioS c * 1000)))] else []);
          cutoff = wrap64 (nowMs - wrap64 (cwRecordsS c * 1000))
      in if 0 < cwRecordsS c
         then (case queryDb (expiredStreams cutoff) s of
                 (Inl e, s') \<Rightarrow> (\<lparr>cpRecords = [], cpAudio = audio\<rparr>, s')
               | (Inr ids, s') \<Rightarrow> (\<lparr>cpRecords = recordJobs cutoff ids, cpAudio = audio\<rparr>, s'))
         else (\<lparr>cpRecords = [], cpAudio = audio\<rparr>, s))"

text \<open>An error ends \<^verbatim>\<open>RemoveOldRecords\<close>; the audio is removed in any case.\<close>

definition passStep :: "cleanup_pass \<Rightarrow> 'z conn_scheme \<Rightarrow> cleanup_pass \<times> 'z conn_scheme" where
  "passStep p s =
     (case cpRecords p of
        j # js \<Rightarrow> (case runJob j s of (Inl e, s') \<Rightarrow> (p\<lparr>cpRecords := []\<rparr>, s') | (Inr _, s') \<Rightarrow> (p\<lparr>cpRecords := js\<rparr>, s'))
      | [] \<Rightarrow> (case cpAudio p of
                j # js \<Rightarrow> (p\<lparr>cpAudio := js\<rparr>, snd (runJob j s))
              | [] \<Rightarrow> (p, s)))"

text \<open>Run without anything in between, the statements are the sweep of \<open>Daemon\<close>.\<close>

fun runJobs :: "cleanup_job list \<Rightarrow> 'z conn_scheme \<Rightarrow> 'z conn_scheme" where
  "runJobs [] s = s"
| "runJobs (j # js) s = (case runJob j s of (Inl e, s') \<Rightarrow> s' | (Inr _, s') \<Rightarrow> runJobs js s')"

definition passesLeft :: "cleanup_pass \<Rightarrow> nat" where
  "passesLeft p = length (cpRecords p) + length (cpAudio p)"

definition stepAlone :: "cleanup_pass \<times> 'z conn_scheme \<Rightarrow> cleanup_pass \<times> 'z conn_scheme" where
  "stepAlone ps = passStep (fst ps) (snd ps)"

lemma stepAlone_later: "stepAlone ps = ps' \<Longrightarrow> \<exists>n. (stepAlone ^^ n) ps' = res \<Longrightarrow> \<exists>n. (stepAlone ^^ n) ps = res"
  by (metis comp_apply funpow_Suc_right)

lemma passStep_runs:
  assumes "length (cpAudio p) \<le> 1"
  shows "\<exists>n. (stepAlone ^^ n) (p, s) = (noPass, runJobs (cpAudio p) (runJobs (cpRecords p) s))"
  using assms
proof (induction "passesLeft p" arbitrary: p s rule: less_induct)
  case less
  show ?case
  proof (cases "cpRecords p")
    case (Cons j js)
    obtain res s' where r: "runJob j s = (res, s')" by (cases "runJob j s")
    let ?p = "p\<lparr>cpRecords := (case res of Inl _ \<Rightarrow> [] | Inr _ \<Rightarrow> js)\<rparr>"
    have step: "stepAlone (p, s) = (?p, s')" using Cons r by (cases res) (simp_all add: stepAlone_def passStep_def)
    have less': "passesLeft ?p < passesLeft p" using Cons by (cases res) (simp_all add: passesLeft_def)
    have run: "runJobs (cpRecords ?p) s' = runJobs (cpRecords p) s" using Cons r by (cases res) simp_all
    have "length (cpAudio ?p) \<le> 1" using less.prems by simp
    from less.hyps [OF less' this, of s'] show ?thesis unfolding run by (intro stepAlone_later [OF step]) simp
  next
    case rec: Nil
    show ?thesis
    proof (cases "cpAudio p")
      case (Cons j js)
      then have "js = []" using less.prems by simp
      with Cons rec show ?thesis
        by (intro exI [of _ 1]) (auto simp: stepAlone_def passStep_def noPass_def split: prod.splits sum.splits)
    next
      case Nil
      with rec show ?thesis by (intro exI [of _ 0]) (simp add: noPass_def)
    qed
  qed
qed

lemma runJobs_records:
  "runJobs (map DeleteStreams cs @ [DeleteSip c, DeleteHealth c, DeleteAlarms c]) s =
     (case deleteChunks cs st s of
        ((st', Some e), s2) \<Rightarrow> s2
      | ((st', None), s2) \<Rightarrow> runJobs [DeleteSip c, DeleteHealth c, DeleteAlarms c] s2)"
proof (induction cs arbitrary: s st)
  case (Cons ids cs)
  obtain res s' where "deleteStreamsTx ids s = (res, s')" by fastforce
  then show ?case using Cons by (cases res) simp_all
qed simp

lemma runJobs_RemoveOldRecords:
  assumes "queryDb (expiredStreams cutoff) s = (Inr ids, s1)"
  shows "runJobs (recordJobs cutoff ids) s1 = snd (RemoveOldRecords cutoff s)"
  by (simp add: recordJobs_def RemoveOldRecords_def Let_def assms ignoreResult_def andThen_def ret_def
      runJobs_records [where st = "\<lparr>StatStreams = 0, StatChunks = 0, StatSipEvents = 0\<rparr>"] split: prod.split sum.split option.split)

lemma sweep_is_its_statements:
  "\<exists>n. (stepAlone ^^ n) (beginPass nowMs c s) = (noPass, sweep nowMs c s)"
proof -
  obtain p s1 where b: "beginPass nowMs c s = (p, s1)" by (cases "beginPass nowMs c s")
  let ?cut = "wrap64 (nowMs - wrap64 (cwRecordsS c * 1000))"
  obtain q s2 where q: "queryDb (expiredStreams ?cut) s = (q, s2)" by fastforce
  have audio: "length (cpAudio p) \<le> 1" using b by (auto simp: beginPass_def Let_def split: if_splits prod.splits sum.splits)
  have rec: "runJobs (cpRecords p) s1 = (if 0 < cwRecordsS c then snd (RemoveOldRecords ?cut s) else s)"
  proof (cases q)
    case (Inr ids)
    with runJobs_RemoveOldRecords [of ?cut s ids s2] b q show ?thesis by (auto simp: beginPass_def Let_def split: if_splits)
  next
    case (Inl e)
    with b q show ?thesis by (auto simp: beginPass_def Let_def RemoveOldRecords_def split: if_splits)
  qed
  have "runJobs (cpAudio p) s' = (if 0 < cwAudioS c then snd (RemoveOldAudio (wrap64 (nowMs - wrap64 (cwAudioS c * 1000))) s') else s')" for s'
    using b by (cases "RemoveOldAudio (wrap64 (nowMs - wrap64 (cwAudioS c * 1000))) s'")
      (auto simp: beginPass_def Let_def ignoreResult_def andThen_def ret_def split: if_splits prod.splits sum.splits)
  then have "runJobs (cpAudio p) (runJobs (cpRecords p) s1) = sweep nowMs c s" unfolding rec by (simp only: sweep_def Let_def)
  with passStep_runs [OF audio, of s1] show ?thesis by (simp add: b)
qed

section \<open>The goroutines that write\<close>

record system =
  sysDaemon :: daemon
  sysPass :: cleanup_pass

definition sysWriter :: "system \<Rightarrow> writer" where
  "sysWriter s = pl_writer (dPipe (sysDaemon s))"

definition withWriter :: "writer \<Rightarrow> system \<Rightarrow> system" where
  "withWriter w s = s\<lparr>sysDaemon := (sysDaemon s)\<lparr>dPipe := (dPipe (sysDaemon s))\<lparr>pl_writer := w\<rparr>\<rparr>\<rparr>"

text \<open>\<^verbatim>\<open>run\<close> over a database file whose tables are \<open>d\<close>.\<close>

definition startedOn :: "db \<Rightarrow> (string \<Rightarrow> string) \<Rightarrow> outcome list \<Rightarrow> config \<Rightarrow> system" where
  "startedOn d uc os cfg =
     (let s = \<lparr>sysDaemon = daemonOf uc os cfg, sysPass = noPass\<rparr> in withWriter ((sysWriter s)\<lparr>tables := d\<rparr>) s)"

definition cleanupTick :: "int \<Rightarrow> cleanup_worker \<Rightarrow> system \<Rightarrow> system" where
  "cleanupTick nowMs c s = (case beginPass nowMs c (sysWriter s) of (p, w) \<Rightarrow> withWriter w (s\<lparr>sysPass := p\<rparr>))"

definition cleanupStatement :: "system \<Rightarrow> system" where
  "cleanupStatement s = (case passStep (sysPass s) (sysWriter s) of (p, w) \<Rightarrow> withWriter w (s\<lparr>sysPass := p\<rparr>))"

definition storedIds :: "system \<Rightarrow> int set" where
  "storedIds s = streamIds (tables (sysWriter s))"

text \<open>
  \<open>systemRun \<dots> s0 n R s\<close>: from \<open>s0\<close> the goroutines reach \<open>s\<close> with \<open>n\<close> poll iterations, and \<open>R\<close> are the ids of
  the streams the cleanup goroutine has deleted. A poll iteration, a cleanup statement and a write of the
  track API or the alarm notifier are steps; a new pass begins when the last one is over.
\<close>

inductive systemRun :: "(string \<Rightarrow> pb_event option) \<Rightarrow> (int list \<Rightarrow> int) \<Rightarrow> (string \<Rightarrow> string) \<Rightarrow> cleanup_worker option
    \<Rightarrow> system \<Rightarrow> nat \<Rightarrow> int set \<Rightarrow> system \<Rightarrow> bool" for unmarshal fresh uc cw s0 where
  started: "systemRun unmarshal fresh uc cw s0 0 {} s0"
| poll: "systemRun unmarshal fresh uc cw s0 n R s \<Longrightarrow> pollStep unmarshal fresh uc (sysDaemon s) d
    \<Longrightarrow> systemRun unmarshal fresh uc cw s0 (Suc n) R (s\<lparr>sysDaemon := d\<rparr>)"
| tick: "systemRun unmarshal fresh uc cw s0 n R s \<Longrightarrow> cw = Some c \<Longrightarrow> sysPass s = noPass
    \<Longrightarrow> systemRun unmarshal fresh uc cw s0 n R (cleanupTick nowMs c s)"
| statement: "systemRun unmarshal fresh uc cw s0 n R s \<Longrightarrow> s' = cleanupStatement s
    \<Longrightarrow> systemRun unmarshal fresh uc cw s0 n (R \<union> (storedIds s - storedIds s')) s'"
| property: "systemRun unmarshal fresh uc cw s0 n R s
    \<Longrightarrow> systemRun unmarshal fresh uc cw s0 n R (withWriter (snd (SetProperty name v (sysWriter s))) s)"
| alarm: "systemRun unmarshal fresh uc cw s0 n R s
    \<Longrightarrow> systemRun unmarshal fresh uc cw s0 n R (withWriter (StoreNotify fresh ev (sysWriter s)) s)"

section \<open>What each step keeps\<close>

definition systemInv :: "int set \<Rightarrow> system \<Rightarrow> bool" where
  "systemInv R s \<longleftrightarrow> pipeInv R (dPipe (sysDaemon s))"

lemma systemInv_writer: "systemInv R s \<Longrightarrow> writerInv R (sysWriter s)"
  by (simp add: systemInv_def sysWriter_def pipeInv_def)

lemma withWriter_simps [simp]:
  "sysWriter (withWriter w s) = w" "stamps (dPipe (sysDaemon (withWriter w s))) = stamps (dPipe (sysDaemon s))"
  "sysPass (withWriter w s) = sysPass s" "sysWriter (s\<lparr>sysPass := p\<rparr>) = sysWriter s"
  by (simp_all add: withWriter_def sysWriter_def stamps_def)

lemma withWriter_keeps: "systemInv R s \<Longrightarrow> R \<subseteq> R' \<Longrightarrow> writerInv R' w \<Longrightarrow> systemInv R' (withWriter w (s\<lparr>sysPass := p\<rparr>))"
  by (simp add: systemInv_def withWriter_def pipeInv_def)

lemma withWriter_keeps': "systemInv R s \<Longrightarrow> writerInv R w \<Longrightarrow> systemInv R (withWriter w s)"
  by (simp add: systemInv_def withWriter_def pipeInv_def)

text \<open>Streams deleted behind the writer's back: their ids, and only theirs, may dangle.\<close>

lemma deleted_behind:
  assumes "writerInv R w" "R \<subseteq> R'" "streamIds (tables w) - streamIds (deleteAll ids (tables w)) \<subseteq> R'"
  shows "writerInv R' (w\<lparr>tables := deleteAll ids (tables w), script := os\<rparr>)"
proof -
  let ?w = "w\<lparr>tables := deleteAll ids (tables w), script := os\<rparr>"
  have kept: "i \<in> streamIds (deleteAll ids (tables w)) \<longleftrightarrow> i \<in> streamIds (tables w) \<and> i \<notin> set ids" for i
    by (auto simp: streamIds_def deleteAll_def)
  have "orphansIn R (tables w)" using assms(1) by (simp add: writerInv_def)
  then have "orphansIn R' (tables ?w)"
    using assms(2,3) kept unfolding orphansIn_def by (auto simp: deleteAll_def subset_iff)
  moreover have "mapsOk R' ?w"
    unfolding mapsOk_def
  proof (intro conjI ballI, goal_cases)
    case 1
    then show ?case using assms(1) by (simp add: writerInv_def mapsOk_def)
  next
    case (2 p)
    obtain sid i where p: "p = (sid, i)" by (cases p)
    have "\<exists>s \<in> set (rtpmon_streams (tables ?w)). s_stream_id s = i \<and> rowOf sid s" if new: "i \<notin> R'"
    proof -
      have "i \<notin> R" using new assms(2) by blast
      then obtain s where s: "s \<in> set (rtpmon_streams (tables w))" "s_stream_id s = i" "rowOf sid s"
        using assms(1) 2 p mapsOk_row [of R w sid i] by (auto simp: writerInv_def)
      then have "i \<in> streamIds (tables w)" by (auto simp: streamIds_def)
      then have "i \<notin> set ids" using assms(3) kept new by blast
      with s show ?thesis by (auto simp: deleteAll_def)
    qed
    then show ?case by (simp add: p)
  next
    case (3 p)
    have "snd p \<notin> R' \<Longrightarrow> snd p \<notin> R" using assms(2) by blast
    with 3 show ?case using assms(1) mapsOk_endpoint [of R w "fst p" "snd p"] by (auto simp: writerInv_def)
  qed
  ultimately show ?thesis using assms(1) by (simp add: writerInv_def deleteAll_def distinct_map_filter)
qed

lemma writerInv_audio: "writerInv R w \<Longrightarrow> writerInv R (w\<lparr>tables := fst (deleteAudio c (tables w)), script := os\<rparr>)"
  by (simp add: writerInv_def mapsOk_def orphansIn_def streamIds_def deleteAudio_def image_subset_iff)

lemma exec_sameStreams:
  assumes "writerInv R w" "\<And>d. sameStreams d (fst (stmt d))"
  shows "writerInv R (snd (exec stmt w)) \<and> streamIds (tables (snd (exec stmt w))) = streamIds (tables w)"
proof
  show "writerInv R (snd (exec stmt w))" by (rule exec_other [OF assms])
  show "streamIds (tables (snd (exec stmt w))) = streamIds (tables w)"
    by (cases rule: atomicE [OF atomic_exec, of stmt w]) (use assms(2) in \<open>auto simp: sameStreams_def streamIds_def\<close>)
qed

lemma snd_ignoreResult [simp]: "snd (ignoreResult m s) = snd (m s)"
  by (simp add: ignoreResult_def andThen_def ret_def split: prod.split sum.split)

lemma runJob_keeps:
  assumes "writerInv R w"
  shows "writerInv (R \<union> (streamIds (tables w) - streamIds (tables (snd (runJob j w))))) (snd (runJob j w))"
proof (cases j)
  case (DeleteStreams ids)
  show ?thesis
    by (cases rule: atomicE [OF atomic_deleteStreamsTx, of ids w])
      (use DeleteStreams assms deleted_behind [OF assms Un_upper1, of ids] in \<open>auto simp: deleteStreamsTx_def\<close>)
next
  case (DeleteAudio c)
  show ?thesis
    by (cases rule: atomicE [OF atomic_exec, of "deleteAudio c" w])
      (use DeleteAudio assms writerInv_audio in \<open>auto simp: RemoveOldAudio_def deleteAudio_def streamIds_def\<close>)
qed (use assms exec_sameStreams [OF assms tail_deletes(1)] exec_sameStreams [OF assms tail_deletes(2)]
      exec_sameStreams [OF assms tail_deletes(3)] in auto)

lemma cleanupStatement_keeps:
  assumes "systemInv R s"
  shows "systemInv (R \<union> (storedIds s - storedIds (cleanupStatement s))) (cleanupStatement s)"
proof -
  note w = systemInv_writer [OF assms]
  obtain p w' where p: "passStep (sysPass s) (sysWriter s) = (p, w')" by fastforce
  then have "w' = sysWriter s \<or> (\<exists>j. w' = snd (runJob j (sysWriter s)))"
    by (auto simp: passStep_def split: list.splits prod.splits sum.splits) (metis snd_conv)+
  then have "writerInv (R \<union> (streamIds (tables (sysWriter s)) - streamIds (tables w'))) w'"
    using runJob_keeps [OF w] w by auto
  with p assms show ?thesis by (auto simp: cleanupStatement_def storedIds_def intro: withWriter_keeps)
qed

lemma cleanupTick_keeps: "systemInv R s \<Longrightarrow> systemInv R (cleanupTick nowMs c s)"
proof -
  assume inv: "systemInv R s"
  note w = systemInv_writer [OF inv]
  have "writerInv R (snd (queryDb q (sysWriter s)))" for q :: "db \<Rightarrow> int list"
    by (cases rule: atomicE [OF atomic_queryDb, of q "sysWriter s"]) (use w in auto)
  then have "writerInv R (snd (beginPass nowMs c (sysWriter s)))"
    using w by (auto simp: beginPass_def Let_def split: prod.split sum.split) (metis snd_conv)+
  then show ?thesis using inv by (auto simp: cleanupTick_def split: prod.split intro: withWriter_keeps)
qed

lemma SetProperty_keeps: "writerInv R w \<Longrightarrow> writerInv R (snd (SetProperty name v w))"
proof -
  assume w: "writerInv R w"
  have "writerInv R (snd (exec (insertProperty name v) w'))" "writerInv R (snd (exec (updateProperty name v) w'))"
    if "writerInv R w'" for w'
    using that by (auto intro!: exec_other simp: insertProperty_def updateProperty_def sameStreams_def)
  then show ?thesis
    by (cases rule: atomicE [OF atomic_queryDb, of "selectProperty name" w])
      (use w in \<open>auto simp: SetProperty_def andThen_def split: option.split\<close>)
qed

lemma StoreNotify_keeps: "writerInv R w \<Longrightarrow> writerInv R (StoreNotify fresh ev w)"
  by (cases rule: atomicE [OF atomic_attempt, of "insertEvent fresh ev" w])
    (auto simp: StoreNotify_def insertEvent_def intro!: writerInv_other simp: sameStreams_def)

lemma other_stamps [simp]:
  "stamps (dPipe (sysDaemon (cleanupTick nowMs c s))) = stamps (dPipe (sysDaemon s))"
  "stamps (dPipe (sysDaemon (cleanupStatement s))) = stamps (dPipe (sysDaemon s))"
  by (simp_all add: cleanupTick_def cleanupStatement_def withWriter_def stamps_def split: prod.split)

lemma pipeInv_mono: "pipeInv R p \<Longrightarrow> R \<subseteq> R' \<Longrightarrow> pipeInv R' p"
  by (fastforce simp: pipeInv_def writerInv_def mapsOk_def orphansIn_def)

lemma systemRun_keeps:
  assumes "systemRun unmarshal fresh uc cw s0 n R s" "systemInv R0 s0" "freshOk fresh" "stamps (dPipe (sysDaemon s0)) + int n \<le> maxInt64"
  shows "systemInv (R0 \<union> R) s \<and> stamps (dPipe (sysDaemon s)) \<le> stamps (dPipe (sysDaemon s0)) + int n"
  using assms
proof (induction rule: systemRun.induct)
  case (poll n R s d)
  then have "pipeInv (R0 \<union> R) (dPipe (sysDaemon s))" "stamps (dPipe (sysDaemon s)) \<le> stamps (dPipe (sysDaemon s0)) + int n"
    by (auto simp: systemInv_def)
  with pollStep_keeps [OF poll.hyps(2), of "R0 \<union> R"] poll.prems show ?case by (simp add: systemInv_def)
next
  case (statement n R s s')
  then show ?case using cleanupStatement_keeps [of "R0 \<union> R" s] by (simp add: Un_assoc)
next
  case (property n R s name v)
  then show ?case using SetProperty_keeps [OF systemInv_writer] by (auto intro: withWriter_keeps')
next
  case (alarm n R s ev)
  then show ?case using StoreNotify_keeps [OF systemInv_writer] by (auto intro: withWriter_keeps')
qed (auto intro: cleanupTick_keeps)

text \<open>Without a records lifetime no pass deletes a stream.\<close>

definition onlyAudio :: "cleanup_pass \<Rightarrow> bool" where
  "onlyAudio p \<longleftrightarrow> cpRecords p = [] \<and> (\<forall>j \<in> set (cpAudio p). \<exists>c. j = DeleteAudio c)"

lemma onlyAudio_step: "onlyAudio p \<Longrightarrow> passStep p w = (p', w') \<Longrightarrow> onlyAudio p' \<and> streamIds (tables w') = streamIds (tables w)"
proof -
  have "streamIds (tables (snd (RemoveOldAudio c w))) = streamIds (tables w)" for c
    by (cases rule: atomicE [OF atomic_exec, of "deleteAudio c" w])
      (auto simp: RemoveOldAudio_def deleteAudio_def streamIds_def)
  then show "onlyAudio p \<Longrightarrow> passStep p w = (p', w') \<Longrightarrow> onlyAudio p' \<and> streamIds (tables w') = streamIds (tables w)"
    by (auto simp: onlyAudio_def passStep_def split: list.splits)
qed

lemma systemRun_onlyAudio:
  assumes "systemRun unmarshal fresh uc cw s0 n R s" "\<forall>c. cw = Some c \<longrightarrow> cwRecordsS c \<le> 0" "sysPass s0 = noPass"
  shows "R = {} \<and> onlyAudio (sysPass s)"
  using assms
proof (induction rule: systemRun.induct)
  case started
  then show ?case by (simp add: onlyAudio_def noPass_def)
next
  case (tick n R s c nowMs)
  then show ?case by (auto simp: cleanupTick_def beginPass_def Let_def onlyAudio_def)
next
  case (statement n R s s')
  then show ?case
    using onlyAudio_step [of "sysPass s" "sysWriter s"]
    by (auto simp: cleanupStatement_def storedIds_def split: prod.splits)
qed simp_all

lemma startedOn_inv:
  assumes "distinct (map s_stream_id (rtpmon_streams d))" "orphansIn R d"
  shows "systemInv R (startedOn d uc os cfg) \<and> stamps (dPipe (sysDaemon (startedOn d uc os cfg))) = 0
    \<and> sysPass (startedOn d uc os cfg) = noPass"
proof -
  have "writerInv R ((configureWriter uc cfg (NewWriter emptyDb os a n))\<lparr>tables := d\<rparr>)" for a n
    using assms by (simp add: configureWriter_def SetRecordsLimit_def SetStoreSipFilter_def Let_def writerInv_def NewWriter_def mapsOk_def)
  moreover have "regInv (NewActiveStreamRegistry a n)" for a n by (rule regInv_new)
  ultimately show ?thesis
    by (simp add: startedOn_def systemInv_def withWriter_def sysWriter_def daemonOf_def newDaemon_def newPipeline_def pipeInv_def stamps_def Let_def)
      (simp add: NewActiveStreamRegistry_def)
qed

section \<open>The property\<close>

text \<open>C1: The store stays consistent, up to what the cleanup deletes. Start the daemon with any configuration
  (records limit, SIP filter, lifetimes, ghost timeout) on a database file and let its goroutines run: poll
  iterations with any bytes and idle ticks, the statements of cleanup passes between them, writes of the track
  API and the alarm notifier, any clock readings and any database outcomes. In every state reached, stream ids are
  unique and the registry is well formed; every report and audio row belongs to a stored stream or carries the id
  of a stream the cleanup goroutine has deleted (or that was missing in the file); every id the writer
  remembers for a stream is such a deleted id or that of the stored row of exactly this stream, and an endpoint's id
  is one of a stream on this endpoint. Without a records lifetime nothing is deleted behind the writer's back, and
  a file without orphans stays without orphans.\<close>

theorem store_consistent_up_to_cleanup:
  assumes "freshOk fresh" "distinct (map s_stream_id (rtpmon_streams d))" "orphansIn R0 d"
    and "systemRun unmarshal fresh uc (cleanupOf cfg) (startedOn d uc os cfg) n R s" "int n \<le> maxInt64"
  shows "let w = sysWriter s; gone = R0 \<union> R
    in distinct (map s_stream_id (rtpmon_streams (tables w))) \<and> orphansIn gone (tables w)
      \<and> (\<forall>(sid, i) \<in> set (streamMap w). i \<in> gone \<or> (\<exists>x \<in> set (rtpmon_streams (tables w)). s_stream_id x = i \<and> rowOf sid x))
      \<and> (\<forall>(e, i) \<in> set (endpointMap w). i \<in> gone \<or> (\<exists>sid. (sid, i) \<in> set (streamMap w) \<and> EndpointKey sid = e))
      \<and> (\<forall>r \<in> set_option (pl_registry (dPipe (sysDaemon s))). regInv r)
      \<and> (RecordsLifetimeS cfg \<le> 0 \<longrightarrow> R = {} \<and> (R0 = {} \<longrightarrow> noOrphans (tables w)))"
proof -
  note start = startedOn_inv [OF assms(2,3), of uc os cfg]
  have inv: "pipeInv (R0 \<union> R) (dPipe (sysDaemon s))"
    using systemRun_keeps [OF assms(4), of R0] start assms(1,5) by (simp add: systemInv_def)
  have "RecordsLifetimeS cfg \<le> 0 \<longrightarrow> R = {}"
    using systemRun_onlyAudio [OF assms(4)] start by (auto simp: cleanupOf_def split: if_splits)
  moreover from inv have "writerInv (R0 \<union> R) (sysWriter s)" by (simp add: pipeInv_def sysWriter_def)
  ultimately show ?thesis
    using inv orphansIn_empty by (auto simp: Let_def writerInv_def mapsOk_def pipeInv_def)
qed

definition boundedConfig :: config where
  "boundedConfig = defaults\<lparr>RecordsLimit := 10, StoreSipFilter := [''alice''], RecordsLifetimeS := 60, AudioLifetimeS := 30\<rparr>"

theorem store_consistent_up_to_cleanup_witness:
  "\<exists>R s. systemRun (\<lambda>_. None) rowFresh id (cleanupOf boundedConfig) (startedOn (tables demoWriter) id [] boundedConfig) 1 R s
     \<and> recordsLimit (sysWriter (startedOn (tables demoWriter) id [] boundedConfig)) = 10 \<and> orphansIn R (tables (sysWriter s))"
proof -
  let ?s0 = "startedOn (tables demoWriter) id [] boundedConfig" and ?c = "\<lparr>cwRecordsS = 60, cwAudioS = 30\<rparr>"
  let ?run = "systemRun (\<lambda>_. None) rowFresh id (cleanupOf boundedConfig) ?s0"
  have c: "cleanupOf boundedConfig = Some ?c" by (simp add: cleanupOf_def boundedConfig_def)
  have d: "distinct (map s_stream_id (rtpmon_streams (tables demoWriter)))" "noOrphans (tables demoWriter)" by code_simp+
  have "sysPass ?s0 = noPass" by (simp add: startedOn_def Let_def)
  from systemRun.statement [OF systemRun.tick [OF systemRun.started c this, of _ _ _ 99999] refl]
  obtain R s where "?run 0 R s" by blast
  from systemRun.poll [OF this pollStep.idle] obtain s' where run: "?run 1 R s'" by (auto simp: One_nat_def)
  from store_consistent_up_to_cleanup [OF rowFresh_ok d(1) _ run, of "{}"] d(2)
  have "orphansIn R (tables (sysWriter s'))" by (simp add: orphansIn_empty Let_def maxInt64_def)
  moreover have "recordsLimit (sysWriter ?s0) = 10"
    by (simp add: startedOn_def sysWriter_def withWriter_def daemonOf_def configureWriter_def boundedConfig_def SetRecordsLimit_def
        SetStoreSipFilter_def Let_def)
  ultimately show ?thesis using run by blast
qed

end
