(* ===== verification/Web_Streams.thy ===== *)
theory Web_Streams
  imports Go_Url Active_List
begin

text \<open>
  The streams page of the dashboard (\<^verbatim>\<open>web/views.go\<close>, \<^verbatim>\<open>intParam\<close> and the active card of
  \<^verbatim>\<open>streamsPage\<close> in \<^verbatim>\<open>web/pages.go\<close>): both cards keep their sort, filter and page in the query of
  the URL. The lemmas show that a link carries the state of both cards unchanged; on top of
  \<open>Active_List\<close> this gives what a user sees who follows the links to the next page.
\<close>

section \<open>The state of a card\<close>

record streams_query =
  sq_Sort :: string
  sq_Dir :: string
  sq_Offset :: int
  sq_Limit :: int
  sq_Filter :: string

definition defaultStreamsQuery :: streams_query where
  "defaultStreamsQuery = \<lparr>sq_Sort = ''start_time'', sq_Dir = ''desc'', sq_Offset = 0, sq_Limit = 25, sq_Filter = []\<rparr>"

definition intParam :: "string \<Rightarrow> int \<Rightarrow> int" where
  "intParam s def = (if s = [] then def else case strconv_ParseInt s of None \<Rightarrow> def | Some n \<Rightarrow> n)"

definition readStreamsQuery :: "url_values \<Rightarrow> string \<Rightarrow> streams_query" where
  "readStreamsQuery q pfx =
     (let sq = defaultStreamsQuery;
          v = Values_Get q (pfx @ ''_sort'');
          sq = (if v \<noteq> [] then sq\<lparr>sq_Sort := v\<rparr> else sq);
          sq = (if Values_Get q (pfx @ ''_dir'') = ''asc'' then sq\<lparr>sq_Dir := ''asc''\<rparr> else sq);
          sq = sq\<lparr>sq_Offset := intParam (Values_Get q (pfx @ ''_offset'')) 0,
                  sq_Limit := intParam (Values_Get q (pfx @ ''_limit'')) 25,
                  sq_Filter := Values_Get q (pfx @ ''_q'')\<rparr>;
          sq = (if sq_Offset sq < 0 then sq\<lparr>sq_Offset := 0\<rparr> else sq)
      in if sq_Limit sq \<le> 0 \<or> 500 < sq_Limit sq then sq\<lparr>sq_Limit := 25\<rparr> else sq)"

definition searchFilter :: "streams_query \<Rightarrow> search_filter" where
  "searchFilter sq = NewSearchFilter\<lparr>SortField := sq_Sort sq, Descending := sq_Dir sq \<noteq> ''asc'',
     PageOffset := sq_Offset sq, MaxCount := sq_Limit sq, Expression := sq_Filter sq\<rparr>"

definition setIf :: "bool \<Rightarrow> string \<Rightarrow> string \<Rightarrow> url_values \<Rightarrow> url_values" where
  "setIf b k v m = (if b then Values_Set k v m else m)"

definition params :: "streams_query \<Rightarrow> string \<Rightarrow> url_values \<Rightarrow> url_values" where
  "params sq pfx vals =
     (let vals = setIf (sq_Sort sq \<noteq> ''start_time'') (pfx @ ''_sort'') (sq_Sort sq) vals;
          vals = setIf (sq_Dir sq \<noteq> ''desc'') (pfx @ ''_dir'') (sq_Dir sq) vals;
          vals = setIf (sq_Offset sq \<noteq> 0) (pfx @ ''_offset'') (strconv_Itoa (sq_Offset sq)) vals;
          vals = setIf (sq_Limit sq \<noteq> 25) (pfx @ ''_limit'') (strconv_Itoa (sq_Limit sq)) vals
      in setIf (sq_Filter sq \<noteq> []) (pfx @ ''_q'') (sq_Filter sq) vals)"

section \<open>Links, pager and card\<close>

definition streamsURL :: "string \<Rightarrow> streams_query \<Rightarrow> string \<Rightarrow> streams_query \<Rightarrow> string \<Rightarrow> string" where
  "streamsURL base own pfx other otherPfx =
     (let vals = params other otherPfx (params own pfx []);
          u = base @ ''/ui/streams''; enc = Values_Encode vals
      in if enc \<noteq> [] then u @ ''?'' @ enc else u)"

record limit_link =
  ll_N :: int
  ll_URL :: string
  ll_Current :: bool

record pager_view =
  RangeText :: string
  PrevURL :: string
  NextURL :: string
  LimitLinks :: "limit_link list"

definition buildPager :: "int \<Rightarrow> int \<Rightarrow> int \<Rightarrow> int \<Rightarrow> (int \<Rightarrow> int \<Rightarrow> string) \<Rightarrow> pager_view" where
  "buildPager offset limit shown totl mk =
     (let first = (if 0 < totl then wrap64 (offset + 1) else 0);
          lst = (if 0 < totl then (let l = wrap64 (offset + shown) in if totl < l then totl else l) else 0)
      in \<lparr>RangeText = strconv_Itoa first @ [CHR 0xE2, CHR 0x80, CHR 0x93] @ strconv_Itoa lst @ '' of '' @ strconv_Itoa totl,
          PrevURL = (if 0 < offset then mk (let prev = wrap64 (offset - limit) in if prev < 0 then 0 else prev) limit else []),
          NextURL = (if wrap64 (offset + limit) < totl then mk (wrap64 (offset + limit)) limit else []),
          LimitLinks = map (\<lambda>n. \<lparr>ll_N = n, ll_URL = mk 0 n, ll_Current = (n = limit)\<rparr>) [10, 25, 50, 200]\<rparr>)"

record sort_col =
  sc_Label :: string
  sc_URL :: string
  sc_Sorted :: bool
  sc_Desc :: bool
  sc_Num :: bool

definition streamColumns :: "(string \<times> string \<times> bool) list" where
  "streamColumns =
     [(''#'', [], True), (''Time'', ''start_time'', False), (''Source'', ''source'', False),
      (''Destination'', ''destination'', False), (''Duration (sec)'', ''duration'', True),
      (''Sevana MOS'', ''sevana_mos'', False), (''Network MOS'', ''network_mos'', False),
      (''Jitter (ms)'', ''jitter'', True), (''SIP source'', ''sip_src'', False),
      (''SIP dest'', ''sip_dst'', False), (''Details'', [], False)]"

definition sortColumn :: "streams_query \<Rightarrow> (streams_query \<Rightarrow> string) \<Rightarrow> string \<times> string \<times> bool \<Rightarrow> sort_col" where
  "sortColumn own mk = (\<lambda>(label, field, num).
     (let col = \<lparr>sc_Label = label, sc_URL = [], sc_Sorted = False, sc_Desc = False, sc_Num = num\<rparr>
      in if field = [] then col
         else let q = own\<lparr>sq_Offset := 0\<rparr>
              in if sq_Sort own = field
                 then col\<lparr>sc_Sorted := True, sc_Desc := (sq_Dir own = ''desc''),
                          sc_URL := mk (q\<lparr>sq_Dir := if sq_Dir own = ''desc'' then ''asc'' else ''desc''\<rparr>)\<rparr>
                 else col\<lparr>sc_URL := mk (q\<lparr>sq_Sort := field, sq_Dir := ''asc''\<rparr>)\<rparr>))"

record 'r card_view =
  cv_ID :: string
  cv_Prefix :: string
  cv_Title :: string
  cv_Rows :: "'r list"
  cv_Total :: int
  cv_NewCount :: int
  cv_Error :: string
  cv_Q :: streams_query
  cv_Cols :: "sort_col list"
  cv_Pager :: pager_view
  cv_CSVPath :: string
  cv_FilterName :: string
  cv_FilterValue :: string
  cv_Hidden :: "(string \<times> string) list"
  cv_Sevana :: bool

definition hiddenFields :: "streams_query \<Rightarrow> string \<Rightarrow> streams_query \<Rightarrow> string \<Rightarrow> (string \<times> string) list" where
  "hiddenFields own pfx other otherPfx =
     (let vals = params (own\<lparr>sq_Offset := 0, sq_Filter := []\<rparr>) pfx (params other otherPfx [])
      in sortStable (\<lambda>x y. str_lt (fst x) (fst y)) (concat (map (\<lambda>(k, vs). map (Pair k) vs) vals)))"

definition buildCardView ::
    "string \<Rightarrow> streams_query \<Rightarrow> string \<Rightarrow> streams_query \<Rightarrow> string \<Rightarrow> string \<Rightarrow> 'r list \<Rightarrow> int \<Rightarrow> string \<Rightarrow> bool
     \<Rightarrow> 'r card_view" where
  "buildCardView base own pfx other otherPfx title rows totl cardErr sevana =
     (let mk = (\<lambda>q. streamsURL base q pfx other otherPfx)
      in \<lparr>cv_ID = ''tbl-'' @ pfx, cv_Prefix = pfx, cv_Title = title, cv_Rows = rows, cv_Total = totl,
          cv_NewCount = 0, cv_Error = cardErr, cv_Q = own,
          cv_Cols = map (sortColumn own mk) (filter (\<lambda>(l, field, n). \<not> (field = ''sevana_mos'' \<and> \<not> sevana)) streamColumns),
          cv_Pager = buildPager (sq_Offset own) (sq_Limit own) (int (length rows)) totl
                       (\<lambda>offset limit. mk (own\<lparr>sq_Offset := offset, sq_Limit := limit\<rparr>)),
          cv_CSVPath = (if pfx = ''a'' then ''/stats?download_active=true'' else ''/stats?download_db=true''),
          cv_FilterName = pfx @ ''_q'', cv_FilterValue = sq_Filter own,
          cv_Hidden = hiddenFields own pfx other otherPfx, cv_Sevana = sevana\<rparr>)"

text \<open>The active card of \<^verbatim>\<open>streamsPage\<close> for the raw query of a request; \<open>toRow\<close> shapes a record
  for the table.\<close>

definition activeCard ::
    "(string \<Rightarrow> string) \<Rightarrow> (valmap \<Rightarrow> 'r) \<Rightarrow> valmap list \<Rightarrow> string \<Rightarrow> bool \<Rightarrow> string \<Rightarrow> 'r card_view option" where
  "activeCard uc toRow records base sevana query =
     (let q = ParseQuery query; aq = readStreamsQuery q ''a''; fq = readStreamsQuery q ''f''
      in map_option (\<lambda>(pageRecs, totalActive).
           buildCardView base aq ''a'' fq ''f'' ''Active Streams'' (map toRow pageRecs) (int totalActive) [] sevana)
         (PaginateActive uc records (searchFilter aq)))"

section \<open>A link carries the state of both cards\<close>

definition validQuery :: "streams_query \<Rightarrow> bool" where
  "validQuery sq \<longleftrightarrow> sq_Sort sq \<noteq> [] \<and> sq_Dir sq \<in> {''asc'', ''desc''}
     \<and> 0 \<le> sq_Offset sq \<and> sq_Offset sq \<le> maxInt64 \<and> 1 \<le> sq_Limit sq \<and> sq_Limit sq \<le> 500"

lemma ParseInt_bounds: "strconv_ParseInt s = Some n \<Longrightarrow> n \<le> maxInt64"
  by (auto simp: strconv_ParseInt_def Let_def split: if_splits)

lemma intParam_bound: "d \<le> maxInt64 \<Longrightarrow> intParam s d \<le> maxInt64"
  by (auto simp: intParam_def dest: ParseInt_bounds split: option.splits)

lemma readStreamsQuery_valid: "validQuery (readStreamsQuery q pfx)"
proof -
  have "intParam s 0 \<le> maxInt64" for s by (rule intParam_bound) (simp add: maxInt64_def)
  then show ?thesis
    by (simp add: readStreamsQuery_def validQuery_def defaultStreamsQuery_def Let_def maxInt64_def)
qed

lemma distinct_setIf: "distinct (map fst m) \<Longrightarrow> distinct (map fst (setIf b k v m))"
  by (simp add: setIf_def Values_Set_def distinct_update)

lemma map_of_setIf: "map_of (setIf b k v m) k' = (if b \<and> k' = k then Some [v] else map_of m k')"
  by (simp add: setIf_def Values_Set_def update_conv')

lemma distinct_params: "distinct (map fst m) \<Longrightarrow> distinct (map fst (params sq pfx m))"
  by (simp add: params_def Let_def distinct_setIf)

definition paramOf :: "streams_query \<Rightarrow> string \<Rightarrow> string option" where
  "paramOf sq name =
     (if name = ''_sort'' then (if sq_Sort sq \<noteq> ''start_time'' then Some (sq_Sort sq) else None)
      else if name = ''_dir'' then (if sq_Dir sq \<noteq> ''desc'' then Some (sq_Dir sq) else None)
      else if name = ''_offset'' then (if sq_Offset sq \<noteq> 0 then Some (strconv_Itoa (sq_Offset sq)) else None)
      else if name = ''_limit'' then (if sq_Limit sq \<noteq> 25 then Some (strconv_Itoa (sq_Limit sq)) else None)
      else if name = ''_q'' then (if sq_Filter sq \<noteq> [] then Some (sq_Filter sq) else None)
      else None)"

definition paramNames :: "string list" where
  "paramNames = [''_sort'', ''_dir'', ''_offset'', ''_limit'', ''_q'']"

lemma map_of_params_own:
  "name \<in> set paramNames \<Longrightarrow>
   map_of (params sq pfx m) (pfx @ name) = (case paramOf sq name of None \<Rightarrow> map_of m (pfx @ name) | Some v \<Rightarrow> Some [v])"
  by (auto simp: params_def Let_def map_of_setIf paramOf_def paramNames_def)

lemma map_of_params_other:
  "(\<And>name. name \<in> set paramNames \<Longrightarrow> k \<noteq> pfx @ name) \<Longrightarrow> map_of (params sq pfx m) k = map_of m k"
  by (simp add: params_def Let_def map_of_setIf paramNames_def)

lemma map_of_params_values: "map_of (params sq pfx m) k = Some vs \<Longrightarrow> map_of m k = Some vs \<or> vs \<noteq> []"
  by (auto simp: params_def Let_def map_of_setIf split: if_splits)

text \<open>Reading looks at nothing but the five keys of the card.\<close>

lemma readStreamsQuery_params:
  assumes "validQuery sq" and m: "\<And>name. name \<in> set paramNames \<Longrightarrow> Values_Get q (pfx @ name) = (case paramOf sq name of None \<Rightarrow> [] | Some v \<Rightarrow> v)"
  shows "readStreamsQuery q pfx = sq"
proof -
  have itoa: "strconv_Itoa i \<noteq> []" for i by (simp add: strconv_Itoa_def)
  have p: "strconv_ParseInt (strconv_Itoa (sq_Offset sq)) = Some (sq_Offset sq)"
    "strconv_ParseInt (strconv_Itoa (sq_Limit sq)) = Some (sq_Limit sq)"
    using assms(1) by (auto intro!: ParseInt_Itoa simp: validQuery_def minInt64_def maxInt64_def)
  have get: "Values_Get q (pfx @ ''_sort'') = (if sq_Sort sq = ''start_time'' then [] else sq_Sort sq)"
    "Values_Get q (pfx @ ''_dir'') = (if sq_Dir sq = ''desc'' then [] else sq_Dir sq)"
    "Values_Get q (pfx @ ''_offset'') = (if sq_Offset sq = 0 then [] else strconv_Itoa (sq_Offset sq))"
    "Values_Get q (pfx @ ''_limit'') = (if sq_Limit sq = 25 then [] else strconv_Itoa (sq_Limit sq))"
    "Values_Get q (pfx @ ''_q'') = sq_Filter sq"
    by (simp_all add: m paramNames_def paramOf_def)
  have "intParam (Values_Get q (pfx @ ''_offset'')) 0 = sq_Offset sq" "intParam (Values_Get q (pfx @ ''_limit'')) 25 = sq_Limit sq"
    using p itoa by (simp_all add: get intParam_def)
  then show ?thesis
    using assms(1) get by (cases sq) (auto simp: readStreamsQuery_def defaultStreamsQuery_def validQuery_def)
qed

lemma streamsURL_link:
  assumes "set base \<inter> set ''?#'' = {}"
  shows "RawQuery (streamsURL base own pfx other otherPfx) = Values_Encode (params other otherPfx (params own pfx []))"
  using RawQuery_link [of "base @ ''/ui/streams''" "Values_Encode (params other otherPfx (params own pfx []))"]
    assms Values_Encode_chars by (auto simp: streamsURL_def Let_def)

definition cardPrefixes :: "(string \<times> string) list" where
  "cardPrefixes = [(''a'', ''f''), (''f'', ''a'')]"

lemma link_values:
  fixes own other :: streams_query
  assumes "(p, q) \<in> set cardPrefixes" "name \<in> set paramNames"
  defines "m \<equiv> params other q (params own p [])"
  shows "Values_Get (ParseQuery (Values_Encode m)) (p @ name) = (case paramOf own name of None \<Rightarrow> [] | Some v \<Rightarrow> v)"
    and "Values_Get (ParseQuery (Values_Encode m)) (q @ name) = (case paramOf other name of None \<Rightarrow> [] | Some v \<Rightarrow> v)"
proof -
  have m: "map_of (ParseQuery (Values_Encode m)) k = map_of m k" for k
  proof (rule ParseQuery_Encode)
    show "distinct (map fst m)" by (simp add: m_def distinct_params)
    show "vs \<noteq> []" if "map_of m k = Some vs" for k vs
      using map_of_params_values [OF that [unfolded m_def]] map_of_params_values [of own p "[]" k vs] by auto
  qed
  have pq: "p \<noteq> q" "length p = 1" "length q = 1" using assms(1) by (auto simp: cardPrefixes_def)
  then have other: "map_of m (p @ name) = map_of (params own p []) (p @ name)"
    unfolding m_def by (intro map_of_params_other) (metis append_eq_append_conv)
  show "Values_Get (ParseQuery (Values_Encode m)) (p @ name) = (case paramOf own name of None \<Rightarrow> [] | Some v \<Rightarrow> v)"
    using other map_of_params_own [OF assms(2), of own p "[]"] by (simp add: Values_Get_def m split: option.splits)
  have "map_of (params own p []) (q @ name) = None"
    using pq by (subst map_of_params_other) (auto simp: append_eq_append_conv)
  then have "map_of m (q @ name) = (case paramOf other name of None \<Rightarrow> None | Some v \<Rightarrow> Some [v])"
    unfolding m_def using map_of_params_own [OF assms(2), of other q "params own p []"] by (simp split: option.splits)
  then show "Values_Get (ParseQuery (Values_Encode m)) (q @ name) = (case paramOf other name of None \<Rightarrow> [] | Some v \<Rightarrow> v)"
    by (simp add: Values_Get_def m split: option.splits)
qed

lemma link_state:
  fixes own other :: streams_query
  assumes "(p, q) \<in> set cardPrefixes" "validQuery own" "validQuery other" "set base \<inter> set ''?#'' = {}"
  defines "vals \<equiv> ParseQuery (RawQuery (streamsURL base own p other q))"
  shows "readStreamsQuery vals p = own" "readStreamsQuery vals q = other"
  using assms(2,3) link_values [OF assms(1)]
  by (auto simp: vals_def streamsURL_link [OF assms(4)] intro!: readStreamsQuery_params)

section \<open>Following the links to the next page\<close>

text \<open>\<open>browse \<dots> query pages\<close>: a user opens the page with this query and follows the link to the
  next page of the active card until there is none; the pages hold the rows shown.\<close>

inductive browse ::
    "(string \<Rightarrow> string) \<Rightarrow> (valmap \<Rightarrow> 'r) \<Rightarrow> valmap list \<Rightarrow> string \<Rightarrow> bool \<Rightarrow> string \<Rightarrow> 'r list list \<Rightarrow> bool"
  for uc toRow records base sevana where
  last_page: "activeCard uc toRow records base sevana query = Some cd \<Longrightarrow> NextURL (cv_Pager cd) = [] \<Longrightarrow>
     browse uc toRow records base sevana query [cv_Rows cd]"
| next_page: "activeCard uc toRow records base sevana query = Some cd \<Longrightarrow> NextURL (cv_Pager cd) \<noteq> [] \<Longrightarrow>
     browse uc toRow records base sevana (RawQuery (NextURL (cv_Pager cd))) pages \<Longrightarrow>
     browse uc toRow records base sevana query (cv_Rows cd # pages)"

inductive_cases browse_elim: "browse uc toRow records base sevana query pages"

lemma browse_deterministic:
  "browse uc toRow records base sevana query pages \<Longrightarrow> browse uc toRow records base sevana query pages' \<Longrightarrow> pages = pages'"
proof (induction arbitrary: pages' rule: browse.induct)
  case (last_page query cd)
  show ?case by (rule browse_elim [OF last_page(3)]) (use last_page(1,2) in simp_all)
next
  case (next_page query cd pages)
  show ?case by (rule browse_elim [OF next_page(5)]) (use next_page(1,2,4) in auto)
qed

text \<open>The records behind a card, in order, and the card at one page of them.\<close>

definition activeList :: "(string \<Rightarrow> string) \<Rightarrow> valmap list \<Rightarrow> streams_query \<Rightarrow> valmap list" where
  "activeList uc records sq =
     sortRecords (filter (selected uc (searchFilter sq)) records) (sq_Sort sq) (sq_Dir sq \<noteq> ''asc'')"

lemma searchFilter_fields [simp]:
  "SortField (searchFilter sq) = sq_Sort sq" "Descending (searchFilter sq) = (sq_Dir sq \<noteq> ''asc'')"
  "PageOffset (searchFilter sq) = sq_Offset sq" "MaxCount (searchFilter sq) = sq_Limit sq"
  by (simp_all add: searchFilter_def)

lemma selected_offset [simp]: "selected uc (searchFilter (sq\<lparr>sq_Offset := i\<rparr>)) = selected uc (searchFilter sq)"
  by (simp add: selected_def [abs_def] searchFilter_def)

lemma activeList_offset [simp]: "activeList uc records (sq\<lparr>sq_Offset := i\<rparr>) = activeList uc records sq"
  by (simp add: activeList_def)

lemma activeCard_run:
  assumes "sortable (sq_Sort sq) records" "validQuery sq" "sq_Offset sq + 500 \<le> maxInt64"
    and "readStreamsQuery (ParseQuery query) ''a'' = sq"
  shows "activeCard uc toRow records base sevana query =
     Some (buildCardView base sq ''a'' (readStreamsQuery (ParseQuery query) ''f'') ''f'' ''Active Streams''
       (map toRow (take (nat (sq_Limit sq)) (drop (nat (sq_Offset sq)) (activeList uc records sq))))
       (int (length (activeList uc records sq))) [] sevana)"
proof -
  have "pageSlice xs (sq_Offset sq) (sq_Limit sq) =
      Some (take (nat (sq_Limit sq)) (drop (nat (sq_Offset sq)) xs))" for xs :: "valmap list"
    using assms(2,3) by (subst pageSlice_ok) (auto simp: max0_def validQuery_def)
  then show ?thesis
    using assms(1,4) by (simp add: activeCard_def Let_def PaginateActive_run activeList_def)
qed

lemma NextURL_card:
  assumes "validQuery sq" "sq_Offset sq + 500 \<le> maxInt64"
  shows "NextURL (cv_Pager (buildCardView base sq p other q title rows totl e sevana)) =
     (if sq_Offset sq + sq_Limit sq < totl
      then streamsURL base (sq\<lparr>sq_Offset := sq_Offset sq + sq_Limit sq\<rparr>) p other q else [])"
proof -
  have "wrap64 (sq_Offset sq + sq_Limit sq) = sq_Offset sq + sq_Limit sq"
    using assms by (intro wrap64_id) (auto simp: validQuery_def minInt64_def)
  moreover have "sq\<lparr>sq_Offset := i, sq_Limit := sq_Limit sq\<rparr> = sq\<lparr>sq_Offset := i\<rparr>" for i by (cases sq) simp
  ultimately show ?thesis by (simp add: buildCardView_def buildPager_def Let_def)
qed

lemma cv_Rows_card [simp]: "cv_Rows (buildCardView base sq p other q title rows totl e sevana) = rows"
  by (simp add: buildCardView_def Let_def)

lemma browse_from:
  assumes "sortable (sq_Sort sq) records" "validQuery sq" "set base \<inter> set ''?#'' = {}"
    and "int (length records) + 1000 \<le> maxInt64" "sq_Offset sq \<le> int (length records)"
    and "readStreamsQuery (ParseQuery query) ''a'' = sq"
  shows "\<exists>pages. browse uc toRow records base sevana query pages
     \<and> concat pages = map toRow (drop (nat (sq_Offset sq)) (activeList uc records sq))"
  using assms(1,2,5,6)
proof (induction "nat (int (length records) - sq_Offset sq)" arbitrary: sq query rule: less_induct)
  case (less sq)
  let ?xs = "activeList uc records sq" and ?other = "readStreamsQuery (ParseQuery query) ''f''"
  let ?sq = "sq\<lparr>sq_Offset := sq_Offset sq + sq_Limit sq\<rparr>"
  have len: "length ?xs \<le> length records" by (simp add: activeList_def)
  have run: "activeCard uc toRow records base sevana query =
      Some (buildCardView base sq ''a'' ?other ''f'' ''Active Streams''
        (map toRow (take (nat (sq_Limit sq)) (drop (nat (sq_Offset sq)) ?xs))) (int (length ?xs)) [] sevana)"
    using less.prems assms(4) by (intro activeCard_run) auto
  have v: "0 \<le> sq_Offset sq" "1 \<le> sq_Limit sq" "sq_Limit sq \<le> 500" using less.prems by (auto simp: validQuery_def)
  show ?case
  proof (cases "sq_Offset sq + sq_Limit sq < int (length ?xs)")
    case False
    then have "take (nat (sq_Limit sq)) (drop (nat (sq_Offset sq)) ?xs) = drop (nat (sq_Offset sq)) ?xs"
      using v by (intro take_all) simp
    with False show ?thesis
      using browse.last_page [OF run] less.prems assms(4) by (fastforce simp: NextURL_card)
  next
    case True
    let ?link = "streamsURL base ?sq ''a'' ?other ''f''"
    have valid: "validQuery ?sq" using less.prems(2,3) assms(4) True len by (auto simp: validQuery_def)
    have read: "readStreamsQuery (ParseQuery (RawQuery ?link)) ''a'' = ?sq"
      using valid assms(3) by (intro link_state(1)) (auto simp: cardPrefixes_def readStreamsQuery_valid)
    obtain pages where pages: "browse uc toRow records base sevana (RawQuery ?link) pages"
      "concat pages = map toRow (drop (nat (sq_Offset ?sq)) (activeList uc records ?sq))"
      using less.hyps [of ?sq "RawQuery ?link"] less.prems valid read True v len by auto
    have link: "NextURL (cv_Pager (buildCardView base sq ''a'' ?other ''f'' ''Active Streams''
        (map toRow (take (nat (sq_Limit sq)) (drop (nat (sq_Offset sq)) ?xs))) (int (length ?xs)) [] sevana)) = ?link"
      using True less.prems assms(4) by (subst NextURL_card) auto
    have "drop (nat (sq_Offset sq + sq_Limit sq)) ?xs = drop (nat (sq_Limit sq)) (drop (nat (sq_Offset sq)) ?xs)"
      using v by (simp add: nat_add_distrib add.commute)
    then have "map toRow (take (nat (sq_Limit sq)) (drop (nat (sq_Offset sq)) ?xs)) @ concat pages =
        map toRow (drop (nat (sq_Offset sq)) ?xs)"
      using pages(2) by (simp flip: map_append drop_drop)
    moreover have "?link \<noteq> []" by (simp add: streamsURL_def Let_def)
    then have "browse uc toRow records base sevana query
        (map toRow (take (nat (sq_Limit sq)) (drop (nat (sq_Offset sq)) ?xs)) # pages)"
      using browse.next_page [OF run, unfolded link, OF _ pages(1)] by simp
    ultimately show ?thesis by (metis concat.simps(2))
  qed
qed

section \<open>Properties\<close>

lemma streams_link_parts:
  assumes "set base \<inter> set ''?#'' = {}" "(p, q) \<in> set cardPrefixes"
    and "own = readStreamsQuery request p\<lparr>sq_Offset := i\<rparr>" "0 \<le> i" "i \<le> maxInt64"
    and "other = readStreamsQuery request q"
  shows "readStreamsQuery (ParseQuery (RawQuery (streamsURL base own p other q))) p = own"
    and "readStreamsQuery (ParseQuery (RawQuery (streamsURL base own p other q))) q = other"
proof -
  have "validQuery own"
    using assms(3-5) readStreamsQuery_valid [of request p] by (simp add: validQuery_def)
  then show "readStreamsQuery (ParseQuery (RawQuery (streamsURL base own p other q))) p = own"
    and "readStreamsQuery (ParseQuery (RawQuery (streamsURL base own p other q))) q = other"
    using link_state [OF assms(2) _ _ assms(1), of own other] assms(6) readStreamsQuery_valid by auto
qed

text \<open>Following a link of the streams page restores the state of both cards: the sort, the
  direction, the page and the filter text of either card are what the link was built from, whatever
  characters the filter contains; and every state a request can put the page in is such a state.\<close>

lemma streams_link_roundtrip:
  assumes "set base \<inter> set ''?#'' = {}" "(p, q) \<in> set cardPrefixes"
    and "own = readStreamsQuery request p\<lparr>sq_Offset := i\<rparr>" "0 \<le> i" "i \<le> maxInt64"
    and "other = readStreamsQuery request q"
  shows "readStreamsQuery (ParseQuery (RawQuery (streamsURL base own p other q))) p = own
    \<and> readStreamsQuery (ParseQuery (RawQuery (streamsURL base own p other q))) q = other"
  using streams_link_parts [OF assms] by blast

lemma next_links_parts:
  assumes "readStreamsQuery (ParseQuery query) ''a'' = sq" "sq_Offset sq = 0"
    and "sortable (sq_Sort sq) records" "int (length records) + 1000 \<le> maxInt64" "set base \<inter> set ''?#'' = {}"
  shows "\<exists>!pages. browse uc toRow records base sevana query pages"
    and "browse uc toRow records base sevana query pages \<Longrightarrow>
      concat pages = map toRow (sortRecords (filter (selected uc (searchFilter sq)) records) (sq_Sort sq) (sq_Dir sq \<noteq> ''asc''))"
proof -
  obtain ps where ps: "browse uc toRow records base sevana query ps" "concat ps = map toRow (activeList uc records sq)"
    using browse_from [of sq records base query uc toRow sevana] assms readStreamsQuery_valid by force
  show "\<exists>!pages. browse uc toRow records base sevana query pages"
    using ps(1) browse_deterministic by blast
  show "concat pages = map toRow (sortRecords (filter (selected uc (searchFilter sq)) records) (sq_Sort sq) (sq_Dir sq \<noteq> ''asc''))"
    if "browse uc toRow records base sevana query pages"
    using browse_deterministic [OF that ps(1)] ps(2) by (simp add: activeList_def)
qed

text \<open>C23: following the links to the next page of the active card shows every selected stream
  exactly once and in the sorted order, and comes to an end: the pages a user sees from any request
  with offset 0 are determined, and together they are the stable sort of the selected records.\<close>

theorem next_links_show_everything:
  assumes "readStreamsQuery (ParseQuery query) ''a'' = sq" "sq_Offset sq = 0"
    and "sortable (sq_Sort sq) records" "int (length records) + 1000 \<le> maxInt64" "set base \<inter> set ''?#'' = {}"
  shows "(\<exists>!pages. browse uc toRow records base sevana query pages)
    \<and> (\<forall>pages. browse uc toRow records base sevana query pages \<longrightarrow>
         concat pages = map toRow (sortRecords (filter (selected uc (searchFilter sq)) records) (sq_Sort sq) (sq_Dir sq \<noteq> ''asc'')))"
  using next_links_parts [OF assms] by blast

lemma defaultStreamsQuery_read: "readStreamsQuery (ParseQuery []) ''a'' = defaultStreamsQuery"
  by (simp add: ParseQuery_def parsePair_def readStreamsQuery_def Values_Get_def intParam_def defaultStreamsQuery_def Let_def)

theorem next_links_show_everything_witness:
  "\<exists>!pages. browse id id [demoStream 7 ''a'', demoStream 3 ''b''] [] True [] pages"
  by (rule next_links_show_everything [OF defaultStreamsQuery_read, THEN conjunct1])
     (simp_all add: defaultStreamsQuery_def sortable_def pairOk_def keyOk_def decorate_def demoStream_def getv_def
       sortKeyName_def sortKeys_def maxInt64_def)

end
