(* ===== verification/Web_Pages.thy ===== *)
theory Web_Pages
  imports Web_Markdown Web_Streams
begin

text \<open>
  The pages of the dashboard (\<^verbatim>\<open>web/app.go\<close>, \<^verbatim>\<open>web/pages.go\<close>, the rest of \<^verbatim>\<open>web/views.go\<close>): what a handler hands to
  its template, over the same dependencies as the API. The templates themselves are not modelled. \<open>mode\<close> is
  the setting for Sevana MOS; a page is a view or an error page with its status, and \<^verbatim>\<open>None\<close> is a panic. The
  lemmas show that the dashboard changes the track list exactly as the API does, and that its cards are those
  of \<open>Web_Streams\<close> over the API's objects.
\<close>

datatype 'v page = ErrorPage int string | Page 'v

section \<open>Frame\<close>

definition showSevana :: "string \<Rightarrow> 'e api_deps \<Rightarrow> bool" where
  "showSevana mode a =
     (if mode = ''on'' then True
      else if mode = ''off'' then False
      else case (case dSnapshot a of None \<Rightarrow> None | Some s \<Rightarrow> InstanceSnapshot_Get s) of
             None \<Rightarrow> True
           | Some s \<Rightarrow> \<not> strings_Contains (InstanceVersion s) ''no PVQA'')"

definition basePrefix :: "request \<Rightarrow> string" where
  "basePrefix r =
     (let p = strings_TrimRight (forwardedPrefix r) (CHR ''/'') in if p = [] \<or> \<not> safePrefixRe p then [] else p)"

definition redirectToSummary :: "request \<Rightarrow> response" where
  "redirectToSummary r = \<lparr>status = 302, payload = RedirectTo (basePrefix r @ ''/ui/summary'')\<rparr>"

text \<open>Which block of the page's template is executed: \<open>blocks\<close> are the names it defines.\<close>

definition renderBlock :: "string list \<Rightarrow> string \<Rightarrow> string \<Rightarrow> string" where
  "renderBlock blocks hxRequest hxTarget =
     (if hxRequest = ''true'' then (if hxTarget \<noteq> [] \<and> hxTarget \<in> set blocks then hxTarget else ''content'') else ''layout.html'')"

definition SelfURL :: "request \<Rightarrow> string \<Rightarrow> string" where
  "SelfURL r path = basePrefix r @ path @ (if rawQuery r \<noteq> [] then ''?'' @ rawQuery r else [])"

datatype ui_endpoint =
    UiRedirect | UiSummary | UiCore | UiStreams | UiStreamDetail | UiSipCalls | UiSipCallDetail | UiChunkDetail
  | UiTrack | UiAlarms | UiTrackAdd | UiTrackRemove | UiTrackClear | UiStatic

definition uiHandler :: "(string \<times> ui_endpoint) list" where
  "uiHandler =
     [(''GET /ui/{$}'', UiRedirect), (''GET /ui/summary'', UiSummary), (''GET /ui/core'', UiCore), (''GET /ui/streams'', UiStreams),
      (''GET /ui/stream/{id}'', UiStreamDetail), (''GET /ui/sip-calls'', UiSipCalls), (''GET /ui/sip-call/{id}'', UiSipCallDetail),
      (''GET /ui/chunk/{id}/{ts}'', UiChunkDetail), (''GET /ui/track'', UiTrack), (''GET /ui/alarms'', UiAlarms),
      (''POST /ui/track/add'', UiTrackAdd), (''POST /ui/track/remove'', UiTrackRemove), (''POST /ui/track/clear'', UiTrackClear),
      (''GET /ui/static/'', UiStatic)]"

section \<open>Summary and core\<close>

record rate_view =
  rateLabel :: string
  rateText :: string
  rateRatio :: f64

record hist_view =
  hvTitle :: string
  hvThreshold :: string
  hvStreamCount :: string
  hvSevana :: rate_view
  hvNetwork :: rate_view
  hvAvgSevana :: "mos_pill option"
  hvAvgNetwork :: "mos_pill option"
  hvAvgRfactor :: string
  hvAvgDuration :: string
  hvCoverageText :: string
  hvShowSevana :: bool

definition histRatio :: "int \<Rightarrow> int \<Rightarrow> f64" where
  "histRatio n m = (if m \<le> 0 then Fin False 0 else f64_div (f64_of_int n) (f64_of_int m))"

definition histRate :: "string \<Rightarrow> int \<Rightarrow> int \<Rightarrow> rate_view" where
  "histRate label n m =
     (let q = histRatio n m; w = f64_mul q (Fin False 100)
      in \<lparr>rateLabel = label, rateText = fmtPct q @ ''  ('' @ fmtInt (JInt n) @ '' / '' @ fmtInt (JInt m) @ '')'',
          rateRatio = (if f64_lt (Fin False 100) w then Fin False 100 else w)\<rparr>)"

definition buildHistView :: "string \<Rightarrow> json_object \<Rightarrow> f64 \<Rightarrow> bool \<Rightarrow> hist_view" where
  "buildHistView title w threshold sevana =
     (let n = web_toI64 (field w ''stream_count''); goodSevana = web_toI64 (field w ''good_sevana_count'');
          goodNetwork = web_toI64 (field w ''good_network_count''); withSevana = web_toI64 (field w ''with_sevana_mos'');
          avg = (case field w ''avg'' of JObj m \<Rightarrow> m | _ \<Rightarrow> [])
      in \<lparr>hvTitle = title, hvThreshold = [CHR 0xE2, CHR 0x89, CHR 0xA5] @ '' '' @ formatFixed 2 threshold,
          hvStreamCount = fmtInt (JInt n), hvSevana = histRate ''Sevana good'' goodSevana withSevana,
          hvNetwork = histRate ''Network good'' goodNetwork n,
          hvAvgSevana = mosView (field avg ''sevana_mos'') True, hvAvgNetwork = mosView (field avg ''network_mos'') False,
          hvAvgRfactor = fmtFixed 2 (field avg ''rfactor''), hvAvgDuration = fmtFixed 1 (field avg ''duration''),
          hvCoverageText = ''PVQA coverage: '' @ fmtPct (histRatio withSevana n) @ '' ('' @ fmtInt (JInt withSevana) @ '' / '' @ fmtInt (JInt n) @ '')'',
          hvShowSevana = sevana\<rparr>)"

record summary_view =
  smCore :: "json_object option"
  smActiveStreams :: string
  smSessionStarted :: string
  smSessionFinished :: string
  smH1 :: "hist_view option"
  smH24 :: "hist_view option"

definition histPart :: "string \<Rightarrow> 'e api_deps \<Rightarrow> string \<Rightarrow> int \<Rightarrow> hist_view option option" where
  "histPart mode a title seconds =
     (case FindWidgetStats (dRows a) seconds (dGoodMosThreshold a) 0 (dClock a) of
        None \<Rightarrow> None
      | Some (Inl _) \<Rightarrow> Some None
      | Some (Inr h) \<Rightarrow> Some (Some (buildHistView title (WidgetStatsToJSON h) (dGoodMosThreshold a) (showSevana mode a))))"

definition summaryPage :: "string \<Rightarrow> 'e api_deps \<Rightarrow> summary_view option" where
  "summaryPage mode a =
     (let cnt = (\<lambda>f. case dRegistry a of None \<Rightarrow> ''0'' | Some r \<Rightarrow> fmtInt (JInt (f r)))
      in case histPart mode a ''Last 1 hour'' 3600 of
           None \<Rightarrow> None
         | Some h1 \<Rightarrow> map_option (\<lambda>h24. \<lparr>smCore = snapshotJSON a, smActiveStreams = cnt (int \<circ> ActiveCount),
              smSessionStarted = cnt started, smSessionFinished = cnt finished, smH1 = h1, smH24 = h24\<rparr>)
             (histPart mode a ''Last 24 hours'' 86400))"

text \<open>\<^verbatim>\<open>%+.0f\<close>.\<close>

definition signedFixed :: "f64 \<Rightarrow> string" where
  "signedFixed f = (let s = formatFixed 0 f in if s \<noteq> [] \<and> hd s \<in> {CHR ''-'', CHR ''+''} then s else ''+'' @ s)"

definition pairText :: "'a::len word \<Rightarrow> 'b::len word \<Rightarrow> string" where
  "pairText x y = fmtInt (JInt (uint x)) @ '' / '' @ fmtInt (JInt (uint y))"

definition coreDetailRows :: "instance_statistics \<Rightarrow> bool \<Rightarrow> (string \<times> string) list" where
  "coreDetailRows s sevana =
     [(''Version'', InstanceVersion s), (''Uptime'', fmtUptime (JInt (uint (UptimeSeconds s))))]
     @ (if ServerTime s \<noteq> [] then [(''Server time'', ServerTime s)] else [])
     @ [(''Live decoders / calls'', pairText (ActiveDecoderCounter s) (SipCallCounter s)),
        (''Audio / active decoders'', pairText (ActiveAudioDecoderCounter s) (ActiveDecoderCounter s)),
        (''Total decoders'', fmtInt (JInt (uint (TotalDecoderCounter s))))]
     @ (if sevana then [(''PVQA instances / processed'', pairText (PvqaInstanceCounter s) (PvqaProcessedSeconds s) @ ''s'')] else [])
     @ [(''reSIProcate msgs (all / sip)'', pairText (ResipMessageCounter s) (ResipSipMessageCounter s))]
     @ (if f64_lt (Fin False 0) (CpuUserSeconds s) \<or> f64_lt (Fin False 0) (CpuSystemSeconds s) \<or> f64_lt (Fin False 0) (CpuUsagePercent s)
        then [(''CPU usage (1 core=100%)'', formatFixed 1 (CpuUsagePercent s) @ ''%  (user '' @ formatFixed 1 (CpuUserSeconds s)
                @ ''s / sys '' @ formatFixed 1 (CpuSystemSeconds s) @ ''s)'')] else [])
     @ (if 0 < MemHeapSize s
        then [(''tcmalloc live / heap / free'', fmtBytes (JInt (uint (MemAllocatedBytes s))) @ '' / '' @ fmtBytes (JInt (uint (MemHeapSize s)))
                @ '' / '' @ fmtBytes (JInt (uint (MemPageheapFreeBytes s))))] else [])
     @ (if 0 < MemAllocCount s \<or> f64_lt (Fin False 0) (MemAllocsPerSec s)
        then [(''tcmalloc alloc / free /s'', formatFixed 0 (MemAllocsPerSec s) @ '' / '' @ formatFixed 0 (MemFreesPerSec s)
                @ ''  (net '' @ signedFixed (f64_sub (MemAllocsPerSec s) (MemFreesPerSec s)) @ ''/s, total ''
                @ pairText (MemAllocCount s) (MemFreeCount s) @ '')'')] else [])"

definition corePage :: "string \<Rightarrow> 'e api_deps \<Rightarrow> ((string \<times> string) list \<times> json_object list) option" where
  "corePage mode a =
     (case (case dSnapshot a of None \<Rightarrow> None | Some s \<Rightarrow> InstanceSnapshot_Get s) of
        None \<Rightarrow> None
      | Some s \<Rightarrow> Some (coreDetailRows s (showSevana mode a), map capturerJSON (Capturers s)))"

section \<open>Streams\<close>

record streams_view =
  svActive :: "json_object card_view"
  svFinished :: "json_object card_view"
  svPollURL :: string

definition finishedCardRows :: "'e api_deps \<Rightarrow> streams_query \<Rightarrow> (json_object list \<times> int \<times> string) option" where
  "finishedCardRows a fq =
     (case GetFinishedStreamCount (dScalar a) (searchFilter fq) of
        Inl e \<Rightarrow> Some ([], 0, dErrText a e)
      | Inr n \<Rightarrow>
          (case GetFinishedStreams (dRows a) (searchFilter fq) of
             Inl e \<Rightarrow> Some ([], 0, dErrText a e)
           | Inr rows \<Rightarrow> map_option (\<lambda>objs. (objs, n, []))
               (those (map (\<lambda>row. FinishedStreamRowToJSON (dThresholds a) (dZone a) row (dSilenceRatioThreshold a)) rows))))"

text \<open>\<open>now\<close> is the clock in seconds.\<close>

definition streamsPage :: "string \<Rightarrow> 'e api_deps \<Rightarrow> int \<Rightarrow> request \<Rightarrow> streams_view option" where
  "streamsPage mode a now r =
     (let q = ParseQuery (rawQuery r); base = basePrefix r; aq = readStreamsQuery q ''a''; fq = readStreamsQuery q ''f'';
          sevana = showSevana mode a; since0 = intParam (Values_Get q ''a_since'') 0; since = (if since0 = 0 then now else since0);
          records = activeRecords a;
          sinceFilter = NewSearchFilter\<lparr>MaxCount := 1, DateInterval := Some \<lparr>StartSeconds = since, EndSeconds = farFutureSeconds\<rparr>\<rparr>;
          pollURL = base @ ''/ui/streams?'' @ Values_Encode (Values_Set ''a_since'' (strconv_Itoa since) (params fq ''f'' (params aq ''a'' [])))
      in case PaginateActive (dUnicode a) records (searchFilter aq) of
           None \<Rightarrow> None
         | Some (pageRecs, totalActive) \<Rightarrow>
             (case those (map (\<lambda>rec. ActiveRecordToJSON (dThresholds a) (dZone a) rec (dSilenceRatioThreshold a)) pageRecs) of
                None \<Rightarrow> None
              | Some activeRows \<Rightarrow>
                  (case PaginateActive (dUnicode a) records sinceFilter of
                     None \<Rightarrow> None
                   | Some (_, newCount) \<Rightarrow>
                       map_option (\<lambda>(rows, totalFinished, err).
                          \<lparr>svActive = (buildCardView base aq ''a'' fq ''f'' ''Active Streams'' activeRows (int totalActive) [] sevana)\<lparr>cv_NewCount := int newCount\<rparr>,
                           svFinished = buildCardView base fq ''f'' aq ''a'' ''Finished Streams'' rows totalFinished err sevana,
                           svPollURL = pollURL\<rparr>) (finishedCardRows a fq))))"

section \<open>One stream, one chunk\<close>

record chunk_view =
  ckLabel :: string
  ckTS :: string
  ckSevanaMos :: "mos_pill option"
  ckNetworkMos :: "mos_pill option"
  ckCopyJSON :: string
  ckCopyMD :: string

definition chunkView :: "json_object \<Rightarrow> chunk_view" where
  "chunkView c =
     (let label = fmtFixed 3 (field c ''start_time'') @ '' - '' @ fmtFixed 3 (field c ''end_time'')
      in \<lparr>ckLabel = label, ckTS = strconv_Itoa (web_toI64 (field c ''stream_end_time'')),
          ckSevanaMos = mosView (field c ''sevana_mos'') True, ckNetworkMos = mosView (field c ''network_mos'') False,
          ckCopyJSON = copyJSON c, ckCopyMD = mapToMarkdown c (''Chunk '' @ label)\<rparr>)"

fun objects :: "json \<Rightarrow> json_object list" where
  "objects (JList js) = concat (map (\<lambda>j. case j of JObj m \<Rightarrow> [m] | _ \<Rightarrow> []) js)"
| "objects _ = []"

text \<open>\<open>srt\<close> is \<^verbatim>\<open>sort.Slice\<close> by falling count: some sorted permutation.\<close>

definition triggeredDetectors :: "((string \<times> int) list \<Rightarrow> (string \<times> int) list) \<Rightarrow> json \<Rightarrow> (string \<times> int) list" where
  "triggeredDetectors srt dets =
     srt (filter (\<lambda>d. 0 < snd d)
       (map (\<lambda>d. (case field d ''name'' of JStr n \<Rightarrow> n | _ \<Rightarrow> [], web_toI64 (field d ''counter''))) (objects dets)))"

record stream_view =
  sdLinkID :: string
  sdD :: json_object
  sdCopyJSON :: string
  sdCopyMD :: string
  sdAudioPath :: string
  sdRfactor :: "string option"
  sdDtx :: "(string \<times> string \<times> bool) option"
  sdSilentAudio :: "(string \<times> bool) option"
  sdDetectors :: "(string \<times> int) list option"
  sdChunks :: "chunk_view list"

definition streamView :: "((string \<times> int) list \<Rightarrow> (string \<times> int) list) \<Rightarrow> string \<Rightarrow> json_object \<Rightarrow> stream_view" where
  "streamView srt i d =
     (let hasSevana = \<not> f64_eq (web_toF64 (field d ''sevana_mos'')) (Fin False 0); src = rawString (field d ''silence_source'')
      in \<lparr>sdLinkID = i, sdD = d, sdCopyJSON = copyJSON d, sdCopyMD = mapToMarkdown d (''Stream '' @ i),
          sdAudioPath = ''/audio?link_id='' @ QueryEscape i,
          sdRfactor = (if hasSevana then Some (rawString (field d ''sevana_rfactor'')) else None),
          sdDtx = (if 0 < web_toI64 (field d ''dtx_total'')
                   then Some (rawString (field d ''dtx_count'') @ '' / '' @ rawString (field d ''dtx_sid'') @ '' / '' @ rawString (field d ''dtx_total''),
                              pct0 (field d ''silence_ratio''), strings_HasPrefix src ''dtx'') else None),
          sdSilentAudio = (if hasSevana then Some (pct0 (field d ''silent_audio_ratio''), strings_HasSuffix src ''audio'') else None),
          sdDetectors = (if objects (field d ''detectors'') \<noteq> [] then Some (triggeredDetectors srt (field d ''detectors'')) else None),
          sdChunks = map chunkView (objects (field d ''chunks''))\<rparr>)"

definition streamDetailPage ::
    "((string \<times> int) list \<Rightarrow> (string \<times> int) list) \<Rightarrow> 'e api_deps \<Rightarrow> string \<Rightarrow> stream_view page option" where
  "streamDetailPage srt a i =
     (case GetStreamHistory (dRows a) i of
        Inl e \<Rightarrow> Some (ErrorPage 503 (dErrText a (QueryFailed e)))
      | Inr rows \<Rightarrow>
          (case GetStreamFinal (dRows a) i of
             Inl e \<Rightarrow> Some (ErrorPage 503 (dErrText a (QueryFailed e)))
           | Inr final \<Rightarrow>
               if rows = [] \<and> final = None then Some (ErrorPage 404 ''Stream not found.'')
               else map_option (Page \<circ> streamView srt i)
                      (StreamHistoryToJSON (dThresholds a) rows (dAgentID a) (dAgentName a) final (dSilenceRatioThreshold a))))"

record chunk_page =
  cpLinkID :: string
  cpD :: json_object
  cpCopyJSON :: string
  cpCopyMD :: string
  cpDetectors :: detector_table

text \<open>A timestamp that is no number is 0, as in the source; so is one beyond the range of \<^verbatim>\<open>float64\<close>, where the
  source converts an infinity, which Go leaves undefined.\<close>

definition chunkDetailPage :: "'e api_deps \<Rightarrow> string \<Rightarrow> string \<Rightarrow> chunk_page page option" where
  "chunkDetailPage a i ts =
     (case GetReport (dRows a) i (f64_to_int64 (case strconv_ParseFloat ts of Some f \<Rightarrow> f | None \<Rightarrow> Fin False 0)) of
        Inl e \<Rightarrow> Some (ErrorPage 503 (dErrText a (QueryFailed e)))
      | Inr None \<Rightarrow> Some (ErrorPage 404 ''Report not found.'')
      | Inr (Some row) \<Rightarrow>
          map_option (\<lambda>d. Page \<lparr>cpLinkID = i, cpD = d, cpCopyJSON = copyJSON d,
              cpCopyMD = mapToMarkdown d (''Chunk report (stream '' @ i @ '')''),
              cpDetectors = parseDetectorReport (rawString (field d ''detectors_report''))\<rparr>)
            (ReportRowToJSON (dThresholds a) row))"

section \<open>SIP calls\<close>

record sip_call_row =
  srRow :: json_object
  srSevanaMos :: "mos_pill option"
  srNetworkMos :: "mos_pill option"
  srHealth :: "call_health_warning list option"

record sip_calls_view =
  scFilter :: string
  scSevana :: bool
  scError :: "string option"
  scRows :: "sip_call_row list"
  scTotal :: int
  scOffset :: int
  scPager :: "pager_view option"

definition sipCallsURL :: "string \<Rightarrow> string \<Rightarrow> int \<Rightarrow> int \<Rightarrow> string" where
  "sipCallsURL base expr offset limit =
     (let vals = setIf (expr \<noteq> []) ''q'' expr (setIf (limit \<noteq> 25) ''limit'' (strconv_Itoa limit)
            (setIf (offset \<noteq> 0) ''offset'' (strconv_Itoa offset) []));
          enc = Values_Encode vals
      in base @ ''/ui/sip-calls'' @ (if enc \<noteq> [] then ''?'' @ enc else []))"

definition callMos :: "call_stream_mos list \<Rightarrow> mos_pill option \<times> mos_pill option" where
  "callMos ms =
     (worstMos (filter (\<lambda>f. f64_lt (Fin False 0) f) (map csmSevanaMos ms)) (int (length ms)),
      worstMos (map csmNetworkMos ms) (int (length ms)))"

definition sipOffset :: "request \<Rightarrow> int" where
  "sipOffset r = (let n = intParam (query r ''offset'') 0 in if n < 0 then 0 else n)"

definition sipLimit :: "request \<Rightarrow> int" where
  "sipLimit r = (let n = intParam (query r ''limit'') 25 in if n \<le> 0 \<or> 500 < n then 25 else n)"

definition sipRows :: "'e api_deps \<Rightarrow> json_object list \<Rightarrow> sip_call_row list \<times> string option" where
  "sipRows a rows =
     (let ids = map (\<lambda>row. rawString (field row ''call_id'')) rows;
          (mos, err1) = (case GetSipCallStreamMos (dRows a) ids of
             Inl e \<Rightarrow> (\<lambda>_. (None, None), Some (dErrText a (QueryFailed e)))
           | Inr m \<Rightarrow> (\<lambda>i. callMos (m i), None));
          (health, err2) = (case GetCallHealth (dRows a) ids of
             Inl e \<Rightarrow> (Map.empty, Some (dErrText a (QueryFailed e)))
           | Inr h \<Rightarrow> (h, None))
      in (map (\<lambda>row. let i = rawString (field row ''call_id'')
                 in \<lparr>srRow = row, srSevanaMos = fst (mos i), srNetworkMos = snd (mos i), srHealth = map_option v_Warnings (health i)\<rparr>) rows,
          if err2 \<noteq> None then err2 else err1))"

definition sipCallsPage :: "string \<Rightarrow> 'e api_deps \<Rightarrow> request \<Rightarrow> sip_calls_view" where
  "sipCallsPage mode a r =
     (let base = basePrefix r; offset = sipOffset r; limit = sipLimit r; expr = strings_TrimSpace (query r ''q'');
          failed = (\<lambda>e. \<lparr>scFilter = expr, scSevana = showSevana mode a, scError = Some (dErrText a e), scRows = [], scTotal = 0, scOffset = 0, scPager = None\<rparr>)
      in case GetSipCallCount (dScalar a) None None [] expr of
           Inl e \<Rightarrow> failed e
         | Inr n \<Rightarrow>
             (case GetSipCallList (dRows a) None None limit offset [] expr of
                Inl e \<Rightarrow> failed e
              | Inr calls \<Rightarrow>
                  (let (rows, err) = sipRows a (map SipCallSummaryToJSON calls)
                   in \<lparr>scFilter = expr, scSevana = showSevana mode a, scError = err, scRows = rows, scTotal = n, scOffset = offset,
                       scPager = Some (buildPager offset limit (int (length rows)) n (sipCallsURL base expr))\<rparr>)))"

record event_view =
  evTypeLabel :: string
  evTone :: string
  evTime :: string
  evKV :: "(string \<times> string) list"
  evCopyJSON :: string
  evCopyMD :: string

definition eventTone :: "int \<Rightarrow> string" where
  "eventTone t = (if t = 1 then ''positive'' else if t = 2 then ''info'' else if t = 3 then ''warning'' else if t = 4 then ''danger'' else ''neutral'')"

definition eventField :: "(int \<Rightarrow> int) \<Rightarrow> string \<times> json \<Rightarrow> string \<times> string" where
  "eventField zone kv =
     (fst kv, if fst kv = ''duration'' then sipDur (snd kv)
              else if fst kv \<in> {''timestamp'', ''invite_timestamp''} then sipTime zone (snd kv) else rawString (snd kv))"

definition buildEventView :: "(int \<Rightarrow> int) \<Rightarrow> json_object \<Rightarrow> event_view" where
  "buildEventView zone e =
     (let label = (case field e ''event_type_label'' of JStr l \<Rightarrow> if l = [] then ''unknown'' else l | _ \<Rightarrow> ''unknown'')
      in \<lparr>evTypeLabel = label, evTone = eventTone (web_toI64 (field e ''event_type'')), evTime = sipTime zone (field e ''timestamp''),
          evKV = map (eventField zone) (sortStable (\<lambda>x y. str_lt (fst x) (fst y))
                   (filter (\<lambda>kv. fst kv \<notin> {''id'', ''event_type'', ''event_type_label'', ''call_id''}) e)),
          evCopyJSON = copyJSON e, evCopyMD = mapToMarkdown e (''SIP '' @ label @ '' event'')\<rparr>)"

definition buildEventViews :: "(int \<Rightarrow> int) \<Rightarrow> json_object list \<Rightarrow> event_view list" where
  "buildEventViews zone evs = map (buildEventView zone) evs"

definition callOrigin :: "json_object list \<Rightarrow> string \<times> json_object option" where
  "callOrigin evs =
     (case filter (\<lambda>e. web_toI64 (field e ''event_type'') = 1) evs of
        e # _ \<Rightarrow> (''established'', Some e)
      | [] \<Rightarrow> (case filter (\<lambda>e. web_toI64 (field e ''event_type'') = 4) evs of
                 e # _ \<Rightarrow> (''failed'', Some e)
               | [] \<Rightarrow> (''unknown'', None)))"

record sip_call_view =
  cdHealth :: "call_verdict option"
  cdCallID :: string
  cdEvents :: "event_view list"
  cdOutcome :: string
  cdStreams :: "json_object list"
  cdParties :: "(string \<times> string) option"

definition callStreams :: "'e api_deps \<Rightarrow> string \<Rightarrow> json_object list option" where
  "callStreams a callID =
     (let f = NewSearchFilter\<lparr>SIPCallID := callID, MaxCount := dMaxStreams a\<rparr>;
          act = (case dRegistry a of
             None \<Rightarrow> Some []
           | Some reg \<Rightarrow>
               (case PaginateActive (dUnicode a) (SnapshotRecords reg) f of
                  None \<Rightarrow> None
                | Some (page, _) \<Rightarrow> map_option (map (putAll [(''active'', JBool True)]))
                    (those (map (\<lambda>rec. ActiveRecordToJSON (dThresholds a) (dZone a) rec (dSilenceRatioThreshold a)) page))));
          fin = (case GetFinishedStreams (dRows a) f of
             Inl _ \<Rightarrow> Some []
           | Inr rows \<Rightarrow> those (map (\<lambda>row. FinishedStreamRowToJSON (dThresholds a) (dZone a) row (dSilenceRatioThreshold a)) rows))
      in case act of None \<Rightarrow> None | Some xs \<Rightarrow> map_option (\<lambda>ys. xs @ ys) fin)"

definition sipCallDetailPage :: "'e api_deps \<Rightarrow> string \<Rightarrow> sip_call_view page option" where
  "sipCallDetailPage a callID =
     (case GetSipCallEvents (dRows a) callID of
        Inl e \<Rightarrow> Some (ErrorPage 503 (dErrText a (QueryFailed e)))
      | Inr events \<Rightarrow>
          (let evs = map SipEventRowToJSON events; (outcome, origin) = callOrigin evs
           in map_option (\<lambda>ss. Page
                \<lparr>cdHealth = (case GetCallHealth (dRows a) [callID] of Inl _ \<Rightarrow> None | Inr h \<Rightarrow> h callID), cdCallID = callID,
                 cdEvents = buildEventViews (dZone a) evs, cdOutcome = outcome, cdStreams = ss,
                 cdParties = map_option (\<lambda>e. (rawString (field e ''caller''), rawString (field e ''callee''))) origin\<rparr>)
                (callStreams a callID)))"

section \<open>The track list\<close>

record track_view =
  tvAffected :: "int option"
  tvUnavailable :: bool
  tvPatterns :: "string list"
  tvError :: string

definition trackPage :: "(track_op \<Rightarrow> string list \<Rightarrow> 'c \<Rightarrow> track_ack \<times> 'c) option \<Rightarrow> request \<Rightarrow> 'c \<Rightarrow> track_view \<times> 'c" where
  "trackPage send r c =
     (let n = intParam (query r ''affected'') 0; aff = (if 0 < n then Some n else None);
          unavailable = \<lparr>tvAffected = aff, tvUnavailable = True, tvPatterns = [], tvError = []\<rparr>
      in case send of
           None \<Rightarrow> (unavailable, c)
         | Some f \<Rightarrow>
             (let (ack, c') = f TrackQuery [] c
              in if \<not> TransportOK ack then (unavailable, c')
                 else (\<lparr>tvAffected = aff, tvUnavailable = False, tvPatterns = Current ack, tvError = AckError ack\<rparr>, c')))"

text \<open>The redirect's target and the state after it.\<close>

definition trackMutate ::
    "(track_op \<Rightarrow> string list \<Rightarrow> 'c \<Rightarrow> track_ack \<times> 'c) option \<Rightarrow> (string list \<Rightarrow> ('w, unit) action) option
     \<Rightarrow> request \<Rightarrow> track_op \<Rightarrow> string list \<Rightarrow> bool \<Rightarrow> 'c \<times> 'w \<Rightarrow> response \<times> 'c \<times> 'w" where
  "trackMutate send save r op patterns require cw =
     (let target = basePrefix r @ ''/ui/track''; see = (\<lambda>t. \<lparr>status = 303, payload = RedirectTo t\<rparr>)
      in case send of
           None \<Rightarrow> (see target, cw)
         | Some f \<Rightarrow>
             if \<not> require \<or> 0 < length patterns then
               let (ack, c') = f op patterns (fst cw)
               in if TransportOK ack \<and> AckOK ack
                  then (see (if 0 < AffectedStreams ack then target @ ''?affected='' @ strconv_Itoa (uint (AffectedStreams ack)) else target), c',
                        case save of None \<Rightarrow> snd cw | Some g \<Rightarrow> snd (g (Current ack) (snd cw)))
                  else (see target, c', snd cw)
             else (see target, cw))"

definition formPatterns :: "string \<Rightarrow> string list" where
  "formPatterns p = (if p \<noteq> [] then [p] else [])"

definition trackAdd where
  "trackAdd send save r p = trackMutate send save r TrackAdd (formPatterns p) True"

definition trackRemove where
  "trackRemove send save r p = trackMutate send save r TrackRemove (formPatterns p) True"

definition trackClear where
  "trackClear send save r = trackMutate send save r TrackReplace [] False"

section \<open>Alarms\<close>

record alarm_rule_view =
  arName :: string
  arCondition :: string
  arFilter :: string
  arState :: string
  arValue :: string
  arSince :: string
  arChecked :: string
  arNotify :: string
  arError :: string

fun replaceFirst :: "string \<Rightarrow> string \<Rightarrow> string \<Rightarrow> string" where
  "replaceFirst old new [] = (if old = [] then new else [])"
| "replaceFirst old new (c # s) =
     (if strings_HasPrefix (c # s) old then new @ drop (length old) (c # s) else c # replaceFirst old new s)"

definition alarmCondition :: "json_object \<Rightarrow> string" where
  "alarmCondition rule =
     (let cond = rawString (field rule ''counter'') @ '' '' @ rawString (field rule ''op'') @ '' '' @ alarmNum (field rule ''limit'')
            @ unitSuffix (rawString (field rule ''unit'')) @ '' over '' @ windowText (web_toI64 (field rule ''window_s''));
          code = rawString (field rule ''code'');
          cond = (if code \<noteq> [] then replaceFirst ''call_health'' (''call_health['' @ code @ '']'') cond else cond);
          n = web_toI64 (field rule ''min_samples'')
      in if 1 < n then cond @ '', at least '' @ strconv_Itoa n @ '' samples'' else cond)"

definition alarmNotify :: "json_object \<Rightarrow> string" where
  "alarmNotify rule =
     (case field rule ''notify'' of
        JObj nm \<Rightarrow> strings_Join (filter (\<lambda>k. field nm k = JBool True) [''command'', ''webhook'']) '', ''
      | _ \<Rightarrow> [])"

definition alarmRuleView :: "(int \<Rightarrow> int) \<Rightarrow> json_object \<Rightarrow> alarm_rule_view" where
  "alarmRuleView zone rule =
     (let state = rawString (field rule ''state'')
      in \<lparr>arName = rawString (field rule ''name''), arCondition = alarmCondition rule, arFilter = rawString (field rule ''filter''), arState = state,
          arValue = (if state \<noteq> ''pending'' then alarmNum (field rule ''value'') @ unitSuffix (rawString (field rule ''unit''))
                       @ '' ('' @ strconv_Itoa (web_toI64 (field rule ''samples'')) @ '')'' else emDash),
          arSince = sipTime zone (field rule ''last_change_ms''), arChecked = sipTime zone (field rule ''last_check_ms''),
          arNotify = alarmNotify rule, arError = rawString (field rule ''error'')\<rparr>)"

record alarms_view =
  avConfigured :: bool
  avError :: string
  avRules :: "alarm_rule_view list"
  avActive :: int
  avEvents :: "(string \<times> string) list list"

definition alarmEventView :: "(int \<Rightarrow> int) \<Rightarrow> json_object \<Rightarrow> (string \<times> string) list" where
  "alarmEventView zone e =
     [(''Time'', sipTime zone (field e ''timestamp_ms'')), (''Name'', rawString (field e ''name'')), (''Kind'', rawString (field e ''kind'')),
      (''Value'', alarmNum (field e ''value'')), (''Limit'', rawString (field e ''op'') @ '' '' @ alarmNum (field e ''limit'')),
      (''Samples'', strconv_Itoa (web_toI64 (field e ''samples'')))]"

definition alarmsPage :: "'e api_deps \<Rightarrow> alarms_view" where
  "alarmsPage a =
     (let view = (case dAlarms a of
            None \<Rightarrow> \<lparr>Configured = False, AlarmRules = [], AlarmEvents = [], AlarmError = []\<rparr>
          | Some f \<Rightarrow> f 50)
      in \<lparr>avConfigured = Configured view, avError = AlarmError view, avRules = map (alarmRuleView (dZone a)) (AlarmRules view),
          avActive = int (length (filter (\<lambda>rule. rawString (field rule ''state'') = ''alarm'') (AlarmRules view))),
          avEvents = map (alarmEventView (dZone a)) (AlarmEvents view)\<rparr>)"

section \<open>Dashboard and API agree\<close>

lemma basePrefix_uiPrefix: "basePrefix r = uiPrefix r"
  by (simp add: basePrefix_def uiPrefix_def Let_def)

lemma basePrefix_plain: "set (basePrefix r) \<inter> set ''?#'' = {}"
proof -
  have "\<not> prefixChar (CHR ''?'')" "\<not> prefixChar (CHR ''#'')" by (simp_all add: prefixChar_def)
  then show ?thesis using uiPrefix_chars [of r] by (auto simp: basePrefix_uiPrefix list_all_iff)
qed

text \<open>C33: the dashboard changes the track list exactly as the API does. For the same patterns, a form of the
  track page leaves vq-core's control client and the stored patterns in the state the API's request leaves
  them in, whatever the core answers; the browser is always sent back to the track page under the prefix of
  the proxy.\<close>

theorem dashboard_tracks_like_api:
  assumes "op \<noteq> TrackQuery" "queryPatterns r = patterns"
  shows "snd (trackMutate send save r' op patterns require cw) = snd (track send save r op require cw)
    \<and> (\<exists>q. fst (trackMutate send save r' op patterns require cw) = \<lparr>status = 303, payload = RedirectTo (basePrefix r' @ ''/ui/track'' @ q)\<rparr>)"
  using assms by (cases cw) (auto simp: trackMutate_def track_def Let_def split: option.split prod.split)

theorem dashboard_tracks_like_api_witness:
  "snd (trackAdd (Some (Send (\<lambda>_. Inr ''x'') demoAck)) (Some (Save SetProperty)) \<lparr>rawQuery = [], forwardedPrefix = []\<rparr> ''alice'' (demoClient, demoConn))
   = snd (track (Some (Send (\<lambda>_. Inr ''x'') demoAck)) (Some (Save SetProperty)) \<lparr>rawQuery = ''pattern=alice'', forwardedPrefix = []\<rparr> TrackAdd True
       (demoClient, demoConn))"
proof -
  have "queryPatterns \<lparr>rawQuery = ''pattern=alice'', forwardedPrefix = []\<rparr> = [''alice'']" by code_simp
  from dashboard_tracks_like_api [OF _ this, of TrackAdd, THEN conjunct1] show ?thesis
    unfolding trackAdd_def formPatterns_def by simp
qed

lemma PaginateActive_subset: "PaginateActive uc rs flt = Some (page, n) \<Longrightarrow> set page \<subseteq> set rs"
proof -
  have sub: "pageSlice xs i k = Some ys \<Longrightarrow> set ys \<subseteq> set xs" for xs ys :: "valmap list" and i k
    by (auto simp: pageSlice_def Let_def split: if_splits dest: in_set_takeD in_set_dropD)
  have "set (sortRecords xs sf d) = set xs" for xs sf d by (simp add: sortRecords_def decorate_def image_image)
  then show "PaginateActive uc rs flt = Some (page, n) \<Longrightarrow> ?thesis"
    using sub unfolding PaginateActive_selected Let_def by (fastforce dest!: sub)
qed

text \<open>The active card of the page is that of \<open>Web_Streams\<close> over the API's objects, so its links behave as shown there.\<close>

lemma streamsPage_card:
  assumes "streamsPage mode a now r = Some view"
    and "list_all (\<lambda>rec. ActiveRecordToJSON (dThresholds a) (dZone a) rec (dSilenceRatioThreshold a) \<noteq> None) (activeRecords a)"
  shows "\<exists>card n. activeCard (dUnicode a) (\<lambda>rec. the (ActiveRecordToJSON (dThresholds a) (dZone a) rec (dSilenceRatioThreshold a)))
      (activeRecords a) (basePrefix r) (showSevana mode a) (rawQuery r) = Some card \<and> svActive view = card\<lparr>cv_NewCount := n\<rparr>"
proof -
  let ?f = "\<lambda>rec. ActiveRecordToJSON (dThresholds a) (dZone a) rec (dSilenceRatioThreshold a)"
  let ?aq = "readStreamsQuery (ParseQuery (rawQuery r)) ''a''"
  obtain page n where page: "PaginateActive (dUnicode a) (activeRecords a) (searchFilter ?aq) = Some (page, n)"
    using assms(1) by (auto simp: streamsPage_def Let_def split: option.splits)
  have "list_all (\<lambda>rec. ?f rec \<noteq> None) page"
    using assms(2) PaginateActive_subset [OF page] by (auto simp: list_all_iff)
  from those_map_Some [OF this] show ?thesis
    using assms(1) page by (auto simp: streamsPage_def activeCard_def Let_def o_def split: option.splits)
qed

section \<open>Triggered detectors\<close>

text \<open>What \<^verbatim>\<open>sort.Slice\<close> promises: a sorted permutation, with ties in any order.\<close>

locale slice_sort =
  fixes srt :: "'a list \<Rightarrow> 'a list" and lt :: "'a \<Rightarrow> 'a \<Rightarrow> bool"
  assumes permutes: "mset (srt xs) = mset xs"
    and sorts: "sortedBy lt (srt xs)"
begin

lemma elements: "set (srt xs) = set xs"
  by (metis permutes set_mset_mset)

lemma none_better_later: "i < j \<Longrightarrow> j < length xs \<Longrightarrow> \<not> lt (srt xs ! j) (srt xs ! i)"
  using sorts [of xs] mset_eq_length [OF permutes [of xs]] by (auto simp: sortedBy_def sorted_wrt_iff_nth_less)

end

definition byCount :: "string \<times> int \<Rightarrow> string \<times> int \<Rightarrow> bool" where
  "byCount x y \<longleftrightarrow> snd y < snd x"

interpretation counts: weak_order byCount "\<lambda>_. True"
  by unfold_locales (auto simp: byCount_def)

interpretation detector_sort: slice_sort "sortStable byCount" byCount
  by unfold_locales (simp, rule counts.sorted_sortStable, simp add: list_all_iff)

lemma triggeredDetectors_positive:
  "d \<in> set (triggeredDetectors (sortStable byCount) dets) \<Longrightarrow> 0 < snd d"
  by (auto simp: triggeredDetectors_def detector_sort.elements)

lemma triggeredDetectors_falling:
  "i < j \<Longrightarrow> j < length (triggeredDetectors (sortStable byCount) dets) \<Longrightarrow>
   snd (triggeredDetectors (sortStable byCount) dets ! j) \<le> snd (triggeredDetectors (sortStable byCount) dets ! i)"
  unfolding triggeredDetectors_def using detector_sort.none_better_later [of i j] by (simp add: byCount_def not_less)

end
