(* ===== verification/Spec2Isabelle.thy ===== *)
theory Spec2Isabelle
  imports Filter_Text Alarm_Delivery Schema Whole_Daemon Wav Web_Streams Web_Pages
begin

text \<open>
  A verification library for the Go backend of vq-db (\<^verbatim>\<open>src/backend-go\<close>), the daemon that
  receives call-quality events from vq-core, stores them in a database and serves them to a
  dashboard. File names below are relative to \<^verbatim>\<open>src/backend-go/internal\<close>.

  \<^bold>\<open>The program and how its parts interact.\<close> One goroutine polls the message bus
  (\<^verbatim>\<open>bus/subscriber.go\<close>). Every message is decoded (\<^verbatim>\<open>translate/translate.go\<close>) into a domain
  event (\<^verbatim>\<open>model/model.go\<close>) and dispatched by the pipeline (\<^verbatim>\<open>ingest/pipeline.go\<close>) to two
  components: the registry of active streams in memory (\<^verbatim>\<open>state/registry.go\<close>) and the
  single writer of the database (\<^verbatim>\<open>db/writer.go\<close>, over the retrying connection of
  \<^verbatim>\<open>db/busy.go\<close>). On idle ticks the same goroutine lets the ghost sweeper
  (\<^verbatim>\<open>worker/worker.go\<close>) finalise streams that went silent. A second goroutine removes old records
  and audio (\<^verbatim>\<open>db/cleanup.go\<close>, \<^verbatim>\<open>worker/cleanup.go\<close>). A third measures alarm rules and notifies
  (\<^verbatim>\<open>alarm/\<close>). The track workers keep vq-core's list of tracked SIP patterns equal to the
  persisted one (\<^verbatim>\<open>worker/worker.go\<close>, \<^verbatim>\<open>bus/control.go\<close>, \<^verbatim>\<open>db/track_store.go\<close>). Readers select
  streams with a small expression language (\<^verbatim>\<open>filter/\<close>), either in memory, for the active list
  (\<^verbatim>\<open>stats/active_list.go\<close>), or compiled to SQL; the detector reports of a stream are
  decomposed by \<^verbatim>\<open>pvqa/report.go\<close>. Two HTTP front ends share these: the REST API (\<^verbatim>\<open>api/\<close>)
  and the dashboard (\<^verbatim>\<open>web/\<close>), which calls the handlers' queries of the API. The entry point
  (\<^verbatim>\<open>../cmd/vq-db/main.go\<close>) reads the configuration (\<^verbatim>\<open>config/config.go\<close>), brings the database
  to the schema (\<^verbatim>\<open>db/schema.go\<close>), starts the parts and stops them at the end.

  \<^bold>\<open>Foundations.\<close>
  \<^item> \<open>Prelude\<close>: Go strings and integers, packages \<^verbatim>\<open>strings\<close> and \<^verbatim>\<open>strconv\<close>, shared lemmas.
  \<^item> \<open>GoFloat\<close>: \<^verbatim>\<open>float64\<close> as rationals with round-to-nearest-even; rounding is monotone and
    exact on integers up to \<open>2\<^sup>5\<^sup>3\<close>.
  \<^item> \<open>Go_Time\<close>, \<open>Go_Json\<close>, \<open>Go_Json_Decode\<close>: what the sources use of packages \<^verbatim>\<open>time\<close> and
    \<^verbatim>\<open>encoding/json\<close>.
  \<^item> \<open>Stable_Sort\<close>: \<^verbatim>\<open>sort.SliceStable\<close> with the interface \<open>weak_order\<close>, interpreted on the sort
    keys of the active list (\<open>Active_List\<close>) and on the recency of calls (\<open>Retention\<close>).
  \<^item> \<open>Go_Json_Value\<close>, \<open>Go_Url\<close>, \<open>Go_Fmt\<close>: JSON texts as values, \<^verbatim>\<open>net/url\<close> and the verb
    \<^verbatim>\<open>%v\<close> of package \<^verbatim>\<open>fmt\<close>. \<^verbatim>\<open>url.Values\<close> read back what was encoded.
  \<^item> \<open>Ordered_Dict\<close>: the insertion-ordered dictionary the registry is meant to be.

  \<^bold>\<open>Ingest and storage.\<close>
  \<^item> \<open>Model_Types\<close> (\<^verbatim>\<open>model/model.go\<close>), \<open>Translate\<close> (\<^verbatim>\<open>translate/translate.go\<close>).
  \<^item> \<open>Registry\<close> (\<^verbatim>\<open>state/registry.go\<close>, \<^verbatim>\<open>state/snapshot.go\<close>): the record \<open>registry\<close> with one
    definition per method. The registry refines the ordered dictionary under every sequence of
    operations, the order of the Go map never shows, evictions lose no counter, and a sweep evicts
    exactly the streams that were idle long enough.
  \<^item> \<open>Store\<close> (\<^verbatim>\<open>db/schema.go\<close>, \<^verbatim>\<open>db/busy.go\<close>): the tables as lists of rows, statements as functions
    on them, the driver's answers as a script of outcomes. A statement is applied exactly once, or
    not at all with the error returned, and only a busy database is retried.
  \<^item> \<open>Writer\<close> (\<^verbatim>\<open>db/writer.go\<close>): one definition per method, the invariant \<open>writerInv R\<close> (no row
    without its stream, maps that point to existing streams, except for the ids \<open>R\<close> of streams that were
    deleted behind the writer's back) and its preservation.
  \<^item> \<open>Retention\<close> (\<^verbatim>\<open>db/cleanup.go\<close> and the trim of \<^verbatim>\<open>db/writer.go\<close>): which calls and which streams
    survive, and the orphan rows that a report after a cleanup leaves.
  \<^item> \<open>Ingest\<close> (\<^verbatim>\<open>ingest/pipeline.go\<close>, ghost sweeper): the interfaces \<open>finalizer\<close> and
    \<open>ghost_registry\<close>, joined in \<open>ghost_client\<close> and interpreted on the writer and the registry;
    a restart of vq-core finalises every active stream.
  \<^item> \<open>Daemon\<close> (\<^verbatim>\<open>cmd/vq-db/main.go\<close>, \<^verbatim>\<open>bus/subscriber.go\<close>, \<^verbatim>\<open>worker/cleanup.go\<close>): the poll loop as a
    step relation over the composed state, whatever messages arrive and however the database answers.
  \<^item> \<open>Bus_Subscriber\<close> (\<^verbatim>\<open>bus/subscriber.go\<close>): the life of the polling goroutine as a step relation
    (dial, set options, poll, sleep, gone). Once stopped it ends within five moves, and every state it
    reaches is one the poll loop of \<open>Daemon\<close> reaches.
  \<^item> \<open>Schema\<close> (\<^verbatim>\<open>db/schema.go\<close>): \<^verbatim>\<open>Bootstrap\<close> and \<^verbatim>\<open>migrate\<close> over the catalog of a database
    file. An upgrade loses nothing; a failed one can be repeated.
  \<^item> \<open>Dsn\<close> (\<^verbatim>\<open>db/dsn.go\<close>, \<^verbatim>\<open>db/open.go\<close>): connection strings; the logged description is
    independent of the password, except for an SQLite string that names no file.

  \<^bold>\<open>Selecting and reporting.\<close>
  \<^item> \<open>Filter_Lexer\<close>, \<open>Filter_Parser\<close>, \<open>Filter_Text\<close>: the parser accepts exactly the texts whose
    tokens the precedence grammar derives, and parsing undoes printing.
  \<^item> \<open>Filter_Eval\<close>: the evaluator, its laws and its errors; \<open>Filter_Sql\<close>: string literals reach
    SQL only as parameters; \<open>Filter_Transport\<close>: round trip of the transport string.
  \<^item> \<open>Active_List\<close> (\<^verbatim>\<open>stats/\<close>): a page of the active list is a slice of the stable sort of the
    selected records.
  \<^item> \<open>Pvqa_Report\<close> (\<^verbatim>\<open>pvqa/report.go\<close>): parsing and decomposition of interval reports.

  \<^bold>\<open>Alarms and tracking.\<close>
  \<^item> \<open>Alarm_Rules\<close>, \<open>Alarm_Drops\<close>, \<open>Alarm_Engine\<close>, \<open>Alarm_Notify\<close> (\<^verbatim>\<open>alarm/\<close>): accepted rules are
    well formed, the drop history answers exactly, every rule's notifications follow the life cycle
    raised, repeated, cleared (an inductive relation), and placeholders of a command add no shell
    syntax.
  \<^item> \<open>Track_Store\<close> (interface \<open>property_store\<close>, interpreted on the writer), \<open>Control_Client\<close>
    (the REQ socket), \<open>Track_Sync\<close> (interface \<open>control_channel\<close>, interpreted on the client): the
    pattern list survives a save and a load. The client is composed with a vq-core at the other end of the
    socket (\<open>linkSend\<close>, any failure on the way): a pass never mixes the two lists, a reported success leaves
    vq-core with the persisted list unless it rejected it, and the retry loop ends.

  \<^item> \<open>Alarm_Source\<close> (\<^verbatim>\<open>alarm/source.go\<close>): \<^verbatim>\<open>Measure\<close> for every scope, over answers of the database.
    Its interface \<open>measuring_source\<close> says when a stateful source may stand for a stateless one; it
    is interpreted on the source with its memory of parsed reports, so that a tick cannot tell the two apart. An accepted
    rule fails only with an error of the database or by the panic of the report parser.
  \<^item> \<open>Alarm_Delivery\<close>: the workers behind the queues of \<^verbatim>\<open>alarm/command.go\<close> and
    \<^verbatim>\<open>alarm/webhook.go\<close>, with the second attempt of a webhook.

  \<^bold>\<open>The REST API.\<close>
  \<^item> \<open>Api_Values\<close>, \<open>Api_Queries\<close>, \<open>Api_Stored\<close>: the statements with their bound arguments and the
    decoding of their answers. Every statement binds one argument per placeholder and requests that differ in data only
    issue the same text; verdicts and audio read back as the writer stored them.
  \<^item> \<open>Api_Serialize\<close>, \<open>Api_Csv\<close>, \<open>Wav\<close>: the three output formats. A concatenated WAV
    holds the samples of all chunks.
  \<^item> \<open>Api_App\<close>, \<open>Api_Static\<close> (\<^verbatim>\<open>api/app.go\<close>): every handler from the request to the response,
    the routes, and the static files. No failure of the database is answered as a success (where the codes differ
    from \<^verbatim>\<open>docs/vq_db_api.md\<close> the model follows the code), a body with a NaN is empty, stored track patterns
    change only when vq-core carried out the change, and no request leaves the static directory.

  \<^bold>\<open>The dashboard.\<close>
  \<^item> \<open>Web_Streams\<close> (\<^verbatim>\<open>web/views.go\<close>): the state of the cards in the URL; following the links
    to the next page shows every selected stream once.
  \<^item> \<open>Web_Format\<close> (\<^verbatim>\<open>web/render.go\<close>), \<open>Web_Markdown\<close> (\<^verbatim>\<open>web/markdown.go\<close>): the template
    functions and the copied texts.
  \<^item> \<open>Web_Pages\<close> (\<^verbatim>\<open>web/app.go\<close>, \<^verbatim>\<open>web/pages.go\<close>): what each handler hands to its template, with
    the interface \<open>slice_sort\<close> of an unstable \<^verbatim>\<open>sort.Slice\<close>; the forms of the track page do to
    vq-core and the database what the API does.

  \<^bold>\<open>Assembly.\<close>
  \<^item> \<open>Config\<close> (\<^verbatim>\<open>config/config.go\<close>): the coercions from a decoded YAML document; a configuration written
    as a document parses back, and durations are exact in spite of \<^verbatim>\<open>float64\<close>.
  \<^item> \<open>Main_Run\<close> (\<^verbatim>\<open>../cmd/vq-db/main.go\<close>): the wiring, the alarm view, and the order of starting
    and stopping: on every way out each started part is stopped once, the
    alarm engine before its notifiers and the pattern worker before the control client is closed.
  \<^item> \<open>Whole_Daemon\<close>: the daemon as configured, its bus goroutine interleaved with the statements of the cleanup
    goroutine, the saves of the track API and the rows of the alarm notifier. The store stays consistent up to the
    streams the cleanup has deleted: the writer may still remember their ids and store rows under them.

  \<^bold>\<open>Bounds and fuel.\<close> The retry loop after a restart of vq-core carries fuel 17: with its 30 s
  deadline and 2 s pause it is shown to stop by itself before. Insertion stamps of the registry and
  counters kept as \<^verbatim>\<open>int64\<close> wrap as in Go; where a theorem needs that they have not wrapped,
  this is a hypothesis. A panic of the source is \<^verbatim>\<open>None\<close>. Clock readings, row ids, the
  driver's answers, the network and the protobuf codec are arguments.

  \<^bold>\<open>Not modelled.\<close> The HTML templates and the static files embedded in the binary; the generated
  protobuf code (its messages are the records of \<open>Translate\<close>, its codec an argument); the HTTP server,
  the SQLite engine, the YAML decoder, ZeroMQ, the shell and the file system, which are not part of
  the repository: their answers are arguments or the nondeterminism of a step relation. The meaning of
  the SQL of the write side is given by the operations on tables in \<open>Store\<close>; a read statement is its text with its
  arguments. Log lines, the flag parser, the pid file, and the goroutines that only drive a modelled
  operation from a ticker (\<^verbatim>\<open>Start\<close> and \<^verbatim>\<open>Stop\<close> of the workers) have no definitions; a mutex makes
  each call atomic, so the interleavings considered are those of whole calls; a poll iteration is one step, and the
  statements of a cleanup pass fall between such steps.
\<close>

end
